(* ===== verification/Prelude.thy ===== *)
theory Prelude
  imports Main "HOL-Library.Word"
begin

text \<open>
  Shared vocabulary of the development: the machine integers of the Rust code, results as
  sums, the parts of Rust's string and slice library that the source uses, and the generic
  list and word lemmas the component theories share.

  A Rust \<open>String\<close>/\<open>&str\<close> is its UTF-8 byte sequence, a \<open>string\<close> (a list of 8-bit characters);
  a \<open>Vec<u8>\<close>/\<open>&[u8]\<close> is a list of 8-bit words; a \<open>Result<T, E>\<close> is \<open>E + T\<close>, with
  \<open>Inl\<close> the error.
\<close>

unbundle bit_operations_syntax

section \<open>Machine integers and results\<close>

type_synonym u8 = "8 word"
type_synonym u16 = "16 word"
type_synonym u32 = "32 word"
type_synonym u64 = "64 word"

type_synonym bytes = "u8 list"

text \<open>Rewrite rules of the kernel-call programs (theory \<open>Supervisor\<close>) are collected here.\<close>

named_theorems prog_simps

text \<open>The \<open>?\<close> operator of Rust: stop at the first error.\<close>

definition try_bind :: "'e + 'a \<Rightarrow> ('a \<Rightarrow> 'e + 'b) \<Rightarrow> 'e + 'b" where
  "try_bind r f = (case r of Inl e \<Rightarrow> Inl e | Inr a \<Rightarrow> f a)"

lemma try_bind_simps [simp]:
  "try_bind (Inl e) f = Inl e"
  "try_bind (Inr a) f = f a"
  by (simp_all add: try_bind_def)

lemma try_bind_eq_Inr: "try_bind r f = Inr b \<longleftrightarrow> (\<exists>a. r = Inr a \<and> f a = Inr b)"
  by (cases r) simp_all

text \<open>\<open>iter.map(f).collect::<Result<Vec<_>, _>>()\<close>: the first error wins.\<close>

fun collect_results :: "('a \<Rightarrow> 'e + 'b) \<Rightarrow> 'a list \<Rightarrow> 'e + 'b list" where
  "collect_results f [] = Inr []"
| "collect_results f (x # xs) =
     try_bind (f x) (\<lambda>y. try_bind (collect_results f xs) (\<lambda>ys. Inr (y # ys)))"

lemma collect_results_Inr:
  "collect_results f xs = Inr ys \<Longrightarrow> list_all2 (\<lambda>x y. f x = Inr y) xs ys"
proof (induction xs arbitrary: ys)
  case Nil
  then show ?case by simp
next
  case (Cons x xs)
  then show ?case by (auto simp: try_bind_eq_Inr)
qed

section \<open>Bytes of multi-byte integers\<close>

text \<open>
  The targets (x86-64, aarch64) are little endian, so \<open>from_ne_bytes\<close> is the little-endian
  reading; \<open>from_be_bytes\<close> is network order.
\<close>

definition u16_from_ne :: "u8 \<Rightarrow> u8 \<Rightarrow> u16" where
  "u16_from_ne b0 b1 = ucast b0 OR push_bit 8 (ucast b1)"

definition u16_from_be :: "u8 \<Rightarrow> u8 \<Rightarrow> u16" where
  "u16_from_be b0 b1 = push_bit 8 (ucast b0) OR ucast b1"

definition u16_to_be :: "u16 \<Rightarrow> u8 \<times> u8" where
  "u16_to_be p = (ucast (drop_bit 8 p), ucast p)"

text \<open>\<open>from_ne_bytes\<close> for a slice of any length: the first byte is the least significant.\<close>

fun le_word :: "bytes \<Rightarrow> 'a::len word" where
  "le_word [] = 0"
| "le_word (b # bs) = ucast b OR push_bit 8 (le_word bs)"

text \<open>\<open>to_ne_bytes\<close> of an \<open>n\<close>-byte integer.\<close>

fun le_bytes :: "nat \<Rightarrow> 'a::len word \<Rightarrow> bytes" where
  "le_bytes 0 w = []"
| "le_bytes (Suc n) w = ucast w # le_bytes n (drop_bit 8 w)"

lemma length_le_bytes [simp]: "length (le_bytes n w) = n"
  by (induction n arbitrary: w) auto

lemma le_word_le_bytes: "(le_word (le_bytes n (w :: 'a::len word)) :: 'a word) = take_bit (8 * n) w"
proof (induction n arbitrary: w)
  case (Suc n)
  have "bit (le_word (le_bytes (Suc n) w) :: 'a word) i = bit (take_bit (8 * Suc n) w) i"
    if "i < LENGTH('a)" for i
    using that by (cases "i < 8") (simp_all add: Suc bit_simps less_diff_conv2 not_less add.commute)
  then show ?case by (rule bit_word_eqI)
qed simp

lemma le_word_bytes [simp]:
  "le_word (le_bytes 2 (x :: u16)) = x" "le_word (le_bytes 4 (y :: u32)) = y"
  "le_word (le_bytes 8 (z :: u64)) = z"
  by (simp_all add: le_word_le_bytes take_bit_word_eq_self)

lemma unat_fits: "n < 2 ^ LENGTH('a) \<Longrightarrow> unat (word_of_nat n :: 'a::len word) = n"
  by (simp add: unat_of_nat take_bit_nat_eq_self)

lemma u16_be_roundtrip [simp]:
  "u16_from_be (fst (u16_to_be p)) (snd (u16_to_be p)) = p"
proof -
  have "push_bit 8 (ucast (ucast (drop_bit 8 p) :: u8)) OR (ucast (ucast p :: u8)) = p"
    by (rule bit_word_eqI) (auto simp: bit_simps)
  then show ?thesis by (simp add: u16_from_be_def u16_to_be_def)
qed

text \<open>Rust slicing \<open>&v[a..b]\<close>, used where the source has checked the bounds.\<close>

definition subslice :: "nat \<Rightarrow> nat \<Rightarrow> 'a list \<Rightarrow> 'a list" where
  "subslice a b xs = take (b - a) (drop a xs)"

lemma length_subslice [simp]: "b \<le> length xs \<Longrightarrow> length (subslice a b xs) = b - a"
  by (auto simp: subslice_def)

section \<open>Saturating arithmetic on unsigned words\<close>

definition saturating_sub :: "'a::len word \<Rightarrow> 'a word \<Rightarrow> 'a word" where
  "saturating_sub a b = (if b \<le> a then a - b else 0)"

definition saturating_add :: "'a::len word \<Rightarrow> 'a word \<Rightarrow> 'a word" where
  "saturating_add a b = (if a \<le> a + b then a + b else - 1)"

lemma saturating_sub_le [simp]: "saturating_sub a b \<le> a"
  by (auto simp: saturating_sub_def word_sub_le)

lemma saturating_add_le_iff:
  assumes "l \<noteq> - 1"
  shows "saturating_add a b \<le> l \<longleftrightarrow> unat a + unat b \<le> unat l"
proof (cases "a \<le> a + b")
  case True
  then have "unat (a + b) = unat a + unat b"
    by (simp add: unat_plus_simple [THEN iffD1])
  with True show ?thesis
    by (simp add: saturating_add_def word_le_nat_alt)
next
  case False
  then have over: "unat a + unat b \<ge> 2 ^ LENGTH('a)"
    using no_olen_add_nat not_le by blast
  have "unat l < 2 ^ LENGTH('a)" by (rule unsigned_less)
  with over have "\<not> unat a + unat b \<le> unat l" by linarith
  moreover have "\<not> (- 1 :: 'a word) \<le> l"
    using assms by (metis word_order.extremum_unique)
  ultimately show ?thesis using False by (simp add: saturating_add_def)
qed

end
