(* ===== verification/Strings.thy ===== *)
theory Strings
  imports Prelude "HOL-Library.Sublist"
begin

text \<open>
  The part of Rust's \<open>str\<close> library the source uses, on UTF-8 byte sequences: splitting,
  joining and trimming, ASCII case, and integer parsing.
\<close>

unbundle bit_operations_syntax

section \<open>Splitting and joining\<close>

text \<open>\<open>s.split(c)\<close> for an ASCII separator: one more piece than separators.\<close>

fun split_on :: "char \<Rightarrow> string \<Rightarrow> string list" where
  "split_on c [] = [[]]"
| "split_on c (x # xs) =
     (if x = c then [] # split_on c xs
      else (case split_on c xs of [] \<Rightarrow> [[x]] | p # ps \<Rightarrow> (x # p) # ps))"

fun join_with :: "string \<Rightarrow> string list \<Rightarrow> string" where
  "join_with sep [] = []"
| "join_with sep [p] = p"
| "join_with sep (p # q # ps) = p @ sep @ join_with sep (q # ps)"

text \<open>\<open>s.split_once(pat)\<close> and \<open>s.rsplit_once(c)\<close>.\<close>

fun split_once :: "string \<Rightarrow> string \<Rightarrow> (string \<times> string) option" where
  "split_once pat [] = (if pat = [] then Some ([], []) else None)"
| "split_once pat (x # xs) =
     (if prefix pat (x # xs) then Some ([], drop (length pat) (x # xs))
      else map_option (\<lambda>(a, b). (x # a, b)) (split_once pat xs))"

fun rsplit_once :: "char \<Rightarrow> string \<Rightarrow> (string \<times> string) option" where
  "rsplit_once c [] = None"
| "rsplit_once c (x # xs) = (case rsplit_once c xs of
       Some (a, b) \<Rightarrow> Some (x # a, b)
     | None \<Rightarrow> if x = c then Some ([], xs) else None)"

lemma split_on_ne [simp]: "split_on c s \<noteq> []"
  by (induction s) (auto split: list.splits)

lemma split_on_pieces: "p \<in> set (split_on c s) \<Longrightarrow> c \<notin> set p"
  by (induction s arbitrary: p) (auto split: list.splits if_splits)

lemma split_on_append:
  "split_on c (a @ c # b) = split_on c a @ split_on c b"
  by (induction a) (auto split: list.splits)

lemma split_on_plain: "c \<notin> set p \<Longrightarrow> split_on c p = [p]"
  by (induction p) auto

lemma split_on_join:
  assumes "ps \<noteq> []" "\<And>p. p \<in> set ps \<Longrightarrow> c \<notin> set p"
  shows "split_on c (join_with [c] ps) = ps"
  using assms
proof (induction "[c]" ps rule: join_with.induct)
  case (3 p q ps)
  then show ?case by (simp add: split_on_append split_on_plain)
qed (auto simp: split_on_plain)

lemma set_join_with:
  "set (join_with sep ps) \<subseteq> set sep \<union> (\<Union>p\<in>set ps. set p)"
  by (induction sep ps rule: join_with.induct) auto

lemma rsplit_once_NoneD: "rsplit_once c s = None \<longleftrightarrow> c \<notin> set s"
  by (induction s) (auto split: option.splits)

lemma rsplit_once_SomeD:
  "rsplit_once c s = Some (a, b) \<Longrightarrow> s = a @ c # b \<and> c \<notin> set b"
proof (induction s arbitrary: a b)
  case (Cons x xs)
  then show ?case
    by (auto simp: rsplit_once_NoneD split: option.splits if_splits)
qed simp

lemma rsplit_once_append: "c \<notin> set b \<Longrightarrow> rsplit_once c (a @ c # b) = Some (a, b)"
  by (induction a) (auto simp: rsplit_once_NoneD [THEN iffD2])

lemma split_once_SomeD:
  "split_once pat s = Some (a, b) \<Longrightarrow> s = a @ pat @ b"
proof (induction s arbitrary: a b)
  case Nil
  then show ?case by (auto split: if_splits)
next
  case (Cons x xs)
  then show ?case
    by (auto split: if_splits simp: prefix_def)
qed

section \<open>White space\<close>

text \<open>\<open>char::is_whitespace\<close> (the Unicode property White_Space) on the encoded form: the byte
  length of the white-space character a string starts with, or 0.\<close>

definition ws_len :: "string \<Rightarrow> nat" where
  "ws_len s = (case s of [] \<Rightarrow> 0 | a # r \<Rightarrow>
     if (of_char a :: nat) \<in> {9, 10, 11, 12, 13, 32} then 1
     else case r of [] \<Rightarrow> 0 | b # r' \<Rightarrow>
       if (of_char a :: nat) = 0xC2 \<and> (of_char b :: nat) \<in> {0x85, 0xA0} then 2
       else case r' of [] \<Rightarrow> 0 | c # _ \<Rightarrow>
         let x = of_char a :: nat; y = of_char b :: nat; z = of_char c :: nat in
         if (x, y, z) = (0xE1, 0x9A, 0x80)
           \<or> x = 0xE2 \<and> y = 0x80 \<and> (0x80 \<le> z \<and> z \<le> 0x8A \<or> z \<in> {0xA8, 0xA9, 0xAF})
           \<or> (x, y, z) = (0xE2, 0x81, 0x9F) \<or> (x, y, z) = (0xE3, 0x80, 0x80)
         then 3 else 0)"

lemma ws_len_le: "ws_len s \<le> length s"
  by (auto simp: ws_len_def Let_def split: list.splits)

lemma ws_len_Nil [simp]: "ws_len [] = 0"
  by (simp add: ws_len_def)

lemma ws_len_pos: "0 < ws_len s \<Longrightarrow> 0 < length s"
  by (cases s) auto

function trim_start :: "string \<Rightarrow> string" where
  "trim_start s = (if ws_len s = 0 then s else trim_start (drop (ws_len s) s))"
  by auto
termination
  by (relation "measure length") (auto intro!: diff_less simp: length_greater_0_conv [symmetric]
      simp del: length_greater_0_conv intro: ws_len_pos)

declare trim_start.simps [simp del]

text \<open>The length of the white-space character a string ends with: no proper suffix of an encoded
  character starts with a lead byte, so looking at the last 1, 2 and 3 bytes is exact.\<close>

definition ws_len_end :: "string \<Rightarrow> nat" where
  "ws_len_end s = (let n = length s in
     if 1 \<le> n \<and> ws_len (drop (n - 1) s) = 1 then 1
     else if 2 \<le> n \<and> ws_len (drop (n - 2) s) = 2 then 2
     else if 3 \<le> n \<and> ws_len (drop (n - 3) s) = 3 then 3
     else 0)"

function trim_end :: "string \<Rightarrow> string" where
  "trim_end s = (if ws_len_end s = 0 then s else trim_end (take (length s - ws_len_end s) s))"
  by auto
termination
  by (relation "measure length") (auto simp: ws_len_end_def Let_def split: if_splits)

declare trim_end.simps [simp del]

definition trim :: "string \<Rightarrow> string" where
  "trim s = trim_end (trim_start s)"

text \<open>\<open>s.split_once(char::is_whitespace)\<close>: the separator is the whole character.\<close>

fun split_once_ws :: "string \<Rightarrow> (string \<times> string) option" where
  "split_once_ws [] = None"
| "split_once_ws (x # xs) =
     (if ws_len (x # xs) \<noteq> 0 then Some ([], drop (ws_len (x # xs)) (x # xs))
      else map_option (\<lambda>(a, b). (x # a, b)) (split_once_ws xs))"

lemma trim_start_suffix: "suffix (trim_start s) s"
proof (induction s rule: trim_start.induct)
  case (1 s)
  then show ?case
    by (subst trim_start.simps)
       (auto intro: suffix_order.trans suffix_drop)
qed

lemma trim_end_prefix: "prefix (trim_end s) s"
proof (induction s rule: trim_end.induct)
  case (1 s)
  then show ?case
    by (subst trim_end.simps)
       (auto intro: prefix_order.trans take_is_prefix)
qed

lemma set_trim: "set (trim s) \<subseteq> set s"
  using set_mono_prefix [OF trim_end_prefix] set_mono_suffix [OF trim_start_suffix]
  unfolding trim_def by (metis subset_trans)

section \<open>ASCII case\<close>

definition ascii_lower :: "char \<Rightarrow> char" where
  "ascii_lower c = (let n = of_char c :: nat in
     if 65 \<le> n \<and> n \<le> 90 then char_of (n + 32) else c)"

definition ascii_upper :: "char \<Rightarrow> char" where
  "ascii_upper c = (let n = of_char c :: nat in
     if 97 \<le> n \<and> n \<le> 122 then char_of (n - 32) else c)"

definition eq_ignore_ascii_case :: "string \<Rightarrow> string \<Rightarrow> bool" where
  "eq_ignore_ascii_case a b = (map ascii_lower a = map ascii_lower b)"

lemma eq_ignore_ascii_case_refl [simp]: "eq_ignore_ascii_case a a"
  by (simp add: eq_ignore_ascii_case_def)

definition is_ascii_alphabetic :: "char \<Rightarrow> bool" where
  "is_ascii_alphabetic c = (let n = of_char c :: nat in
     65 \<le> n \<and> n \<le> 90 \<or> 97 \<le> n \<and> n \<le> 122)"

section \<open>Integer parsing\<close>

definition digit_val :: "nat \<Rightarrow> char \<Rightarrow> nat option" where
  "digit_val radix c = (let n = of_char c :: nat;
       v = (if 48 \<le> n \<and> n \<le> 57 then Some (n - 48)
            else if 97 \<le> n \<and> n \<le> 122 then Some (n - 87)
            else if 65 \<le> n \<and> n \<le> 90 then Some (n - 55)
            else None)
     in case v of Some d \<Rightarrow> if d < radix then Some d else None | None \<Rightarrow> None)"

fun digits_val :: "nat \<Rightarrow> nat \<Rightarrow> string \<Rightarrow> nat option" where
  "digits_val radix acc [] = Some acc"
| "digits_val radix acc (c # cs) = (case digit_val radix c of
       None \<Rightarrow> None | Some d \<Rightarrow> digits_val radix (acc * radix + d) cs)"

text \<open>\<open>from_str_radix\<close> of an unsigned type with the given maximum: an optional \<open>+\<close>, then at
  least one digit, and no overflow.\<close>

definition parse_uint :: "nat \<Rightarrow> nat \<Rightarrow> string \<Rightarrow> nat option" where
  "parse_uint maxv radix s = (let ds = (case s of
         c # r \<Rightarrow> if c = CHR ''+'' \<and> r \<noteq> [] then r else s | [] \<Rightarrow> s)
     in if ds = [] then None
        else case digits_val radix 0 ds of
          Some v \<Rightarrow> if v \<le> maxv then Some v else None | None \<Rightarrow> None)"

lemma parse_uint_bound: "parse_uint m r s = Some v \<Longrightarrow> v \<le> m"
  by (auto simp: parse_uint_def Let_def split: if_splits option.splits list.splits)

definition parse_u16 :: "string \<Rightarrow> u16 option" where
  "parse_u16 s = map_option word_of_nat (parse_uint 65535 10 s)"

definition parse_u64 :: "string \<Rightarrow> u64 option" where
  "parse_u64 s = map_option word_of_nat (parse_uint 18446744073709551615 10 s)"

text \<open>Decimal output (\<open>format!("{}", n)\<close>), used to state round trips.\<close>

fun show_nat :: "nat \<Rightarrow> string" where
  "show_nat n = (if n < 10 then [char_of (48 + n)]
     else show_nat (n div 10) @ [char_of (48 + n mod 10)])"

declare show_nat.simps [simp del]

section \<open>UTF-8 validity (String::from_utf8)\<close>

definition between :: "nat \<Rightarrow> nat \<Rightarrow> char \<Rightarrow> bool" where
  "between lo hi c = (lo \<le> of_char c \<and> of_char c \<le> hi)"

fun utf8_valid :: "string \<Rightarrow> bool" where
  "utf8_valid [] = True"
| "utf8_valid (a # r) =
     (if between 0 0x7F a then utf8_valid r
      else case r of
        [] \<Rightarrow> False
      | b # r1 \<Rightarrow>
        if between 0xC2 0xDF a then between 0x80 0xBF b \<and> utf8_valid r1
        else case r1 of
          [] \<Rightarrow> False
        | c # r2 \<Rightarrow>
          if between 0xE0 0xEF a then
            between (if between 0xE0 0xE0 a then 0xA0 else 0x80)
                    (if between 0xED 0xED a then 0x9F else 0xBF) b
            \<and> between 0x80 0xBF c \<and> utf8_valid r2
          else case r2 of
            [] \<Rightarrow> False
          | d # r3 \<Rightarrow>
            between 0xF0 0xF4 a
            \<and> between (if between 0xF0 0xF0 a then 0x90 else 0x80)
                      (if between 0xF4 0xF4 a then 0x8F else 0xBF) b
            \<and> between 0x80 0xBF c \<and> between 0x80 0xBF d \<and> utf8_valid r3)"

definition string_of_bytes :: "bytes \<Rightarrow> string" where
  "string_of_bytes bs = map (\<lambda>b. char_of (unat b)) bs"

definition bytes_of_string :: "string \<Rightarrow> bytes" where
  "bytes_of_string s = map (\<lambda>c. word_of_nat (of_char c)) s"

text \<open>\<open>String::from_utf8(v).ok()\<close>\<close>

definition from_utf8 :: "bytes \<Rightarrow> string option" where
  "from_utf8 bs = (let s = string_of_bytes bs in if utf8_valid s then Some s else None)"

lemma string_of_bytes_of_string [simp]: "string_of_bytes (bytes_of_string s) = s"
proof -
  have "unat (word_of_nat (of_char c) :: u8) = of_char c" for c :: char
    by (simp add: unat_of_nat take_bit_nat_eq_self)
  then show ?thesis
    by (simp add: string_of_bytes_def bytes_of_string_def comp_def map_idI)
qed

lemma utf8_valid_ascii: "\<forall>c\<in>set s. (of_char c :: nat) < 128 \<Longrightarrow> utf8_valid s"
  by (induction s) (auto simp: between_def)

lemma from_utf8_ascii:
  "\<forall>c\<in>set s. (of_char c :: nat) < 128 \<Longrightarrow> from_utf8 (bytes_of_string s) = Some s"
  by (simp add: from_utf8_def utf8_valid_ascii)

text \<open>\<open>bytes[..bytes.iter().position(|&b| b == 0).unwrap_or(bytes.len())]\<close>\<close>

definition until_nul :: "bytes \<Rightarrow> bytes" where
  "until_nul bs = takeWhile (\<lambda>b. b \<noteq> 0) bs"

end
