(* ===== verification/Http.thy ===== *)
theory Http
  imports Strings
begin

text \<open>
  \<open>http.rs\<close>: HTTP access rules. A rule is parsed from \<open>METHOD host/path\<close>, request paths are
  normalised before matching, and \<open>http_acl_check\<close> decides a request. Unicode upper-casing
  (\<open>str::to_uppercase\<close>, the only non-ASCII case conversion of the file) is the parameter
  \<open>to_uppercase\<close> of the parser.
\<close>

unbundle bit_operations_syntax

section \<open>Errors of the configuration layer (error.rs)\<close>

datatype sandbox_error =
    Invalid string
  | FsIsolationRequiresWorkdir
  | InvalidCpuPercent u8
  | UnsupportedForConfine string

section \<open>normalize_path\<close>

text \<open>\<open>decoded.push(b as char)\<close>: the byte becomes the Unicode scalar of that value, so bytes
  from 128 up are stored as two bytes.\<close>

definition push_latin1 :: "char \<Rightarrow> string" where
  "push_latin1 c = (let n = of_char c :: nat in
     if n < 128 then [c] else [char_of (0xC0 + n div 64), char_of (0x80 + n mod 64)])"

text \<open>\<open>u8::from_str_radix(s, 16)\<close> on the two bytes behind a percent sign.\<close>

definition hex_pair :: "char \<Rightarrow> char \<Rightarrow> char option" where
  "hex_pair h l = map_option char_of (parse_uint 255 16 [h, l])"

fun percent_decode :: "string \<Rightarrow> string" where
  "percent_decode [] = []"
| "percent_decode (b # bs) =
     (if b = CHR ''%'' then
        (case bs of
           h # l # rest \<Rightarrow>
             (case hex_pair h l of
                Some v \<Rightarrow> push_latin1 v @ percent_decode rest
              | None \<Rightarrow> push_latin1 b @ push_latin1 h @ push_latin1 l @ percent_decode rest)
         | _ \<Rightarrow> push_latin1 b)
      else push_latin1 b @ percent_decode bs)"

definition push_segment :: "string list \<Rightarrow> string \<Rightarrow> string list" where
  "push_segment segments seg =
     (if seg = [] \<or> seg = ''.'' then segments
      else if seg = ''..'' then butlast segments
      else segments @ [seg])"

definition resolve_segments :: "string list \<Rightarrow> string list" where
  "resolve_segments segs = foldl push_segment [] segs"

definition normalize_path :: "string \<Rightarrow> string" where
  "normalize_path path =
     ''/'' @ join_with ''/'' (resolve_segments (split_on CHR ''/'' (percent_decode path)))"

section \<open>Rules\<close>

record http_rule =
  rule_method :: string
  rule_host :: string
  rule_path :: string

definition ends_with :: "char \<Rightarrow> string \<Rightarrow> bool" where
  "ends_with c s = (s \<noteq> [] \<and> last s = c)"

definition HttpRule_parse :: "(string \<Rightarrow> string) \<Rightarrow> string \<Rightarrow> sandbox_error + http_rule" where
  "HttpRule_parse to_uppercase s0 = (let s = trim s0 in
     case split_once_ws s of
       None \<Rightarrow> Inl (Invalid (''invalid http rule: '' @ s))
     | Some (meth, rest0) \<Rightarrow>
         let rest = trim rest0 in
         if rest = [] then Inl (Invalid (''invalid http rule: '' @ s))
         else
           let (host, path) =
             (if CHR ''/'' \<in> set rest then
                let h = takeWhile (\<lambda>c. c \<noteq> CHR ''/'') rest;
                    p = dropWhile (\<lambda>c. c \<noteq> CHR ''/'') rest;
                    has_wildcard = ends_with CHR ''*'' p;
                    normalized = normalize_path p
                in (h, if has_wildcard \<and> \<not> ends_with CHR ''*'' normalized
                       then normalized @ ''*'' else normalized)
              else (rest, ''/*''))
           in Inr \<lparr>rule_method = to_uppercase meth, rule_host = host, rule_path = path\<rparr>)"

definition prefix_or_exact_match :: "string \<Rightarrow> string \<Rightarrow> bool" where
  "prefix_or_exact_match pattern val =
     (if pattern = ''/*'' \<or> pattern = ''*'' then True
      else if ends_with CHR ''*'' pattern then prefix (butlast pattern) val
      else pattern = val)"

definition rule_matches :: "http_rule \<Rightarrow> string \<Rightarrow> string \<Rightarrow> string \<Rightarrow> bool" where
  "rule_matches r meth host path =
     (if rule_method r \<noteq> ''*'' \<and> \<not> eq_ignore_ascii_case (rule_method r) meth then False
      else if rule_host r \<noteq> ''*'' \<and> \<not> eq_ignore_ascii_case (rule_host r) host then False
      else prefix_or_exact_match (rule_path r) (normalize_path path))"

fun any_rule_matches :: "http_rule list \<Rightarrow> string \<Rightarrow> string \<Rightarrow> string \<Rightarrow> bool" where
  "any_rule_matches [] meth host path = False"
| "any_rule_matches (r # rs) meth host path =
     (if rule_matches r meth host path then True else any_rule_matches rs meth host path)"

definition http_acl_check ::
  "http_rule list \<Rightarrow> http_rule list \<Rightarrow> string \<Rightarrow> string \<Rightarrow> string \<Rightarrow> bool" where
  "http_acl_check allow deny meth host path =
     (if any_rule_matches deny meth host path then False
      else if allow = [] \<and> deny = [] then True
      else if allow = [] then True
      else any_rule_matches allow meth host path)"

section \<open>Lemmas on path normalisation\<close>

lemma any_rule_matches_iff:
  "any_rule_matches rs m h p \<longleftrightarrow> (\<exists>r\<in>set rs. rule_matches r m h p)"
  by (induction rs) auto

text \<open>A normalised path is a list of plain segments: not empty, not \<open>.\<close>, not \<open>..\<close>, no slash.\<close>

definition plain_segment :: "string \<Rightarrow> bool" where
  "plain_segment seg \<longleftrightarrow> seg \<noteq> [] \<and> seg \<noteq> ''.'' \<and> seg \<noteq> ''..'' \<and> CHR ''/'' \<notin> set seg"

lemma push_segment_plain:
  "list_all plain_segment st \<Longrightarrow> CHR ''/'' \<notin> set seg \<Longrightarrow> list_all plain_segment (push_segment st seg)"
  by (auto simp: push_segment_def list_all_iff plain_segment_def dest: in_set_butlastD)

lemma foldl_push_plain:
  "list_all plain_segment st \<Longrightarrow> (\<And>s. s \<in> set segs \<Longrightarrow> CHR ''/'' \<notin> set s) \<Longrightarrow>
    list_all plain_segment (foldl push_segment st segs)"
  by (induction segs arbitrary: st) (auto intro!: push_segment_plain)

lemma resolve_segments_plain:
  "list_all plain_segment (resolve_segments (split_on CHR ''/'' s))"
  unfolding resolve_segments_def by (rule foldl_push_plain) (auto dest: split_on_pieces)

lemma foldl_push_id: "list_all plain_segment segs \<Longrightarrow> foldl push_segment st segs = st @ segs"
  by (induction segs arbitrary: st) (auto simp: push_segment_def plain_segment_def)

lemma push_segment_ignored:
  "push_segment st [] = st" "push_segment st ''.'' = st"
  by (simp_all add: push_segment_def)

lemma push_segment_dotdot:
  "plain_segment seg \<Longrightarrow> push_segment (push_segment st seg) ''..'' = st"
  by (auto simp: push_segment_def plain_segment_def)

lemma percent_decode_append:
  "CHR ''%'' \<notin> set a \<Longrightarrow> percent_decode (a @ b) = percent_decode a @ percent_decode b"
  by (induction a) auto

lemma push_latin1_slash [simp]: "push_latin1 CHR ''/'' = ''/''"
  by (simp add: push_latin1_def)

lemma percent_decode_slash [simp]: "percent_decode (CHR ''/'' # b) = CHR ''/'' # percent_decode b"
  by (simp add: push_latin1_def)

definition ascii_plain :: "string \<Rightarrow> bool" where
  "ascii_plain s \<longleftrightarrow> (\<forall>c\<in>set s. (of_char c :: nat) < 128 \<and> c \<noteq> CHR ''%'')"

lemma percent_decode_ascii: "ascii_plain s \<Longrightarrow> percent_decode s = s"
  by (induction s) (auto simp: push_latin1_def ascii_plain_def)

lemma split_resolve_join:
  assumes "list_all plain_segment segs"
  shows "resolve_segments (split_on CHR ''/'' (''/'' @ join_with ''/'' segs)) = segs"
proof -
  have slash: "split_on CHR ''/'' (CHR ''/'' # s) = [] # split_on CHR ''/'' s" for s
    by simp
  show ?thesis
  proof (cases "segs = []")
    case True
    then show ?thesis by (simp add: resolve_segments_def push_segment_def)
  next
    case False
    then have "split_on CHR ''/'' (join_with ''/'' segs) = segs"
      using assms by (intro split_on_join) (auto simp: list_all_iff plain_segment_def)
    then show ?thesis
      using assms by (simp add: resolve_segments_def push_segment_ignored foldl_push_id)
  qed
qed

lemma normalize_path_form:
  "\<exists>segs. list_all plain_segment segs \<and> normalize_path p = ''/'' @ join_with ''/'' segs"
  using resolve_segments_plain unfolding normalize_path_def by blast

lemma normalize_path_cong:
  "resolve_segments (split_on CHR ''/'' (percent_decode p)) =
     resolve_segments (split_on CHR ''/'' (percent_decode q)) \<Longrightarrow> normalize_path p = normalize_path q"
  by (simp add: normalize_path_def)

lemma resolve_insert:
  assumes "CHR ''%'' \<notin> set a" "CHR ''%'' \<notin> set m"
    and "\<And>st. foldl push_segment st (split_on CHR ''/'' (percent_decode m)) = st"
  shows "normalize_path (a @ ''/'' @ m @ ''/'' @ b) = normalize_path (a @ ''/'' @ b)"
proof -
  have "percent_decode (a @ ''/'' @ m @ ''/'' @ b) =
      percent_decode a @ CHR ''/'' # percent_decode m @ CHR ''/'' # percent_decode b"
    using assms(1,2) by (simp add: percent_decode_append)
  moreover have "percent_decode (a @ ''/'' @ b) = percent_decode a @ CHR ''/'' # percent_decode b"
    using assms(1) by (simp add: percent_decode_append)
  ultimately show ?thesis
    using assms(3)
    by (intro normalize_path_cong) (simp add: split_on_append resolve_segments_def)
qed

lemma normalize_path_slashes:
  assumes "CHR ''%'' \<notin> set a"
  shows "normalize_path (a @ ''//'' @ b) = normalize_path (a @ ''/'' @ b)"
  using resolve_insert [OF assms, of "[]" b] by (simp add: push_segment_ignored)

lemma normalize_path_dot:
  assumes "CHR ''%'' \<notin> set a"
  shows "normalize_path (a @ ''/./'' @ b) = normalize_path (a @ ''/'' @ b)"
  using resolve_insert [OF assms, of "''.''" b] by (simp add: push_segment_def push_latin1_def)

lemma normalize_path_dotdot:
  assumes "CHR ''%'' \<notin> set a" "plain_segment seg" "ascii_plain seg"
  shows "normalize_path (a @ ''/'' @ seg @ ''/../'' @ b) = normalize_path (a @ ''/'' @ b)"
proof -
  have dots: "percent_decode ''..'' = ''..''" by (simp add: push_latin1_def)
  have nopct: "CHR ''%'' \<notin> set seg" using assms(3) by (auto simp: ascii_plain_def)
  have "percent_decode (seg @ ''/..'') = seg @ ''/..''"
    using assms nopct dots by (simp add: percent_decode_append percent_decode_ascii)
  moreover have "split_on CHR ''/'' (seg @ ''/..'') = [seg, ''..'']"
    using assms(2) by (simp add: split_on_append split_on_plain plain_segment_def)
  ultimately show ?thesis
    using resolve_insert [OF assms(1), of "seg @ ''/..''" b] assms(2) nopct
    by (simp add: push_segment_dotdot)
qed

section \<open>Properties\<close>

text \<open>
  C6: the access decision. A request passes exactly when no deny rule matches it and, if there
  are allow rules at all, one of them matches: deny rules win, and an allow list is exhaustive.
\<close>

theorem http_acl_decision:
  "http_acl_check allow deny meth host path \<longleftrightarrow>
    \<not> (\<exists>r\<in>set deny. rule_matches r meth host path)
    \<and> (allow = [] \<or> (\<exists>r\<in>set allow. rule_matches r meth host path))"
  by (auto simp: http_acl_check_def any_rule_matches_iff)

text \<open>
  no lexical detour changes a decision. Duplicating a slash, inserting \<open>/./\<close>, or walking into
  a segment and back out with \<open>..\<close> anywhere in the request path (behind a part without percent
  escapes) leaves the answer of the access check as it was, whatever the rules are.
\<close>

theorem http_acl_detours:
  assumes "CHR ''%'' \<notin> set a" "plain_segment seg" "ascii_plain seg"
  shows "http_acl_check allow deny m h (a @ ''//'' @ b) = http_acl_check allow deny m h (a @ ''/'' @ b)
    \<and> http_acl_check allow deny m h (a @ ''/./'' @ b) = http_acl_check allow deny m h (a @ ''/'' @ b)
    \<and> http_acl_check allow deny m h (a @ ''/'' @ seg @ ''/../'' @ b) =
        http_acl_check allow deny m h (a @ ''/'' @ b)"
  unfolding http_acl_check_def any_rule_matches_iff rule_matches_def
    normalize_path_slashes [OF assms(1)] normalize_path_dot [OF assms(1)]
    normalize_path_dotdot [OF assms]
  by simp

theorem http_acl_detours_witness:
  "http_acl_check [] [] ''GET'' ''h'' (''/v1'' @ ''/'' @ ''x'' @ ''/../'' @ ''admin'') =
   http_acl_check [] [] ''GET'' ''h'' (''/v1'' @ ''/'' @ ''admin'')"
  using http_acl_detours [of "''/v1''" "''x''" "[]" "[]" "''GET''" "''h''" "''admin''"]
  by (simp add: plain_segment_def ascii_plain_def)

text \<open>
  what a parsed rule can look like. The host has no slash, and the path is a normalised path,
  that is plain segments joined by single slashes, with at most a wildcard star put behind it.
\<close>

theorem HttpRule_parse_wf:
  assumes "HttpRule_parse to_uppercase s = Inr r"
  shows "CHR ''/'' \<notin> set (rule_host r) \<and>
    (\<exists>segs star. list_all plain_segment segs
       \<and> rule_path r = ''/'' @ join_with ''/'' segs @ (if star then ''*'' else ''''))"
proof -
  define P where "P path \<longleftrightarrow> (\<exists>segs star. list_all plain_segment segs
      \<and> path = ''/'' @ join_with ''/'' segs @ (if star then ''*'' else ''''))" for path
  have "P (normalize_path p @ ''*'') \<and> P (normalize_path p)" for p
  proof -
    obtain segs where "list_all plain_segment segs" "normalize_path p = ''/'' @ join_with ''/'' segs"
      using normalize_path_form by blast
    then show ?thesis
      unfolding P_def
      by (intro conjI exI [of _ segs]) (rule exI [of _ True], simp, rule exI [of _ False], simp)
  qed
  moreover have "P ''/*''"
    unfolding P_def
    by (rule exI [of _ "[''*'']"], rule exI [of _ False]) (simp add: plain_segment_def)
  moreover have "CHR ''/'' \<notin> set (takeWhile (\<lambda>c. c \<noteq> CHR ''/'') t)" for t
    by (auto dest: set_takeWhileD)
  ultimately have "CHR ''/'' \<notin> set (rule_host r) \<and> P (rule_path r)"
    using assms by (auto simp: HttpRule_parse_def Let_def split: option.splits if_splits)
  then show ?thesis by (simp add: P_def)
qed

theorem HttpRule_parse_wf_witness:
  "CHR ''/'' \<notin> set (rule_host \<lparr>rule_method = ''GET'', rule_host = ''h'', rule_path = ''/v1/*''\<rparr>)
   \<and> (\<exists>segs star. list_all plain_segment segs
       \<and> rule_path \<lparr>rule_method = ''GET'', rule_host = ''h'', rule_path = ''/v1/*''\<rparr>
         = ''/'' @ join_with ''/'' segs @ (if star then ''*'' else ''''))"
proof -
  have "HttpRule_parse id ''GET h/v1/*'' =
      Inr \<lparr>rule_method = ''GET'', rule_host = ''h'', rule_path = ''/v1/*''\<rparr>"
    by code_simp
  then show ?thesis by (rule HttpRule_parse_wf)
qed

end
