(* ===== verification/Arch.thy ===== *)
theory Arch
  imports Prelude
begin

text \<open>
  The kernel interface constants: \<open>sys/structs.rs\<close> (structures, with a prefix on the field names, BPF opcodes, flags) and
  \<open>arch.rs\<close> for \<open>target_arch = "x86_64"\<close>. The names \<open>SYS_x\<close> are the \<open>libc::SYS_x\<close> constants, that
  is the syscall numbers of the Linux x86-64 ABI; they are abbreviations of numerals so that one
  name serves the \<open>u32\<close> lists of the BPF code and the \<open>i64\<close> keys of the dispatch table. On this
  target every \<open>arch::SYS_X: Option<i64>\<close> of \<open>arch.rs\<close> is \<open>Some(libc::SYS_x)\<close>.
\<close>

section \<open>Syscall numbers (Linux x86-64 ABI)\<close>

abbreviation (input) SYS_open :: "'a::numeral" where "SYS_open \<equiv> 2"
abbreviation (input) SYS_close :: "'a::numeral" where "SYS_close \<equiv> 3"
abbreviation (input) SYS_stat :: "'a::numeral" where "SYS_stat \<equiv> 4"
abbreviation (input) SYS_lstat :: "'a::numeral" where "SYS_lstat \<equiv> 6"
abbreviation (input) SYS_mmap :: "'a::numeral" where "SYS_mmap \<equiv> 9"
abbreviation (input) SYS_munmap :: "'a::numeral" where "SYS_munmap \<equiv> 11"
abbreviation (input) SYS_brk :: "'a::numeral" where "SYS_brk \<equiv> 12"
abbreviation (input) SYS_ioctl :: "'a::numeral" where "SYS_ioctl \<equiv> 16"
abbreviation (input) SYS_access :: "'a::numeral" where "SYS_access \<equiv> 21"
abbreviation (input) SYS_mremap :: "'a::numeral" where "SYS_mremap \<equiv> 25"
abbreviation (input) SYS_shmget :: "'a::numeral" where "SYS_shmget \<equiv> 29"
abbreviation (input) SYS_shmat :: "'a::numeral" where "SYS_shmat \<equiv> 30"
abbreviation (input) SYS_shmctl :: "'a::numeral" where "SYS_shmctl \<equiv> 31"
abbreviation (input) SYS_socket :: "'a::numeral" where "SYS_socket \<equiv> 41"
abbreviation (input) SYS_connect :: "'a::numeral" where "SYS_connect \<equiv> 42"
abbreviation (input) SYS_sendto :: "'a::numeral" where "SYS_sendto \<equiv> 44"
abbreviation (input) SYS_recvfrom :: "'a::numeral" where "SYS_recvfrom \<equiv> 45"
abbreviation (input) SYS_sendmsg :: "'a::numeral" where "SYS_sendmsg \<equiv> 46"
abbreviation (input) SYS_recvmsg :: "'a::numeral" where "SYS_recvmsg \<equiv> 47"
abbreviation (input) SYS_bind :: "'a::numeral" where "SYS_bind \<equiv> 49"
abbreviation (input) SYS_getsockname :: "'a::numeral" where "SYS_getsockname \<equiv> 51"
abbreviation (input) SYS_clone :: "'a::numeral" where "SYS_clone \<equiv> 56"
abbreviation (input) SYS_fork :: "'a::numeral" where "SYS_fork \<equiv> 57"
abbreviation (input) SYS_vfork :: "'a::numeral" where "SYS_vfork \<equiv> 58"
abbreviation (input) SYS_execve :: "'a::numeral" where "SYS_execve \<equiv> 59"
abbreviation (input) SYS_wait4 :: "'a::numeral" where "SYS_wait4 \<equiv> 61"
abbreviation (input) SYS_uname :: "'a::numeral" where "SYS_uname \<equiv> 63"
abbreviation (input) SYS_semget :: "'a::numeral" where "SYS_semget \<equiv> 64"
abbreviation (input) SYS_semop :: "'a::numeral" where "SYS_semop \<equiv> 65"
abbreviation (input) SYS_semctl :: "'a::numeral" where "SYS_semctl \<equiv> 66"
abbreviation (input) SYS_shmdt :: "'a::numeral" where "SYS_shmdt \<equiv> 67"
abbreviation (input) SYS_msgget :: "'a::numeral" where "SYS_msgget \<equiv> 68"
abbreviation (input) SYS_msgsnd :: "'a::numeral" where "SYS_msgsnd \<equiv> 69"
abbreviation (input) SYS_msgrcv :: "'a::numeral" where "SYS_msgrcv \<equiv> 70"
abbreviation (input) SYS_msgctl :: "'a::numeral" where "SYS_msgctl \<equiv> 71"
abbreviation (input) SYS_truncate :: "'a::numeral" where "SYS_truncate \<equiv> 76"
abbreviation (input) SYS_getdents :: "'a::numeral" where "SYS_getdents \<equiv> 78"
abbreviation (input) SYS_getcwd :: "'a::numeral" where "SYS_getcwd \<equiv> 79"
abbreviation (input) SYS_chdir :: "'a::numeral" where "SYS_chdir \<equiv> 80"
abbreviation (input) SYS_rename :: "'a::numeral" where "SYS_rename \<equiv> 82"
abbreviation (input) SYS_mkdir :: "'a::numeral" where "SYS_mkdir \<equiv> 83"
abbreviation (input) SYS_rmdir :: "'a::numeral" where "SYS_rmdir \<equiv> 84"
abbreviation (input) SYS_link :: "'a::numeral" where "SYS_link \<equiv> 86"
abbreviation (input) SYS_unlink :: "'a::numeral" where "SYS_unlink \<equiv> 87"
abbreviation (input) SYS_symlink :: "'a::numeral" where "SYS_symlink \<equiv> 88"
abbreviation (input) SYS_readlink :: "'a::numeral" where "SYS_readlink \<equiv> 89"
abbreviation (input) SYS_chmod :: "'a::numeral" where "SYS_chmod \<equiv> 90"
abbreviation (input) SYS_chown :: "'a::numeral" where "SYS_chown \<equiv> 92"
abbreviation (input) SYS_lchown :: "'a::numeral" where "SYS_lchown \<equiv> 94"
abbreviation (input) SYS_gettimeofday :: "'a::numeral" where "SYS_gettimeofday \<equiv> 96"
abbreviation (input) SYS_ptrace :: "'a::numeral" where "SYS_ptrace \<equiv> 101"
abbreviation (input) SYS_personality :: "'a::numeral" where "SYS_personality \<equiv> 135"
abbreviation (input) SYS_statfs :: "'a::numeral" where "SYS_statfs \<equiv> 137"
abbreviation (input) SYS_pivot_root :: "'a::numeral" where "SYS_pivot_root \<equiv> 155"
abbreviation (input) SYS_prctl :: "'a::numeral" where "SYS_prctl \<equiv> 157"
abbreviation (input) SYS_acct :: "'a::numeral" where "SYS_acct \<equiv> 163"
abbreviation (input) SYS_mount :: "'a::numeral" where "SYS_mount \<equiv> 165"
abbreviation (input) SYS_umount2 :: "'a::numeral" where "SYS_umount2 \<equiv> 166"
abbreviation (input) SYS_swapon :: "'a::numeral" where "SYS_swapon \<equiv> 167"
abbreviation (input) SYS_swapoff :: "'a::numeral" where "SYS_swapoff \<equiv> 168"
abbreviation (input) SYS_reboot :: "'a::numeral" where "SYS_reboot \<equiv> 169"
abbreviation (input) SYS_sethostname :: "'a::numeral" where "SYS_sethostname \<equiv> 170"
abbreviation (input) SYS_setdomainname :: "'a::numeral" where "SYS_setdomainname \<equiv> 171"
abbreviation (input) SYS_iopl :: "'a::numeral" where "SYS_iopl \<equiv> 172"
abbreviation (input) SYS_ioperm :: "'a::numeral" where "SYS_ioperm \<equiv> 173"
abbreviation (input) SYS_init_module :: "'a::numeral" where "SYS_init_module \<equiv> 175"
abbreviation (input) SYS_delete_module :: "'a::numeral" where "SYS_delete_module \<equiv> 176"
abbreviation (input) SYS_quotactl :: "'a::numeral" where "SYS_quotactl \<equiv> 179"
abbreviation (input) SYS_time :: "'a::numeral" where "SYS_time \<equiv> 201"
abbreviation (input) SYS_sched_getaffinity :: "'a::numeral" where "SYS_sched_getaffinity \<equiv> 204"
abbreviation (input) SYS_lookup_dcookie :: "'a::numeral" where "SYS_lookup_dcookie \<equiv> 212"
abbreviation (input) SYS_getdents64 :: "'a::numeral" where "SYS_getdents64 \<equiv> 217"
abbreviation (input) SYS_semtimedop :: "'a::numeral" where "SYS_semtimedop \<equiv> 220"
abbreviation (input) SYS_timer_settime :: "'a::numeral" where "SYS_timer_settime \<equiv> 223"
abbreviation (input) SYS_clock_gettime :: "'a::numeral" where "SYS_clock_gettime \<equiv> 228"
abbreviation (input) SYS_clock_nanosleep :: "'a::numeral" where "SYS_clock_nanosleep \<equiv> 230"
abbreviation (input) SYS_kexec_load :: "'a::numeral" where "SYS_kexec_load \<equiv> 246"
abbreviation (input) SYS_waitid :: "'a::numeral" where "SYS_waitid \<equiv> 247"
abbreviation (input) SYS_add_key :: "'a::numeral" where "SYS_add_key \<equiv> 248"
abbreviation (input) SYS_request_key :: "'a::numeral" where "SYS_request_key \<equiv> 249"
abbreviation (input) SYS_keyctl :: "'a::numeral" where "SYS_keyctl \<equiv> 250"
abbreviation (input) SYS_openat :: "'a::numeral" where "SYS_openat \<equiv> 257"
abbreviation (input) SYS_mkdirat :: "'a::numeral" where "SYS_mkdirat \<equiv> 258"
abbreviation (input) SYS_fchownat :: "'a::numeral" where "SYS_fchownat \<equiv> 260"
abbreviation (input) SYS_futimesat :: "'a::numeral" where "SYS_futimesat \<equiv> 261"
abbreviation (input) SYS_newfstatat :: "'a::numeral" where "SYS_newfstatat \<equiv> 262"
abbreviation (input) SYS_unlinkat :: "'a::numeral" where "SYS_unlinkat \<equiv> 263"
abbreviation (input) SYS_linkat :: "'a::numeral" where "SYS_linkat \<equiv> 265"
abbreviation (input) SYS_symlinkat :: "'a::numeral" where "SYS_symlinkat \<equiv> 266"
abbreviation (input) SYS_readlinkat :: "'a::numeral" where "SYS_readlinkat \<equiv> 267"
abbreviation (input) SYS_fchmodat :: "'a::numeral" where "SYS_fchmodat \<equiv> 268"
abbreviation (input) SYS_faccessat :: "'a::numeral" where "SYS_faccessat \<equiv> 269"
abbreviation (input) SYS_unshare :: "'a::numeral" where "SYS_unshare \<equiv> 272"
abbreviation (input) SYS_utimensat :: "'a::numeral" where "SYS_utimensat \<equiv> 280"
abbreviation (input) SYS_timerfd_settime :: "'a::numeral" where "SYS_timerfd_settime \<equiv> 286"
abbreviation (input) SYS_perf_event_open :: "'a::numeral" where "SYS_perf_event_open \<equiv> 298"
abbreviation (input) SYS_name_to_handle_at :: "'a::numeral" where "SYS_name_to_handle_at \<equiv> 303"
abbreviation (input) SYS_open_by_handle_at :: "'a::numeral" where "SYS_open_by_handle_at \<equiv> 304"
abbreviation (input) SYS_sendmmsg :: "'a::numeral" where "SYS_sendmmsg \<equiv> 307"
abbreviation (input) SYS_setns :: "'a::numeral" where "SYS_setns \<equiv> 308"
abbreviation (input) SYS_process_vm_readv :: "'a::numeral" where "SYS_process_vm_readv \<equiv> 310"
abbreviation (input) SYS_process_vm_writev :: "'a::numeral" where "SYS_process_vm_writev \<equiv> 311"
abbreviation (input) SYS_finit_module :: "'a::numeral" where "SYS_finit_module \<equiv> 313"
abbreviation (input) SYS_renameat2 :: "'a::numeral" where "SYS_renameat2 \<equiv> 316"
abbreviation (input) SYS_getrandom :: "'a::numeral" where "SYS_getrandom \<equiv> 318"
abbreviation (input) SYS_bpf :: "'a::numeral" where "SYS_bpf \<equiv> 321"
abbreviation (input) SYS_execveat :: "'a::numeral" where "SYS_execveat \<equiv> 322"
abbreviation (input) SYS_userfaultfd :: "'a::numeral" where "SYS_userfaultfd \<equiv> 323"
abbreviation (input) SYS_statx :: "'a::numeral" where "SYS_statx \<equiv> 332"
abbreviation (input) SYS_io_uring_setup :: "'a::numeral" where "SYS_io_uring_setup \<equiv> 425"
abbreviation (input) SYS_io_uring_enter :: "'a::numeral" where "SYS_io_uring_enter \<equiv> 426"
abbreviation (input) SYS_io_uring_register :: "'a::numeral" where "SYS_io_uring_register \<equiv> 427"
abbreviation (input) SYS_clone3 :: "'a::numeral" where "SYS_clone3 \<equiv> 435"
abbreviation (input) SYS_faccessat2 :: "'a::numeral" where "SYS_faccessat2 \<equiv> 439"

section \<open>arch.rs\<close>

abbreviation (input) AUDIT_ARCH :: u32 where "AUDIT_ARCH \<equiv> 0xC000003E"
abbreviation (input) MAX_SYSCALL_NR :: int where "MAX_SYSCALL_NR \<equiv> 462"

definition FORK_LIKE_SYSCALLS :: "int list" where
  "FORK_LIKE_SYSCALLS = [SYS_clone, SYS_clone3, SYS_vfork, SYS_fork]"

definition is_known_syscall :: "int \<Rightarrow> bool" where
  "is_known_syscall nr = (nr \<ge> 0 \<and> nr \<le> MAX_SYSCALL_NR)"

text \<open>\<open>push_optional_syscall\<close>; the optional number is \<open>Some\<close> on this target.\<close>

definition push_optional_syscall :: "u32 list \<Rightarrow> int option \<Rightarrow> u32 list" where
  "push_optional_syscall v nr = (case nr of Some n \<Rightarrow> v @ [word_of_int n] | None \<Rightarrow> v)"

lemma set_push_optional_Some [simp]:
  "set (push_optional_syscall v (Some n)) = insert (word_of_int n) (set v)"
  by (auto simp: push_optional_syscall_def)

section \<open>sys/structs.rs\<close>

text \<open>\<open>struct seccomp_data\<close>; \<open>args\<close> always has six elements (\<open>[u64; 6]\<close>).\<close>

record seccomp_data =
  nr_of :: u32
  arch_of :: u32
  ip_of :: u64
  args_of :: "u64 list"

record seccomp_notif =
  notif_id :: u64
  notif_pid :: u32
  notif_flags :: u32
  notif_data :: seccomp_data

record sock_filter =
  sf_code :: u16
  sf_jt :: u8
  sf_jf :: u8
  sf_k :: u32

abbreviation (input) BPF_LD :: u16 where "BPF_LD \<equiv> 0x00"
abbreviation (input) BPF_W :: u16 where "BPF_W \<equiv> 0x00"
abbreviation (input) BPF_ABS :: u16 where "BPF_ABS \<equiv> 0x20"
abbreviation (input) BPF_JMP :: u16 where "BPF_JMP \<equiv> 0x05"
abbreviation (input) BPF_JEQ :: u16 where "BPF_JEQ \<equiv> 0x10"
abbreviation (input) BPF_JSET :: u16 where "BPF_JSET \<equiv> 0x40"
abbreviation (input) BPF_K :: u16 where "BPF_K \<equiv> 0x00"
abbreviation (input) BPF_RET :: u16 where "BPF_RET \<equiv> 0x06"
abbreviation (input) BPF_ALU :: u16 where "BPF_ALU \<equiv> 0x04"
abbreviation (input) BPF_AND :: u16 where "BPF_AND \<equiv> 0x50"

abbreviation (input) OFFSET_NR :: u32 where "OFFSET_NR \<equiv> 0"
abbreviation (input) OFFSET_ARCH :: u32 where "OFFSET_ARCH \<equiv> 4"
abbreviation (input) OFFSET_ARGS0_LO :: u32 where "OFFSET_ARGS0_LO \<equiv> 16"
abbreviation (input) OFFSET_ARGS1_LO :: u32 where "OFFSET_ARGS1_LO \<equiv> 24"
abbreviation (input) OFFSET_ARGS2_LO :: u32 where "OFFSET_ARGS2_LO \<equiv> 32"
abbreviation (input) OFFSET_ARGS3_LO :: u32 where "OFFSET_ARGS3_LO \<equiv> 40"

abbreviation (input) SECCOMP_RET_ALLOW :: u32 where "SECCOMP_RET_ALLOW \<equiv> 0x7FFF0000"
abbreviation (input) SECCOMP_RET_USER_NOTIF :: u32 where "SECCOMP_RET_USER_NOTIF \<equiv> 0x7FC00000"
abbreviation (input) SECCOMP_RET_ERRNO :: u32 where "SECCOMP_RET_ERRNO \<equiv> 0x00050000"
abbreviation (input) SECCOMP_RET_KILL_PROCESS :: u32 where "SECCOMP_RET_KILL_PROCESS \<equiv> 0x80000000"

abbreviation (input) CLONE_NEWNS :: u64 where "CLONE_NEWNS \<equiv> 0x00020000"
abbreviation (input) CLONE_NEWCGROUP :: u64 where "CLONE_NEWCGROUP \<equiv> 0x02000000"
abbreviation (input) CLONE_NEWUTS :: u64 where "CLONE_NEWUTS \<equiv> 0x04000000"
abbreviation (input) CLONE_NEWIPC :: u64 where "CLONE_NEWIPC \<equiv> 0x08000000"
abbreviation (input) CLONE_NEWUSER :: u64 where "CLONE_NEWUSER \<equiv> 0x10000000"
abbreviation (input) CLONE_NEWPID :: u64 where "CLONE_NEWPID \<equiv> 0x20000000"
abbreviation (input) CLONE_NEWNET :: u64 where "CLONE_NEWNET \<equiv> 0x40000000"

definition CLONE_NS_FLAGS :: u64 where
  "CLONE_NS_FLAGS = CLONE_NEWNS OR CLONE_NEWCGROUP OR CLONE_NEWUTS OR CLONE_NEWIPC
     OR CLONE_NEWUSER OR CLONE_NEWPID OR CLONE_NEWNET"

lemma CLONE_NS_FLAGS_value: "CLONE_NS_FLAGS = 0x7E020000"
  by (simp add: CLONE_NS_FLAGS_def)

definition DANGEROUS_IOCTLS :: "u32 list" where
  "DANGEROUS_IOCTLS =
     [0x5412,  \<comment> \<open>TIOCSTI\<close>
      0x541C,  \<comment> \<open>TIOCLINUX\<close>
      0x8910,  \<comment> \<open>SIOCGIFNAME\<close>
      0x8912,  \<comment> \<open>SIOCGIFCONF\<close>
      0x8913,  \<comment> \<open>SIOCGIFFLAGS\<close>
      0x8915,  \<comment> \<open>SIOCGIFADDR\<close>
      0x8917,  \<comment> \<open>SIOCGIFDSTADDR\<close>
      0x8919,  \<comment> \<open>SIOCGIFBRDADDR\<close>
      0x891B,  \<comment> \<open>SIOCGIFNETMASK\<close>
      0x8927,  \<comment> \<open>SIOCGIFHWADDR\<close>
      0x8933,  \<comment> \<open>SIOCGIFINDEX\<close>
      0x8946]  \<comment> \<open>SIOCETHTOOL\<close>"

definition DANGEROUS_PRCTL_OPS :: "u32 list" where
  "DANGEROUS_PRCTL_OPS =
     [4,           \<comment> \<open>PR_SET_DUMPABLE\<close>
      28,          \<comment> \<open>PR_SET_SECUREBITS\<close>
      0x59616D61]  \<comment> \<open>PR_SET_PTRACER\<close>"

abbreviation (input) SOCK_RAW :: u32 where "SOCK_RAW \<equiv> 3"
abbreviation (input) SOCK_DGRAM :: u32 where "SOCK_DGRAM \<equiv> 2"
abbreviation (input) SOCK_TYPE_MASK :: u32 where "SOCK_TYPE_MASK \<equiv> 0xFF"
abbreviation (input) AF_INET :: "'a::numeral" where "AF_INET \<equiv> 2"
abbreviation (input) AF_INET6 :: "'a::numeral" where "AF_INET6 \<equiv> 10"

section \<open>Errno values\<close>

abbreviation (input) EPERM :: int where "EPERM \<equiv> 1"
abbreviation (input) ENOENT :: int where "ENOENT \<equiv> 2"
abbreviation (input) EIO :: int where "EIO \<equiv> 5"
abbreviation (input) EFAULT :: int where "EFAULT \<equiv> 14"
abbreviation (input) EBADF :: int where "EBADF \<equiv> 9"
abbreviation (input) EAGAIN :: int where "EAGAIN \<equiv> 11"
abbreviation (input) ENOMEM :: int where "ENOMEM \<equiv> 12"
abbreviation (input) EACCES :: int where "EACCES \<equiv> 13"
abbreviation (input) EEXIST :: int where "EEXIST \<equiv> 17"
abbreviation (input) EXDEV :: int where "EXDEV \<equiv> 18"
abbreviation (input) EINVAL :: int where "EINVAL \<equiv> 22"
abbreviation (input) ENOSPC :: int where "ENOSPC \<equiv> 28"
abbreviation (input) ENAMETOOLONG :: int where "ENAMETOOLONG \<equiv> 36"
abbreviation (input) EAFNOSUPPORT :: int where "EAFNOSUPPORT \<equiv> 97"
abbreviation (input) EADDRINUSE :: int where "EADDRINUSE \<equiv> 98"
abbreviation (input) ECONNREFUSED :: int where "ECONNREFUSED \<equiv> 111"

end
