(* ===== verification/NetRules.thy ===== *)
theory NetRules
  imports Http Arch
begin

text \<open>
  The first part of \<open>network.rs\<close>: addresses in \<open>sockaddr\<close> buffers, the \<open>NetAllow\<close> rules and their
  parser.
\<close>

unbundle bit_operations_syntax

section \<open>IP addresses (std::net)\<close>

text \<open>An address is its octets in network order: four of them, or sixteen.\<close>

datatype ip_addr = V4 u8 u8 u8 u8 | V6 "u8 list"

type_synonym socket_addr = "ip_addr \<times> u16"

section \<open>sockaddr buffers\<close>

definition sockaddr_family :: "bytes \<Rightarrow> u32" where
  "sockaddr_family b = ucast (u16_from_ne (b ! 0) (b ! 1))"

definition parse_ip_from_sockaddr :: "bytes \<Rightarrow> ip_addr option" where
  "parse_ip_from_sockaddr b =
     (if length b < 2 then None
      else let family = sockaddr_family b in
        if family = AF_INET then
          (if length b < 8 then None else Some (V4 (b ! 4) (b ! 5) (b ! 6) (b ! 7)))
        else if family = AF_INET6 then
          (if length b < 24 then None else Some (V6 (subslice 8 24 b)))
        else None)"

definition parse_port_from_sockaddr :: "bytes \<Rightarrow> u16 option" where
  "parse_port_from_sockaddr b =
     (if length b < 4 then None
      else let family = sockaddr_family b in
        if family = AF_INET \<or> family = AF_INET6 then Some (u16_from_be (b ! 2) (b ! 3))
        else None)"

definition set_port_in_sockaddr :: "bytes \<Rightarrow> u16 \<Rightarrow> bytes" where
  "set_port_in_sockaddr b port =
     (if length b \<ge> 4 then b[2 := fst (u16_to_be port), 3 := snd (u16_to_be port)] else b)"

lemma length_set_port [simp]: "length (set_port_in_sockaddr b p) = length b"
  by (simp add: set_port_in_sockaddr_def)

lemma set_port_nth: "i \<noteq> 2 \<Longrightarrow> i \<noteq> 3 \<Longrightarrow> set_port_in_sockaddr b p ! i = b ! i"
  by (simp add: set_port_in_sockaddr_def)

lemma family_set_port [simp]: "sockaddr_family (set_port_in_sockaddr b p) = sockaddr_family b"
  by (simp add: sockaddr_family_def set_port_nth)

lemma parse_ip_set_port [simp]:
  "parse_ip_from_sockaddr (set_port_in_sockaddr b p) = parse_ip_from_sockaddr b"
proof -
  have "subslice 8 24 (set_port_in_sockaddr b p) = subslice 8 24 b"
    by (simp add: set_port_in_sockaddr_def subslice_def drop_update_cancel)
  then show ?thesis by (simp add: parse_ip_from_sockaddr_def set_port_nth Let_def)
qed

lemma parse_port_set_port:
  "parse_port_from_sockaddr b = Some q \<Longrightarrow>
    parse_port_from_sockaddr (set_port_in_sockaddr b p) = Some p"
  using u16_be_roundtrip [of p]
  by (auto simp: parse_port_from_sockaddr_def Let_def set_port_in_sockaddr_def
      sockaddr_family_def split: if_splits)

lemma parse_port_of_ip:
  "parse_ip_from_sockaddr b = Some ip \<Longrightarrow> \<exists>p. parse_port_from_sockaddr b = Some p"
  by (auto simp: parse_port_from_sockaddr_def parse_ip_from_sockaddr_def Let_def split: if_splits)

section \<open>NetAllow rules\<close>

datatype Protocol = Tcp | Udp | Icmp

definition Protocol_parse :: "string \<Rightarrow> Protocol option" where
  "Protocol_parse s = (if s = ''tcp'' then Some Tcp else if s = ''udp'' then Some Udp
     else if s = ''icmp'' then Some Icmp else None)"

record net_allow =
  na_protocol :: Protocol
  na_host :: "string option"
  na_ports :: "u16 list"
  na_all_ports :: bool

text \<open>\<open>NetAllow::parse_icmp\<close>.\<close>

definition parse_icmp :: "string \<Rightarrow> string \<Rightarrow> sandbox_error + net_allow" where
  "parse_icmp body full =
     (if CHR '':'' \<in> set body then
        Inl (Invalid (''--net-allow: icmp rules take no port, got `'' @ full @ ''`''))
      else if body = [] then
        Inl (Invalid (''--net-allow: icmp rule needs a host or `*`, got `'' @ full @ ''`''))
      else Inr \<lparr>na_protocol = Icmp, na_host = (if body = ''*'' then None else Some body),
                na_ports = [], na_all_ports = False\<rparr>)"

text \<open>The port loop of \<open>NetAllow::parse\<close>; its state is \<open>(ports, saw_wildcard)\<close>.\<close>

fun parse_ports :: "string \<Rightarrow> string list \<Rightarrow> u16 list \<Rightarrow> bool \<Rightarrow> sandbox_error + (u16 list \<times> bool)" where
  "parse_ports s [] ports saw_wildcard = Inr (ports, saw_wildcard)"
| "parse_ports s (p0 # ps) ports saw_wildcard = (let p = trim p0 in
     if p = ''*'' then parse_ports s ps ports True
     else case parse_u16 p of
       None \<Rightarrow> Inl (Invalid (''--net-allow: invalid port `'' @ p @ ''` in `'' @ s @ ''`''))
     | Some n \<Rightarrow>
         if n = 0 then Inl (Invalid (''--net-allow: port 0 is not valid in `'' @ s @ ''`''))
         else parse_ports s ps (ports @ [n]) saw_wildcard)"

definition NetAllow_parse :: "string \<Rightarrow> sandbox_error + net_allow" where
  "NetAllow_parse s =
     try_bind (case split_once ''://'' s of
         Some (scheme, body) \<Rightarrow>
           (case Protocol_parse scheme of
              None \<Rightarrow> Inl (Invalid (''--net-allow: unknown scheme `'' @ scheme @ ''://` in `'' @ s
                              @ ''` (expected tcp, udp, icmp)''))
            | Some proto \<Rightarrow> Inr (proto, body))
       | None \<Rightarrow> Inr (Tcp, s)) (\<lambda>(protocol, rest).
     if protocol = Icmp then parse_icmp rest s
     else
     try_bind (case rsplit_once CHR '':'' rest of
         None \<Rightarrow> Inl (Invalid (''--net-allow: expected `host:port` or `:port`, got `'' @ s @ ''`''))
       | Some hp \<Rightarrow> Inr hp) (\<lambda>(host_part, port_part).
     let host = (if host_part = [] \<or> host_part = ''*'' then None else Some host_part) in
     try_bind (parse_ports s (split_on CHR '','' port_part) [] False) (\<lambda>(ports, saw_wildcard).
       if saw_wildcard \<and> ports \<noteq> [] then
         Inl (Invalid (''--net-allow: cannot mix `*` with concrete ports in `'' @ s @ ''`''))
       else if \<not> saw_wildcard \<and> ports = [] then
         Inl (Invalid (''--net-allow: at least one port required in `'' @ s @ ''`''))
       else Inr \<lparr>na_protocol = protocol, na_host = host, na_ports = ports,
                  na_all_ports = saw_wildcard\<rparr>)))"

section \<open>Lemmas on parsing\<close>

lemma parse_ports_nonzero:
  "parse_ports s ps acc w = Inr (ports, w') \<Longrightarrow> 0 \<notin> set acc \<Longrightarrow> 0 \<notin> set ports"
proof (induction ps arbitrary: acc w)
  case (Cons p ps)
  then show ?case by (auto simp: Let_def split: if_splits option.splits)
qed simp

text \<open>The well-formedness the field comments of \<open>NetAllow\<close> promise.\<close>

definition net_allow_wf :: "net_allow \<Rightarrow> bool" where
  "net_allow_wf r \<longleftrightarrow>
     (if na_protocol r = Icmp then na_ports r = [] \<and> \<not> na_all_ports r
      else (na_ports r = []) = na_all_ports r) \<and>
     0 \<notin> set (na_ports r) \<and> na_host r \<noteq> Some [] \<and> na_host r \<noteq> Some ''*''"

lemma parse_icmp_wf: "parse_icmp b s = Inr r \<Longrightarrow> net_allow_wf r"
  by (auto simp: parse_icmp_def net_allow_wf_def split: if_splits)

text \<open>Printing a rule in the rule grammar.\<close>

definition show_port :: "u16 \<Rightarrow> string" where
  "show_port p = show_nat (unat p)"

definition show_rule :: "net_allow \<Rightarrow> string" where
  "show_rule r =
     (case na_protocol r of Tcp \<Rightarrow> ''tcp'' | Udp \<Rightarrow> ''udp'' | Icmp \<Rightarrow> ''icmp'') @ ''://'' @
     (case na_host r of None \<Rightarrow> ''*'' | Some h \<Rightarrow> h) @
     (if na_protocol r = Icmp then []
      else CHR '':'' # (if na_all_ports r then ''*''
                        else join_with '','' (map show_port (na_ports r))))"

section \<open>Decimal numbers survive printing and parsing\<close>

definition decimal :: "string \<Rightarrow> bool" where
  "decimal s \<longleftrightarrow> (\<forall>c\<in>set s. 48 \<le> (of_char c :: nat) \<and> (of_char c :: nat) \<le> 57)"

lemma decimal_ws: "decimal s \<Longrightarrow> ws_len s = 0"
  by (auto simp: ws_len_def decimal_def split: list.splits)

lemma decimal_drop: "decimal s \<Longrightarrow> decimal (drop n s)"
  by (auto simp: decimal_def dest: in_set_dropD)

lemma trim_decimal: "decimal s \<Longrightarrow> trim s = s"
  by (simp add: trim_def trim_start.simps trim_end.simps ws_len_end_def decimal_ws decimal_drop)

lemma digits_val_append:
  "digits_val r acc (xs @ ys) =
    (case digits_val r acc xs of None \<Rightarrow> None | Some v \<Rightarrow> digits_val r v ys)"
  by (induction xs arbitrary: acc) (auto split: option.splits)

lemma digit_val_dec: "d < 10 \<Longrightarrow> digit_val 10 (char_of (48 + d)) = Some d"
  by (simp add: digit_val_def of_char_of take_bit_nat_eq_self)

lemma digits_val_show: "digits_val 10 0 (show_nat n) = Some n"
proof (induction n rule: show_nat.induct)
  case (1 n)
  then show ?case
    by (subst show_nat.simps)
       (auto simp: digits_val_append digit_val_dec)
qed

lemma show_nat_decimal: "decimal (show_nat n)"
proof (induction n rule: show_nat.induct)
  case (1 n)
  have "48 \<le> (of_char (char_of (48 + d)) :: nat) \<and> (of_char (char_of (48 + d)) :: nat) \<le> 57"
    if "d < 10" for d :: nat
    using that by (simp add: of_char_of take_bit_nat_eq_self)
  with 1 show ?case
    by (subst show_nat.simps) (auto simp: decimal_def)
qed

lemma show_nat_ne [simp]: "show_nat n \<noteq> []"
  by (subst show_nat.simps) simp

lemma decimal_notin: "decimal s \<Longrightarrow> (of_char c :: nat) < 48 \<or> 57 < (of_char c :: nat) \<Longrightarrow> c \<notin> set s"
  by (force simp: decimal_def)

lemma parse_u16_show: "parse_u16 (show_port p) = Some p"
proof -
  let ?s = "show_nat (unat p)"
  have plus: "CHR ''+'' \<notin> set ?s"
    by (rule decimal_notin [OF show_nat_decimal]) simp
  have "(case ?s of [] \<Rightarrow> ?s | c # r \<Rightarrow> if c = CHR ''+'' \<and> r \<noteq> [] then r else ?s) = ?s"
    using plus by (cases ?s) auto
  moreover have "unat p \<le> 65535"
    using unsigned_less [of p, where ?'a=nat] by simp
  ultimately show ?thesis
    by (simp add: parse_u16_def parse_uint_def show_port_def digits_val_show)
qed

lemma parse_ports_show:
  "0 \<notin> set ports \<Longrightarrow>
    parse_ports s (map show_port ports) acc w = Inr (acc @ ports, w)"
proof (induction ports arbitrary: acc)
  case (Cons p ports)
  have "show_port p \<noteq> ''*''"
    using decimal_notin [OF show_nat_decimal, of "CHR ''*''" "unat p"]
    by (auto simp: show_port_def)
  then show ?case
    using Cons by (simp add: trim_decimal show_nat_decimal show_port_def parse_u16_show
        [unfolded show_port_def])
qed simp

section \<open>Properties\<close>

text \<open>
  C23: every rule the parser accepts is well formed, as the field comments of \<open>NetAllow\<close> promise:
  an ICMP rule carries no ports; any other rule has a non-empty port list exactly when it is not
  the all-ports wildcard; no port is 0; the any-host forms are \<open>None\<close>, never an empty or \<open>*\<close> host.
\<close>

theorem NetAllow_parse_wf:
  assumes "NetAllow_parse s = Inr r"
  shows "net_allow_wf r"
proof -
  have ports: "0 \<notin> set ports" if "parse_ports s ps [] False = Inr (ports, w)" for ps ports w
    using parse_ports_nonzero [OF that] by simp
  show ?thesis
    using assms ports
    by (auto simp: NetAllow_parse_def try_bind_eq_Inr Let_def dest: parse_icmp_wf
        split: if_splits option.splits)
       (auto simp: net_allow_wf_def)
qed

theorem NetAllow_parse_wf_witness:
  "net_allow_wf \<lparr>na_protocol = Tcp, na_host = Some ''h'', na_ports = [80], na_all_ports = False\<rparr>"
proof -
  have "NetAllow_parse ''h:80'' =
      Inr \<lparr>na_protocol = Tcp, na_host = Some ''h'', na_ports = [80], na_all_ports = False\<rparr>"
    by (simp add: NetAllow_parse_def trim_def trim_start.simps trim_end.simps ws_len_def
        ws_len_end_def parse_u16_def parse_uint_def digit_val_def Protocol_parse_def)
  then show ?thesis by (rule NetAllow_parse_wf)
qed

text \<open>
  printing a well-formed rule in the rule grammar and parsing it again gives the rule back, so
  the grammar can express every well-formed rule (an ICMP host has no colon, the one thing the
  grammar cannot carry there).
\<close>

theorem NetAllow_roundtrip:
  assumes "net_allow_wf r"
    and "na_protocol r = Icmp \<Longrightarrow> CHR '':'' \<notin> set (case na_host r of None \<Rightarrow> [] | Some h \<Rightarrow> h)"
  shows "NetAllow_parse (show_rule r) = Inr r"
proof -
  obtain prot host ports allp where r: "r = \<lparr>na_protocol = prot, na_host = host,
      na_ports = ports, na_all_ports = allp\<rparr>"
    by (cases r)
  let ?h = "case host of None \<Rightarrow> ''*'' | Some h \<Rightarrow> h"
  let ?pp = "if allp then ''*'' else join_with '','' (map show_port ports)"
  have host: "(if ?h = [] \<or> ?h = ''*'' then None else Some ?h) = host"
    using assms(1) by (auto simp: r net_allow_wf_def split: option.splits)
  have notin: "c \<notin> set (show_port p)" if "c = CHR '','' \<or> c = CHR '':''" for c p
    using that by (auto simp: show_port_def intro!: decimal_notin [OF show_nat_decimal])
  have colon: "CHR '':'' \<notin> set ?pp"
    using set_join_with [of "'',''" "map show_port ports"] notin by auto
  have split: "split_on CHR '','' ?pp = (if allp then [''*''] else map show_port ports)"
    if "prot \<noteq> Icmp"
  proof (cases allp)
    case False
    with assms(1) that have "map show_port ports \<noteq> []"
      by (simp add: r net_allow_wf_def)
    moreover have "CHR '','' \<notin> set q" if "q \<in> set (map show_port ports)" for q
      using that notin by auto
    ultimately have "split_on CHR '','' (join_with '','' (map show_port ports)) = map show_port ports"
      by (rule split_on_join)
    with False show ?thesis by simp
  qed simp
  have star: "trim ''*'' = ''*''"
    by (simp add: trim_def trim_start.simps trim_end.simps ws_len_def ws_len_end_def)
  have ports: "parse_ports s (split_on CHR '','' ?pp) [] False = Inr (ports, allp)"
    if "prot \<noteq> Icmp" for s
    using assms(1) that split [OF that] parse_ports_show [of ports s "[]" False]
    by (auto simp: r net_allow_wf_def star)
  have rsplit: "rsplit_once CHR '':'' (?h @ CHR '':'' # ?pp) = Some (?h, ?pp)"
    using colon by (rule rsplit_once_append)
  have body: "NetAllow_parse (scheme @ ''://'' @ ?h @ CHR '':'' # ?pp) = Inr r"
    if "Protocol_parse scheme = Some prot" "prot \<noteq> Icmp"
      "\<And>rest. split_once ''://'' (scheme @ ''://'' @ rest) = Some (scheme, rest)" for scheme
  proof -
    have "(ports = []) = allp"
      using assms(1) that(2) by (simp add: r net_allow_wf_def)
    then show ?thesis
      unfolding NetAllow_parse_def
      by (simp only: that rsplit ports [OF that(2)] option.case prod.case try_bind_simps Let_def
          host r if_False)
         simp
  qed
  show ?thesis
  proof (cases prot)
    case Icmp
    then show ?thesis
      using assms by (auto simp: r NetAllow_parse_def show_rule_def Protocol_parse_def
          parse_icmp_def net_allow_wf_def split: option.splits)
  next
    case Tcp
    then show ?thesis using body [of "''tcp''"]
      by (cases allp) (simp_all add: Protocol_parse_def show_rule_def r)
  next
    case Udp
    then show ?thesis using body [of "''udp''"]
      by (cases allp) (simp_all add: Protocol_parse_def show_rule_def r)
  qed
qed

theorem NetAllow_roundtrip_witness:
  "NetAllow_parse (show_rule \<lparr>na_protocol = Udp, na_host = None, na_ports = [53, 5353],
      na_all_ports = False\<rparr>) =
   Inr \<lparr>na_protocol = Udp, na_host = None, na_ports = [53, 5353], na_all_ports = False\<rparr>"
  by (rule NetAllow_roundtrip) (simp_all add: net_allow_wf_def)

end
