(* ===== verification/Config.thy ===== *)
theory Config
  imports NetRules
begin

text \<open>
  The data of \<open>sandbox.rs\<close>: \<open>ByteSize\<close>, the \<open>Sandbox\<close> and \<open>SandboxBuilder\<close> records and the
  validation of a policy. The operations of the builder are in \<open>Builder\<close>.
  A \<open>PathBuf\<close> is its byte string, a \<open>SystemTime\<close> an integer, and the policy callback (an
  \<open>Arc<dyn Fn>\<close>) an opaque value. The three fields that hold no configuration (\<open>init_fn\<close>, \<open>work_fn\<close>,
  \<open>runtime\<close>) are left out.
\<close>

unbundle bit_operations_syntax

section \<open>Byte sizes\<close>

text \<open>\<open>ByteSize\<close> is its \<open>u64\<close>; the multiplications wrap, as in a release build.\<close>

definition ByteSize_kib :: "u64 \<Rightarrow> u64" where "ByteSize_kib n = n * 1024"
definition ByteSize_mib :: "u64 \<Rightarrow> u64" where "ByteSize_mib n = n * 1024 * 1024"
definition ByteSize_gib :: "u64 \<Rightarrow> u64" where "ByteSize_gib n = n * 1024 * 1024 * 1024"

definition ByteSize_parse :: "string \<Rightarrow> sandbox_error + u64" where
  "ByteSize_parse s0 = (let s = trim s0 in
     if s = [] then Inl (Invalid ''empty byte size string'')
     else if is_ascii_alphabetic (last s) then
       (case parse_u64 (trim (butlast s)) of
          None \<Rightarrow> Inl (Invalid (''invalid byte size: '' @ s))
        | Some n \<Rightarrow>
            let suffix = ascii_upper (last s) in
            if suffix = CHR ''K'' then Inr (ByteSize_kib n)
            else if suffix = CHR ''M'' then Inr (ByteSize_mib n)
            else if suffix = CHR ''G'' then Inr (ByteSize_gib n)
            else Inl (Invalid (''unknown byte size suffix: '' @ [suffix])))
     else (case parse_u64 s of
          None \<Rightarrow> Inl (Invalid (''invalid byte size: '' @ s))
        | Some n \<Rightarrow> Inr n))"

section \<open>The Sandbox and its builder\<close>

datatype FsIsolation = FsNone | OverlayFs | BranchFs
datatype BranchAction = Commit | Abort | Keep

definition FsIsolation_default :: FsIsolation where "FsIsolation_default = FsNone"
definition BranchAction_default :: BranchAction where "BranchAction_default = Commit"

typedecl policy_callback

record sandbox =
  sb_fs_writable :: "string list"
  sb_fs_readable :: "string list"
  sb_fs_denied :: "string list"
  sb_extra_deny_syscalls :: "string list"
  sb_extra_allow_syscalls :: "string list"
  sb_net_allow :: "net_allow list"
  sb_net_bind :: "u16 list"
  sb_http_allow :: "http_rule list"
  sb_http_deny :: "http_rule list"
  sb_http_ports :: "u16 list"
  sb_http_ca :: "string option"
  sb_http_key :: "string option"
  sb_max_memory :: "u64 option"
  sb_max_processes :: u32
  sb_max_open_files :: "u32 option"
  sb_max_cpu :: "u8 option"
  sb_random_seed :: "u64 option"
  sb_time_start :: "int option"
  sb_no_randomize_memory :: bool
  sb_no_huge_pages :: bool
  sb_no_coredump :: bool
  sb_deterministic_dirs :: bool
  sb_fs_isolation :: FsIsolation
  sb_workdir :: "string option"
  sb_cwd :: "string option"
  sb_fs_storage :: "string option"
  sb_max_disk :: "u64 option"
  sb_on_exit :: BranchAction
  sb_on_error :: BranchAction
  sb_fs_mount :: "(string \<times> string) list"
  sb_chroot :: "string option"
  sb_clean_env :: bool
  sb_env :: "string \<Rightarrow> string option"
  sb_gpu_devices :: "u32 list option"
  sb_cpu_cores :: "u32 list option"
  sb_num_cpus :: "u32 option"
  sb_port_remap :: bool
  sb_uid :: "u32 option"
  sb_policy_fn :: "policy_callback option"
  sb_name :: "string option"

record sandbox_builder =
  b_fs_writable :: "string list"
  b_fs_readable :: "string list"
  b_fs_denied :: "string list"
  b_extra_deny_syscalls :: "string list"
  b_extra_allow_syscalls :: "string list"
  b_net_allow :: "string list"
  b_net_bind :: "u16 list"
  b_http_allow :: "string list"
  b_http_deny :: "string list"
  b_http_ports :: "u16 list"
  b_http_ca :: "string option"
  b_http_key :: "string option"
  b_max_memory :: "u64 option"
  b_max_processes :: "u32 option"
  b_max_open_files :: "u32 option"
  b_max_cpu :: "u8 option"
  b_random_seed :: "u64 option"
  b_time_start :: "int option"
  b_no_randomize_memory :: bool
  b_no_huge_pages :: bool
  b_no_coredump :: bool
  b_deterministic_dirs :: bool
  b_fs_isolation :: "FsIsolation option"
  b_workdir :: "string option"
  b_cwd :: "string option"
  b_fs_storage :: "string option"
  b_max_disk :: "u64 option"
  b_on_exit :: "BranchAction option"
  b_on_error :: "BranchAction option"
  b_fs_mount :: "(string \<times> string) list"
  b_chroot :: "string option"
  b_clean_env :: bool
  b_env :: "string \<Rightarrow> string option"
  b_gpu_devices :: "u32 list option"
  b_cpu_cores :: "u32 list option"
  b_num_cpus :: "u32 option"
  b_port_remap :: bool
  b_uid :: "u32 option"
  b_policy_fn :: "policy_callback option"
  b_name :: "string option"

definition SandboxBuilder_default :: sandbox_builder where
  "SandboxBuilder_default =
    \<lparr>b_fs_writable = [], b_fs_readable = [], b_fs_denied = [], b_extra_deny_syscalls = [],
      b_extra_allow_syscalls = [], b_net_allow = [], b_net_bind = [], b_http_allow = [],
      b_http_deny = [], b_http_ports = [], b_http_ca = None, b_http_key = None,
      b_max_memory = None, b_max_processes = None, b_max_open_files = None, b_max_cpu = None,
      b_random_seed = None, b_time_start = None, b_no_randomize_memory = False,
      b_no_huge_pages = False, b_no_coredump = False, b_deterministic_dirs = False,
      b_fs_isolation = None, b_workdir = None, b_cwd = None, b_fs_storage = None,
      b_max_disk = None, b_on_exit = None, b_on_error = None, b_fs_mount = [],
      b_chroot = None, b_clean_env = False, b_env = (\<lambda>_. None), b_gpu_devices = None,
      b_cpu_cores = None, b_num_cpus = None, b_port_remap = False, b_uid = None,
      b_policy_fn = None, b_name = None\<rparr>"

definition allows_sysv_ipc :: "sandbox \<Rightarrow> bool" where
  "allows_sysv_ipc p = list_ex (\<lambda>s. s = ''sysv_ipc'') (sb_extra_allow_syscalls p)"

definition Sandbox_validate :: "sandbox \<Rightarrow> sandbox_error + unit" where
  "Sandbox_validate p =
     (if sb_fs_isolation p \<noteq> FsNone \<and> sb_workdir p = None then Inl FsIsolationRequiresWorkdir
      else Inr ())"

end
