(* ===== verification/Bpf.thy ===== *)
theory Bpf
  imports Arch
begin

text \<open>
  \<open>seccomp/bpf.rs\<close>: the instruction constructors and \<open>assemble_filter\<close>, and what the assembled
  program decides.

  The machine that runs the program is the kernel's classic-BPF interpreter, which is not part
  of the repository: it is a parameter \<open>exec\<close>. Classic BPF only jumps forward, so the state of a
  run is the instructions still to come and the accumulator: \<open>exec d prog a\<close> is the action
  returned for the call data \<open>d\<close>. The locale \<open>cbpf\<close> states the documented behaviour of the five
  instruction forms the repository emits; \<open>bpf_run\<close>, an interpreter for them, provides it.
\<close>

unbundle bit_operations_syntax

section \<open>Instruction constructors and the assembler\<close>

definition stmt :: "u16 \<Rightarrow> u32 \<Rightarrow> sock_filter" where
  "stmt c k = \<lparr>sf_code = c, sf_jt = 0, sf_jf = 0, sf_k = k\<rparr>"

definition jump :: "u16 \<Rightarrow> u32 \<Rightarrow> u8 \<Rightarrow> u8 \<Rightarrow> sock_filter" where
  "jump c k jt jf = \<lparr>sf_code = c, sf_jt = jt, sf_jf = jf, sf_k = k\<rparr>"

datatype filter_error = BpfTooLarge nat

definition MAX_BPF_INSNS :: nat where "MAX_BPF_INSNS = 4096"

definition ld_abs :: "u32 \<Rightarrow> sock_filter" where
  "ld_abs off = stmt (BPF_LD OR BPF_W OR BPF_ABS) off"
definition jeq :: "u32 \<Rightarrow> u8 \<Rightarrow> u8 \<Rightarrow> sock_filter" where
  "jeq = jump (BPF_JMP OR BPF_JEQ OR BPF_K)"
definition jset :: "u32 \<Rightarrow> u8 \<Rightarrow> u8 \<Rightarrow> sock_filter" where
  "jset = jump (BPF_JMP OR BPF_JSET OR BPF_K)"
definition alu_and :: "u32 \<Rightarrow> sock_filter" where
  "alu_and k = stmt (BPF_ALU OR BPF_AND OR BPF_K) k"
definition ret :: "u32 \<Rightarrow> sock_filter" where
  "ret k = stmt (BPF_RET OR BPF_K) k"

definition RET_EPERM :: u32 where
  "RET_EPERM = SECCOMP_RET_ERRNO OR word_of_int EPERM"

text \<open>The two JEQ loops of \<open>assemble_filter\<close>: \<open>for (i, &nr) in nrs.iter().enumerate()\<close>, the
  jump to the absolute index \<open>target\<close> narrowed with \<open>as u8\<close>.\<close>

definition jeq_loop :: "nat \<Rightarrow> nat \<Rightarrow> u32 list \<Rightarrow> sock_filter list" where
  "jeq_loop target base nrs =
     map (\<lambda>(i, nr). jeq nr (word_of_nat (target - (base + i + 1))) 0) (enumerate 0 nrs)"

definition assemble_filter ::
  "u32 list \<Rightarrow> u32 list \<Rightarrow> sock_filter list \<Rightarrow> filter_error + sock_filter list"
where
  "assemble_filter notif_syscalls block_syscalls arg_block = (
     let arch_block = 2;
         arg_block_len = length arg_block;
         load_nr = 1;
         notif_jmps = length notif_syscalls;
         deny_jmps = length block_syscalls;
         ret_section = 4;
         total = arch_block + arg_block_len + load_nr + notif_jmps + deny_jmps + ret_section
     in if total > MAX_BPF_INSNS then Inl (BpfTooLarge total)
     else
       let ret_kill_idx = total - 1;
           arch_jf = word_of_nat (ret_kill_idx - 2);
           ret_notif_idx = total - 3;
           notif_base = arch_block + arg_block_len + load_nr;
           ret_errno_idx = total - 2;
           deny_base = notif_base + notif_jmps
       in Inr ([ld_abs OFFSET_ARCH, jeq AUDIT_ARCH 0 arch_jf]
               @ arg_block
               @ [ld_abs OFFSET_NR]
               @ jeq_loop ret_notif_idx notif_base notif_syscalls
               @ jeq_loop ret_errno_idx deny_base block_syscalls
               @ [ret SECCOMP_RET_ALLOW, ret SECCOMP_RET_USER_NOTIF, ret RET_EPERM,
                  ret SECCOMP_RET_KILL_PROCESS]))"

text \<open>The number of instructions the code computes before emitting them.\<close>

definition filter_total :: "u32 list \<Rightarrow> u32 list \<Rightarrow> sock_filter list \<Rightarrow> nat" where
  "filter_total notif deny blk = length blk + length notif + length deny + 7"

lemma length_jeq_loop [simp]: "length (jeq_loop target base nrs) = length nrs"
  by (simp add: jeq_loop_def)

lemma assemble_filter_Inr:
  assumes "assemble_filter notif deny blk = Inr prog"
  shows "prog = ld_abs OFFSET_ARCH
      # jeq AUDIT_ARCH 0 (word_of_nat (filter_total notif deny blk - 3))
      # blk @ [ld_abs OFFSET_NR]
      @ jeq_loop (filter_total notif deny blk - 3) (length blk + 3) notif
      @ jeq_loop (filter_total notif deny blk - 2) (length blk + 3 + length notif) deny
      @ [ret SECCOMP_RET_ALLOW, ret SECCOMP_RET_USER_NOTIF, ret RET_EPERM,
         ret SECCOMP_RET_KILL_PROCESS]"
  using assms
  by (auto simp: assemble_filter_def filter_total_def Let_def numeral_eq_Suc ac_simps
      split: if_splits)

lemma assemble_filter_ok:
  "filter_total notif deny blk \<le> 4096 \<Longrightarrow> \<exists>prog. assemble_filter notif deny blk = Inr prog"
  by (simp add: assemble_filter_def filter_total_def Let_def MAX_BPF_INSNS_def)

section \<open>The call data as the kernel shows it to a filter\<close>

text \<open>
  A filter loads aligned 32-bit words of \<open>struct seccomp_data\<close>: the offsets are those of the
  \<open>#[repr(C)]\<close> structure of \<open>sys/structs.rs\<close> on a little-endian target.
\<close>

definition seccomp_word :: "seccomp_data \<Rightarrow> u32 \<Rightarrow> u32" where
  "seccomp_word d off = (
     if off = 0 then nr_of d
     else if off = 4 then arch_of d
     else if off = 8 then ucast (ip_of d)
     else if off = 12 then ucast (drop_bit 32 (ip_of d))
     else (let i = (unat off - 16) div 8; w = args_of d ! i in
           if (unat off - 16) mod 8 = 0 then ucast w else ucast (drop_bit 32 w)))"

definition arg_lo :: "seccomp_data \<Rightarrow> nat \<Rightarrow> u32" where
  "arg_lo d i = ucast (args_of d ! i)"

lemma seccomp_word_simps [simp]:
  "seccomp_word d OFFSET_NR = nr_of d"
  "seccomp_word d OFFSET_ARCH = arch_of d"
  "seccomp_word d OFFSET_ARGS0_LO = arg_lo d 0"
  "seccomp_word d OFFSET_ARGS1_LO = arg_lo d 1"
  "seccomp_word d OFFSET_ARGS2_LO = arg_lo d 2"
  "seccomp_word d OFFSET_ARGS3_LO = arg_lo d 3"
  by (simp_all add: seccomp_word_def arg_lo_def)

section \<open>The interface of the kernel's interpreter\<close>

locale cbpf =
  fixes exec :: "seccomp_data \<Rightarrow> sock_filter list \<Rightarrow> u32 \<Rightarrow> u32"
  assumes exec_ld: "exec d (ld_abs off # s) a = exec d s (seccomp_word d off)"
    and exec_jeq: "exec d (jeq k jt jf # s) a = exec d (drop (unat (if a = k then jt else jf)) s) a"
    and exec_jset:
      "exec d (jset k jt jf # s) a = exec d (drop (unat (if a AND k \<noteq> 0 then jt else jf)) s) a"
    and exec_and: "exec d (alu_and k # s) a = exec d s (a AND k)"
    and exec_ret: "exec d (ret k # s) a = k"
begin

lemmas step = exec_ld exec_jeq exec_jset exec_and exec_ret

text \<open>A block of instructions that answers some calls and lets the others run on into whatever
  follows it.\<close>

definition decides :: "sock_filter list \<Rightarrow> (seccomp_data \<Rightarrow> u32 option) \<Rightarrow> bool" where
  "decides blk f \<longleftrightarrow> (\<forall>d rest a. \<exists>a'. exec d (blk @ rest) a =
     (case f d of Some r \<Rightarrow> r | None \<Rightarrow> exec d rest a'))"

lemma decidesI:
  "(\<And>d rest a. \<exists>a'. exec d (blk @ rest) a = (case f d of Some r \<Rightarrow> r | None \<Rightarrow> exec d rest a'))
    \<Longrightarrow> decides blk f"
  by (simp add: decides_def)

lemma decides_Nil: "decides [] (\<lambda>_. None)"
  by (auto simp: decides_def)

lemma decides_append:
  assumes "decides b1 f1" "decides b2 f2"
  shows "decides (b1 @ b2) (\<lambda>d. case f1 d of Some r \<Rightarrow> Some r | None \<Rightarrow> f2 d)"
proof (rule decidesI)
  fix d rest a
  obtain a1 where 1: "exec d (b1 @ b2 @ rest) a =
      (case f1 d of Some r \<Rightarrow> r | None \<Rightarrow> exec d (b2 @ rest) a1)"
    using assms(1) unfolding decides_def by blast
  obtain a2 where 2: "exec d (b2 @ rest) a1 = (case f2 d of Some r \<Rightarrow> r | None \<Rightarrow> exec d rest a2)"
    using assms(2) unfolding decides_def by blast
  show "\<exists>a'. exec d ((b1 @ b2) @ rest) a =
      (case (case f1 d of Some r \<Rightarrow> Some r | None \<Rightarrow> f2 d) of Some r \<Rightarrow> r | None \<Rightarrow> exec d rest a')"
    using 1 2 by (auto split: option.splits)
qed

lemma decides_run:
  assumes "decides blk f"
    and "\<And>a'. exec d rest a' = v"
  shows "exec d (blk @ rest) a = (case f d of Some r \<Rightarrow> r | None \<Rightarrow> v)"
  using assms unfolding decides_def by (metis option.case_eq_if)

text \<open>A loop of JEQs whose targets all lie \<open>off\<close> instructions behind the loop's last one.\<close>

lemma exec_jeq_loop:
  assumes "target \<le> base + 256" "base + length nrs \<le> target"
  shows "exec d (jeq_loop target base nrs @ rest) a =
    (if a \<in> set nrs then exec d (drop (target - (base + length nrs)) rest) a else exec d rest a)"
  using assms
proof (induction nrs arbitrary: base)
  case Nil
  then show ?case by (simp add: jeq_loop_def)
next
  case (Cons n nrs)
  have shift: "jeq_loop target base (n # nrs) =
      jeq n (word_of_nat (target - (base + 1))) 0 # jeq_loop target (Suc base) nrs"
    by (simp add: jeq_loop_def enumerate_eq_zip del: upt_Suc)
       (simp add: upt_conv_Cons map_Suc_upt [symmetric] zip_map1 split_def del: upt_Suc)
  have small: "target - (base + 1) < 256" using Cons.prems by auto
  then have u: "unat (word_of_nat (target - (base + 1)) :: u8) = target - (base + 1)"
    by (simp add: unat_of_nat take_bit_nat_eq_self)
  have le: "length nrs \<le> target - (base + 1)" using Cons.prems by auto
  have IH: "exec d (jeq_loop target (Suc base) nrs @ rest) a =
    (if a \<in> set nrs then exec d (drop (target - (Suc base + length nrs)) rest) a else exec d rest a)"
    using Cons.prems by (intro Cons.IH) auto
  show ?case
    using le u IH by (simp add: shift exec_jeq)
qed

text \<open>The program behind the architecture check, while the JEQ offsets fit in their byte.\<close>

definition filter_body :: "u32 list \<Rightarrow> u32 list \<Rightarrow> sock_filter list \<Rightarrow> sock_filter list" where
  "filter_body notif deny blk = blk @ [ld_abs OFFSET_NR]
      @ jeq_loop (filter_total notif deny blk - 3) (length blk + 3) notif
      @ jeq_loop (filter_total notif deny blk - 2) (length blk + 3 + length notif) deny
      @ [ret SECCOMP_RET_ALLOW, ret SECCOMP_RET_USER_NOTIF, ret RET_EPERM,
         ret SECCOMP_RET_KILL_PROCESS]"

definition body_decision ::
  "u32 list \<Rightarrow> u32 list \<Rightarrow> (seccomp_data \<Rightarrow> u32 option) \<Rightarrow> seccomp_data \<Rightarrow> u32" where
  "body_decision notif deny f d = (case f d of Some r \<Rightarrow> r | None \<Rightarrow>
       if nr_of d \<in> set notif then SECCOMP_RET_USER_NOTIF
       else if nr_of d \<in> set deny then RET_EPERM
       else SECCOMP_RET_ALLOW)"

lemma assembled_form:
  "assemble_filter notif deny blk = Inr prog \<Longrightarrow>
    prog = ld_abs OFFSET_ARCH # jeq AUDIT_ARCH 0 (word_of_nat (filter_total notif deny blk - 3))
      # filter_body notif deny blk"
  using assemble_filter_Inr by (auto simp: filter_body_def)

lemma exec_body:
  assumes blk: "decides blk f" and fits: "filter_total notif deny blk \<le> 259"
  shows "exec d (filter_body notif deny blk) a = body_decision notif deny f d"
proof -
  let ?t = "filter_total notif deny blk"
  let ?rets = "[ret SECCOMP_RET_ALLOW, ret SECCOMP_RET_USER_NOTIF, ret RET_EPERM,
                ret SECCOMP_RET_KILL_PROCESS]"
  let ?nb = "length blk + 3"
  let ?l1 = "jeq_loop (?t - 3) ?nb notif"
  let ?l2 = "jeq_loop (?t - 2) (?nb + length notif) deny"
  have l2: "exec d (?l2 @ ?rets) n =
      (if n \<in> set deny then RET_EPERM else SECCOMP_RET_ALLOW)" for n
    using fits by (subst exec_jeq_loop) (auto simp: filter_total_def exec_ret)
  have l1: "exec d (?l1 @ ?l2 @ ?rets) n =
      (if n \<in> set notif then SECCOMP_RET_USER_NOTIF
       else if n \<in> set deny then RET_EPERM else SECCOMP_RET_ALLOW)" for n
    using fits l2 by (subst exec_jeq_loop) (auto simp: filter_total_def exec_ret)
  show ?thesis
    unfolding filter_body_def body_decision_def
    by (rule decides_run [OF blk]) (simp add: exec_ld l1)
qed

lemma exec_assembled:
  assumes blk: "decides blk f"
    and ok: "assemble_filter notif deny blk = Inr prog"
    and fits: "filter_total notif deny blk \<le> 258"
  shows "exec d prog a = (if arch_of d \<noteq> AUDIT_ARCH then SECCOMP_RET_KILL_PROCESS
     else body_decision notif deny f d)"
proof (cases "arch_of d = AUDIT_ARCH")
  case True
  have "filter_total notif deny blk \<le> 259" using fits by simp
  note exec_body [OF blk this, of d AUDIT_ARCH]
  with True show ?thesis
    unfolding assembled_form [OF ok] by (simp add: exec_ld exec_jeq)
next
  case False
  let ?t = "filter_total notif deny blk"
  have u: "unat (word_of_nat (?t - 3) :: u8) = ?t - 3"
    using fits by (simp add: unat_of_nat take_bit_nat_eq_self)
  let ?init = "blk @ [ld_abs OFFSET_NR]
      @ jeq_loop (filter_total notif deny blk - 3) (length blk + 3) notif
      @ jeq_loop (filter_total notif deny blk - 2) (length blk + 3 + length notif) deny
      @ [ret SECCOMP_RET_ALLOW, ret SECCOMP_RET_USER_NOTIF, ret RET_EPERM]"
  have "filter_body notif deny blk = ?init @ [ret SECCOMP_RET_KILL_PROCESS]"
    by (simp add: filter_body_def)
  moreover have "length ?init = ?t - 3" by (simp add: filter_total_def)
  ultimately have "drop (?t - 3) (filter_body notif deny blk) = [ret SECCOMP_RET_KILL_PROCESS]"
    by (metis append_eq_conv_conj)
  with False u show ?thesis
    unfolding assembled_form [OF ok] by (simp add: exec_ld exec_jeq exec_ret)
qed

text \<open>With one instruction more the offset of the architecture check wraps to 0, and a foreign
  call runs on into the body.\<close>

lemma exec_assembled_wrapped:
  assumes blk: "decides blk f"
    and ok: "assemble_filter notif deny blk = Inr prog"
    and total: "filter_total notif deny blk = 259"
  shows "exec d prog a = body_decision notif deny f d"
  unfolding assembled_form [OF ok] total
  using exec_body [OF blk] total by (simp add: exec_ld exec_jeq)

end

text \<open>An interpreter for the instruction forms the repository emits. Leaving the program, or an
  unknown instruction, kills the process (the kernel refuses to load such a program).\<close>

fun bpf_run :: "seccomp_data \<Rightarrow> sock_filter list \<Rightarrow> u32 \<Rightarrow> u32" where
  "bpf_run d [] a = SECCOMP_RET_KILL_PROCESS"
| "bpf_run d (i # s) a = (
     let c = sf_code i; k = sf_k i in
     if c = (BPF_LD OR BPF_W OR BPF_ABS) then bpf_run d s (seccomp_word d k)
     else if c = (BPF_JMP OR BPF_JEQ OR BPF_K) then
       bpf_run d (drop (unat (if a = k then sf_jt i else sf_jf i)) s) a
     else if c = (BPF_JMP OR BPF_JSET OR BPF_K) then
       bpf_run d (drop (unat (if a AND k \<noteq> 0 then sf_jt i else sf_jf i)) s) a
     else if c = (BPF_ALU OR BPF_AND OR BPF_K) then bpf_run d s (a AND k)
     else if c = (BPF_RET OR BPF_K) then k
     else SECCOMP_RET_KILL_PROCESS)"

declare bpf_run.simps(2) [simp del]

interpretation kernel: cbpf bpf_run
  by unfold_locales
    (simp_all add: bpf_run.simps(2) ld_abs_def jeq_def jset_def alu_and_def ret_def
      stmt_def jump_def)

end
