(* ===== verification/Context.thy ===== *)
theory Context
  imports Config Bpf
begin

text \<open>
  \<open>context.rs\<close>: from a \<open>Sandbox\<close> to the seccomp filter of its first process. Which syscalls notify
  the supervisor (\<open>notif_syscalls\<close>), which are refused in the kernel (\<open>blocklist_syscall_numbers\<close>),
  the argument-level instructions (\<open>arg_filters\<close>), and the filter assembly of \<open>confine_child\<close>.
\<close>

unbundle bit_operations_syntax

section \<open>Syscall names\<close>

definition syscall_table :: "(string \<times> u32) list" where
  "syscall_table =
     [(''mount'', SYS_mount), (''umount2'', SYS_umount2), (''pivot_root'', SYS_pivot_root),
      (''swapon'', SYS_swapon), (''swapoff'', SYS_swapoff), (''reboot'', SYS_reboot),
      (''sethostname'', SYS_sethostname), (''setdomainname'', SYS_setdomainname),
      (''kexec_load'', SYS_kexec_load), (''init_module'', SYS_init_module),
      (''finit_module'', SYS_finit_module), (''delete_module'', SYS_delete_module),
      (''unshare'', SYS_unshare), (''setns'', SYS_setns),
      (''perf_event_open'', SYS_perf_event_open), (''bpf'', SYS_bpf),
      (''userfaultfd'', SYS_userfaultfd), (''keyctl'', SYS_keyctl), (''add_key'', SYS_add_key),
      (''request_key'', SYS_request_key), (''ptrace'', SYS_ptrace),
      (''process_vm_readv'', SYS_process_vm_readv),
      (''process_vm_writev'', SYS_process_vm_writev),
      (''open_by_handle_at'', SYS_open_by_handle_at),
      (''name_to_handle_at'', SYS_name_to_handle_at), (''ioperm'', SYS_ioperm),
      (''iopl'', SYS_iopl), (''quotactl'', SYS_quotactl), (''acct'', SYS_acct),
      (''lookup_dcookie'', SYS_lookup_dcookie), (''personality'', SYS_personality),
      (''io_uring_setup'', SYS_io_uring_setup), (''io_uring_enter'', SYS_io_uring_enter),
      (''io_uring_register'', SYS_io_uring_register), (''clone'', SYS_clone),
      (''clone3'', SYS_clone3), (''vfork'', SYS_vfork), (''mmap'', SYS_mmap),
      (''munmap'', SYS_munmap), (''brk'', SYS_brk), (''mremap'', SYS_mremap),
      (''connect'', SYS_connect), (''sendto'', SYS_sendto), (''sendmsg'', SYS_sendmsg),
      (''sendmmsg'', SYS_sendmmsg), (''ioctl'', SYS_ioctl), (''socket'', SYS_socket),
      (''prctl'', SYS_prctl), (''getrandom'', SYS_getrandom), (''openat'', SYS_openat),
      (''open'', SYS_open), (''getdents64'', SYS_getdents64), (''getdents'', SYS_getdents),
      (''bind'', SYS_bind), (''getsockname'', SYS_getsockname),
      (''clock_gettime'', SYS_clock_gettime), (''gettimeofday'', SYS_gettimeofday),
      (''time'', SYS_time), (''clock_nanosleep'', SYS_clock_nanosleep),
      (''timerfd_settime'', SYS_timerfd_settime), (''timer_settime'', SYS_timer_settime),
      (''execve'', SYS_execve), (''execveat'', SYS_execveat), (''unlinkat'', SYS_unlinkat),
      (''mkdirat'', SYS_mkdirat), (''renameat2'', SYS_renameat2),
      (''newfstatat'', SYS_newfstatat), (''statx'', SYS_statx), (''faccessat'', SYS_faccessat),
      (''symlinkat'', SYS_symlinkat), (''linkat'', SYS_linkat), (''fchmodat'', SYS_fchmodat),
      (''fchownat'', SYS_fchownat), (''readlinkat'', SYS_readlinkat),
      (''truncate'', SYS_truncate), (''utimensat'', SYS_utimensat), (''unlink'', SYS_unlink),
      (''rmdir'', SYS_rmdir), (''mkdir'', SYS_mkdir), (''rename'', SYS_rename),
      (''stat'', SYS_stat), (''lstat'', SYS_lstat), (''access'', SYS_access),
      (''symlink'', SYS_symlink), (''link'', SYS_link), (''chmod'', SYS_chmod),
      (''chown'', SYS_chown), (''lchown'', SYS_lchown), (''readlink'', SYS_readlink),
      (''futimesat'', SYS_futimesat), (''fork'', SYS_fork), (''shmget'', SYS_shmget),
      (''shmat'', SYS_shmat), (''shmdt'', SYS_shmdt), (''shmctl'', SYS_shmctl),
      (''msgget'', SYS_msgget), (''msgsnd'', SYS_msgsnd), (''msgrcv'', SYS_msgrcv),
      (''msgctl'', SYS_msgctl), (''semget'', SYS_semget), (''semop'', SYS_semop),
      (''semctl'', SYS_semctl), (''semtimedop'', SYS_semtimedop)]"

definition syscall_name_to_nr :: "string \<Rightarrow> u32 option" where
  "syscall_name_to_nr nm = map_of syscall_table nm"

definition SYSV_IPC_BLOCKLIST_SYSCALLS :: "string list" where
  "SYSV_IPC_BLOCKLIST_SYSCALLS =
     [''shmget'', ''shmat'', ''shmdt'', ''shmctl'', ''msgget'', ''msgsnd'', ''msgrcv'',
      ''msgctl'', ''semget'', ''semop'', ''semctl'', ''semtimedop'']"

definition DEFAULT_BLOCKLIST_SYSCALLS :: "string list" where
  "DEFAULT_BLOCKLIST_SYSCALLS =
     [''mount'', ''umount2'', ''pivot_root'', ''swapon'', ''swapoff'', ''reboot'',
      ''sethostname'', ''setdomainname'', ''kexec_load'', ''init_module'', ''finit_module'',
      ''delete_module'', ''unshare'', ''setns'', ''perf_event_open'', ''bpf'', ''userfaultfd'',
      ''keyctl'', ''add_key'', ''request_key'', ''ptrace'', ''process_vm_readv'',
      ''process_vm_writev'', ''open_by_handle_at'', ''name_to_handle_at'', ''ioperm'', ''iopl'',
      ''quotactl'', ''acct'', ''lookup_dcookie'', ''nfsservctl'', ''io_uring_setup'',
      ''io_uring_enter'', ''io_uring_register'', ''personality'']"

definition NO_SUPERVISOR_BLOCKLIST_SYSCALLS :: "string list" where
  "NO_SUPERVISOR_BLOCKLIST_SYSCALLS =
     [''swapon'', ''swapoff'', ''reboot'', ''kexec_load'', ''init_module'', ''finit_module'',
      ''delete_module'', ''perf_event_open'', ''bpf'', ''ioperm'', ''iopl'', ''io_uring_setup'',
      ''io_uring_enter'', ''io_uring_register'']"

section \<open>Syscalls that notify the supervisor\<close>

text \<open>\<open>for nr in [...] { arch::push_optional_syscall(&mut nrs, nr); }\<close>\<close>

definition push_optionals :: "int option list \<Rightarrow> u32 list" where
  "push_optionals os = foldl push_optional_syscall [] os"

definition notif_process :: "sandbox \<Rightarrow> u32 list" where
  "notif_process p = [SYS_clone, SYS_clone3, SYS_wait4, SYS_waitid]
     @ push_optionals [Some SYS_vfork]
     @ (if sb_policy_fn p \<noteq> None then push_optionals [Some SYS_fork] else [])"

definition notif_memory :: "sandbox \<Rightarrow> u32 list" where
  "notif_memory p = (if sb_max_memory p \<noteq> None then
       [SYS_mmap, SYS_munmap, SYS_brk, SYS_mremap]
       @ (if allows_sysv_ipc p then [SYS_shmget] else [])
     else [])"

definition notif_network :: "sandbox \<Rightarrow> u32 list" where
  "notif_network p =
     (if sb_net_allow p \<noteq> [] \<or> sb_policy_fn p \<noteq> None \<or> sb_http_allow p \<noteq> [] \<or> sb_http_deny p \<noteq> []
      then [SYS_connect, SYS_sendto, SYS_sendmsg, SYS_sendmmsg, SYS_bind] else [])"

definition notif_determinism :: "sandbox \<Rightarrow> u32 list" where
  "notif_determinism p =
     (if sb_random_seed p \<noteq> None then [SYS_getrandom, SYS_openat] else [])
     @ (if sb_time_start p \<noteq> None
        then [SYS_clock_nanosleep, SYS_timerfd_settime, SYS_timer_settime] @ [SYS_openat] else [])"

definition notif_virtual :: "sandbox \<Rightarrow> string option \<Rightarrow> u32 list" where
  "notif_virtual p sandbox_name =
     [SYS_openat, SYS_getdents64] @ push_optionals [Some SYS_getdents]
     @ [SYS_socket, SYS_bind, SYS_getsockname, SYS_recvfrom, SYS_recvmsg, SYS_close]
     @ (if sb_num_cpus p \<noteq> None then [SYS_sched_getaffinity] else [])
     @ (if sandbox_name \<noteq> None then [SYS_uname, SYS_openat] else [])"

definition notif_cow :: "sandbox \<Rightarrow> u32 list" where
  "notif_cow p = (if sb_workdir p \<noteq> None \<and> sb_fs_isolation p = FsNone then
       [SYS_openat, SYS_execve, SYS_execveat, SYS_unlinkat, SYS_mkdirat, SYS_renameat2,
        SYS_symlinkat, SYS_linkat, SYS_fchmodat, SYS_fchownat, SYS_truncate, SYS_utimensat,
        SYS_newfstatat, SYS_statx, SYS_faccessat, SYS_faccessat2, SYS_readlinkat,
        SYS_getdents64, SYS_chdir, SYS_getcwd]
       @ push_optionals
           [Some SYS_open, Some SYS_unlink, Some SYS_rmdir, Some SYS_mkdir, Some SYS_rename,
            Some SYS_symlink, Some SYS_link, Some SYS_chmod, Some SYS_chown, Some SYS_lchown,
            Some SYS_stat, Some SYS_lstat, Some SYS_access, Some SYS_readlink, Some SYS_getdents]
     else [])"

definition notif_chroot :: "sandbox \<Rightarrow> u32 list" where
  "notif_chroot p = (if sb_chroot p \<noteq> None then
       [SYS_openat, SYS_execve, SYS_execveat, SYS_unlinkat, SYS_mkdirat, SYS_renameat2,
        SYS_symlinkat, SYS_linkat, SYS_fchmodat, SYS_fchownat, SYS_truncate, SYS_newfstatat,
        SYS_statx, SYS_faccessat, SYS_faccessat2, SYS_readlinkat, SYS_getdents64, SYS_chdir,
        SYS_getcwd, SYS_statfs, SYS_utimensat]
       @ push_optionals
           [Some SYS_open, Some SYS_stat, Some SYS_lstat, Some SYS_access, Some SYS_readlink,
            Some SYS_getdents, Some SYS_unlink, Some SYS_rmdir, Some SYS_mkdir, Some SYS_rename,
            Some SYS_symlink, Some SYS_link, Some SYS_chmod, Some SYS_chown, Some SYS_lchown]
     else [])"

definition notif_denied :: "sandbox \<Rightarrow> u32 list" where
  "notif_denied p = (if sb_fs_denied p \<noteq> [] then
       [SYS_openat, SYS_execve, SYS_execveat, SYS_linkat, SYS_renameat2, SYS_symlinkat]
       @ push_optionals [Some SYS_open, Some SYS_link, Some SYS_rename, Some SYS_symlink]
     else [])"

definition notif_policy_fn :: "sandbox \<Rightarrow> u32 list" where
  "notif_policy_fn p = (if sb_policy_fn p \<noteq> None then
       [SYS_openat, SYS_connect, SYS_sendto, SYS_bind, SYS_execve, SYS_execveat] else [])"

definition notif_port_remap :: "sandbox \<Rightarrow> u32 list" where
  "notif_port_remap p = (if sb_port_remap p then [SYS_bind, SYS_getsockname] else [])"

text \<open>\<open>sort_unstable\<close> followed by \<open>dedup\<close> (which drops equal neighbours).\<close>

definition sort_dedup :: "u32 list \<Rightarrow> u32 list" where
  "sort_dedup nrs = remdups_adj (sort nrs)"

definition notif_syscalls :: "sandbox \<Rightarrow> string option \<Rightarrow> u32 list" where
  "notif_syscalls p sandbox_name = sort_dedup
     (notif_process p @ notif_memory p @ notif_network p @ notif_determinism p
      @ notif_virtual p sandbox_name @ notif_cow p @ notif_chroot p @ notif_denied p
      @ notif_policy_fn p @ notif_port_remap p)"

section \<open>Syscalls refused in the kernel\<close>

text \<open>The loop over the SysV names: append what resolves and is not there yet.\<close>

definition push_sysv :: "u32 list \<Rightarrow> u32 list" where
  "push_sysv nrs = foldl (\<lambda>nrs nm. case syscall_name_to_nr nm of
       Some nr \<Rightarrow> if nr \<in> set nrs then nrs else nrs @ [nr] | None \<Rightarrow> nrs)
     nrs SYSV_IPC_BLOCKLIST_SYSCALLS"

definition no_supervisor_blocklist_syscall_numbers :: "sandbox \<Rightarrow> u32 list" where
  "no_supervisor_blocklist_syscall_numbers p =
     (let nrs = List.map_filter syscall_name_to_nr
            (NO_SUPERVISOR_BLOCKLIST_SYSCALLS @ sb_extra_deny_syscalls p)
      in sort_dedup (if allows_sysv_ipc p then nrs else push_sysv nrs))"

definition blocklist_syscall_numbers :: "sandbox \<Rightarrow> u32 list" where
  "blocklist_syscall_numbers p =
     (let nrs = List.map_filter syscall_name_to_nr
            (DEFAULT_BLOCKLIST_SYSCALLS @ sb_extra_deny_syscalls p)
      in sort_dedup (if allows_sysv_ipc p then nrs else push_sysv nrs))"

section \<open>Argument filters\<close>

definition clone_block :: "sock_filter list" where
  "clone_block =
     [ld_abs OFFSET_NR, jeq SYS_clone 0 3, ld_abs OFFSET_ARGS0_LO,
      jset (ucast CLONE_NS_FLAGS) 0 1, ret RET_EPERM]"

definition deny_values :: "u32 list \<Rightarrow> sock_filter list" where
  "deny_values cmds = concat (map (\<lambda>cmd. [jeq cmd 0 1, ret RET_EPERM]) cmds)"

definition ioctl_block :: "sock_filter list" where
  "ioctl_block = (let n_ioctls = length DANGEROUS_IOCTLS;
       skip_count = word_of_nat (1 + n_ioctls * 2)
     in [ld_abs OFFSET_NR, jeq SYS_ioctl 0 skip_count, ld_abs OFFSET_ARGS1_LO]
        @ deny_values DANGEROUS_IOCTLS)"

definition prctl_block :: "sock_filter list" where
  "prctl_block = (let n_ops = length DANGEROUS_PRCTL_OPS;
       skip_count = word_of_nat (1 + n_ops * 2)
     in [ld_abs OFFSET_NR, jeq SYS_prctl 0 skip_count, ld_abs OFFSET_ARGS0_LO]
        @ deny_values DANGEROUS_PRCTL_OPS)"

definition blocked_types :: "sandbox \<Rightarrow> u32 list" where
  "blocked_types p =
     (let any_udp_rule = list_ex (\<lambda>r. na_protocol r = Udp) (sb_net_allow p);
          any_icmp_rule = list_ex (\<lambda>r. na_protocol r = Icmp) (sb_net_allow p)
      in [SOCK_RAW] @ (if \<not> any_udp_rule \<and> \<not> any_icmp_rule then [SOCK_DGRAM] else []))"

definition socket_block :: "u32 list \<Rightarrow> sock_filter list" where
  "socket_block types = (if types = [] then [] else
     let n = length types;
         after_domain = 2 + n + 1;
         skip_all = word_of_nat (3 + after_domain)
     in [ld_abs OFFSET_NR, jeq SYS_socket 0 skip_all, ld_abs OFFSET_ARGS0_LO,
         jeq AF_INET 1 0, jeq AF_INET6 0 (word_of_nat after_domain),
         ld_abs OFFSET_ARGS1_LO, alu_and SOCK_TYPE_MASK]
        @ map (\<lambda>(i, sock_type).
             let remaining = n - i - 1; jf = (if remaining = 0 then 1 else 0)
             in jeq sock_type (word_of_nat remaining) jf) (enumerate 0 types)
        @ [ret RET_EPERM])"

text \<open>\<open>(libc::WNOHANG | 0x0100_0000) as u32\<close>\<close>

definition WNOHANG_OR_WNOWAIT :: u32 where "WNOHANG_OR_WNOWAIT = 1 OR 0x01000000"

definition wait_block :: "u32 \<Rightarrow> u32 \<Rightarrow> sock_filter list" where
  "wait_block nr options_off =
     [ld_abs OFFSET_NR, jeq nr 0 3, ld_abs options_off,
      jset WNOHANG_OR_WNOWAIT 0 1, ret SECCOMP_RET_ALLOW]"

definition arg_filters :: "sandbox \<Rightarrow> sock_filter list" where
  "arg_filters p = clone_block @ ioctl_block @ prctl_block @ socket_block (blocked_types p)
     @ wait_block SYS_wait4 OFFSET_ARGS2_LO @ wait_block SYS_waitid OFFSET_ARGS3_LO"

section \<open>The filter confine_child installs\<close>

text \<open>\<open>merged_notif\<close> is the list the first-level branch of \<open>confine_child\<close> builds out of
  \<open>notif_syscalls\<close> and the syscalls of caller-supplied handlers.\<close>

definition merged_notif :: "sandbox \<Rightarrow> string option \<Rightarrow> u32 list \<Rightarrow> u32 list" where
  "merged_notif p sandbox_name extra_syscalls =
     (let notif = notif_syscalls p sandbox_name @ (if extra_syscalls = [] then [] else extra_syscalls);
          exec_extra = list_ex (\<lambda>n. n = SYS_execve \<or> n = SYS_execveat) extra_syscalls
      in sort_dedup (if exec_extra then push_optional_syscall notif (Some SYS_fork) else notif))"

definition confine_child_filter ::
  "sandbox \<Rightarrow> string option \<Rightarrow> bool \<Rightarrow> u32 list \<Rightarrow> filter_error + sock_filter list" where
  "confine_child_filter p sandbox_name nested extra_syscalls =
     (let deny = blocklist_syscall_numbers p; args = arg_filters p in
      if nested then assemble_filter [] deny args
      else assemble_filter (merged_notif p sandbox_name extra_syscalls) deny args)"

section \<open>What the argument filters decide\<close>

definition arg_decision :: "sandbox \<Rightarrow> seccomp_data \<Rightarrow> u32 option" where
  "arg_decision p d =
     (if nr_of d = SYS_clone \<and> arg_lo d 0 AND ucast CLONE_NS_FLAGS \<noteq> 0 then Some RET_EPERM
      else if nr_of d = SYS_ioctl \<and> arg_lo d 1 \<in> set DANGEROUS_IOCTLS then Some RET_EPERM
      else if nr_of d = SYS_prctl \<and> arg_lo d 0 \<in> set DANGEROUS_PRCTL_OPS then Some RET_EPERM
      else if nr_of d = SYS_socket \<and> arg_lo d 0 \<in> {AF_INET, AF_INET6}
              \<and> (arg_lo d 1 AND SOCK_TYPE_MASK) \<in> set (blocked_types p) then Some RET_EPERM
      else if nr_of d = SYS_wait4 \<and> arg_lo d 2 AND WNOHANG_OR_WNOWAIT \<noteq> 0
        then Some SECCOMP_RET_ALLOW
      else if nr_of d = SYS_waitid \<and> arg_lo d 3 AND WNOHANG_OR_WNOWAIT \<noteq> 0
        then Some SECCOMP_RET_ALLOW
      else None)"

definition filter_decision ::
  "sandbox \<Rightarrow> u32 set \<Rightarrow> seccomp_data \<Rightarrow> u32" where
  "filter_decision p notif d =
     (if arch_of d \<noteq> AUDIT_ARCH then SECCOMP_RET_KILL_PROCESS
      else case arg_decision p d of Some r \<Rightarrow> r | None \<Rightarrow>
        if nr_of d \<in> notif then SECCOMP_RET_USER_NOTIF
        else if nr_of d \<in> set (blocklist_syscall_numbers p) then RET_EPERM
        else SECCOMP_RET_ALLOW)"

context cbpf
begin

lemma exec_deny_values:
  "exec d (deny_values cmds @ rest) a = (if a \<in> set cmds then RET_EPERM else exec d rest a)"
  by (induction cmds) (auto simp: deny_values_def exec_jeq exec_ret)

lemma length_deny_values: "length (deny_values cmds) = 2 * length cmds"
  by (induction cmds) (auto simp: deny_values_def)

lemma decides_clone: "decides clone_block (\<lambda>d.
    if nr_of d = SYS_clone \<and> arg_lo d 0 AND ucast CLONE_NS_FLAGS \<noteq> 0 then Some RET_EPERM else None)"
  by (rule decidesI) (auto simp: clone_block_def step)

lemma decides_wait:
  "decides (wait_block nr off) (\<lambda>d.
    if nr_of d = nr \<and> seccomp_word d off AND WNOHANG_OR_WNOWAIT \<noteq> 0
    then Some SECCOMP_RET_ALLOW else None)"
  by (rule decidesI) (auto simp: wait_block_def step)

lemma decides_values:
  assumes "2 * length cmds < 255"
  shows "decides ([ld_abs OFFSET_NR, jeq nr 0 (word_of_nat (1 + length cmds * 2)), ld_abs off]
      @ deny_values cmds)
    (\<lambda>d. if nr_of d = nr \<and> seccomp_word d off \<in> set cmds then Some RET_EPERM else None)"
proof -
  have "unat (word_of_nat (1 + length cmds * 2) :: u8) = 1 + length cmds * 2"
    using assms by (simp only: unat_of_nat take_bit_nat_def) simp
  then show ?thesis
    by (intro decidesI)
       (auto simp: step exec_deny_values length_deny_values simp del: of_nat_add of_nat_mult of_nat_Suc)
qed

lemma decides_socket: "decides (socket_block (blocked_types p)) (\<lambda>d.
    if nr_of d = SYS_socket \<and> arg_lo d 0 \<in> {AF_INET, AF_INET6}
       \<and> (arg_lo d 1 AND SOCK_TYPE_MASK) \<in> set (blocked_types p) then Some RET_EPERM else None)"
  by (rule decidesI)
     (auto simp: socket_block_def blocked_types_def Let_def step)

lemma decides_arg_filters: "decides (arg_filters p) (arg_decision p)"
proof -
  have "decides ioctl_block (\<lambda>d. if nr_of d = SYS_ioctl \<and> arg_lo d 1 \<in> set DANGEROUS_IOCTLS
      then Some RET_EPERM else None)"
    using decides_values [of DANGEROUS_IOCTLS SYS_ioctl OFFSET_ARGS1_LO]
    by (simp add: ioctl_block_def DANGEROUS_IOCTLS_def)
  moreover have "decides prctl_block (\<lambda>d. if nr_of d = SYS_prctl \<and> arg_lo d 0 \<in> set DANGEROUS_PRCTL_OPS
      then Some RET_EPERM else None)"
    using decides_values [of DANGEROUS_PRCTL_OPS SYS_prctl OFFSET_ARGS0_LO]
    by (simp add: prctl_block_def DANGEROUS_PRCTL_OPS_def)
  moreover have "decides (wait_block SYS_wait4 OFFSET_ARGS2_LO) (\<lambda>d.
      if nr_of d = SYS_wait4 \<and> arg_lo d 2 AND WNOHANG_OR_WNOWAIT \<noteq> 0
      then Some SECCOMP_RET_ALLOW else None)"
    using decides_wait [of SYS_wait4 OFFSET_ARGS2_LO] by simp
  moreover have "decides (wait_block SYS_waitid OFFSET_ARGS3_LO) (\<lambda>d.
      if nr_of d = SYS_waitid \<and> arg_lo d 3 AND WNOHANG_OR_WNOWAIT \<noteq> 0
      then Some SECCOMP_RET_ALLOW else None)"
    using decides_wait [of SYS_waitid OFFSET_ARGS3_LO] by simp
  ultimately have "decides (arg_filters p) (\<lambda>d. case
      (if nr_of d = SYS_clone \<and> arg_lo d 0 AND ucast CLONE_NS_FLAGS \<noteq> 0 then Some RET_EPERM
       else None) of Some r \<Rightarrow> Some r | None \<Rightarrow> case
      (if nr_of d = SYS_ioctl \<and> arg_lo d 1 \<in> set DANGEROUS_IOCTLS then Some RET_EPERM
       else None) of Some r \<Rightarrow> Some r | None \<Rightarrow> case
      (if nr_of d = SYS_prctl \<and> arg_lo d 0 \<in> set DANGEROUS_PRCTL_OPS then Some RET_EPERM
       else None) of Some r \<Rightarrow> Some r | None \<Rightarrow> case
      (if nr_of d = SYS_socket \<and> arg_lo d 0 \<in> {AF_INET, AF_INET6}
          \<and> (arg_lo d 1 AND SOCK_TYPE_MASK) \<in> set (blocked_types p) then Some RET_EPERM
       else None) of Some r \<Rightarrow> Some r | None \<Rightarrow> case
      (if nr_of d = SYS_wait4 \<and> arg_lo d 2 AND WNOHANG_OR_WNOWAIT \<noteq> 0
       then Some SECCOMP_RET_ALLOW else None) of Some r \<Rightarrow> Some r | None \<Rightarrow>
      (if nr_of d = SYS_waitid \<and> arg_lo d 3 AND WNOHANG_OR_WNOWAIT \<noteq> 0
       then Some SECCOMP_RET_ALLOW else None))"
    unfolding arg_filters_def
    by (intro decides_append decides_clone decides_socket)
  then show ?thesis
    by (rule arg_cong [of _ _ "decides (arg_filters p)", THEN iffD1, rotated])
       (auto simp: arg_decision_def fun_eq_iff)
qed

end

section \<open>Which syscalls can be on the lists\<close>

lemma set_sort_dedup [simp]: "set (sort_dedup nrs) = set nrs"
  by (simp add: sort_dedup_def)

lemma distinct_sort_dedup: "distinct (sort_dedup nrs)"
proof -
  have "distinct (remdups_adj xs)" if "sorted xs" for xs :: "u32 list"
    using that
  proof (induction xs rule: remdups_adj.induct)
    case (3 x y xs)
    then show ?case by (auto simp: remdups_adj_set)
  qed auto
  then show ?thesis by (simp add: sort_dedup_def)
qed

lemma length_le_universe: "distinct xs \<Longrightarrow> set xs \<subseteq> set ys \<Longrightarrow> length xs \<le> length ys"
  by (metis card_length card_mono distinct_card le_trans List.finite_set)

lemma length_sort_dedup_le: "set nrs \<subseteq> set ys \<Longrightarrow> length (sort_dedup nrs) \<le> length ys"
  by (rule length_le_universe) (auto simp: distinct_sort_dedup)

text \<open>Every syscall any configuration can put on the notification list.\<close>

definition all_notif :: "u32 list" where
  "all_notif =
     [SYS_access, SYS_bind, SYS_brk, SYS_chdir, SYS_chmod, SYS_chown, SYS_clock_nanosleep,
      SYS_clone, SYS_clone3, SYS_close, SYS_connect, SYS_execve, SYS_execveat, SYS_faccessat,
      SYS_faccessat2, SYS_fchmodat, SYS_fchownat, SYS_fork, SYS_getcwd, SYS_getdents,
      SYS_getdents64, SYS_getrandom, SYS_getsockname, SYS_lchown, SYS_link, SYS_linkat,
      SYS_lstat, SYS_mkdir, SYS_mkdirat, SYS_mmap, SYS_mremap, SYS_munmap, SYS_newfstatat,
      SYS_open, SYS_openat, SYS_readlink, SYS_readlinkat, SYS_recvfrom, SYS_recvmsg,
      SYS_rename, SYS_renameat2, SYS_rmdir, SYS_sched_getaffinity, SYS_sendmmsg, SYS_sendmsg,
      SYS_sendto, SYS_shmget, SYS_socket, SYS_stat, SYS_statfs, SYS_statx, SYS_symlink,
      SYS_symlinkat, SYS_timer_settime, SYS_timerfd_settime, SYS_truncate, SYS_uname,
      SYS_unlink, SYS_unlinkat, SYS_utimensat, SYS_vfork, SYS_wait4, SYS_waitid]"

lemmas notif_defs = notif_process_def notif_memory_def notif_network_def notif_determinism_def
  notif_virtual_def notif_cow_def notif_chroot_def notif_denied_def notif_policy_fn_def
  notif_port_remap_def push_optionals_def push_optional_syscall_def

lemma notif_syscalls_subset: "set (notif_syscalls p nm) \<subseteq> set all_notif"
proof -
  have "set (notif_process p) \<subseteq> set all_notif" "set (notif_memory p) \<subseteq> set all_notif"
    "set (notif_network p) \<subseteq> set all_notif" "set (notif_determinism p) \<subseteq> set all_notif"
    "set (notif_virtual p nm) \<subseteq> set all_notif" "set (notif_cow p) \<subseteq> set all_notif"
    "set (notif_chroot p) \<subseteq> set all_notif" "set (notif_denied p) \<subseteq> set all_notif"
    "set (notif_policy_fn p) \<subseteq> set all_notif" "set (notif_port_remap p) \<subseteq> set all_notif"
    by (auto simp: notif_defs all_notif_def split: if_splits)
  then show ?thesis by (simp add: notif_syscalls_def)
qed

lemma length_all_notif: "length all_notif = 63"
  by (simp add: all_notif_def)

lemma set_push_sysv:
  "set (push_sysv nrs) = set nrs \<union> {nr. \<exists>nm\<in>set SYSV_IPC_BLOCKLIST_SYSCALLS.
      syscall_name_to_nr nm = Some nr}"
proof -
  have "set (foldl (\<lambda>nrs nm. case syscall_name_to_nr nm of
       Some nr \<Rightarrow> if nr \<in> set nrs then nrs else nrs @ [nr] | None \<Rightarrow> nrs) nrs nms)
     = set nrs \<union> {nr. \<exists>nm\<in>set nms. syscall_name_to_nr nm = Some nr}" for nms
  proof (induction nms arbitrary: nrs)
    case (Cons nm nms)
    then show ?case by (auto split: option.splits)
  qed simp
  then show ?thesis by (simp add: push_sysv_def)
qed

text \<open>Membership in the kernel-level blocklist, by name.\<close>

lemma set_blocklist:
  "set (blocklist_syscall_numbers p) = {nr. \<exists>nm. syscall_name_to_nr nm = Some nr \<and>
     (nm \<in> set DEFAULT_BLOCKLIST_SYSCALLS \<or> nm \<in> set (sb_extra_deny_syscalls p)
      \<or> \<not> allows_sysv_ipc p \<and> nm \<in> set SYSV_IPC_BLOCKLIST_SYSCALLS)}"
proof -
  have "set (List.map_filter f xs) = {y. \<exists>x\<in>set xs. f x = Some y}" for f :: "string \<Rightarrow> u32 option" and xs
    by (induction xs) (auto simp: map_filter_simps split: option.splits)
  then show ?thesis
    by (auto simp: blocklist_syscall_numbers_def Let_def set_push_sysv)
qed

lemma length_blocklist: "length (blocklist_syscall_numbers p) \<le> length syscall_table"
proof -
  have "set (blocklist_syscall_numbers p) \<subseteq> set (map snd syscall_table)"
    by (force simp: set_blocklist syscall_name_to_nr_def dest: map_of_SomeD)
  moreover have "distinct (blocklist_syscall_numbers p)"
    by (simp add: blocklist_syscall_numbers_def Let_def distinct_sort_dedup)
  ultimately have "length (blocklist_syscall_numbers p) \<le> length (map snd syscall_table)"
    by (rule length_le_universe [rotated])
  then show ?thesis by simp
qed

lemma length_syscall_table: "length syscall_table = 103"
  by (simp add: syscall_table_def)

lemma length_arg_filters: "length (arg_filters p) \<le> 61"
  by (simp add: arg_filters_def clone_block_def ioctl_block_def prctl_block_def socket_block_def
      blocked_types_def wait_block_def deny_values_def DANGEROUS_IOCTLS_def
      DANGEROUS_PRCTL_OPS_def Let_def)

lemma length_merged_notif: "length (merged_notif p nm extra) \<le> length all_notif + length extra"
proof -
  have "set (merged_notif p nm extra) \<subseteq> set (all_notif @ extra)"
    using notif_syscalls_subset [of p nm]
    by (auto simp: merged_notif_def Let_def push_optional_syscall_def all_notif_def
        split: if_splits)
  moreover have "distinct (merged_notif p nm extra)"
    by (simp add: merged_notif_def Let_def distinct_sort_dedup)
  ultimately have "length (merged_notif p nm extra) \<le> length (all_notif @ extra)"
    by (rule length_le_universe [rotated])
  then show ?thesis by simp
qed

text \<open>The two lists of the first-level filter keep apart: nothing the default or SysV blocklist
  refuses is ever notified, for any configuration.\<close>

definition refused_names :: "sandbox \<Rightarrow> string set" where
  "refused_names p = set DEFAULT_BLOCKLIST_SYSCALLS
     \<union> (if allows_sysv_ipc p then {} else set SYSV_IPC_BLOCKLIST_SYSCALLS)"

lemma map_filter_memI: "x \<in> set xs \<Longrightarrow> f x = Some y \<Longrightarrow> y \<in> set (List.map_filter f xs)"
  by (induction xs) (auto simp: map_filter_simps split: option.splits)

lemma refused_cases:
  assumes "nm \<in> refused_names p" "syscall_name_to_nr nm = Some nr"
  obtains "nr \<in> set (List.map_filter syscall_name_to_nr DEFAULT_BLOCKLIST_SYSCALLS)"
  | "\<not> allows_sysv_ipc p"
    "nr \<in> set (List.map_filter syscall_name_to_nr SYSV_IPC_BLOCKLIST_SYSCALLS)"
  using assms map_filter_memI [of nm _ syscall_name_to_nr nr]
  by (auto simp: refused_names_def split: if_splits)

lemma default_unnotified:
  "list_all (\<lambda>nr. nr \<notin> set all_notif)
     (List.map_filter syscall_name_to_nr DEFAULT_BLOCKLIST_SYSCALLS)"
  by code_simp

lemma sysv_unnotified:
  "list_all (\<lambda>nr. nr \<notin> set all_notif \<or> nr = SYS_shmget)
     (List.map_filter syscall_name_to_nr SYSV_IPC_BLOCKLIST_SYSCALLS)"
  by code_simp

lemma shmget_notified: "SYS_shmget \<in> set (notif_syscalls p nm) \<Longrightarrow> allows_sysv_ipc p"
  by (auto simp: notif_syscalls_def notif_defs split: if_splits)

lemma refused_not_notified:
  assumes "nm \<in> refused_names p" "syscall_name_to_nr nm = Some nr"
  shows "nr \<notin> set (notif_syscalls p sandbox_name)"
  using assms
proof (cases rule: refused_cases)
  case 1
  then show ?thesis
    using default_unnotified notif_syscalls_subset by (auto simp: list_all_iff)
next
  case 2
  then have "nr \<notin> set all_notif \<or> nr = SYS_shmget"
    using sysv_unnotified unfolding list_all_iff by blast
  then show ?thesis using notif_syscalls_subset shmget_notified 2(1) by blast
qed

lemma refused_unfiltered:
  "list_all (\<lambda>nr. nr \<notin> {SYS_clone, SYS_ioctl, SYS_prctl, SYS_socket, SYS_wait4, SYS_waitid, SYS_fork})
     (List.map_filter syscall_name_to_nr (DEFAULT_BLOCKLIST_SYSCALLS @ SYSV_IPC_BLOCKLIST_SYSCALLS))"
  by code_simp

lemma refused_not_arg_filtered:
  assumes "nm \<in> refused_names p" "syscall_name_to_nr nm = Some nr"
  shows "nr \<notin> {SYS_clone, SYS_ioctl, SYS_prctl, SYS_socket, SYS_wait4, SYS_waitid, SYS_fork}"
proof -
  have "nm \<in> set (DEFAULT_BLOCKLIST_SYSCALLS @ SYSV_IPC_BLOCKLIST_SYSCALLS)"
    using assms(1) by (auto simp: refused_names_def split: if_splits)
  from map_filter_memI [of nm _ syscall_name_to_nr nr, OF this assms(2)] show ?thesis
    using refused_unfiltered unfolding list_all_iff by blast
qed

lemma filter_total_bound:
  "filter_total (merged_notif p nm extra) (blocklist_syscall_numbers p) (arg_filters p)
     \<le> 234 + length extra"
  "filter_total [] (blocklist_syscall_numbers p) (arg_filters p) \<le> 234"
  using length_merged_notif [of p nm extra] length_blocklist [of p] length_arg_filters [of p]
  by (simp_all add: filter_total_def length_all_notif length_syscall_table)

context cbpf
begin

lemma exec_confined:
  assumes "length extra \<le> 24"
  shows "\<exists>prog. confine_child_filter p nm nested extra = Inr prog \<and> (\<forall>d a. exec d prog a =
    filter_decision p (if nested then {} else set (merged_notif p nm extra)) d)"
proof -
  define notif where "notif = (if nested then [] else merged_notif p nm extra)"
  let ?deny = "blocklist_syscall_numbers p" and ?args = "arg_filters p"
  have fits: "filter_total notif ?deny ?args \<le> 258"
    using filter_total_bound(1) [of p nm extra] filter_total_bound(2) [of p] assms
    by (simp add: notif_def)
  then obtain prog where prog: "assemble_filter notif ?deny ?args = Inr prog"
    using assemble_filter_ok [of notif ?deny ?args] by auto
  have "exec d prog a = filter_decision p (set notif) d" for d a
    using exec_assembled [OF decides_arg_filters prog fits]
    by (simp add: filter_decision_def body_decision_def)
  with prog show ?thesis
    by (auto simp: confine_child_filter_def notif_def Let_def)
qed

lemma exec_confined_wrapped:
  assumes "filter_total (merged_notif p nm extra) (blocklist_syscall_numbers p) (arg_filters p) = 259"
  shows "\<exists>prog. confine_child_filter p nm False extra = Inr prog \<and> (\<forall>d a. exec d prog a =
    filter_decision p (set (merged_notif p nm extra)) (d\<lparr>arch_of := AUDIT_ARCH\<rparr>))"
proof -
  let ?notif = "merged_notif p nm extra"
  let ?deny = "blocklist_syscall_numbers p" and ?args = "arg_filters p"
  obtain prog where prog: "assemble_filter ?notif ?deny ?args = Inr prog"
    using assemble_filter_ok [of ?notif ?deny ?args] assms by auto
  have "arg_decision p (d\<lparr>arch_of := AUDIT_ARCH\<rparr>) = arg_decision p d" for d
    by (simp add: arg_decision_def arg_lo_def)
  then have "exec d prog a = filter_decision p (set ?notif) (d\<lparr>arch_of := AUDIT_ARCH\<rparr>)" for d a
    using exec_assembled_wrapped [OF decides_arg_filters prog assms]
    by (simp add: filter_decision_def body_decision_def)
  with prog show ?thesis
    by (auto simp: confine_child_filter_def Let_def)
qed

lemma refused_EPERM:
  assumes "length extra \<le> 24"
    and "nm \<in> refused_names p" "syscall_name_to_nr nm = Some (nr_of d)"
    and "arch_of d = AUDIT_ARCH" "nr_of d \<notin> set extra"
  shows "\<exists>prog. confine_child_filter p sandbox_name nested extra = Inr prog \<and>
    exec d prog a = RET_EPERM"
proof -
  have "nr_of d \<notin> set (merged_notif p sandbox_name extra)"
    using refused_not_notified [OF assms(2,3)] refused_not_arg_filtered [OF assms(2,3)] assms(5)
    by (auto simp: merged_notif_def Let_def push_optional_syscall_def split: if_splits)
  moreover have "nr_of d \<in> set (blocklist_syscall_numbers p)"
    using assms(2,3) by (auto simp: set_blocklist refused_names_def split: if_splits)
  moreover have "arg_decision p d = None"
    using refused_not_arg_filtered [OF assms(2,3)] by (simp add: arg_decision_def)
  ultimately show ?thesis
    using exec_confined [OF assms(1), of p sandbox_name nested] assms(4)
    by (auto simp: filter_decision_def)
qed

end

section \<open>Properties\<close>

definition minimal_sandbox :: sandbox where
  "minimal_sandbox = \<lparr>sb_fs_writable = [], sb_fs_readable = [], sb_fs_denied = [],
      sb_extra_deny_syscalls = [], sb_extra_allow_syscalls = [], sb_net_allow = [],
      sb_net_bind = [], sb_http_allow = [], sb_http_deny = [], sb_http_ports = [],
      sb_http_ca = None, sb_http_key = None, sb_max_memory = None, sb_max_processes = 64,
      sb_max_open_files = None, sb_max_cpu = None, sb_random_seed = None, sb_time_start = None,
      sb_no_randomize_memory = False, sb_no_huge_pages = False, sb_no_coredump = False,
      sb_deterministic_dirs = False, sb_fs_isolation = FsNone, sb_workdir = None, sb_cwd = None,
      sb_fs_storage = None, sb_max_disk = None, sb_on_exit = Commit, sb_on_error = Abort,
      sb_fs_mount = [], sb_chroot = None, sb_clean_env = False, sb_env = (\<lambda>_. None),
      sb_gpu_devices = None, sb_cpu_cores = None, sb_num_cpus = None, sb_port_remap = False,
      sb_uid = None, sb_policy_fn = None, sb_name = None\<rparr>"

definition call_data :: "u32 \<Rightarrow> u32 \<Rightarrow> u64 list \<Rightarrow> seccomp_data" where
  "call_data n ar as = \<lparr>nr_of = n, arch_of = ar, ip_of = 0, args_of = as\<rparr>"

text \<open>
  C1: the seccomp filter of every sandbox decides as its configuration says. With at most 24
  syscalls added by caller-supplied handlers, \<open>confine_child\<close> always assembles a program, and a
  kernel running it kills every call of a foreign architecture; otherwise it applies the argument
  filters, then notifies the supervisor of the calls on the merged notification list (of none in a
  nested sandbox), refuses those on the blocklist with EPERM, and allows the rest.
\<close>

theorem confine_filter_decides:
  assumes "cbpf exec" "length extra \<le> 24"
  shows "\<exists>prog. confine_child_filter p nm nested extra = Inr prog \<and> (\<forall>d a. exec d prog a =
    filter_decision p (if nested then {} else set (merged_notif p nm extra)) d)"
  using cbpf.exec_confined [OF assms] .

theorem confine_filter_decides_witness:
  "\<exists>prog. confine_child_filter minimal_sandbox None True [] = Inr prog \<and>
    bpf_run (call_data SYS_mount AUDIT_ARCH []) prog 0 =
    filter_decision minimal_sandbox {} (call_data SYS_mount AUDIT_ARCH [])"
  using confine_filter_decides [OF kernel.cbpf_axioms, of "[]" minimal_sandbox None True] by auto

text \<open>
  default-blocked syscalls are refused by the kernel in every configuration. Whatever the
  sandbox enables, a native call of a syscall on the default blocklist, or of a SysV IPC syscall when
  the sandbox does not allow SysV IPC, gets EPERM from the installed filter (so long as no
  caller-supplied handler names that syscall): no feature can put it on the notification list, and
  no argument filter lets it through.
\<close>

theorem refused_syscalls_get_EPERM:
  assumes "cbpf exec" "length extra \<le> 24"
    and "nm \<in> refused_names p" "syscall_name_to_nr nm = Some (nr_of d)"
    and "arch_of d = AUDIT_ARCH" "nr_of d \<notin> set extra"
  shows "\<exists>prog. confine_child_filter p sandbox_name nested extra = Inr prog \<and>
    exec d prog a = RET_EPERM"
  by (rule cbpf.refused_EPERM [OF assms])

theorem refused_syscalls_get_EPERM_witness:
  "\<exists>prog. confine_child_filter minimal_sandbox (Some ''box'') False [] = Inr prog \<and>
    bpf_run (call_data SYS_ptrace AUDIT_ARCH []) prog 0 = RET_EPERM"
  by (rule refused_syscalls_get_EPERM [OF kernel.cbpf_axioms, of _ "''ptrace''"])
     (simp_all add: refused_names_def DEFAULT_BLOCKLIST_SYSCALLS_def syscall_name_to_nr_def
        syscall_table_def call_data_def)

text \<open>
  the jump offset of the architecture check is a byte, and the assembler bounds the program at
  4096 instructions only. When caller-supplied handlers bring the program to 259 instructions, it is
  accepted, the offset wraps to 0, and calls of a foreign architecture are no longer killed: they are
  decided as if they were native calls of that number.
\<close>

theorem wrapped_arch_check:
  assumes "cbpf exec"
    and "filter_total (merged_notif p nm extra) (blocklist_syscall_numbers p) (arg_filters p) = 259"
  shows "\<exists>prog. confine_child_filter p nm False extra = Inr prog \<and> (\<forall>d a. exec d prog a =
    filter_decision p (set (merged_notif p nm extra)) (d\<lparr>arch_of := AUDIT_ARCH\<rparr>))"
  by (rule cbpf.exec_confined_wrapped [OF assms])

text \<open>The handlers of the witness: 131 syscalls, none of them notified or refused already.\<close>

definition many_syscalls :: "u32 list" where
  "many_syscalls = map word_of_nat ([330..<425] @ [110..<135] @ [80..<91])"

lemma many_syscalls_total:
  "filter_total (merged_notif minimal_sandbox None many_syscalls)
     (blocklist_syscall_numbers minimal_sandbox) (arg_filters minimal_sandbox) = 259"
proof -
  have len: "length (sort_dedup xs) = length (remdups xs)" for xs
    by (metis distinct_card distinct_sort_dedup set_sort_dedup length_remdups_card_conv)
  let ?native = "[56, 435, 61, 247, 58, 257, 217, 78, 41, 49, 51, 45, 47, 3] :: u32 list"
  let ?idx = "[330..<425] @ [110..<135] @ [80..<91] :: nat list"
  have notif: "set (notif_syscalls minimal_sandbox None) = set ?native"
    by (auto simp: notif_syscalls_def notif_defs minimal_sandbox_def)
  have small: "unat (word_of_nat n :: u32) = n" if "n < 425" for n
    using that by (simp add: unat_of_nat take_bit_nat_eq_self)
  have inj: "inj_on (word_of_nat :: nat \<Rightarrow> u32) (set ?idx)"
    by (rule inj_on_inverseI [of _ unat]) (auto intro!: small simp del: upt_rec_numeral)
  have "distinct ?idx" by (auto simp del: upt_rec_numeral)
  with inj have "distinct many_syscalls"
    unfolding many_syscalls_def distinct_map by blast
  moreover have "length many_syscalls = 131"
    by (simp add: many_syscalls_def del: upt_rec_numeral)
  ultimately have many: "distinct many_syscalls" "length many_syscalls = 131" by auto
  have apart: "unat x \<in> set ?idx" if "x \<in> set many_syscalls" for x
    using that small by (auto simp: many_syscalls_def simp del: upt_rec_numeral)
  have disj: "set ?native \<inter> set many_syscalls = {}"
    using apart by (fastforce simp del: upt_rec_numeral)
  have no_exec: "\<not> list_ex (\<lambda>n. n = SYS_execve \<or> n = SYS_execveat) many_syscalls"
    using apart by (force simp: list_ex_iff simp del: upt_rec_numeral)
  have "set (merged_notif minimal_sandbox None many_syscalls) = set (?native @ many_syscalls)"
    unfolding merged_notif_def Let_def if_not_P [OF no_exec] set_sort_dedup set_append notif
    by (cases "many_syscalls = []") (simp_all only: if_True if_False simp_thms)
  then have "card (set (merged_notif minimal_sandbox None many_syscalls)) =
      card (set (?native @ many_syscalls))"
    by (rule arg_cong)
  moreover have "distinct (?native @ many_syscalls)"
    using many(1) disj unfolding distinct_append by (intro conjI) (simp, assumption+)
  moreover have "distinct (merged_notif minimal_sandbox None many_syscalls)"
    by (simp add: merged_notif_def Let_def distinct_sort_dedup)
  ultimately have "length (merged_notif minimal_sandbox None many_syscalls) =
      length (?native @ many_syscalls)"
    by (simp only: distinct_card)
  moreover have "length (blocklist_syscall_numbers minimal_sandbox) = 46"
    unfolding blocklist_syscall_numbers_def Let_def len by code_simp
  moreover have "length (arg_filters minimal_sandbox) = 61"
    by (simp add: arg_filters_def clone_block_def ioctl_block_def prctl_block_def socket_block_def
      blocked_types_def wait_block_def deny_values_def DANGEROUS_IOCTLS_def
      DANGEROUS_PRCTL_OPS_def Let_def minimal_sandbox_def)
  ultimately show ?thesis
    by (simp add: filter_total_def many)
qed

text \<open>An i386 \<open>open\<close> (number 5 there) on x86-64: neither killed nor notified.\<close>

theorem wrapped_arch_check_witness:
  "\<exists>prog. confine_child_filter minimal_sandbox None False many_syscalls = Inr prog \<and>
    bpf_run (call_data 5 0x40000003 [0, 0, 0, 0, 0, 0]) prog 0 =
      filter_decision minimal_sandbox (set (merged_notif minimal_sandbox None many_syscalls))
        (call_data 5 AUDIT_ARCH [0, 0, 0, 0, 0, 0])"
  using wrapped_arch_check [OF kernel.cbpf_axioms many_syscalls_total]
  by (auto simp: call_data_def)

end
