(* ===== verification/IpText.thy ===== *)
theory IpText
  imports NetRules
begin

text \<open>
  Reading and writing IP addresses, as Rust's \<open>std::net\<close> does it: \<open>str::parse::<IpAddr>\<close> (used by
  the HTTP proxy on the host a client claims) and \<open>Display for IpAddr\<close> (used for the synthetic
  \<open>/etc/hosts\<close>). A reader takes the rest of the input and gives the value with what is left.
\<close>

section \<open>Reading\<close>

fun read_digits :: "nat \<Rightarrow> nat \<Rightarrow> string \<Rightarrow> nat list \<times> string" where
  "read_digits radix 0 s = ([], s)"
| "read_digits radix (Suc n) [] = ([], [])"
| "read_digits radix (Suc n) (c # s) = (case digit_val radix c of
       None \<Rightarrow> ([], c # s)
     | Some d \<Rightarrow> let (ds, r) = read_digits radix n s in (d # ds, r))"

text \<open>\<open>read_number(radix, Some(max_digits), allow_zero_prefix)\<close>: one digit too many is an error,
  and so is a value over the type's maximum.\<close>

definition read_number ::
  "nat \<Rightarrow> nat \<Rightarrow> bool \<Rightarrow> nat \<Rightarrow> string \<Rightarrow> (nat \<times> string) option" where
  "read_number radix max_digits zero_prefix maxv s =
     (let (ds, r) = read_digits radix (Suc max_digits) s;
          v = foldl (\<lambda>a d. a * radix + d) 0 ds
      in if ds = [] \<or> max_digits < length ds \<or> maxv < v
            \<or> \<not> zero_prefix \<and> 1 < length ds \<and> hd ds = 0
         then None else Some (v, r))"

definition read_char :: "char \<Rightarrow> string \<Rightarrow> string option" where
  "read_char c s = (case s of x # r \<Rightarrow> if x = c then Some r else None | [] \<Rightarrow> None)"

definition read_octet :: "string \<Rightarrow> (u8 \<times> string) option" where
  "read_octet s = map_option (\<lambda>(n, r). (word_of_nat n, r)) (read_number 10 3 False 255 s)"

definition read_dot_octet :: "string \<Rightarrow> (u8 \<times> string) option" where
  "read_dot_octet s = Option.bind (read_char CHR ''.'' s) read_octet"

definition read_ipv4 :: "string \<Rightarrow> ((u8 \<times> u8 \<times> u8 \<times> u8) \<times> string) option" where
  "read_ipv4 s =
     Option.bind (read_octet s) (\<lambda>(a, s1).
     Option.bind (read_dot_octet s1) (\<lambda>(b, s2).
     Option.bind (read_dot_octet s2) (\<lambda>(c, s3).
     Option.bind (read_dot_octet s3) (\<lambda>(d, s4). Some ((a, b, c, d), s4)))))"

text \<open>\<open>read_groups\<close>: up to \<open>limit\<close> 16-bit groups, the last two possibly written as an IPv4 address.
  The result has the groups, whether an IPv4 part ended them, and the rest. \<open>i\<close> counts the groups
  read; \<open>n\<close> is the number of slots left, so \<open>i < limit - 1\<close> is \<open>1 < n\<close>.\<close>

definition read_sep :: "nat \<Rightarrow> string \<Rightarrow> string option" where
  "read_sep i s = (if i = 0 then Some s else read_char CHR '':'' s)"

fun read_groups :: "nat \<Rightarrow> nat \<Rightarrow> string \<Rightarrow> u16 list \<times> bool \<times> string" where
  "read_groups 0 i s = ([], False, s)"
| "read_groups (Suc n) i s =
     (case (if 0 < n then Option.bind (read_sep i s) read_ipv4 else None) of
        Some ((a, b, c, d), r) \<Rightarrow> ([u16_from_be a b, u16_from_be c d], True, r)
      | None \<Rightarrow>
        (case Option.bind (read_sep i s) (read_number 16 4 True 65535) of
           Some (g, r) \<Rightarrow>
             let (gs, v4, r') = read_groups n (Suc i) r in (word_of_nat g # gs, v4, r')
         | None \<Rightarrow> ([], False, s)))"

definition groups_octets :: "u16 list \<Rightarrow> u8 list" where
  "groups_octets gs = concat (map (\<lambda>g. [fst (u16_to_be g), snd (u16_to_be g)]) gs)"

definition read_ipv6 :: "string \<Rightarrow> (u8 list \<times> string) option" where
  "read_ipv6 s = (let (head, head_v4, s1) = read_groups 8 0 s in
     if length head = 8 then Some (groups_octets head, s1)
     else if head_v4 then None
     else Option.bind (read_char CHR '':'' s1) (\<lambda>s2.
          Option.bind (read_char CHR '':'' s2) (\<lambda>s3.
          let (tail, _, s4) = read_groups (8 - (length head + 1)) 0 s3 in
          Some (groups_octets (head @ replicate (8 - length head - length tail) 0 @ tail), s4))))"

definition parse_ip :: "string \<Rightarrow> ip_addr option" where
  "parse_ip s = (case read_ipv4 s of
       Some ((a, b, c, d), r) \<Rightarrow> if r = [] then Some (V4 a b c d) else None
     | None \<Rightarrow> (case read_ipv6 s of
         Some (os, r) \<Rightarrow> if r = [] then Some (V6 os) else None
       | None \<Rightarrow> None))"

section \<open>Writing\<close>

definition hex_digit :: "nat \<Rightarrow> char" where
  "hex_digit d = char_of (if d < 10 then 48 + d else 87 + d)"

fun show_hex :: "nat \<Rightarrow> string" where
  "show_hex n = (if n < 16 then [hex_digit n] else show_hex (n div 16) @ [hex_digit (n mod 16)])"

declare show_hex.simps [simp del]

fun octets_groups :: "u8 list \<Rightarrow> u16 list" where
  "octets_groups (a # b # r) = u16_from_be a b # octets_groups r"
| "octets_groups _ = []"

text \<open>The longest run of zero groups, the first one among equals: \<open>(start, len)\<close>.\<close>

fun longest_zeros :: "nat \<Rightarrow> u16 list \<Rightarrow> nat \<times> nat \<Rightarrow> nat \<times> nat \<Rightarrow> nat \<times> nat" where
  "longest_zeros i [] longest current = longest"
| "longest_zeros i (g # gs) longest (cs, cl) =
     (if g = 0 then
        (let current = (if cl = 0 then i else cs, Suc cl) in
         longest_zeros (Suc i) gs (if snd current > snd longest then current else longest) current)
      else longest_zeros (Suc i) gs longest (0, 0))"

definition show_groups :: "u16 list \<Rightarrow> string" where
  "show_groups gs = join_with '':'' (map (\<lambda>g. show_hex (unat g)) gs)"

definition show_ipv4 :: "u8 \<Rightarrow> u8 \<Rightarrow> u8 \<Rightarrow> u8 \<Rightarrow> string" where
  "show_ipv4 a b c d = join_with ''.'' (map (\<lambda>o'. show_nat (unat o')) [a, b, c, d])"

fun show_ip :: "ip_addr \<Rightarrow> string" where
  "show_ip (V4 a b c d) = show_ipv4 a b c d"
| "show_ip (V6 os) = (let gs = octets_groups os in
     if take 5 gs = replicate 5 0 \<and> gs ! 5 = 0xFFFF
     then ''::ffff:'' @ show_ipv4 (os ! 12) (os ! 13) (os ! 14) (os ! 15)
     else let (start, len) = longest_zeros 0 gs (0, 0) (0, 0) in
       if 1 < len then show_groups (take start gs) @ ''::'' @ show_groups (drop (start + len) gs)
       else show_groups gs)"

section \<open>Round trip of the dotted form\<close>

lemma read_digits_decimal:
  assumes "length ds \<le> n" "\<And>d. d \<in> set ds \<Longrightarrow> d < 10"
    and "rest = [] \<or> digit_val 10 (hd rest) = None"
  shows "read_digits 10 n (map (\<lambda>d. char_of (48 + d)) ds @ rest) = (ds, rest)"
  using assms
proof (induction ds arbitrary: n)
  case Nil
  then show ?case by (cases n; cases rest) auto
next
  case (Cons d ds)
  then obtain m where "n = Suc m" by (cases n) auto
  with Cons show ?case by (simp add: digit_val_dec)
qed

text \<open>The digits of an octet, as \<open>show_nat\<close> writes them.\<close>

definition octet_digits :: "nat \<Rightarrow> nat list" where
  "octet_digits n = (if n < 10 then [n] else if n < 100 then [n div 10, n mod 10]
     else [n div 100, n div 10 mod 10, n mod 10])"

lemma show_octet_digits:
  "n < 1000 \<Longrightarrow> show_nat n = map (\<lambda>d. char_of (48 + d)) (octet_digits n)"
  by (auto simp: octet_digits_def show_nat.simps [of n] show_nat.simps [of "n div 10"]
      show_nat.simps [of "n div 100"] div_mult2_eq [symmetric])

lemma octet_digits_val:
  "n < 1000 \<Longrightarrow> foldl (\<lambda>a d. a * 10 + d) 0 (octet_digits n) = n"
proof -
  have "n div 100 = n div 10 div 10" by (simp add: div_mult2_eq [symmetric])
  then have "n div 100 * 10 + n div 10 mod 10 = n div 10"
    by (simp only: div_mult_mod_eq)
  moreover have "n div 10 * 10 + n mod 10 = n" by (rule div_mult_mod_eq)
  ultimately show ?thesis by (simp add: octet_digits_def)
qed

lemma read_octet_show:
  assumes "rest = [] \<or> digit_val 10 (hd rest) = None"
  shows "read_octet (show_nat (unat b) @ rest) = Some (b, rest)"
proof -
  let ?n = "unat (b :: u8)" and ?ds = "octet_digits (unat b)"
  have n: "?n < 256" using unsigned_less [of b, where ?'a = nat] by simp
  have ds: "length ?ds \<le> 3" "?ds \<noteq> []" "length ?ds = 1 \<or> hd ?ds \<noteq> 0"
    using n by (auto simp: octet_digits_def)
  have lt: "d < 10" if "d \<in> set ?ds" for d
    using n that by (auto simp: octet_digits_def split: if_splits)
  have "read_digits 10 (Suc 3) (show_nat ?n @ rest) = (?ds, rest)"
    using n ds(1) lt assms by (simp only: show_octet_digits) (rule read_digits_decimal, auto)
  then have "read_number 10 3 False 255 (show_nat ?n @ rest) = Some (?n, rest)"
    using n ds octet_digits_val [of ?n] by (auto simp: read_number_def Let_def)
  then show ?thesis by (simp add: read_octet_def)
qed

lemma dot_not_digit: "digit_val 10 CHR ''.'' = None"
  by (simp add: digit_val_def)

lemma read_ipv4_show: "read_ipv4 (show_ipv4 a b c d) = Some ((a, b, c, d), [])"
  by (simp add: read_ipv4_def show_ipv4_def read_octet_show dot_not_digit read_dot_octet_def
      read_char_def read_octet_show [where rest = "[]", simplified])

lemma parse_show_ipv4: "parse_ip (show_ip (V4 a b c d)) = Some (V4 a b c d)"
  by (simp add: parse_ip_def read_ipv4_show)

end
