(* ===== verification/NetPolicy.thy ===== *)
theory NetPolicy
  imports IpText
begin

text \<open>
  From network rules to the runtime policy: \<open>resolve_net_allow\<close> (\<open>network.rs\<close>), the policy built from
  the resolved rules (\<open>sandbox.rs\<close>), \<open>NetworkPolicy::allows\<close> (\<open>seccomp/notif.rs\<close>) and
  \<open>effective_network_policy\<close> (\<open>seccomp/state.rs\<close>).

  Name resolution is outside the program: \<open>lookup proto i h\<close> is what the resolver answers when the
  \<open>i\<close>-th rule of protocol \<open>proto\<close> asks for host \<open>h\<close> (two lookups of one name may differ).
\<close>

section \<open>Resolving rules\<close>

type_synonym lookup = "Protocol \<Rightarrow> nat \<Rightarrow> string \<Rightarrow> string + ip_addr list"

record resolved_net_allow =
  per_ip :: "ip_addr \<Rightarrow> u16 set option"
  per_ip_all_ports :: "ip_addr set"
  any_ip_ports :: "u16 set"
  any_ip_all_ports :: bool

text \<open>\<open>per_ip.entry(ip).or_default()\<close>, extended with the given ports.\<close>

definition entry_insert ::
  "(ip_addr \<Rightarrow> u16 set option) \<Rightarrow> ip_addr \<Rightarrow> u16 list \<Rightarrow> ip_addr \<Rightarrow> u16 set option" where
  "entry_insert m ip ports =
     m(ip \<mapsto> (case m ip of None \<Rightarrow> {} | Some s \<Rightarrow> s) \<union> set ports)"

fun add_addrs ::
  "bool \<Rightarrow> u16 list \<Rightarrow> string \<Rightarrow> ip_addr list \<Rightarrow> resolved_net_allow \<times> string
     \<Rightarrow> resolved_net_allow \<times> string" where
  "add_addrs every_port ports host [] st = st"
| "add_addrs every_port ports host (ip # ips) (res, eh) =
     (let res' = (if every_port
          then res\<lparr>per_ip_all_ports := insert ip (per_ip_all_ports res),
                   per_ip := entry_insert (per_ip res) ip []\<rparr>
          else res\<lparr>per_ip := entry_insert (per_ip res) ip ports\<rparr>)
      in add_addrs every_port ports host ips (res', eh @ show_ip ip @ '' '' @ host @ [CHR 0x0A]))"

text \<open>The loop of \<open>per_proto\<close> over the rules of one protocol.\<close>

fun resolve_rules ::
  "lookup \<Rightarrow> Protocol \<Rightarrow> nat \<Rightarrow> net_allow list \<Rightarrow> resolved_net_allow \<times> string \<times> bool
     \<Rightarrow> string + (resolved_net_allow \<times> string \<times> bool)" where
  "resolve_rules lookup target i [] st = Inr st"
| "resolve_rules lookup target i (r # rs) (res, eh, concrete) =
     (let every_port = na_all_ports r \<or> target = Icmp in
      case na_host r of
        None \<Rightarrow>
          resolve_rules lookup target (Suc i) rs
            (if every_port then res\<lparr>any_ip_all_ports := True\<rparr>
             else res\<lparr>any_ip_ports := any_ip_ports res \<union> set (na_ports r)\<rparr>, eh, concrete)
      | Some host \<Rightarrow>
          (case lookup target i host of
             Inl e \<Rightarrow> Inl (''failed to resolve host '' @ host @ '': '' @ e)
           | Inr ips \<Rightarrow>
               let (res', eh') = add_addrs every_port (na_ports r) host ips (res, eh)
               in resolve_rules lookup target (Suc i) rs (res', eh', True)))"

definition empty_resolved :: resolved_net_allow where
  "empty_resolved = \<lparr>per_ip = Map.empty, per_ip_all_ports = {}, any_ip_ports = {},
     any_ip_all_ports = False\<rparr>"

definition per_proto ::
  "lookup \<Rightarrow> net_allow list \<Rightarrow> Protocol \<Rightarrow> string + (resolved_net_allow \<times> string \<times> bool)" where
  "per_proto lookup rules target =
     resolve_rules lookup target 0 (filter (\<lambda>r. na_protocol r = target) rules)
       (empty_resolved, [], False)"

record resolved_set =
  rs_tcp :: resolved_net_allow
  rs_udp :: resolved_net_allow
  rs_icmp :: resolved_net_allow
  rs_etc_hosts :: "string option"

definition etc_hosts_base :: string where
  "etc_hosts_base = ''127.0.0.1 localhost'' @ [CHR 0x0A] @ ''::1 localhost'' @ [CHR 0x0A]"

definition resolve_net_allow :: "lookup \<Rightarrow> net_allow list \<Rightarrow> string + resolved_set" where
  "resolve_net_allow lookup rules =
     try_bind (per_proto lookup rules Tcp) (\<lambda>(tcp, tcp_eh, tcp_concrete).
     try_bind (per_proto lookup rules Udp) (\<lambda>(udp, udp_eh, udp_concrete).
     try_bind (per_proto lookup rules Icmp) (\<lambda>(icmp, icmp_eh, icmp_concrete).
       Inr \<lparr>rs_tcp = tcp, rs_udp = udp, rs_icmp = icmp,
            rs_etc_hosts =
              (if tcp_concrete \<or> udp_concrete \<or> icmp_concrete
               then Some (etc_hosts_base @ tcp_eh @ udp_eh @ icmp_eh) else None)\<rparr>)))"

section \<open>The runtime policy\<close>

datatype port_allow = AnyPort | Specific "u16 set"

datatype network_policy =
    Unrestricted
  | AllowList "ip_addr \<Rightarrow> port_allow option" "u16 set"

definition allows :: "network_policy \<Rightarrow> ip_addr \<Rightarrow> u16 \<Rightarrow> bool" where
  "allows pol ip port = (case pol of
       Unrestricted \<Rightarrow> True
     | AllowList per any_ports \<Rightarrow>
         if port \<in> any_ports then True
         else (case per ip of Some AnyPort \<Rightarrow> True | Some (Specific s) \<Rightarrow> port \<in> s | None \<Rightarrow> False))"

text \<open>The closure \<open>policy_from\<close> of the sandbox start; \<open>no_rules\<close> is \<open>self.net_allow.is_empty()\<close>.\<close>

definition policy_from :: "bool \<Rightarrow> resolved_net_allow \<Rightarrow> network_policy" where
  "policy_from no_rules res =
     (if no_rules \<or> any_ip_all_ports res then Unrestricted
      else AllowList
        (\<lambda>ip. map_option (\<lambda>ports. if ip \<in> per_ip_all_ports res then AnyPort else Specific ports)
                (per_ip res ip))
        (any_ip_ports res))"

record net_policies =
  tcp_policy :: network_policy
  udp_policy :: network_policy
  icmp_policy :: network_policy
  pid_ip_overrides :: "u32 \<Rightarrow> ip_addr set option"

definition policies_of :: "net_allow list \<Rightarrow> resolved_set \<Rightarrow> net_policies" where
  "policies_of rules rs = (let no_rules = (rules = []) in
     \<lparr>tcp_policy = policy_from no_rules (rs_tcp rs), udp_policy = policy_from no_rules (rs_udp rs),
      icmp_policy = policy_from no_rules (rs_icmp rs), pid_ip_overrides = Map.empty\<rparr>)"

text \<open>\<open>LivePolicy\<close> of \<open>policy_fn.rs\<close>, and its initial value when a policy callback is installed.\<close>

record live_policy =
  allowed_ips :: "ip_addr set"
  live_max_memory_bytes :: u64
  live_max_processes :: u32

fun policy_ips :: "network_policy \<Rightarrow> ip_addr set" where
  "policy_ips Unrestricted = {}"
| "policy_ips (AllowList per any_ports) = dom per"

definition initial_live_policy :: "'a net_policies_scheme \<Rightarrow> u64 \<Rightarrow> u32 \<Rightarrow> live_policy" where
  "initial_live_policy ns max_memory max_procs =
     \<lparr>allowed_ips = policy_ips (tcp_policy ns) \<union> policy_ips (udp_policy ns)
                      \<union> policy_ips (icmp_policy ns),
      live_max_memory_bytes = max_memory, live_max_processes = max_procs\<rparr>"

definition ip_only_allow :: "ip_addr set \<Rightarrow> network_policy" where
  "ip_only_allow ips = AllowList (\<lambda>ip. if ip \<in> ips then Some AnyPort else None) {}"

fun static_policy :: "'a net_policies_scheme \<Rightarrow> Protocol \<Rightarrow> network_policy" where
  "static_policy ns Tcp = tcp_policy ns"
| "static_policy ns Udp = udp_policy ns"
| "static_policy ns Icmp = icmp_policy ns"

definition effective_network_policy ::
  "'a net_policies_scheme \<Rightarrow> u32 \<Rightarrow> Protocol \<Rightarrow> live_policy option \<Rightarrow> network_policy" where
  "effective_network_policy ns pid protocol live =
     (case pid_ip_overrides ns pid of
        Some ips \<Rightarrow> ip_only_allow ips
      | None \<Rightarrow>
        (case live of
          Some lp \<Rightarrow> if allowed_ips lp \<noteq> {} then ip_only_allow (allowed_ips lp)
                     else static_policy ns protocol
        | None \<Rightarrow> static_policy ns protocol))"

section \<open>What the rules mean\<close>

text \<open>The \<open>i\<close>-th rule of a protocol permits a destination.\<close>

definition rule_permits ::
  "lookup \<Rightarrow> Protocol \<Rightarrow> nat \<Rightarrow> net_allow \<Rightarrow> ip_addr \<Rightarrow> u16 \<Rightarrow> bool" where
  "rule_permits lookup target i r ip port \<longleftrightarrow>
     (na_all_ports r \<or> target = Icmp \<or> port \<in> set (na_ports r)) \<and>
     (case na_host r of None \<Rightarrow> True
      | Some h \<Rightarrow> (case lookup target i h of Inr ips \<Rightarrow> ip \<in> set ips | Inl _ \<Rightarrow> False))"

definition rules_of :: "net_allow list \<Rightarrow> Protocol \<Rightarrow> net_allow list" where
  "rules_of rules target = filter (\<lambda>r. na_protocol r = target) rules"

fun resolved_of :: "Protocol \<Rightarrow> resolved_set \<Rightarrow> resolved_net_allow" where
  "resolved_of Tcp rs = rs_tcp rs"
| "resolved_of Udp rs = rs_udp rs"
| "resolved_of Icmp rs = rs_icmp rs"

text \<open>What a resolved rule set permits, and the invariant that every all-ports address has an entry.\<close>

definition res_permits :: "resolved_net_allow \<Rightarrow> ip_addr \<Rightarrow> u16 \<Rightarrow> bool" where
  "res_permits res ip port \<longleftrightarrow> any_ip_all_ports res \<or> port \<in> any_ip_ports res
     \<or> ip \<in> per_ip_all_ports res \<or> (\<exists>s. per_ip res ip = Some s \<and> port \<in> s)"

definition res_inv :: "resolved_net_allow \<Rightarrow> bool" where
  "res_inv res \<longleftrightarrow> per_ip_all_ports res \<subseteq> dom (per_ip res)"

lemma policy_from_allows:
  "res_inv res \<Longrightarrow> allows (policy_from False res) ip port = res_permits res ip port"
  by (auto simp: policy_from_def allows_def res_permits_def res_inv_def split: option.splits)

lemma add_addrs_permits:
  assumes "res_inv res"
  shows "res_inv (fst (add_addrs ep ports h ips (res, eh)))
    \<and> res_permits (fst (add_addrs ep ports h ips (res, eh))) ip port =
        (res_permits res ip port \<or> ip \<in> set ips \<and> (ep \<or> port \<in> set ports))"
  using assms
proof (induction ips arbitrary: res eh)
  case (Cons a ips)
  define res' where "res' = (if ep
      then res\<lparr>per_ip_all_ports := insert a (per_ip_all_ports res),
               per_ip := entry_insert (per_ip res) a []\<rparr>
      else res\<lparr>per_ip := entry_insert (per_ip res) a ports\<rparr>)"
  have "res_inv res'"
    using Cons.prems by (auto simp: res'_def res_inv_def entry_insert_def)
  moreover have "res_permits res' ip port =
      (res_permits res ip port \<or> ip = a \<and> (ep \<or> port \<in> set ports))"
    by (auto simp: res'_def res_permits_def entry_insert_def split: option.splits)
  ultimately show ?case
    using Cons.IH [of res'] by (auto simp: res'_def Let_def)
qed simp

lemma resolve_rules_permits:
  assumes "resolve_rules lookup target i rs (res, eh, c) = Inr (res', eh', c')" "res_inv res"
  shows "res_inv res' \<and> res_permits res' ip port =
    (res_permits res ip port \<or> (\<exists>j<length rs. rule_permits lookup target (i + j) (rs ! j) ip port))"
  using assms
proof (induction rs arbitrary: i res eh c)
  case (Cons r rs)
  let ?ep = "na_all_ports r \<or> target = Icmp"
  have here: "(\<exists>j<length (r # rs). rule_permits lookup target (i + j) ((r # rs) ! j) ip port) =
    (rule_permits lookup target i r ip port \<or>
     (\<exists>j<length rs. rule_permits lookup target (Suc i + j) (rs ! j) ip port))"
    by (auto simp: less_Suc_eq_0_disj)
  obtain res1 eh1 c1 where step:
      "resolve_rules lookup target (Suc i) rs (res1, eh1, c1) = Inr (res', eh', c')"
      and inv: "res_inv res1"
      and sem: "res_permits res1 ip port = (res_permits res ip port \<or> rule_permits lookup target i r ip port)"
  proof (cases "na_host r")
    case None
    define res1 where "res1 = (if ?ep then res\<lparr>any_ip_all_ports := True\<rparr>
      else res\<lparr>any_ip_ports := any_ip_ports res \<union> set (na_ports r)\<rparr>)"
    have "res_inv res1" using Cons.prems(2) by (auto simp: res1_def res_inv_def)
    moreover have "res_permits res1 ip port =
        (res_permits res ip port \<or> rule_permits lookup target i r ip port)"
      using None by (auto simp: res1_def res_permits_def rule_permits_def)
    ultimately show ?thesis
      using that [of res1] Cons.prems(1) None by (simp add: res1_def Let_def)
  next
    case (Some h)
    then obtain ips where l: "lookup target i h = Inr ips"
      using Cons.prems(1) by (auto simp: Let_def split: sum.splits)
    obtain res1 eh1 where a: "add_addrs ?ep (na_ports r) h ips (res, eh) = (res1, eh1)"
      by (cases "add_addrs ?ep (na_ports r) h ips (res, eh)")
    have p: "res_inv res1 \<and> res_permits res1 ip port =
        (res_permits res ip port \<or> ip \<in> set ips \<and> (?ep \<or> port \<in> set (na_ports r)))"
      using add_addrs_permits [OF Cons.prems(2), of ?ep "na_ports r" h ips eh ip port] a by simp
    then have "res_permits res1 ip port =
        (res_permits res ip port \<or> rule_permits lookup target i r ip port)"
      using Some l by (auto simp: rule_permits_def)
    with p that [of res1 eh1 True] show ?thesis
      using Cons.prems(1) Some l a by (simp add: Let_def)
  qed
  show ?case using Cons.IH [OF step inv] sem here by auto
qed auto

lemma per_proto_permits:
  assumes "per_proto lookup rules target = Inr (res, eh, c)"
  shows "res_inv res \<and> res_permits res ip port =
    (\<exists>j<length (rules_of rules target). rule_permits lookup target j (rules_of rules target ! j) ip port)"
proof -
  have "res_inv empty_resolved" "\<not> res_permits empty_resolved ip port"
    by (simp_all add: empty_resolved_def res_inv_def res_permits_def)
  with resolve_rules_permits [OF assms [unfolded per_proto_def]] show ?thesis
    by (simp add: rules_of_def)
qed

lemma resolve_net_allow_per_proto:
  assumes "resolve_net_allow lookup rules = Inr rs"
  obtains eh c where "per_proto lookup rules target = Inr (resolved_of target rs, eh, c)"
  using assms by (cases target) (auto simp: resolve_net_allow_def try_bind_eq_Inr)

lemma policies_of_static:
  "static_policy (policies_of rules rs) target = policy_from (rules = []) (resolved_of target rs)"
  by (cases target) (simp_all add: policies_of_def Let_def)

lemma allows_ip_only [simp]: "allows (ip_only_allow ips) ip port = (ip \<in> ips)"
  by (simp add: allows_def ip_only_allow_def)

section \<open>Properties\<close>

text \<open>
  C8: the runtime policy is the rules. When resolution succeeds and there is at least one rule, the
  policy of each protocol permits a destination exactly when some rule of that protocol does: the
  rule has every port, or the port is listed (an ICMP rule has no ports and covers all), and the rule
  is for any host or the address is among those its host resolved to. Rules of one protocol never
  open another.
\<close>

theorem resolved_policy_is_rules:
  assumes "resolve_net_allow lookup rules = Inr rs" "rules \<noteq> []"
  shows "allows (static_policy (policies_of rules rs) target) ip port \<longleftrightarrow>
    (\<exists>j<length (rules_of rules target).
       rule_permits lookup target j (rules_of rules target ! j) ip port)"
proof -
  obtain eh c where "per_proto lookup rules target = Inr (resolved_of target rs, eh, c)"
    using resolve_net_allow_per_proto [OF assms(1)] .
  from per_proto_permits [OF this] show ?thesis
    using assms(2) by (simp add: policies_of_static policy_from_allows)
qed

text \<open>One rule for one host and port, resolved to \<open>10.0.0.1\<close>.\<close>

definition one_rule :: "net_allow list" where
  "one_rule = [\<lparr>na_protocol = Tcp, na_host = Some ''h'', na_ports = [443], na_all_ports = False\<rparr>]"

definition one_lookup :: lookup where
  "one_lookup proto i h = Inr [V4 10 0 0 1]"

definition one_resolved :: resolved_set where
  "one_resolved =
     \<lparr>rs_tcp = empty_resolved\<lparr>per_ip := Map.empty(V4 10 0 0 1 \<mapsto> {443})\<rparr>,
      rs_udp = empty_resolved, rs_icmp = empty_resolved,
      rs_etc_hosts = Some (etc_hosts_base @ show_ip (V4 10 0 0 1) @ '' h'' @ [CHR 0x0A])\<rparr>"

lemma one_resolve: "resolve_net_allow one_lookup one_rule = Inr one_resolved"
  by (simp add: resolve_net_allow_def per_proto_def one_rule_def one_lookup_def one_resolved_def
      empty_resolved_def entry_insert_def)

theorem resolved_policy_is_rules_witness:
  "allows (static_policy (policies_of one_rule one_resolved) Tcp) (V4 10 0 0 1) 443 \<longleftrightarrow>
    (\<exists>j<length (rules_of one_rule Tcp).
       rule_permits one_lookup Tcp j (rules_of one_rule Tcp ! j) (V4 10 0 0 1) 443)"
  by (rule resolved_policy_is_rules [OF one_resolve]) (simp add: one_rule_def)

text \<open>
  which policy is in force. A per-process override decides alone, by address; without one a live
  policy with a non-empty address set decides alone, by address; in every other case the static
  policy of the protocol decides. In particular a live policy with the empty address set, which is
  what \<open>restrict_network([])\<close> leaves, does not block anything: the static policy is back in force.
\<close>

theorem effective_policy_cases:
  "allows (effective_network_policy ns pid protocol live) ip port \<longleftrightarrow>
    (case pid_ip_overrides ns pid of
       Some ips \<Rightarrow> ip \<in> ips
     | None \<Rightarrow>
       if live = None \<or> allowed_ips (the live) = {} then allows (static_policy ns protocol) ip port
       else ip \<in> allowed_ips (the live))"
  by (auto simp: effective_network_policy_def split: option.splits)

text \<open>
  installing a policy callback widens the network policy. The live policy starts out with the
  addresses of all static allow lists, so, before the callback has done anything, every address named
  by a rule of any protocol is reachable on every port and with every protocol, whatever ports and
  protocol the rule was for.
\<close>

theorem policy_fn_widens_ports:
  assumes "pid_ip_overrides ns pid = None"
    and "static_policy ns rule_proto = AllowList per any_ports" "per ip = Some entry"
  shows "allows (effective_network_policy ns pid protocol
      (Some (initial_live_policy ns max_memory max_procs))) ip port"
proof -
  have "ip \<in> allowed_ips (initial_live_policy ns max_memory max_procs)"
    using assms(2,3) by (cases rule_proto) (auto simp: initial_live_policy_def)
  then show ?thesis
    using assms(1) by (auto simp: effective_network_policy_def)
qed

text \<open>With the single rule \<open>h:443\<close>, port 22 is refused without a callback and permitted with one.\<close>

theorem policy_fn_widens_ports_witness:
  "\<not> allows (effective_network_policy (policies_of one_rule one_resolved) 1 Tcp None) (V4 10 0 0 1) 22
   \<and> allows (effective_network_policy (policies_of one_rule one_resolved) 1 Tcp
        (Some (initial_live_policy (policies_of one_rule one_resolved) 0 64))) (V4 10 0 0 1) 22"
proof
  have pol: "static_policy (policies_of one_rule one_resolved) Tcp =
      AllowList (\<lambda>ip. map_option Specific (if ip = V4 10 0 0 1 then Some {443} else None)) {}"
    unfolding policies_of_static
    by (auto simp: policy_from_def one_resolved_def one_rule_def empty_resolved_def fun_eq_iff)
  have none: "pid_ip_overrides (policies_of one_rule one_resolved) 1 = None"
    by (simp add: policies_of_def Let_def)
  show "\<not> allows (effective_network_policy (policies_of one_rule one_resolved) 1 Tcp None)
      (V4 10 0 0 1) 22"
    using none pol by (simp add: effective_network_policy_def allows_def)
  show "allows (effective_network_policy (policies_of one_rule one_resolved) 1 Tcp
      (Some (initial_live_policy (policies_of one_rule one_resolved) 0 64))) (V4 10 0 0 1) 22"
    by (rule policy_fn_widens_ports [OF none pol]) simp
qed

end
