(* ===== verification/Supervisor.thy ===== *)
theory Supervisor
  imports NetPolicy Arch
begin

text \<open>
  The supervisor as a program that talks to the kernel. Handlers of the repository read the memory
  of the trapped child, duplicate its descriptors and make system calls; everything they learn comes
  back from outside. A handler is therefore a value of type \<open>'a prog\<close>: it ends with a result, or it
  makes one request and goes on with whatever the kernel answers. An answer is an errno or a return
  value with the bytes the kernel wrote. The child runs concurrently, so nothing relates the answers
  of two reads of the same memory, unless a lemma says so: properties quantify over all answers.

  The file holds the program type and its reasoning principle (\<open>safe\<close>), and the operations of
  \<open>seccomp/notif.rs\<close> every handler uses: actions, responses, child memory, descriptors.
\<close>

unbundle bit_operations_syntax

section \<open>Requests and programs\<close>

text \<open>The event handed to the policy callback (\<open>policy_fn.rs\<close>).\<close>

datatype SyscallCategory = FileCategory | NetworkCategory | ProcessCategory | MemoryCategory

record syscall_event =
  ev_syscall :: string
  ev_category :: SyscallCategory
  ev_pid :: u32
  ev_parent_pid :: "u32 option"
  ev_host :: "ip_addr option"
  ev_port :: "u16 option"
  ev_size :: "u64 option"
  ev_argv :: "string list option"
  ev_denied :: bool

text \<open>The \<open>ptrace\<close> requests the supervisor uses.\<close>

datatype ptrace_req =
    Seize | SeizeForkEvents | Interrupt | ResumeToSyscall | Detach | GetEventMsg | GetSyscallInfo | GetRegs

text \<open>File-system calls of the supervisor itself (\<open>std::fs\<close> and \<open>libc\<close> on path names). A test answers
  with a non-zero value for true; \<open>FsMetadata\<close> and \<open>FsSymlinkMetadata\<close> answer with the length and the
  bytes of mode, inode number, device, link count, owner, group, device number, block size, block count
  and times; \<open>FsStatfs\<close> with the number of the file-system type and the bytes of the structure.
  \<open>FsOpenat2\<close> opens below a directory descriptor with \<open>RESOLVE_IN_ROOT\<close>.\<close>

datatype fs_req =
    FsExists string
  | FsIsSymlink string
  | FsIsDir string
  | FsMetadata string
  | FsSymlinkMetadata string
  | FsCreateDirAll string
  | FsCreateFile string
  | FsCopy string string
  | FsSetPermissions string u32
  | FsSymlink string string
  | FsRename string string
  | FsHardLink string string
  | FsRemoveFile string
  | FsRemoveDirAll string
  | FsChown string u32 u32
  | FsOpen string int u32
  | FsSetLen int u64
  | FsSyncAll int
  | FsUtimensat string "bytes option" int
  | FsFstatat string int
  | FsStatx string int u32
  | FsStatfs string
  | FsMkdir string u32
  | FsRmdir string
  | FsTruncate string int
  | FsLinkat string string int
  | FsOpenat2 int string int u32

text \<open>Descriptors of the supervisor. \<open>IoSocketpair\<close> answers with one end, the other in the bytes;
  \<open>IoPoll\<close> with \<open>revents\<close>; \<open>IoSpawnResponder\<close> starts the task that answers a netlink socket. \<open>IoFstat\<close>
  answers with the size; \<open>IoSendfile\<close> copies from the second descriptor, from an offset on, and answers
  with the number of bytes.\<close>

datatype io_req =
    IoAsyncFd int
  | IoNow
  | IoSocketpair int int
  | IoFcntl int int int
  | IoClose int
  | IoMemfdCreate string u32
  | IoWriteAll int bytes
  | IoRewind int
  | IoSpawnResponder int u32
  | IoReadable int
  | IoPoll int
  | IoRecv int nat
  | IoSend int bytes int
  | IoNotifRecv int
  | IoSetSyncWakeup int
  | IoUname
  | IoFstat int
  | IoSeek int u64
  | IoReadExact int nat
  | IoSendfile int int u64 u64

text \<open>Calls by which a process sets itself up, and by which the process that owns a sandbox drives it.
  \<open>SelfSignal\<close> sets a signal to be ignored or to its default; \<open>SelfForeground\<close> makes the own process group
  the foreground one of a terminal; \<open>SelfLimit\<close> sets both limits of a resource; \<open>SelfWriteFile\<close> is
  \<open>std::fs::write\<close>; \<open>SelfOverlay\<close> mounts an overlay with options at a place; \<open>SelfFdMode\<close> answers with the
  mode of the file behind a descriptor; \<open>SelfMarkConfined\<close> sets the flag \<open>CONFINED\<close>; \<open>SelfRunInit\<close> and
  \<open>SelfRunWork\<close> run the functions given by the caller. The Landlock calls carry the fields of their
  attribute structures. \<open>SelfPipe\<close> answers with the read end, the write end in the bytes.\<close>

datatype self_req =
    SelfSetpgid
  | SelfIsatty int
  | SelfSignal int bool
  | SelfForeground int
  | SelfPrctl int u64
  | SelfGetppid
  | SelfGetpid
  | SelfPersonality u64
  | SelfAffinity "nat list"
  | SelfLimit int u64
  | SelfGetuid
  | SelfGetgid
  | SelfUnshare u64
  | SelfWriteFile string string
  | SelfOverlay string string
  | SelfUmount string
  | SelfIoctl int u64
  | SelfChdir string
  | SelfSeccomp u64 "sock_filter list"
  | SelfMarkConfined
  | SelfWrite int bytes
  | SelfRead int nat
  | SelfReadToEnd int
  | SelfClearEnv
  | SelfSetEnv string string
  | SelfExecvp string "string list"
  | SelfFdMode int
  | SelfLandlockVersion
  | SelfLandlockCreate u64 u64 u64
  | SelfLandlockPath int u64 int
  | SelfLandlockPort int u64 u64
  | SelfLandlockRestrict int
  | SelfPipe int
  | SelfDup2 int int
  | SelfFork
  | SelfRunInit
  | SelfRunWork u32
  | SelfStderr string
  | SelfStdout string
  | SelfSleep nat

text \<open>Requests to the world outside the handler. \<open>KReadDir\<close> answers with the names joined by slashes;
  \<open>KPolicyEvent\<close> hands an event to the callback thread, and answers with its verdict when the event
  is held; \<open>KVdsoBase\<close> and \<open>KVdsoPatch\<close> stand for \<open>vdso.rs\<close>, which rewrites code pages of the child.\<close>

datatype sysreq =
    KIdValid u64
  | KReadVm u32 u64 nat
  | KWriteVm u32 u64 bytes
  | KPidfdOpen u32
  | KPidfdGetfd int int
  | KReadFile string
  | KReadlink string
  | KCanonicalize string
  | KSoProtocol int
  | KBind int bytes nat
  | KGetsockname int nat
  | KConnect int bytes nat
  | KSendto int bytes int bytes nat
  | KSendmsg int bytes "bytes list" "bytes option" int
  | KNotifSend u64 int int u32
  | KNotifAddfd u64 u32 int int u32
  | KKillpg int int
  | KKill int int
  | KPidfdOpenThread u32
  | KReadDir string
  | KPtrace ptrace_req int
  | KWaitpid int
  | KPolicyEvent syscall_event bool
  | KVdsoBase int
  | KVdsoPatch int "int option" bool
  | KFs fs_req
  | KIo io_req
  | KSelf self_req

type_synonym sysres = "int + (int \<times> bytes)"

type_synonym history = "(sysreq \<times> sysres) list"

datatype 'a prog = Done 'a | Call sysreq "sysres \<Rightarrow> 'a prog"

primrec pbind :: "'a prog \<Rightarrow> ('a \<Rightarrow> 'b prog) \<Rightarrow> 'b prog" where
  "pbind (Done a) f = f a"
| "pbind (Call r k) f = Call r (\<lambda>x. pbind (k x) f)"

abbreviation syscall :: "sysreq \<Rightarrow> sysres prog" where
  "syscall r \<equiv> Call r Done"

text \<open>Running a program against a kernel, which may use the whole history for its answer.\<close>

type_synonym kernel = "history \<Rightarrow> sysreq \<Rightarrow> sysres"

primrec run :: "kernel \<Rightarrow> 'a prog \<Rightarrow> history \<Rightarrow> 'a \<times> history" where
  "run K (Done a) h = (a, h)"
| "run K (Call r k) h = (let x = K h r in run K (k x) (h @ [(r, x)]))"

lemma run_pbind:
  "run K (pbind p f) h = (let (a, h') = run K p h in run K (f a) h')"
  by (induction p arbitrary: h) (auto simp: Let_def)

lemma pbind_assoc: "pbind (pbind p f) g = pbind p (\<lambda>x. pbind (f x) g)"
  by (induction p) simp_all

lemma pbind_if: "pbind (if c then Done x else p) f = (if c then f x else pbind p f)"
  by simp

definition result :: "kernel \<Rightarrow> 'a prog \<Rightarrow> 'a" where
  "result K p = fst (run K p [])"

definition trace :: "kernel \<Rightarrow> 'a prog \<Rightarrow> history" where
  "trace K p = snd (run K p [])"

text \<open>\<open>safe P Q h p\<close>: continuing after \<open>h\<close>, whatever the kernel answers, every request satisfies \<open>P\<close> of
  the history before it, and the result satisfies \<open>Q\<close> of the whole history.\<close>

primrec safe :: "(history \<Rightarrow> sysreq \<Rightarrow> bool) \<Rightarrow> (history \<Rightarrow> 'a \<Rightarrow> bool) \<Rightarrow> history \<Rightarrow> 'a prog \<Rightarrow> bool" where
  "safe P Q h (Done a) = Q h a"
| "safe P Q h (Call r k) = (P h r \<and> (\<forall>x. safe P Q (h @ [(r, x)]) (k x)))"

lemma safe_pbind [simp]:
  "safe P Q h (pbind p f) = safe P (\<lambda>h' a. safe P Q h' (f a)) h p"
  by (induction p arbitrary: h) auto

lemma safe_mono:
  "safe P Q h p \<Longrightarrow> (\<And>h' a. Q h' a \<Longrightarrow> Q' h' a) \<Longrightarrow> safe P Q' h p"
  by (induction p arbitrary: h) auto

lemma safe_run_result: "safe P Q h p \<Longrightarrow> Q (snd (run K p h)) (fst (run K p h))"
  by (induction p arbitrary: h) (auto simp: Let_def)

lemma safe_run_trace:
  "safe P Q h p \<Longrightarrow> \<exists>h'. snd (run K p h) = h @ h' \<and>
      (\<forall>pre r x post. h' = pre @ (r, x) # post \<longrightarrow> P (h @ pre) r)"
proof (induction p arbitrary: h)
  case (Done a)
  show ?case by simp
next
  case (Call r k)
  let ?x = "K h r"
  have "safe P Q (h @ [(r, ?x)]) (k ?x)" using Call.prems by simp
  from Call.IH [OF rangeI this]
  obtain h' where h': "snd (run K (k ?x) (h @ [(r, ?x)])) = (h @ [(r, ?x)]) @ h'"
    and P: "\<And>pre r' x post. h' = pre @ (r', x) # post \<Longrightarrow> P ((h @ [(r, ?x)]) @ pre) r'"
    by auto
  show ?case
  proof (intro exI conjI allI impI)
    show "snd (run K (Call r k) h) = h @ (r, ?x) # h'"
      using h' by (simp add: Let_def)
    fix pre r' x post
    assume "(r, ?x) # h' = pre @ (r', x) # post"
    then show "P (h @ pre) r'"
      using Call.prems P by (cases pre) auto
  qed
qed

lemma safe_result: "safe P Q [] p \<Longrightarrow> Q (trace K p) (result K p)"
  unfolding trace_def result_def by (rule safe_run_result)

lemma safe_trace:
  assumes "safe P Q [] p" "trace K p = pre @ (r, x) # post"
  shows "P pre r"
  using safe_run_trace [OF assms(1), of K] assms(2) by (auto simp: trace_def)

section \<open>Actions\<close>

text \<open>\<open>OnInjectSuccess\<close> wraps a closure; the only one the repository builds registers the descriptor
  the child received as a netlink cookie of the process.\<close>

datatype inject_callback = RegisterNetlinkCookie u32

datatype notif_action =
    Continue
  | Errno int
  | InjectFd int int
  | InjectFdSend int u32
  | InjectFdSendTracked int u32 inject_callback
  | ReturnValue int
  | Hold
  | Kill int int

section \<open>Integer casts of system call arguments\<close>

definition as_i32 :: "u64 \<Rightarrow> int" where "as_i32 w = sint (ucast w :: u32)"
definition as_u32 :: "u64 \<Rightarrow> u32" where "as_u32 w = ucast w"
definition arg :: "seccomp_notif \<Rightarrow> nat \<Rightarrow> u64" where "arg n i = args_of (notif_data n) ! i"

text \<open>\<open>notif.data.nr as i64\<close>, from the \<open>i32\<close> field.\<close>

definition notif_nr :: "seccomp_notif \<Rightarrow> int" where
  "notif_nr n = sint (nr_of (notif_data n))"

section \<open>Child memory\<close>

datatype notif_error = NotifSupervisor string | ChildMemoryRead int | Ioctl int

definition id_valid :: "u64 \<Rightarrow> (int + unit) prog" where
  "id_valid i = pbind (syscall (KIdValid i)) (\<lambda>x. case x of
     Inl e \<Rightarrow> Done (Inl e) | Inr _ \<Rightarrow> Done (Inr ()))"

text \<open>\<open>process_vm_readv\<close> of one buffer of \<open>len\<close> bytes; \<open>buf.truncate(ret)\<close> keeps what was read.\<close>

definition read_child_mem_vm :: "u32 \<Rightarrow> u64 \<Rightarrow> nat \<Rightarrow> (notif_error + bytes) prog" where
  "read_child_mem_vm p addr len = pbind (syscall (KReadVm p addr len)) (\<lambda>x. case x of
     Inl e \<Rightarrow> Done (Inl (ChildMemoryRead e)) | Inr (_, bs) \<Rightarrow> Done (Inr (take len bs)))"

text \<open>\<open>process_vm_writev\<close>; fewer bytes written than asked is an error too.\<close>

definition write_child_mem_vm :: "u32 \<Rightarrow> u64 \<Rightarrow> bytes \<Rightarrow> (notif_error + unit) prog" where
  "write_child_mem_vm p addr d = pbind (syscall (KWriteVm p addr d)) (\<lambda>x. case x of
     Inl e \<Rightarrow> Done (Inl (ChildMemoryRead e))
   | Inr (ret, _) \<Rightarrow>
       if ret < int (length d) then Done (Inl (ChildMemoryRead 0)) else Done (Inr ()))"

definition read_child_mem :: "u64 \<Rightarrow> u32 \<Rightarrow> u64 \<Rightarrow> nat \<Rightarrow> (notif_error + bytes) prog" where
  "read_child_mem i p addr len =
     pbind (id_valid i) (\<lambda>v. case v of Inl e \<Rightarrow> Done (Inl (Ioctl e)) | Inr _ \<Rightarrow>
     pbind (read_child_mem_vm p addr len) (\<lambda>r. case r of Inl e \<Rightarrow> Done (Inl e) | Inr bs \<Rightarrow>
     pbind (id_valid i) (\<lambda>v. case v of Inl e \<Rightarrow> Done (Inl (Ioctl e)) | Inr _ \<Rightarrow> Done (Inr bs))))"

definition write_child_mem :: "u64 \<Rightarrow> u32 \<Rightarrow> u64 \<Rightarrow> bytes \<Rightarrow> (notif_error + unit) prog" where
  "write_child_mem i p addr d =
     pbind (id_valid i) (\<lambda>v. case v of Inl e \<Rightarrow> Done (Inl (Ioctl e)) | Inr _ \<Rightarrow>
     pbind (write_child_mem_vm p addr d) (\<lambda>r. case r of Inl e \<Rightarrow> Done (Inl e) | Inr _ \<Rightarrow>
     pbind (id_valid i) (\<lambda>v. case v of Inl e \<Rightarrow> Done (Inl (Ioctl e)) | Inr _ \<Rightarrow> Done (Inr ()))))"

text \<open>The loop of \<open>read_child_cstr\<close>. A successful read of a non-empty range delivers at least one
  byte, so \<open>max_len\<close> rounds are enough fuel. A short read does not end the loop, and the next round
  starts \<open>to_read\<close> bytes on, as in the source.\<close>

primrec read_cstr_loop ::
  "nat \<Rightarrow> u64 \<Rightarrow> u32 \<Rightarrow> u64 \<Rightarrow> nat \<Rightarrow> bytes \<Rightarrow> string option prog" where
  "read_cstr_loop 0 i p cur max_len acc = Done None"
| "read_cstr_loop (Suc fuel) i p cur max_len acc =
     (if length acc < max_len then
        (let page_remaining = 4096 - unat cur mod 4096;
             to_read = min page_remaining (max_len - length acc)
         in pbind (read_child_mem i p cur to_read) (\<lambda>r. case r of
              Inl _ \<Rightarrow> Done None
            | Inr bs \<Rightarrow>
                if 0 \<in> set bs then Done (from_utf8 (acc @ until_nul bs))
                else read_cstr_loop fuel i p (cur + word_of_nat to_read) max_len (acc @ bs)))
      else Done (from_utf8 acc))"

definition read_child_cstr :: "u64 \<Rightarrow> u32 \<Rightarrow> u64 \<Rightarrow> nat \<Rightarrow> string option prog" where
  "read_child_cstr i p addr max_len =
     (if addr = 0 \<or> max_len = 0 then Done None
      else read_cstr_loop (Suc max_len) i p addr max_len [])"

section \<open>Descriptors\<close>

fun lines_of :: "string \<Rightarrow> string list" where
  "lines_of s = split_on CHR 0x0A s"

fun find_map :: "('a \<Rightarrow> 'b option) \<Rightarrow> 'a list \<Rightarrow> 'b option" where
  "find_map f [] = None"
| "find_map f (x # xs) = (case f x of Some y \<Rightarrow> Some y | None \<Rightarrow> find_map f xs)"

definition strip_prefix :: "string \<Rightarrow> string \<Rightarrow> string option" where
  "strip_prefix pre s = (if prefix pre s then Some (drop (length pre) s) else None)"

definition parse_u32 :: "string \<Rightarrow> u32 option" where
  "parse_u32 s = map_option word_of_nat (parse_uint 4294967295 10 s)"

definition tgid_of :: "u32 \<Rightarrow> u32 option prog" where
  "tgid_of tid = pbind (syscall (KReadFile (''/proc/'' @ show_nat (unat tid) @ ''/status'')))
     (\<lambda>x. case x of
        Inl _ \<Rightarrow> Done None
      | Inr (_, content) \<Rightarrow> (case from_utf8 content of
          None \<Rightarrow> Done None
        | Some status \<Rightarrow> Done (find_map
            (\<lambda>l. Option.bind (strip_prefix ''Tgid:'' l) (\<lambda>r. parse_u32 (trim r)))
            (lines_of status))))"

definition pidfd_open :: "u32 \<Rightarrow> (int + int) prog" where
  "pidfd_open p = pbind (syscall (KPidfdOpen p)) (\<lambda>x. case x of
     Inl e \<Rightarrow> Done (Inl e) | Inr (fd, _) \<Rightarrow> Done (Inr fd))"

definition dup_fd_from_pid :: "u32 \<Rightarrow> int \<Rightarrow> (int + int) prog" where
  "dup_fd_from_pid p target_fd =
     pbind (pbind (pidfd_open p) (\<lambda>r. case r of
         Inr fd \<Rightarrow> Done (Inr fd)
       | Inl e \<Rightarrow> pbind (tgid_of p) (\<lambda>t. case t of
           Some tgid \<Rightarrow> if tgid \<noteq> p then pidfd_open tgid else Done (Inl e)
         | None \<Rightarrow> Done (Inl e)))) (\<lambda>r. case r of
       Inl e \<Rightarrow> Done (Inl e)
     | Inr pidfd \<Rightarrow> pbind (syscall (KPidfdGetfd pidfd target_fd)) (\<lambda>x. case x of
         Inl e \<Rightarrow> Done (Inl e) | Inr (fd, _) \<Rightarrow> Done (Inr fd)))"

section \<open>Responses\<close>

abbreviation (input) SECCOMP_USER_NOTIF_FLAG_CONTINUE :: u32 where
  "SECCOMP_USER_NOTIF_FLAG_CONTINUE \<equiv> 1"
abbreviation (input) SECCOMP_ADDFD_FLAG_SEND :: u32 where
  "SECCOMP_ADDFD_FLAG_SEND \<equiv> 2"

definition send_resp_raw :: "u64 \<Rightarrow> int \<Rightarrow> int \<Rightarrow> u32 \<Rightarrow> (int + unit) prog" where
  "send_resp_raw i val err flags = pbind (syscall (KNotifSend i val err flags)) (\<lambda>x. case x of
     Inl e \<Rightarrow> Done (Inl e) | Inr _ \<Rightarrow> Done (Inr ()))"

definition respond_continue :: "u64 \<Rightarrow> (int + unit) prog" where
  "respond_continue i = send_resp_raw i 0 0 SECCOMP_USER_NOTIF_FLAG_CONTINUE"

definition respond_errno :: "u64 \<Rightarrow> int \<Rightarrow> (int + unit) prog" where
  "respond_errno i errno = send_resp_raw i 0 (- errno) 0"

definition respond_value :: "u64 \<Rightarrow> int \<Rightarrow> (int + unit) prog" where
  "respond_value i v = send_resp_raw i v 0 0"

definition inject_fd_and_send :: "u64 \<Rightarrow> int \<Rightarrow> u32 \<Rightarrow> (int + int) prog" where
  "inject_fd_and_send i srcfd newfd_flags =
     pbind (syscall (KNotifAddfd i SECCOMP_ADDFD_FLAG_SEND srcfd 0 newfd_flags)) (\<lambda>x. case x of
       Inl e \<Rightarrow> Done (Inl e) | Inr (fd, _) \<Rightarrow> Done (Inr fd))"

definition inject_fd :: "u64 \<Rightarrow> int \<Rightarrow> int \<Rightarrow> (int + unit) prog" where
  "inject_fd i srcfd targetfd =
     pbind (syscall (KNotifAddfd i 0 srcfd targetfd 0)) (\<lambda>x. case x of
       Inl e \<Rightarrow> Done (Inl e) | Inr _ \<Rightarrow> Done (Inr ()))"

text \<open>\<open>send_response\<close>; besides the outcome it gives the callback to run with the injected descriptor.\<close>

definition send_response ::
  "u64 \<Rightarrow> notif_action \<Rightarrow> ((int + unit) \<times> (inject_callback \<times> int) option) prog" where
  "send_response i action = (case action of
     Continue \<Rightarrow> pbind (respond_continue i) (\<lambda>r. Done (r, None))
   | Errno errno \<Rightarrow> pbind (respond_errno i errno) (\<lambda>r. Done (r, None))
   | InjectFd srcfd targetfd \<Rightarrow>
       pbind (inject_fd i srcfd targetfd) (\<lambda>r. case r of
         Inl e \<Rightarrow> Done (Inl e, None)
       | Inr _ \<Rightarrow> pbind (respond_continue i) (\<lambda>r. Done (r, None)))
   | InjectFdSend srcfd newfd_flags \<Rightarrow>
       pbind (inject_fd_and_send i srcfd newfd_flags) (\<lambda>r. case r of
         Inr _ \<Rightarrow> Done (Inr (), None)
       | Inl _ \<Rightarrow> pbind (respond_continue i) (\<lambda>r. Done (r, None)))
   | InjectFdSendTracked srcfd newfd_flags cb \<Rightarrow>
       pbind (inject_fd_and_send i srcfd newfd_flags) (\<lambda>r. case r of
         Inr new_fd \<Rightarrow> Done (Inr (), Some (cb, new_fd))
       | Inl _ \<Rightarrow> pbind (respond_continue i) (\<lambda>r. Done (r, None)))
   | ReturnValue v \<Rightarrow> pbind (respond_value i v) (\<lambda>r. Done (r, None))
   | Hold \<Rightarrow> Done (Inr (), None)
   | Kill sig pgid \<Rightarrow> pbind (syscall (KKillpg pgid sig)) (\<lambda>_.
       pbind (respond_errno i ENOMEM) (\<lambda>r. Done (r, None))))"

section \<open>Kernels without memory\<close>

text \<open>A kernel whose answer depends on the request only, such as a child that leaves its memory
  alone; a program run against it is evaluated by rewriting.\<close>

definition stateless :: "(sysreq \<Rightarrow> sysres) \<Rightarrow> kernel" where
  "stateless M = (\<lambda>h r. M r)"

primrec eval :: "(sysreq \<Rightarrow> sysres) \<Rightarrow> 'a prog \<Rightarrow> 'a" where
  "eval M (Done a) = a"
| "eval M (Call r k) = eval M (k (M r))"

lemma eval_pbind [simp]: "eval M (pbind p f) = eval M (f (eval M p))"
  by (induction p) auto

lemma result_stateless: "result (stateless M) p = eval M p"
proof -
  have "fst (run (stateless M) p h) = eval M p" for h
    by (induction p arbitrary: h) (auto simp: stateless_def Let_def)
  then show ?thesis by (simp add: result_def)
qed

text \<open>Every request of a run satisfies a predicate of the history before it.\<close>

definition always :: "(history \<Rightarrow> sysreq \<Rightarrow> bool) \<Rightarrow> kernel \<Rightarrow> 'a prog \<Rightarrow> bool" where
  "always P K p \<longleftrightarrow> (\<forall>pre r x post. trace K p = pre @ (r, x) # post \<longrightarrow> P pre r)"

lemma safe_always: "safe P Q [] p \<Longrightarrow> always P K p"
  unfolding always_def using safe_trace by blast

text \<open>Reading memory that is there.\<close>

lemma eval_read_child_mem:
  assumes "M (KIdValid i) = Inr z" "M (KReadVm p a len) = Inr (y, bs)"
  shows "eval M (read_child_mem i p a len) = Inr (take len bs)"
  using assms by (simp add: read_child_mem_def read_child_mem_vm_def id_valid_def split: prod.splits)

section \<open>Reasoning about the shared operations\<close>

text \<open>Requests that only read: memory, descriptors and files of the child.\<close>

definition harmless :: "sysreq \<Rightarrow> bool" where
  "harmless r = (case r of KIdValid _ \<Rightarrow> True | KReadVm _ _ _ \<Rightarrow> True
     | KPidfdOpen _ \<Rightarrow> True | KPidfdGetfd _ _ \<Rightarrow> True | KReadFile _ \<Rightarrow> True | _ \<Rightarrow> False)"

lemma harmless_simps [simp]:
  "harmless (KIdValid i)" "harmless (KReadVm p ad len)" "\<not> harmless (KWriteVm p ad bs)"
  "harmless (KPidfdOpen p)" "harmless (KPidfdGetfd x y)" "harmless (KReadFile f)"
  "\<not> harmless (KSoProtocol fd)" "\<not> harmless (KBind fd a l)" "\<not> harmless (KGetsockname fd l)"
  "\<not> harmless (KConnect fd a l)" "\<not> harmless (KSendto fd d fl a l)"
  "\<not> harmless (KSendmsg fd a ds c fl)" "\<not> harmless (KNotifSend i v e w)"
  "\<not> harmless (KNotifAddfd i w s t w')" "\<not> harmless (KKillpg s t)" "\<not> harmless (KReadlink f)"
  "\<not> harmless (KCanonicalize f)" "\<not> harmless (KKill s t)" "\<not> harmless (KPidfdOpenThread p)"
  "\<not> harmless (KReadDir f)" "\<not> harmless (KPtrace q s)" "\<not> harmless (KWaitpid s)"
  "\<not> harmless (KPolicyEvent ev b)" "\<not> harmless (KVdsoBase s)" "\<not> harmless (KVdsoPatch s off b)"
  "\<not> harmless (KFs q')" "\<not> harmless (KIo q'')"
  by (simp_all add: harmless_def)

text \<open>The bytes are one copy of child memory made earlier in the history.\<close>

definition copied :: "history \<Rightarrow> u32 \<Rightarrow> bytes \<Rightarrow> bool" where
  "copied h p b \<longleftrightarrow> (\<exists>addr len y raw. (KReadVm p addr len, Inr (y, raw)) \<in> set h \<and> b = take len raw)"

text \<open>\<open>h'\<close> extends \<open>h\<close> by requests outside \<open>E\<close>.\<close>

definition calm :: "(sysreq \<Rightarrow> bool) \<Rightarrow> history \<Rightarrow> history \<Rightarrow> bool" where
  "calm E h h' \<longleftrightarrow> (\<exists>t. h' = h @ t \<and> list_all (\<lambda>(r, x). \<not> E r) t)"

lemma calm_refl [simp]: "calm E h h"
  by (simp add: calm_def)

lemma calm_append [simp]: "calm E h (h @ t) \<longleftrightarrow> list_all (\<lambda>(r, x). \<not> E r) t"
  by (auto simp: calm_def)

lemma calm_trans [trans]: "calm E h h1 \<Longrightarrow> calm E h1 h2 \<Longrightarrow> calm E h h2"
  by (auto simp: calm_def)

lemma calm_snoc: "calm E h h1 \<Longrightarrow> \<not> E r \<Longrightarrow> calm E h (h1 @ [(r, x)])"
  by (auto simp: calm_def)

lemma calm_set: "calm E h h' \<Longrightarrow> set h \<subseteq> set h'"
  by (auto simp: calm_def)

lemma copied_calm: "copied h p b \<Longrightarrow> calm E h h' \<Longrightarrow> copied h' p b"
  using calm_set unfolding copied_def by blast

lemma safe_read_mem:
  assumes "\<And>h r. harmless r \<Longrightarrow> P h r" "\<And>r. harmless r \<Longrightarrow> \<not> E r"
    and "\<And>h' e. calm E h h' \<Longrightarrow> Q h' (Inl e)"
    and "\<And>h' bs. calm E h h' \<Longrightarrow> copied h' p bs \<Longrightarrow> length bs \<le> len \<Longrightarrow> Q h' (Inr bs)"
  shows "safe P Q h (read_child_mem i p a len)"
proof -
  have "copied (h @ [(KIdValid i, x), (KReadVm p a len, Inr (y, raw)), (KIdValid i, z)]) p (take len raw)"
    for x y raw z unfolding copied_def by auto
  then show ?thesis
    by (auto simp: read_child_mem_def read_child_mem_vm_def id_valid_def assms(1,2)
        intro!: assms(3,4) split: sum.splits prod.splits)
qed

lemma safe_write_mem:
  assumes "\<And>h r. harmless r \<Longrightarrow> P h r" "\<And>r. harmless r \<Longrightarrow> \<not> E r"
    and "\<not> E (KWriteVm p a d)" "\<And>h'. calm E h h' \<Longrightarrow> P h' (KWriteVm p a d)"
    and "\<And>h' x. calm E h h' \<Longrightarrow> Q h' x"
  shows "safe P Q h (write_child_mem i p a d)"
  by (auto simp: write_child_mem_def write_child_mem_vm_def id_valid_def assms(1,2,3)
      intro!: assms(4,5) split: sum.splits prod.splits if_splits)

lemma safe_pidfd_open:
  assumes "P h (KPidfdOpen p)" "\<not> E (KPidfdOpen p)" "\<And>h' x. calm E h h' \<Longrightarrow> Q h' x"
  shows "safe P Q h (pidfd_open p)"
  using assms by (auto simp: pidfd_open_def split: sum.splits)

lemma safe_tgid_of:
  assumes "\<And>f. P h (KReadFile f)" "\<And>f. \<not> E (KReadFile f)" "\<And>h' x. calm E h h' \<Longrightarrow> Q h' x"
  shows "safe P Q h (tgid_of t)"
proof -
  have "safe P Q h (Call r (\<lambda>x. Done (f x)))" if "P h r" "\<not> E r" for r and f :: "sysres \<Rightarrow> u32 option"
    using that assms(3) by simp
  then show ?thesis
    unfolding tgid_of_def using assms by (auto split: sum.splits prod.splits option.splits)
qed

lemma safe_dup:
  assumes "\<And>h r. harmless r \<Longrightarrow> P h r" "\<And>r. harmless r \<Longrightarrow> \<not> E r"
    and "\<And>h' x. calm E h h' \<Longrightarrow> Q h' x"
  shows "safe P Q h (dup_fd_from_pid p fd)"
  unfolding dup_fd_from_pid_def
  by (auto simp: assms(1,2) intro!: safe_pidfd_open [where E = E] safe_tgid_of [where E = E] assms(3)
      intro!: calm_snoc intro: calm_trans split: sum.splits option.splits if_splits)

end
