(* ===== verification/PortRemap.thy ===== *)
theory PortRemap
  imports Supervisor
begin

text \<open>
  \<open>port_remap.rs\<close>: the table of virtual and real ports, and the \<open>bind\<close> and \<open>getsockname\<close> handlers
  that keep and apply it. The optional \<open>on_bind\<close> callback only reports the table and is left out.
\<close>

unbundle bit_operations_syntax

section \<open>The port table\<close>

record port_map =
  virtual_to_real :: "u16 \<Rightarrow> u16 option"
  real_to_virtual :: "u16 \<Rightarrow> u16 option"
  bound_ports :: "u16 set"

definition PortMap_new :: port_map where
  "PortMap_new = \<lparr>virtual_to_real = Map.empty, real_to_virtual = Map.empty, bound_ports = {}\<rparr>"

definition record_bind :: "port_map \<Rightarrow> u16 \<Rightarrow> u16 \<Rightarrow> port_map" where
  "record_bind m virtual_port real_port =
     (let m1 = m\<lparr>bound_ports := insert real_port (bound_ports m)\<rparr> in
      if virtual_port \<noteq> real_port
      then m1\<lparr>virtual_to_real := (virtual_to_real m1)(virtual_port \<mapsto> real_port),
              real_to_virtual := (real_to_virtual m1)(real_port \<mapsto> virtual_port)\<rparr>
      else m1)"

definition get_real :: "port_map \<Rightarrow> u16 \<Rightarrow> u16 option" where
  "get_real m virtual_port = virtual_to_real m virtual_port"

definition get_virtual :: "port_map \<Rightarrow> u16 \<Rightarrow> u16 option" where
  "get_virtual m real_port = real_to_virtual m real_port"

text \<open>\<open>extract_port\<close> is the same code as \<open>parse_port_from_sockaddr\<close> of \<open>network.rs\<close>.\<close>

definition extract_port :: "bytes \<Rightarrow> u16 option" where
  "extract_port b =
     (if length b < 4 then None
      else let family = sockaddr_family b in
        if family = AF_INET \<or> family = AF_INET6 then Some (u16_from_be (b ! 2) (b ! 3)) else None)"

section \<open>Network state\<close>

text \<open>\<open>NetworkState\<close> of \<open>seccomp/state.rs\<close>: the policies, the port table, and the HTTP proxy with
  the map of original destinations it shares.\<close>

record network_state = net_policies +
  ns_port_map :: port_map
  http_acl_addr :: "socket_addr option"
  http_acl_ports :: "u16 set"
  http_acl_orig_dest :: "(socket_addr \<Rightarrow> ip_addr option) option"

definition NetworkState_new :: network_state where
  "NetworkState_new =
     \<lparr>tcp_policy = Unrestricted, udp_policy = Unrestricted, icmp_policy = Unrestricted,
      pid_ip_overrides = Map.empty, ns_port_map = PortMap_new, http_acl_addr = None,
      http_acl_ports = {}, http_acl_orig_dest = None\<rparr>"

section \<open>The bind handler\<close>

text \<open>\<open>libc::bind\<close> on the duplicated descriptor: \<open>None\<close> for success, or the errno.
  The length is cast to the 32-bit \<open>socklen_t\<close>.\<close>

definition do_bind :: "int \<Rightarrow> bytes \<Rightarrow> nat \<Rightarrow> int option prog" where
  "do_bind fd addr len =
     pbind (syscall (KBind fd addr (unat (word_of_nat len :: u32)))) (\<lambda>x. case x of
     Inl e \<Rightarrow> Done (Some e) | Inr _ \<Rightarrow> Done None)"

definition bind_verbatim :: "int \<Rightarrow> bytes \<Rightarrow> nat \<Rightarrow> notif_action prog" where
  "bind_verbatim fd addr len = pbind (do_bind fd addr len) (\<lambda>r. case r of
     None \<Rightarrow> Done (ReturnValue 0) | Some e \<Rightarrow> Done (Errno e))"

definition query_local_port :: "int \<Rightarrow> u16 option prog" where
  "query_local_port fd = pbind (syscall (KGetsockname fd 128)) (\<lambda>x. case x of
     Inl _ \<Rightarrow> Done None | Inr (len, storage) \<Rightarrow> Done (extract_port (take (nat len) storage)))"

text \<open>The part of \<open>handle_bind\<close> for an address with a port to track: try the cached real port, or the
  port itself; if that is taken, let the kernel choose.\<close>

definition bind_tracked ::
  "int \<Rightarrow> bytes \<Rightarrow> nat \<Rightarrow> u16 \<Rightarrow> network_state \<Rightarrow> (notif_action \<times> network_state) prog" where
  "bind_tracked dup_fd bs addr_len virtual_port ns =
     (let cached_real = get_real (ns_port_map ns) virtual_port;
          attempt_port = (case cached_real of Some p \<Rightarrow> p | None \<Rightarrow> virtual_port);
          bs1 = set_port_in_sockaddr bs attempt_port
      in pbind (do_bind dup_fd bs1 addr_len) (\<lambda>b. case b of
        None \<Rightarrow> Done (ReturnValue 0,
          if cached_real = None
          then ns\<lparr>ns_port_map := record_bind (ns_port_map ns) virtual_port virtual_port\<rparr>
          else ns)
      | Some err \<Rightarrow>
          if err \<noteq> EADDRINUSE then Done (Errno err, ns)
          else
            let bs2 = set_port_in_sockaddr bs1 0 in
            pbind (do_bind dup_fd bs2 addr_len) (\<lambda>b. case b of
              Some e \<Rightarrow> Done (Errno e, ns)
            | None \<Rightarrow>
            pbind (query_local_port dup_fd) (\<lambda>q. case q of
              None \<Rightarrow> Done (Errno EIO, ns)
            | Some real_port \<Rightarrow> Done (ReturnValue 0,
                ns\<lparr>ns_port_map := record_bind (ns_port_map ns) virtual_port real_port\<rparr>)))))"

definition handle_bind ::
  "seccomp_notif \<Rightarrow> network_state \<Rightarrow> (notif_action \<times> network_state) prog" where
  "handle_bind n ns =
     (let sockfd = as_i32 (arg n 0); addr_ptr = arg n 1; addr_len = unat (arg n 2) in
      if addr_ptr = 0 \<or> addr_len < 4 then Done (Continue, ns)
      else
      pbind (read_child_mem (notif_id n) (notif_pid n) addr_ptr (min addr_len 128)) (\<lambda>r. case r of
        Inl _ \<Rightarrow> Done (Errno EIO, ns)
      | Inr bs \<Rightarrow>
      pbind (dup_fd_from_pid (notif_pid n) sockfd) (\<lambda>d. case d of
        Inl e \<Rightarrow> Done (Errno e, ns)
      | Inr dup_fd \<Rightarrow>
        (case extract_port bs of
           None \<Rightarrow> pbind (bind_verbatim dup_fd bs addr_len) (\<lambda>a. Done (a, ns))
         | Some virtual_port \<Rightarrow>
           if virtual_port = 0 then pbind (bind_verbatim dup_fd bs addr_len) (\<lambda>a. Done (a, ns))
           else bind_tracked dup_fd bs addr_len virtual_port ns))))"

section \<open>The getsockname handler\<close>

definition handle_getsockname :: "seccomp_notif \<Rightarrow> network_state \<Rightarrow> notif_action prog" where
  "handle_getsockname n ns =
     (let sockfd = as_i32 (arg n 0); addr_ptr = arg n 1; addrlen_ptr = arg n 2 in
      if addr_ptr = 0 \<or> addrlen_ptr = 0 then Done (Errno EFAULT)
      else
      pbind (read_child_mem (notif_id n) (notif_pid n) addrlen_ptr 4) (\<lambda>r. case r of
        Inl _ \<Rightarrow> Done (Errno EFAULT)
      | Inr lb \<Rightarrow>
        if length lb < 4 then Done (Errno EFAULT)
        else
          let addr_len = unat (le_word (take 4 lb) :: u32) in
          pbind (dup_fd_from_pid (notif_pid n) sockfd) (\<lambda>d. case d of
            Inl e \<Rightarrow> Done (Errno e)
          | Inr dup_fd \<Rightarrow>
          pbind (syscall (KGetsockname dup_fd (min addr_len 128))) (\<lambda>x. case x of
            Inl e \<Rightarrow> Done (Errno e)
          | Inr (actual, out) \<Rightarrow>
            let storage = take 128 (out @ replicate 128 0);
                actual_len = unat (word_of_int actual :: u32);
                to_write = min (min addr_len actual_len) 128;
                raw = take to_write storage;
                bs = (case extract_port raw of
                    None \<Rightarrow> raw
                  | Some real_port \<Rightarrow> (case get_virtual (ns_port_map ns) real_port of
                      Some virtual_port \<Rightarrow> set_port_in_sockaddr raw virtual_port
                    | None \<Rightarrow> raw))
            in pbind (if bs \<noteq> [] then write_child_mem (notif_id n) (notif_pid n) addr_ptr bs
                      else Done (Inr ())) (\<lambda>w. case w of
                 Inl _ \<Rightarrow> Done (Errno EFAULT)
               | Inr _ \<Rightarrow>
                 pbind (write_child_mem (notif_id n) (notif_pid n) addrlen_ptr
                          (le_bytes 4 (word_of_int actual :: u32))) (\<lambda>w. case w of
                   Inl _ \<Rightarrow> Done (Errno EFAULT)
                 | Inr _ \<Rightarrow> Done (ReturnValue 0)))))))"

section \<open>The table as an interface\<close>

text \<open>What the handlers rely on: a record of a changed port is found from both sides, and leaves the
  other ports alone; a record of an unchanged port leaves both directions alone.\<close>

locale port_table =
  fixes rcd :: "'t \<Rightarrow> u16 \<Rightarrow> u16 \<Rightarrow> 't"
    and real_of :: "'t \<Rightarrow> u16 \<Rightarrow> u16 option"
    and virt_of :: "'t \<Rightarrow> u16 \<Rightarrow> u16 option"
  assumes real_new: "v \<noteq> r \<Longrightarrow> real_of (rcd t v r) v = Some r"
    and virt_new: "v \<noteq> r \<Longrightarrow> virt_of (rcd t v r) r = Some v"
    and real_other: "w \<noteq> v \<Longrightarrow> real_of (rcd t v r) w = real_of t w"
    and virt_other: "q \<noteq> r \<Longrightarrow> virt_of (rcd t v r) q = virt_of t q"
    and real_same: "real_of (rcd t v v) = real_of t"
    and virt_same: "virt_of (rcd t v v) = virt_of t"
begin

text \<open>The real port a virtual port stands for, and the port reported for a real port.\<close>

lemma translate_new:
  assumes "v \<noteq> r \<or> real_of t v = None"
  shows "case_option v (\<lambda>p. p) (real_of (rcd t v r) v) = r"
  using assms by (cases "v = r") (simp_all add: real_new real_same)

lemma translate_other:
  "w \<noteq> v \<Longrightarrow> case_option w (\<lambda>p. p) (real_of (rcd t v r) w) = case_option w (\<lambda>p. p) (real_of t w)"
  by (simp add: real_other)

lemma report_new:
  assumes "v \<noteq> r \<or> virt_of t r = None"
  shows "case_option r (\<lambda>p. p) (virt_of (rcd t v r) r) = v"
  using assms by (cases "v = r") (simp_all add: virt_new virt_same)

text \<open>An entry for a real port survives the record of that port for itself.\<close>

lemma report_stale:
  "virt_of t v = Some w \<Longrightarrow> case_option v (\<lambda>p. p) (virt_of (rcd t v v) v) = w"
  by (simp add: virt_same)

end

interpretation ports: port_table record_bind get_real get_virtual
  by unfold_locales (auto simp: record_bind_def get_real_def get_virtual_def Let_def)

definition real_port :: "port_map \<Rightarrow> u16 \<Rightarrow> u16" where
  "real_port m v = (case get_real m v of Some p \<Rightarrow> p | None \<Rightarrow> v)"

definition reported_port :: "port_map \<Rightarrow> u16 \<Rightarrow> u16" where
  "reported_port m r = (case get_virtual m r of Some p \<Rightarrow> p | None \<Rightarrow> r)"

text \<open>Both directions of the table agree.\<close>

definition two_way :: "port_map \<Rightarrow> bool" where
  "two_way m \<longleftrightarrow> (\<forall>v r. get_real m v = Some r \<longrightarrow> get_virtual m r = Some v)"

section \<open>Requests of the bind handler\<close>

lemma extract_port_eq: "extract_port = parse_port_from_sockaddr"
  by (simp add: fun_eq_iff extract_port_def parse_port_from_sockaddr_def)

lemma extract_set_port:
  "extract_port b = Some v \<Longrightarrow> extract_port (set_port_in_sockaddr b p) = Some p"
  unfolding extract_port_eq by (rule parse_port_set_port)

lemma set_port_twice [simp]:
  "set_port_in_sockaddr (set_port_in_sockaddr b p) q = set_port_in_sockaddr b q"
  by (simp add: set_port_in_sockaddr_def list_update_swap)

text \<open>What a \<open>bind\<close> may carry: the copied address as it is when it has no port to track, else with the
  real port of its port put in, or port 0 after the kernel said EADDRINUSE.\<close>

definition bind_request_ok :: "u32 \<Rightarrow> port_map \<Rightarrow> history \<Rightarrow> sysreq \<Rightarrow> bool" where
  "bind_request_ok p m h r = (case r of
     KBind fd a len \<Rightarrow> (\<exists>b. copied h p b \<and>
       (a = b \<and> extract_port b \<in> {None, Some 0}
        \<or> (\<exists>v. extract_port b = Some v \<and> v \<noteq> 0 \<and>
             (a = set_port_in_sockaddr b (real_port m v)
              \<or> a = set_port_in_sockaddr b 0
                \<and> (KBind fd (set_port_in_sockaddr b (real_port m v)) len, Inl EADDRINUSE) \<in> set h))))
   | KGetsockname fd len \<Rightarrow> True
   | _ \<Rightarrow> harmless r)"

lemma bind_request_ok_simps [simp]:
  "bind_request_ok p m h (KGetsockname fd len)"
  "harmless r \<Longrightarrow> bind_request_ok p m h r"
  by (cases r; simp add: bind_request_ok_def)+

text \<open>The port the socket got: the one of an accepted \<open>bind\<close>, or, when that asked for port 0, the one
  \<open>getsockname\<close> told.\<close>

definition socket_port :: "history \<Rightarrow> bytes \<Rightarrow> u16 \<Rightarrow> bool" where
  "socket_port h b r \<longleftrightarrow> (\<exists>fd len y. (KBind fd (set_port_in_sockaddr b r) len, Inr y) \<in> set h)
     \<or> (\<exists>fd len y st n. (KBind fd (set_port_in_sockaddr b 0) len, Inr y) \<in> set h
          \<and> (KGetsockname fd 128, Inr (n, st)) \<in> set h \<and> extract_port (take (nat n) st) = Some r)"

definition bind_outcome ::
  "seccomp_notif \<Rightarrow> network_state \<Rightarrow> history \<Rightarrow> notif_action \<times> network_state \<Rightarrow> bool" where
  "bind_outcome n ns h res = (case res of
     (ReturnValue v, ns') \<Rightarrow> v = 0 \<and> (\<exists>b. copied h (notif_pid n) b \<and>
       (case extract_port b of
          Some p \<Rightarrow> if p = 0 then ns' = ns
            else (\<exists>r. socket_port h b r
              \<and> (r \<noteq> p \<or> get_real (ns_port_map ns) p = None \<longrightarrow> real_port (ns_port_map ns') p = r)
              \<and> (two_way (ns_port_map ns) \<and> (r \<noteq> p \<or> get_virtual (ns_port_map ns) p = None)
                   \<longrightarrow> reported_port (ns_port_map ns') r = p)
              \<and> (\<forall>w. w \<noteq> p \<longrightarrow> real_port (ns_port_map ns') w = real_port (ns_port_map ns) w))
        | None \<Rightarrow> ns' = ns))
   | (Continue, ns') \<Rightarrow> ns' = ns \<and> h = [] \<and> (arg n 1 = 0 \<or> unat (arg n 2) < 4)
   | (Errno e, ns') \<Rightarrow> ns' = ns
   | _ \<Rightarrow> False)"

abbreviation extends :: "history \<Rightarrow> history \<Rightarrow> bool" where
  "extends \<equiv> calm (\<lambda>_. False)"

lemma socket_port_direct:
  "(KBind fd (set_port_in_sockaddr b r) len, Inr y) \<in> set h \<Longrightarrow> socket_port h b r"
  unfolding socket_port_def by blast

lemma bind_outcome_errno [simp]: "bind_outcome n ns h (Errno e, ns)"
  by (simp add: bind_outcome_def)

lemma bind_outcome_continue:
  "arg n 1 = 0 \<or> unat (arg n 2) < 4 \<Longrightarrow> bind_outcome n ns [] (Continue, ns)"
  by (simp add: bind_outcome_def)

lemma bind_outcome_untracked:
  "copied h (notif_pid n) b \<Longrightarrow> extract_port b = None \<or> extract_port b = Some 0 \<Longrightarrow>
    bind_outcome n ns h (ReturnValue 0, ns)"
  by (auto simp: bind_outcome_def)

lemma bind_outcome_first:
  assumes "copied h (notif_pid n) b" "extract_port b = Some p" "p \<noteq> 0"
    and "(KBind fd (set_port_in_sockaddr b (real_port (ns_port_map ns) p)) len, Inr y) \<in> set h"
  shows "bind_outcome n ns h (ReturnValue 0,
     if get_real (ns_port_map ns) p = None
     then ns\<lparr>ns_port_map := record_bind (ns_port_map ns) p p\<rparr> else ns)"
proof -
  let ?m = "ns_port_map ns"
  have "socket_port h b (real_port ?m p)" by (rule socket_port_direct [OF assms(4)])
  moreover have "real_port (record_bind ?m p p) w = real_port ?m w" for w
    by (simp add: real_port_def ports.real_same)
  moreover have "reported_port (record_bind ?m p p) w = reported_port ?m w" for w
    by (simp add: reported_port_def ports.virt_same)
  moreover have "reported_port ?m (real_port ?m p) = p"
    if "two_way ?m" "real_port ?m p \<noteq> p \<or> get_virtual ?m p = None"
    using that by (auto simp: reported_port_def real_port_def two_way_def split: option.splits)
  ultimately show ?thesis
    using assms(1-3) unfolding bind_outcome_def
    by (auto intro!: exI [of _ b] exI [of _ "real_port ?m p"])
qed

lemma bind_outcome_retry:
  assumes "copied h (notif_pid n) b" "extract_port b = Some p" "p \<noteq> 0"
    and "(KBind fd (set_port_in_sockaddr b 0) len, Inr y) \<in> set h"
    and "(KGetsockname fd 128, Inr (k, st)) \<in> set h" "extract_port (take (nat k) st) = Some r"
  shows "bind_outcome n ns h
    (ReturnValue 0, ns\<lparr>ns_port_map := record_bind (ns_port_map ns) p r\<rparr>)"
proof -
  let ?m = "ns_port_map ns"
  have "socket_port h b r" unfolding socket_port_def using assms(4-6) by blast
  moreover have "r \<noteq> p \<or> get_real ?m p = None \<longrightarrow> real_port (record_bind ?m p r) p = r"
    using ports.translate_new [of p r ?m] by (auto simp: real_port_def)
  moreover have "r \<noteq> p \<or> get_virtual ?m p = None \<longrightarrow> reported_port (record_bind ?m p r) r = p"
    using ports.report_new [of p r ?m] by (auto simp: reported_port_def)
  moreover have "w \<noteq> p \<longrightarrow> real_port (record_bind ?m p r) w = real_port ?m w" for w
    using ports.translate_other [of w p ?m r] by (simp add: real_port_def)
  ultimately show ?thesis
    using assms(1-3) unfolding bind_outcome_def
    by (auto intro!: exI [of _ b] exI [of _ r])
qed

lemma safe_do_bind:
  assumes "P h (KBind fd a (unat (word_of_nat len :: u32)))"
    and "\<And>e. Q (h @ [(KBind fd a (unat (word_of_nat len :: u32)), Inl e)]) (Some e)"
    and "\<And>y. Q (h @ [(KBind fd a (unat (word_of_nat len :: u32)), Inr y)]) None"
  shows "safe P Q h (do_bind fd a len)"
  using assms by (auto simp: do_bind_def split: sum.splits)

lemma safe_bind_verbatim:
  assumes "copied h (notif_pid n) b" "extract_port b = None \<or> extract_port b = Some 0"
  shows "safe (bind_request_ok (notif_pid n) m) (\<lambda>h' a. bind_outcome n ns h' (a, ns)) h
     (bind_verbatim fd b len)"
proof -
  let ?k = "KBind fd b (unat (word_of_nat len :: u32))"
  have req: "bind_request_ok (notif_pid n) m h ?k"
    using assms by (auto simp: bind_request_ok_def)
  have "bind_outcome n ns (h @ [(?k, Inr y)]) (ReturnValue 0, ns)" for y
    by (rule bind_outcome_untracked [OF copied_calm [where E = "\<lambda>_. False", OF assms(1)] assms(2)]) simp
  then show ?thesis
    unfolding bind_verbatim_def using req by (auto intro!: safe_do_bind)
qed

lemma safe_tracked_bind:
  assumes b: "copied h (notif_pid n) b" "extract_port b = Some p" "p \<noteq> 0"
  shows "safe (bind_request_ok (notif_pid n) (ns_port_map ns)) (bind_outcome n ns) h
    (bind_tracked fd b len p ns)"
proof -
  define m where "m = ns_port_map ns"
  define cached where "cached = get_real m p"
  have att: "(case cached of Some q \<Rightarrow> q | None \<Rightarrow> p) = real_port m p"
    by (simp add: real_port_def cached_def)
  let ?len = "unat (word_of_nat len :: u32)"
  let ?k1 = "KBind fd (set_port_in_sockaddr b (real_port m p)) ?len"
  let ?k2 = "KBind fd (set_port_in_sockaddr b 0) ?len"
  have first: "bind_request_ok (notif_pid n) m h ?k1"
    using b by (auto simp: bind_request_ok_def)
  have cp: "copied (h @ t) (notif_pid n) b" for t
    by (rule copied_calm [where E = "\<lambda>_. False", OF b(1)]) (simp add: list_all_iff split_beta)
  have second: "bind_request_ok (notif_pid n) m (h @ [(?k1, Inl EADDRINUSE)]) ?k2"
    using b(2,3) cp by (auto simp: bind_request_ok_def)
  have done1: "bind_outcome n ns (h @ [(?k1, Inr y)])
      (ReturnValue 0, if cached = None then ns\<lparr>ns_port_map := record_bind m p p\<rparr> else ns)" for y
    unfolding cached_def m_def
    by (rule bind_outcome_first [OF cp b(2,3), where len = ?len and y = y and fd = fd])
       (simp add: m_def)
  have done2: "bind_outcome n ns
      (h @ [(?k1, x), (?k2, Inr y), (KGetsockname fd 128, Inr (k, st))])
      (ReturnValue 0, ns\<lparr>ns_port_map := record_bind m p r\<rparr>)"
    if "extract_port (take (nat k) st) = Some r" for x y k st r
    unfolding m_def
    by (rule bind_outcome_retry [OF cp b(2,3) _ _ that, where len = ?len and y = y and fd = fd]) auto
  show ?thesis
    using first second done1 done2
    unfolding bind_tracked_def m_def [symmetric] cached_def [symmetric] Let_def att set_port_twice
    by (auto intro!: safe_do_bind simp: query_local_port_def split: sum.splits option.splits)
qed

lemma safe_handle_bind:
  "safe (bind_request_ok (notif_pid n) (ns_port_map ns)) (bind_outcome n ns) [] (handle_bind n ns)"
  unfolding handle_bind_def Let_def
  by (auto intro!: safe_read_mem [where E = "\<lambda>_. False"] safe_dup [where E = "\<lambda>_. False"]
        safe_bind_verbatim safe_tracked_bind bind_outcome_continue
      intro: copied_calm [where E = "\<lambda>_. False"] split: option.splits sum.splits)

section \<open>The answer of getsockname\<close>

text \<open>The handler writes to two places only: the address buffer gets the address the kernel gave for
  the descriptor, cut to the caller's length, with the real port replaced by the reported one; the
  length word gets the kernel's length.\<close>

definition translated :: "port_map \<Rightarrow> bytes \<Rightarrow> bytes" where
  "translated m raw = (case extract_port raw of
     Some r \<Rightarrow> (case get_virtual m r of Some v \<Rightarrow> set_port_in_sockaddr raw v | None \<Rightarrow> raw)
   | None \<Rightarrow> raw)"

definition sockname_request_ok :: "seccomp_notif \<Rightarrow> port_map \<Rightarrow> history \<Rightarrow> sysreq \<Rightarrow> bool" where
  "sockname_request_ok n m h r = (case r of
     KWriteVm p a d \<Rightarrow> p = notif_pid n \<and> (\<exists>fd k actual out.
         (KGetsockname fd k, Inr (actual, out)) \<in> set h \<and> k \<le> 128 \<and>
         (a = arg n 1 \<and> (\<exists>l. d = translated m (take l (take 128 (out @ replicate 128 0))))
          \<or> a = arg n 2 \<and> d = le_bytes 4 (word_of_int actual :: u32)))
   | KGetsockname fd k \<Rightarrow> True
   | _ \<Rightarrow> harmless r)"

lemma sockname_request_ok_simps [simp]:
  "sockname_request_ok n m h (KGetsockname fd len)"
  "harmless r \<Longrightarrow> sockname_request_ok n m h r"
  by (cases r; simp add: sockname_request_ok_def)+

lemma translated_extract:
  "extract_port raw = Some r \<Longrightarrow> extract_port (translated m raw) = Some (reported_port m r)"
  by (auto simp: translated_def reported_port_def extract_set_port split: option.splits)

lemma safe_handle_getsockname:
  "safe (sockname_request_ok n (ns_port_map ns)) (\<lambda>h a. a = ReturnValue 0 \<or> (\<exists>e. a = Errno e)) []
     (handle_getsockname n ns)"
proof -
  let ?P = "sockname_request_ok n (ns_port_map ns)"
  let ?out = "\<lambda>h a d. ?P h (KWriteVm (notif_pid n) a d)"
  have wr: "safe ?P Q h (write_child_mem i (notif_pid n) a d)"
    if "\<And>h'. calm (\<lambda>_. False) h h' \<Longrightarrow> ?out h' a d" "\<And>h' x. calm (\<lambda>_. False) h h' \<Longrightarrow> Q h' x"
    for Q h i a d
    using that by (intro safe_write_mem [where E = "\<lambda>_. False"]) auto
  have ok: "?out h' (arg n 1) (translated (ns_port_map ns)
        (take l (take 128 (out @ replicate 128 0))))" "?out h' (arg n 2) (le_bytes 4 (word_of_int actual :: u32))"
    if "calm (\<lambda>_. False) (h @ (KGetsockname fd (min k 128), Inr (actual, out)) # t) h'"
    for h h' l out fd k actual t
  proof -
    have "(KGetsockname fd (min k 128), Inr (actual, out)) \<in> set h'"
      using calm_set [OF that] by auto
    then show "?out h' (arg n 1) (translated (ns_port_map ns) (take l (take 128 (out @ replicate 128 0))))"
      "?out h' (arg n 2) (le_bytes 4 (word_of_int actual :: u32))"
      by (force simp: sockname_request_ok_def)+
  qed
  show ?thesis
    unfolding handle_getsockname_def Let_def translated_def [symmetric]
    by (auto intro!: safe_read_mem [where E = "\<lambda>_. False"] safe_dup [where E = "\<lambda>_. False"]
        wr ok intro: calm_trans simp del: take_append take_take take_replicate One_nat_def
        split: option.splits sum.splits)
qed

section \<open>Properties\<close>

text \<open>
  C24: every \<open>bind\<close> the supervisor makes is for the address the child passed. Whatever the kernel and
  the child do, the bytes are one copy of child memory: unchanged when they hold no port to track,
  otherwise with the port replaced by the real port of the table; port 0 is asked for only after the
  kernel answered EADDRINUSE to that attempt.
\<close>

theorem handle_bind_checked:
  "always (bind_request_ok (notif_pid n) (ns_port_map ns)) K (handle_bind n ns)"
  by (rule safe_always [OF safe_handle_bind])

text \<open>
  the table tells the port the socket has. If \<open>bind\<close> is answered with success for a copied address
  with port \<open>p\<close>, the new table translates \<open>p\<close> to the port the kernel bound (unless the kernel chose \<open>p\<close>
  itself although another port was cached), and translates it back to \<open>p\<close> if the two directions of
  the table agreed before and no stale entry for \<open>p\<close> was left; all other ports keep their translation.
  Every other answer leaves the table as it was, and the call is left to the kernel only when there
  is no address to look at.
\<close>

theorem handle_bind_tracks:
  "bind_outcome n ns (trace K (handle_bind n ns)) (result K (handle_bind n ns))"
  by (rule safe_result [OF safe_handle_bind])

text \<open>
  \<open>getsockname\<close> is answered from the kernel's own answer. It writes nothing but the address the
  kernel gave (cut to the caller's length, its port translated back) to the address buffer and the
  kernel's length to the length word, and it never leaves the call to the kernel.
\<close>

theorem handle_getsockname_checked:
  "always (sockname_request_ok n (ns_port_map ns)) K (handle_getsockname n ns)
   \<and> (result K (handle_getsockname n ns) = ReturnValue 0
      \<or> (\<exists>e. result K (handle_getsockname n ns) = Errno e))"
  using safe_always [OF safe_handle_getsockname] safe_result [OF safe_handle_getsockname] by blast

text \<open>
  A port that once stood in for another one is misreported. When the table still has an entry for
  the real port \<open>p\<close>, left by a virtual port \<open>w\<close> that was remapped to it, and the child then binds \<open>p\<close>
  itself with success, the entry stays: the child's socket on \<open>p\<close> is reported as bound to \<open>w\<close>.
\<close>

theorem reused_port_misreported:
  assumes "get_real (ns_port_map ns) p = None" "get_virtual (ns_port_map ns) p = Some w" "p \<noteq> 0"
    and "arg n 1 \<noteq> 0" "4 \<le> unat (arg n 2)"
    and "M (KIdValid (notif_id n)) = Inr z"
    and "M (KReadVm (notif_pid n) (arg n 1) (min (unat (arg n 2)) 128)) = Inr (y, b)"
    and "length b \<le> min (unat (arg n 2)) 128" "extract_port b = Some p"
    and "M (KPidfdOpen (notif_pid n)) = Inr (pf, u)"
    and "M (KPidfdGetfd pf (as_i32 (arg n 0))) = Inr (fd, v)"
    and "M (KBind fd (set_port_in_sockaddr b p) (unat (word_of_nat (unat (arg n 2)) :: u32))) = Inr t"
  shows "fst (result (stateless M) (handle_bind n ns)) = ReturnValue 0
    \<and> reported_port (ns_port_map (snd (result (stateless M) (handle_bind n ns)))) p = w"
proof -
  have "eval M (dup_fd_from_pid (notif_pid n) (as_i32 (arg n 0))) = Inr fd"
    using assms(10,11) by (simp add: dup_fd_from_pid_def pidfd_open_def)
  moreover have "eval M (do_bind fd (set_port_in_sockaddr b p) (unat (arg n 2))) = None"
    using assms(12) by (cases t) (simp add: do_bind_def)
  ultimately have "result (stateless M) (handle_bind n ns) =
      (ReturnValue 0, ns\<lparr>ns_port_map := record_bind (ns_port_map ns) p p\<rparr>)"
    using assms(1,3-5,8,9) eval_read_child_mem [OF assms(6,7)]
    by (simp add: result_stateless handle_bind_def bind_tracked_def Let_def)
  then show ?thesis
    using ports.report_stale [OF assms(2)] by (simp_all add: reported_port_def)
qed

text \<open>Port 8080 was remapped to 9090 and closed; a socket bound to 9090 is then reported on 8080.\<close>

definition after_remap :: network_state where
  "after_remap = NetworkState_new\<lparr>ns_port_map := record_bind PortMap_new 8080 9090\<rparr>"

definition bind_memory :: "sysreq \<Rightarrow> sysres" where
  "bind_memory r = (case r of
     KReadVm p a len \<Rightarrow> Inr (16, [2, 0, 0x23, 0x82, 127, 0, 0, 1, 0, 0, 0, 0, 0, 0, 0, 0])
   | _ \<Rightarrow> Inr (7, []))"

definition bind_notif :: seccomp_notif where
  "bind_notif = \<lparr>notif_id = 1, notif_pid = 100, notif_flags = 0,
     notif_data = \<lparr>nr_of = SYS_bind, arch_of = AUDIT_ARCH, ip_of = 0,
       args_of = [3, 0x1000, 16, 0, 0, 0]\<rparr>\<rparr>"

theorem reused_port_misreported_witness:
  "fst (result (stateless bind_memory) (handle_bind bind_notif after_remap)) = ReturnValue 0
   \<and> reported_port (ns_port_map (snd (result (stateless bind_memory)
        (handle_bind bind_notif after_remap)))) 9090 = 8080"
proof -
  let ?b = "[2, 0, 0x23, 0x82, 127, 0, 0, 1, 0, 0, 0, 0, 0, 0, 0, 0] :: bytes"
  have table: "get_real (ns_port_map after_remap) 9090 = None"
    "get_virtual (ns_port_map after_remap) 9090 = Some 8080"
    by code_simp+
  have port: "extract_port ?b = Some 9090" by code_simp
  have len: "length ?b \<le> min (unat (arg bind_notif 2)) 128" by code_simp
  have read: "bind_memory (KReadVm (notif_pid bind_notif) (arg bind_notif 1)
      (min (unat (arg bind_notif 2)) 128)) = Inr (16, ?b)"
    by (simp add: bind_memory_def)
  show ?thesis
    by (rule reused_port_misreported [where M = bind_memory and n = bind_notif and ns = after_remap
        and p = 9090 and w = 8080 and b = ?b and y = 16 and z = "(7, [])" and pf = 7 and u = "[]"
        and fd = 7 and v = "[]" and t = "(7, [])"])
      (use table port len read in \<open>simp_all add: bind_notif_def arg_def bind_memory_def\<close>)
qed

end
