(* ===== verification/NetHandlers.thy ===== *)
theory NetHandlers
  imports PortRemap
begin

text \<open>
  The on-behalf network handlers of \<open>network.rs\<close>: \<open>connect\<close>, \<open>sendto\<close>, \<open>sendmsg\<close>, \<open>sendmmsg\<close> and their
  dispatcher \<open>handle_net\<close>. A handler copies the destination out of the child's memory, checks it
  against the policy of the socket's protocol and makes the call itself on a duplicate of the child's
  descriptor. The locks are taken and released inside one handler and notifications are processed
  one after another, so the network state is an argument, returned when changed.
\<close>

unbundle bit_operations_syntax

section \<open>Socket protocol\<close>

abbreviation (input) IPPROTO_TCP :: int where "IPPROTO_TCP \<equiv> 6"
abbreviation (input) IPPROTO_UDP :: int where "IPPROTO_UDP \<equiv> 17"
abbreviation (input) IPPROTO_ICMP :: int where "IPPROTO_ICMP \<equiv> 1"
abbreviation (input) IPPROTO_ICMPV6 :: int where "IPPROTO_ICMPV6 \<equiv> 58"
abbreviation (input) EMSGSIZE :: int where "EMSGSIZE \<equiv> 90"

definition protocol_of_number :: "int \<Rightarrow> Protocol option" where
  "protocol_of_number proto =
     (if proto = IPPROTO_TCP then Some Tcp else if proto = IPPROTO_UDP then Some Udp
      else if proto = IPPROTO_ICMP \<or> proto = IPPROTO_ICMPV6 then Some Icmp else None)"

text \<open>\<open>getsockopt(SO_PROTOCOL)\<close>; the answer's value is the option read.\<close>

definition query_socket_protocol :: "int \<Rightarrow> Protocol option prog" where
  "query_socket_protocol fd = pbind (syscall (KSoProtocol fd)) (\<lambda>x. case x of
     Inl _ \<Rightarrow> Done None | Inr (proto, _) \<Rightarrow> Done (protocol_of_number proto))"

section \<open>Destination check\<close>

definition MAX_SEND_BUF :: nat where "MAX_SEND_BUF = 64 * 2 ^ 20"

lemma MAX_SEND_BUF_less [code_unfold]: "n > MAX_SEND_BUF \<longleftrightarrow> int n > 67108864"
  by (simp add: MAX_SEND_BUF_def)

text \<open>The check shared by the handlers: unrestricted, or a parsed port and a permitted endpoint.\<close>

definition dest_ok :: "network_policy \<Rightarrow> ip_addr \<Rightarrow> u16 option \<Rightarrow> bool" where
  "dest_ok effective ip dest_port =
     (case effective of Unrestricted \<Rightarrow> True
      | _ \<Rightarrow> (case dest_port of Some p \<Rightarrow> allows effective ip p | None \<Rightarrow> False))"

fun is_ipv6 :: "ip_addr \<Rightarrow> bool" where
  "is_ipv6 (V4 _ _ _ _) = False"
| "is_ipv6 (V6 _) = True"

text \<open>\<open>IpAddr::is_loopback\<close>: 127/8, or ::1.\<close>

fun is_loopback :: "ip_addr \<Rightarrow> bool" where
  "is_loopback (V4 a _ _ _) = (a = 127)"
| "is_loopback (V6 os) = (os = replicate 15 0 @ [1])"

section \<open>connect\<close>

text \<open>The \<open>sockaddr_in6\<close> (28 bytes) and \<open>sockaddr_in\<close> (16 bytes) structures built for the proxy.\<close>

definition sockaddr_in6 :: "u16 \<Rightarrow> u8 list \<Rightarrow> bytes" where
  "sockaddr_in6 port octets =
     le_bytes 2 (10 :: u16) @ [fst (u16_to_be port), snd (u16_to_be port)] @ replicate 4 0
     @ octets @ replicate 4 0"

definition sockaddr_in :: "u16 \<Rightarrow> u8 list \<Rightarrow> bytes" where
  "sockaddr_in port octets =
     le_bytes 2 (2 :: u16) @ [fst (u16_to_be port), snd (u16_to_be port)]
     @ octets @ replicate 8 0"

fun to_ipv6_octets :: "ip_addr \<Rightarrow> u8 list" where
  "to_ipv6_octets (V4 a b c d) = replicate 10 0 @ [0xFF, 0xFF, a, b, c, d]"
| "to_ipv6_octets (V6 os) = os"

text \<open>The redirect target: \<open>Err\<close> when an IPv4 socket would have to reach an IPv6 proxy.\<close>

definition proxy_sockaddr :: "bool \<Rightarrow> socket_addr \<Rightarrow> int + (bytes \<times> nat)" where
  "proxy_sockaddr v6 proxy =
     (if v6 then Inr (sockaddr_in6 (snd proxy) (to_ipv6_octets (fst proxy)), 28)
      else (case fst proxy of
          V4 a b c d \<Rightarrow> Inr (sockaddr_in (snd proxy) [a, b, c, d], 16)
        | V6 _ \<Rightarrow> Inl EAFNOSUPPORT))"

text \<open>The local address \<open>getsockname\<close> wrote into a zeroed \<open>sockaddr_in6\<close> or \<open>sockaddr_in\<close>.\<close>

definition local_addr :: "bool \<Rightarrow> bytes \<Rightarrow> socket_addr" where
  "local_addr v6 out =
     (if v6 then let sa = take 28 (out @ replicate 28 0) in
        (V6 (subslice 8 24 sa), u16_from_be (sa ! 2) (sa ! 3))
      else let sa = take 16 (out @ replicate 16 0) in
        (V4 (sa ! 4) (sa ! 5) (sa ! 6) (sa ! 7), u16_from_be (sa ! 2) (sa ! 3)))"

text \<open>Step 4 of \<open>connect_on_behalf\<close>: bind to the any-address, ask for the local address, and record
  the original destination under it. The result is the new map.\<close>

definition record_orig_dest ::
  "int \<Rightarrow> bool \<Rightarrow> ip_addr \<Rightarrow> (socket_addr \<Rightarrow> ip_addr option) \<Rightarrow> (socket_addr \<Rightarrow> ip_addr option) prog"
where
  "record_orig_dest dup_fd v6 orig_ip dest_map =
     (let zero = (if v6 then sockaddr_in6 0 (replicate 16 0) else sockaddr_in 0 (replicate 4 0));
          size = (if v6 then 28 else 16)
      in pbind (syscall (KBind dup_fd zero size)) (\<lambda>_.
         pbind (syscall (KGetsockname dup_fd size)) (\<lambda>x. case x of
           Inl _ \<Rightarrow> Done dest_map
         | Inr (_, out) \<Rightarrow> Done (dest_map(local_addr v6 out \<mapsto> orig_ip)))))"

definition do_connect :: "int \<Rightarrow> bytes \<Rightarrow> nat \<Rightarrow> notif_action prog" where
  "do_connect fd addr len = pbind (syscall (KConnect fd addr len)) (\<lambda>x. case x of
     Inr _ \<Rightarrow> Done (ReturnValue 0) | Inl e \<Rightarrow> Done (Errno e))"

text \<open>The proxy to redirect to, when the destination port is intercepted.\<close>

definition redirect_proxy :: "network_state \<Rightarrow> u16 option \<Rightarrow> socket_addr option" where
  "redirect_proxy ns dest_port =
     (let http_acl_intercept =
            (case dest_port of Some p \<Rightarrow> p \<in> http_acl_ports ns | None \<Rightarrow> False)
      in case http_acl_addr ns of
           Some proxy \<Rightarrow> if http_acl_intercept then Some proxy else None
         | None \<Rightarrow> None)"

text \<open>The part of \<open>connect_on_behalf\<close> behind the policy check.\<close>

definition connect_checked ::
  "int \<Rightarrow> bytes \<Rightarrow> nat \<Rightarrow> ip_addr \<Rightarrow> bool \<Rightarrow> network_state \<Rightarrow> (notif_action \<times> network_state) prog"
where
  "connect_checked dup_fd addr_bytes addr_len ip port_remap ns =
     (let dest_port = parse_port_from_sockaddr addr_bytes;
          remapped_loopback_port =
            (if port_remap \<and> is_loopback ip
             then Option.bind dest_port (get_real (ns_port_map ns)) else None)
      in case redirect_proxy ns dest_port of
          Some proxy \<Rightarrow>
            (case proxy_sockaddr (is_ipv6 ip) proxy of
               Inl e \<Rightarrow> Done (Errno e, ns)
             | Inr (connect_addr, connect_len) \<Rightarrow>
                 pbind (case http_acl_orig_dest ns of
                     Some dest_map \<Rightarrow>
                       pbind (record_orig_dest dup_fd (is_ipv6 ip) ip dest_map) (\<lambda>m.
                         Done (ns\<lparr>http_acl_orig_dest := Some m\<rparr>))
                   | None \<Rightarrow> Done ns) (\<lambda>ns'.
                 pbind (do_connect dup_fd connect_addr connect_len) (\<lambda>a. Done (a, ns'))))
        | None \<Rightarrow>
            let connect_addr = (case remapped_loopback_port of
                Some rp \<Rightarrow> set_port_in_sockaddr addr_bytes rp
              | None \<Rightarrow> addr_bytes)
            in pbind (do_connect dup_fd connect_addr addr_len) (\<lambda>a. Done (a, ns)))"

definition connect_on_behalf ::
  "seccomp_notif \<Rightarrow> bool \<Rightarrow> live_policy option \<Rightarrow> network_state \<Rightarrow> (notif_action \<times> network_state) prog"
where
  "connect_on_behalf n port_remap live ns =
     (let sockfd = as_i32 (arg n 0); addr_ptr = arg n 1; addr_len = unat (as_u32 (arg n 2)) in
      pbind (read_child_mem (notif_id n) (notif_pid n) addr_ptr addr_len) (\<lambda>r. case r of
        Inl _ \<Rightarrow> Done (Errno EIO, ns)
      | Inr addr_bytes \<Rightarrow>
      (case parse_ip_from_sockaddr addr_bytes of
        None \<Rightarrow> Done (Continue, ns)
      | Some ip \<Rightarrow>
      let dest_port = parse_port_from_sockaddr addr_bytes in
      pbind (dup_fd_from_pid (notif_pid n) sockfd) (\<lambda>d. case d of
        Inl e \<Rightarrow> Done (Errno e, ns)
      | Inr dup_fd \<Rightarrow>
      pbind (query_socket_protocol dup_fd) (\<lambda>q. case q of
        None \<Rightarrow> Done (Errno ECONNREFUSED, ns)
      | Some protocol \<Rightarrow>
      if \<not> dest_ok (effective_network_policy ns (notif_pid n) protocol live) ip dest_port
      then Done (Errno ECONNREFUSED, ns)
      else connect_checked dup_fd addr_bytes addr_len ip port_remap ns)))))"

section \<open>sendto\<close>

definition sendto_on_behalf ::
  "seccomp_notif \<Rightarrow> live_policy option \<Rightarrow> network_state \<Rightarrow> notif_action prog" where
  "sendto_on_behalf n live ns =
     (let sockfd = as_i32 (arg n 0); buf_ptr = arg n 1; buf_len = unat (arg n 2) in
      if buf_len > MAX_SEND_BUF then Done (Errno EMSGSIZE)
      else
      let flags = as_i32 (arg n 3); addr_ptr = arg n 4; addr_len = unat (as_u32 (arg n 5)) in
      if addr_ptr = 0 then Done Continue
      else
      pbind (read_child_mem (notif_id n) (notif_pid n) addr_ptr addr_len) (\<lambda>r. case r of
        Inl _ \<Rightarrow> Done (Errno EIO)
      | Inr addr_bytes \<Rightarrow>
      (case parse_ip_from_sockaddr addr_bytes of
        None \<Rightarrow> Done Continue
      | Some ip \<Rightarrow>
      let dest_port = parse_port_from_sockaddr addr_bytes in
      pbind (dup_fd_from_pid (notif_pid n) sockfd) (\<lambda>d. case d of
        Inl e \<Rightarrow> Done (Errno e)
      | Inr dup_fd \<Rightarrow>
      pbind (query_socket_protocol dup_fd) (\<lambda>q. case q of
        None \<Rightarrow> Done (Errno ECONNREFUSED)
      | Some protocol \<Rightarrow>
      if \<not> dest_ok (effective_network_policy ns (notif_pid n) protocol live) ip dest_port
      then Done (Errno ECONNREFUSED)
      else
      pbind (read_child_mem (notif_id n) (notif_pid n) buf_ptr buf_len) (\<lambda>r. case r of
        Inl _ \<Rightarrow> Done (Errno EIO)
      | Inr d \<Rightarrow>
      pbind (syscall (KSendto dup_fd d flags addr_bytes addr_len)) (\<lambda>x. case x of
        Inr (ret, _) \<Rightarrow> Done (ReturnValue ret)
      | Inl e \<Rightarrow> Done (Errno e))))))))"

section \<open>sendmsg and sendmmsg\<close>

datatype prescan_result = OnBehalf | ContinueWholeCall | PrescanErrno int

definition le_u64 :: "nat \<Rightarrow> bytes \<Rightarrow> u64" where
  "le_u64 off b = le_word (subslice off (off + 8) b)"
definition le_u32 :: "nat \<Rightarrow> bytes \<Rightarrow> u32" where
  "le_u32 off b = le_word (subslice off (off + 4) b)"

definition prescan_msghdr :: "seccomp_notif \<Rightarrow> u64 \<Rightarrow> prescan_result prog" where
  "prescan_msghdr n msghdr_ptr =
     pbind (read_child_mem (notif_id n) (notif_pid n) msghdr_ptr 56) (\<lambda>r. case r of
       Inl _ \<Rightarrow> Done (PrescanErrno EFAULT)
     | Inr mb \<Rightarrow>
       if length mb < 56 then Done (PrescanErrno EFAULT)
       else
         let msg_name_ptr = le_u64 0 mb in
         if msg_name_ptr = 0 then Done ContinueWholeCall
         else
           let msg_namelen = le_u32 8 mb in
           pbind (read_child_mem (notif_id n) (notif_pid n) msg_name_ptr (unat msg_namelen))
             (\<lambda>r. case r of
               Inl _ \<Rightarrow> Done (PrescanErrno EIO)
             | Inr addr_bytes \<Rightarrow>
                 if parse_ip_from_sockaddr addr_bytes = None then Done ContinueWholeCall
                 else Done OnBehalf))"

text \<open>The loop that copies the iovec buffers.\<close>

primrec copy_iovecs ::
  "seccomp_notif \<Rightarrow> bytes \<Rightarrow> nat \<Rightarrow> nat \<Rightarrow> bytes list \<Rightarrow> (int + bytes list) prog" where
  "copy_iovecs n iov_bytes i 0 bufs = Done (Inr bufs)"
| "copy_iovecs n iov_bytes i (Suc k) bufs =
     (let off = i * 16 in
      if off + 16 > length iov_bytes then Done (Inr bufs)
      else
        let iov_base = le_u64 off iov_bytes; iov_len = unat (le_u64 (off + 8) iov_bytes) in
        if iov_len > MAX_SEND_BUF then Done (Inl EMSGSIZE)
        else if iov_base = 0 \<or> iov_len = 0 then copy_iovecs n iov_bytes (Suc i) k (bufs @ [[]])
        else
          pbind (read_child_mem (notif_id n) (notif_pid n) iov_base iov_len) (\<lambda>r. case r of
            Inl _ \<Rightarrow> Done (Inl EIO)
          | Inr buf \<Rightarrow> copy_iovecs n iov_bytes (Suc i) k (bufs @ [buf])))"

definition send_msghdr_on_behalf ::
  "seccomp_notif \<Rightarrow> live_policy option \<Rightarrow> network_state \<Rightarrow> int \<Rightarrow> Protocol \<Rightarrow> u64 \<Rightarrow> int
     \<Rightarrow> (int + int) prog" where
  "send_msghdr_on_behalf n live ns dup_fd protocol msghdr_ptr flags =
     pbind (read_child_mem (notif_id n) (notif_pid n) msghdr_ptr 56) (\<lambda>r. case r of
       Inl _ \<Rightarrow> Done (Inl EFAULT)
     | Inr mb \<Rightarrow>
     if length mb < 56 then Done (Inl EFAULT)
     else
     let msg_name_ptr = le_u64 0 mb; msg_namelen = le_u32 8 mb; msg_iov_ptr = le_u64 16 mb;
         msg_iovlen = le_u64 24 mb; msg_control_ptr = le_u64 32 mb; msg_controllen = le_u64 40 mb in
     pbind (read_child_mem (notif_id n) (notif_pid n) msg_name_ptr (unat msg_namelen)) (\<lambda>r. case r of
       Inl _ \<Rightarrow> Done (Inl EIO)
     | Inr addr_bytes \<Rightarrow>
     (case parse_ip_from_sockaddr addr_bytes of
       None \<Rightarrow> Done (Inl EAFNOSUPPORT)
     | Some ip \<Rightarrow>
     if \<not> dest_ok (effective_network_policy ns (notif_pid n) protocol live) ip
              (parse_port_from_sockaddr addr_bytes)
     then Done (Inl ECONNREFUSED)
     else
     let iovlen = min (unat msg_iovlen) 1024 in
     pbind (read_child_mem (notif_id n) (notif_pid n) msg_iov_ptr (iovlen * 16)) (\<lambda>r. case r of
       Inl _ \<Rightarrow> Done (Inl EIO)
     | Inr iov_bytes \<Rightarrow>
     pbind (copy_iovecs n iov_bytes 0 iovlen []) (\<lambda>c. case c of
       Inl e \<Rightarrow> Done (Inl e)
     | Inr data_bufs \<Rightarrow>
     pbind (if msg_control_ptr \<noteq> 0 \<and> msg_controllen > 0 then
              pbind (read_child_mem (notif_id n) (notif_pid n) msg_control_ptr
                       (min (unat msg_controllen) 4096)) (\<lambda>r. case r of
                Inl _ \<Rightarrow> Done None | Inr b \<Rightarrow> Done (Some b))
            else Done None) (\<lambda>control_buf.
     pbind (syscall (KSendmsg dup_fd addr_bytes data_bufs control_buf flags)) (\<lambda>x. case x of
       Inr (ret, _) \<Rightarrow> Done (Inr ret)
     | Inl e \<Rightarrow> Done (Inl e))))))))"

definition sendmsg_on_behalf ::
  "seccomp_notif \<Rightarrow> live_policy option \<Rightarrow> network_state \<Rightarrow> notif_action prog" where
  "sendmsg_on_behalf n live ns =
     (let sockfd = as_i32 (arg n 0); msghdr_ptr = arg n 1; flags = as_i32 (arg n 2) in
      pbind (prescan_msghdr n msghdr_ptr) (\<lambda>s. case s of
        ContinueWholeCall \<Rightarrow> Done Continue
      | PrescanErrno e \<Rightarrow> Done (Errno e)
      | OnBehalf \<Rightarrow>
      pbind (dup_fd_from_pid (notif_pid n) sockfd) (\<lambda>d. case d of
        Inl e \<Rightarrow> Done (Errno e)
      | Inr dup_fd \<Rightarrow>
      pbind (query_socket_protocol dup_fd) (\<lambda>q. case q of
        None \<Rightarrow> Done (Errno ECONNREFUSED)
      | Some protocol \<Rightarrow>
      pbind (send_msghdr_on_behalf n live ns dup_fd protocol msghdr_ptr flags) (\<lambda>r. case r of
        Inr m \<Rightarrow> Done (ReturnValue m)
      | Inl errno \<Rightarrow> Done (Errno errno))))))"

definition MMSGHDR_SIZE :: nat where "MMSGHDR_SIZE = 64"
definition MSG_LEN_OFFSET :: u64 where "MSG_LEN_OFFSET = 56"
definition MAX_MMSGHDR_ENTRIES :: nat where "MAX_MMSGHDR_ENTRIES = 256"

definition entry_ptr :: "u64 \<Rightarrow> nat \<Rightarrow> u64" where
  "entry_ptr msgvec_ptr i = msgvec_ptr + word_of_nat (i * MMSGHDR_SIZE)"

text \<open>The pre-scan loop: \<open>None\<close> when every entry is on-behalf, else the action that ends the call.\<close>

primrec prescan_all :: "seccomp_notif \<Rightarrow> u64 \<Rightarrow> nat \<Rightarrow> nat \<Rightarrow> notif_action option prog" where
  "prescan_all n msgvec_ptr i 0 = Done None"
| "prescan_all n msgvec_ptr i (Suc k) =
     pbind (prescan_msghdr n (entry_ptr msgvec_ptr i)) (\<lambda>s. case s of
       OnBehalf \<Rightarrow> prescan_all n msgvec_ptr (Suc i) k
     | ContinueWholeCall \<Rightarrow> Done (Some Continue)
     | PrescanErrno e \<Rightarrow> Done (Some (Errno e)))"

text \<open>The sending loop; its result is \<open>(sent, first_errno)\<close>.\<close>

primrec send_all ::
  "seccomp_notif \<Rightarrow> live_policy option \<Rightarrow> network_state \<Rightarrow> int \<Rightarrow> Protocol \<Rightarrow> u64 \<Rightarrow> int \<Rightarrow> nat \<Rightarrow> nat
     \<Rightarrow> nat \<Rightarrow> (nat \<times> int option) prog" where
  "send_all n live ns dup_fd protocol msgvec_ptr flags i 0 sent = Done (sent, None)"
| "send_all n live ns dup_fd protocol msgvec_ptr flags i (Suc k) sent =
     pbind (send_msghdr_on_behalf n live ns dup_fd protocol (entry_ptr msgvec_ptr i) flags)
       (\<lambda>r. case r of
          Inr m \<Rightarrow>
            pbind (write_child_mem (notif_id n) (notif_pid n)
                     (entry_ptr msgvec_ptr i + MSG_LEN_OFFSET)
                     (le_bytes 4 (word_of_int m :: u32)))
              (\<lambda>_. send_all n live ns dup_fd protocol msgvec_ptr flags (Suc i) k (Suc sent))
        | Inl errno \<Rightarrow> Done (sent, Some errno))"

definition sendmmsg_on_behalf ::
  "seccomp_notif \<Rightarrow> live_policy option \<Rightarrow> network_state \<Rightarrow> notif_action prog" where
  "sendmmsg_on_behalf n live ns =
     (let sockfd = as_i32 (arg n 0); msgvec_ptr = arg n 1;
          vlen = min (unat (as_u32 (arg n 2))) MAX_MMSGHDR_ENTRIES;
          flags = as_i32 (arg n 3) in
      if vlen = 0 then Done (ReturnValue 0)
      else
      pbind (prescan_all n msgvec_ptr 0 vlen) (\<lambda>s. case s of
        Some a \<Rightarrow> Done a
      | None \<Rightarrow>
      pbind (dup_fd_from_pid (notif_pid n) sockfd) (\<lambda>d. case d of
        Inl e \<Rightarrow> Done (Errno e)
      | Inr dup_fd \<Rightarrow>
      pbind (query_socket_protocol dup_fd) (\<lambda>q. case q of
        None \<Rightarrow> Done (Errno ECONNREFUSED)
      | Some protocol \<Rightarrow>
      pbind (send_all n live ns dup_fd protocol msgvec_ptr flags 0 vlen 0)
        (\<lambda>(sent, first_errno).
          if sent > 0 then Done (ReturnValue (int sent))
          else Done (Errno (case first_errno of Some e \<Rightarrow> e | None \<Rightarrow> ECONNREFUSED)))))))"

section \<open>handle_net\<close>

definition handle_net ::
  "seccomp_notif \<Rightarrow> bool \<Rightarrow> live_policy option \<Rightarrow> network_state \<Rightarrow> (notif_action \<times> network_state) prog"
where
  "handle_net n port_remap live ns =
     (let nr = notif_nr n in
      if nr = SYS_connect then connect_on_behalf n port_remap live ns
      else if nr = SYS_sendto then pbind (sendto_on_behalf n live ns) (\<lambda>a. Done (a, ns))
      else if nr = SYS_sendmsg then pbind (sendmsg_on_behalf n live ns) (\<lambda>a. Done (a, ns))
      else if nr = SYS_sendmmsg then pbind (sendmmsg_on_behalf n live ns) (\<lambda>a. Done (a, ns))
      else Done (Continue, ns))"

section \<open>Reasoning about the shared operations\<close>

text \<open>A request that sends or connects; everything else is harmless for the network policy.\<close>

definition emits :: "sysreq \<Rightarrow> bool" where
  "emits r = (case r of KConnect _ _ _ \<Rightarrow> True | KSendto _ _ _ _ _ \<Rightarrow> True
     | KSendmsg _ _ _ _ _ \<Rightarrow> True | _ \<Rightarrow> False)"

lemma emits_simps [simp]:
  "emits (KConnect fd a l)" "emits (KSendto fd d fl a l)" "emits (KSendmsg fd a ds c fl)"
  "\<not> emits (KIdValid i)" "\<not> emits (KReadVm p ad len)" "\<not> emits (KWriteVm p ad bs)"
  "\<not> emits (KPidfdOpen p)" "\<not> emits (KPidfdGetfd x y)" "\<not> emits (KReadFile f)"
  "\<not> emits (KSoProtocol fd)" "\<not> emits (KBind fd a l)" "\<not> emits (KGetsockname fd l)" "\<not> emits (KSelf q)"
  by (simp_all add: emits_def)

text \<open>Extending a history without emissions.\<close>

abbreviation quiet :: "history \<Rightarrow> history \<Rightarrow> bool" where
  "quiet \<equiv> calm emits"

lemma harmless_not_emits: "harmless r \<Longrightarrow> \<not> emits r"
  by (cases r) simp_all

lemmas quiet_trans = calm_trans [of emits]
lemmas quiet_set = calm_set [of emits]
lemmas copied_mono = copied_calm [of _ _ _ emits]

text \<open>The number of emissions the kernel accepted.\<close>

definition accepted :: "history \<Rightarrow> nat" where
  "accepted h = length (filter (\<lambda>(r, x). emits r \<and> (case x of Inr _ \<Rightarrow> True | Inl _ \<Rightarrow> False)) h)"

lemma accepted_snoc [simp]:
  "accepted (h @ [(r, x)]) = accepted h +
     (if emits r \<and> (case x of Inr _ \<Rightarrow> True | Inl _ \<Rightarrow> False) then 1 else 0)"
  by (simp add: accepted_def)

lemma accepted_quiet: "quiet h h' \<Longrightarrow> accepted h' = accepted h"
proof -
  have "filter (\<lambda>(r, x). emits r \<and> (case x of Inr _ \<Rightarrow> True | Inl _ \<Rightarrow> False)) t = []"
    if "list_all (\<lambda>(r, x). \<not> emits r) t" for t :: history
    using that by (induction t) auto
  then show "quiet h h' \<Longrightarrow> accepted h' = accepted h"
    by (auto simp: calm_def accepted_def)
qed

lemma safe_read_child_mem:
  assumes "\<And>h r. \<not> emits r \<Longrightarrow> P h r"
    and "\<And>h' e. quiet h h' \<Longrightarrow> Q h' (Inl e)"
    and "\<And>h' bs. quiet h h' \<Longrightarrow> copied h' p bs \<Longrightarrow> length bs \<le> len \<Longrightarrow> Q h' (Inr bs)"
  shows "safe P Q h (read_child_mem i p a len)"
  by (rule safe_read_mem [where E = emits]) (simp_all add: assms harmless_not_emits)

lemma safe_write_child_mem:
  assumes "\<And>h r. \<not> emits r \<Longrightarrow> P h r"
    and "\<And>h' x. quiet h h' \<Longrightarrow> Q h' x"
  shows "safe P Q h (write_child_mem i p a d)"
  by (rule safe_write_mem [where E = emits]) (simp_all add: assms harmless_not_emits)

lemma safe_dup_fd:
  assumes "\<And>h r. \<not> emits r \<Longrightarrow> P h r"
    and "\<And>h' x. quiet h h' \<Longrightarrow> Q h' x"
  shows "safe P Q h (dup_fd_from_pid p fd)"
  by (rule safe_dup [where E = emits]) (simp_all add: assms harmless_not_emits)

lemma safe_query_protocol:
  assumes "\<And>h r. \<not> emits r \<Longrightarrow> P h r"
    and "\<And>h'. quiet h h' \<Longrightarrow> Q h' None"
    and "\<And>h' v y proto. quiet h h' \<Longrightarrow> (KSoProtocol fd, Inr (v, y)) \<in> set h' \<Longrightarrow>
           protocol_of_number v = Some proto \<Longrightarrow> Q h' (Some proto)"
  shows "safe P Q h (query_socket_protocol fd)"
proof -
  have "Q (h @ [(KSoProtocol fd, Inr (v, y))]) (protocol_of_number v)" for v y
    using assms(2) [of "h @ [(KSoProtocol fd, Inr (v, y))]"]
      assms(3) [of "h @ [(KSoProtocol fd, Inr (v, y))]" v y]
    by (cases "protocol_of_number v") auto
  then show ?thesis
    by (auto simp: query_socket_protocol_def assms(1) intro!: assms(2) split: sum.splits)
qed

text \<open>The endpoint was checked against the policy of the protocol the kernel gave for the socket.\<close>

definition endpoint_checked ::
  "network_state \<Rightarrow> u32 \<Rightarrow> live_policy option \<Rightarrow> history \<Rightarrow> int \<Rightarrow> bytes \<Rightarrow> bool" where
  "endpoint_checked ns p live h fd addr \<longleftrightarrow> (\<exists>v y proto ip.
     (KSoProtocol fd, Inr (v, y)) \<in> set h \<and> protocol_of_number v = Some proto
     \<and> parse_ip_from_sockaddr addr = Some ip
     \<and> dest_ok (effective_network_policy ns p proto live) ip (parse_port_from_sockaddr addr))"

lemma endpoint_checked_mono:
  "endpoint_checked ns p live h fd addr \<Longrightarrow> quiet h h' \<Longrightarrow> endpoint_checked ns p live h' fd addr"
  using quiet_set unfolding endpoint_checked_def by blast

lemma endpoint_checkedI:
  "(KSoProtocol fd, Inr (v, y)) \<in> set h \<Longrightarrow> protocol_of_number v = Some proto \<Longrightarrow>
    parse_ip_from_sockaddr addr = Some ip \<Longrightarrow>
    dest_ok (effective_network_policy ns p proto live) ip (parse_port_from_sockaddr addr) \<Longrightarrow>
    endpoint_checked ns p live h fd addr"
  unfolding endpoint_checked_def by blast

text \<open>Where a permitted \<open>connect\<close> goes: to the proxy when the port is intercepted, else to the copied
  address, with the real port of a remapped loopback port put in.\<close>

definition connect_target :: "network_state \<Rightarrow> bool \<Rightarrow> bytes \<Rightarrow> nat \<Rightarrow> (bytes \<times> nat) option" where
  "connect_target ns port_remap addr len =
     (case (parse_ip_from_sockaddr addr, parse_port_from_sockaddr addr) of
        (Some ip, Some port) \<Rightarrow>
          (case redirect_proxy ns (Some port) of
             Some proxy \<Rightarrow> (case proxy_sockaddr (is_ipv6 ip) proxy of Inr t \<Rightarrow> Some t | Inl _ \<Rightarrow> None)
           | None \<Rightarrow>
              Some (case (if port_remap \<and> is_loopback ip then get_real (ns_port_map ns) port else None) of
                   Some real \<Rightarrow> set_port_in_sockaddr addr real | None \<Rightarrow> addr, len))
      | _ \<Rightarrow> None)"

text \<open>What every request of a network handler satisfies, given the history before it.\<close>

definition request_ok ::
  "seccomp_notif \<Rightarrow> bool \<Rightarrow> live_policy option \<Rightarrow> network_state \<Rightarrow> history \<Rightarrow> sysreq \<Rightarrow> bool" where
  "request_ok n port_remap live ns h r = (case r of
     KConnect fd addr len \<Rightarrow> (\<exists>b l. copied h (notif_pid n) b
       \<and> endpoint_checked ns (notif_pid n) live h fd b
       \<and> connect_target ns port_remap b l = Some (addr, len))
   | KSendto fd d flags addr len \<Rightarrow>
       copied h (notif_pid n) addr \<and> endpoint_checked ns (notif_pid n) live h fd addr
   | KSendmsg fd addr bufs ctl flags \<Rightarrow>
       copied h (notif_pid n) addr \<and> endpoint_checked ns (notif_pid n) live h fd addr
   | _ \<Rightarrow> True)"

lemma request_ok_harmless: "\<not> emits r \<Longrightarrow> request_ok n pr live ns h r"
  by (cases r) (simp_all add: request_ok_def)

lemma request_ok_emit:
  "request_ok n pr live ns h (KConnect fd addr len) = (\<exists>b l. copied h (notif_pid n) b
       \<and> endpoint_checked ns (notif_pid n) live h fd b \<and> connect_target ns pr b l = Some (addr, len))"
  "request_ok n pr live ns h (KSendto fd d flags addr l) =
     (copied h (notif_pid n) addr \<and> endpoint_checked ns (notif_pid n) live h fd addr)"
  "request_ok n pr live ns h (KSendmsg fd addr bufs ctl flags) =
     (copied h (notif_pid n) addr \<and> endpoint_checked ns (notif_pid n) live h fd addr)"
  by (simp_all add: request_ok_def)

lemma safe_copy_iovecs:
  assumes "\<And>h r. \<not> emits r \<Longrightarrow> P h r"
    and "\<And>h' x. quiet h h' \<Longrightarrow> Q h' x"
  shows "safe P Q h (copy_iovecs n iov i k bufs)"
  using assms(2)
proof (induction k arbitrary: h i bufs)
  case (Suc k)
  have "safe P Q h' (copy_iovecs n iov (Suc i) k b)" if "quiet h h'" for h' b
    using that by (intro Suc.IH Suc.prems) (rule quiet_trans)
  then show ?case
    by (auto simp: Let_def intro!: safe_read_child_mem assms(1) Suc.prems)
qed (auto simp: assms(1))

lemma safe_prescan:
  assumes "\<And>h r. \<not> emits r \<Longrightarrow> P h r"
    and "\<And>h' x. quiet h h' \<Longrightarrow> Q h' x"
  shows "safe P Q h (prescan_msghdr n ptr)"
  by (auto simp: prescan_msghdr_def Let_def intro!: safe_read_child_mem assms
      intro: quiet_trans split: sum.splits)

text \<open>A program that may emit only permitted requests, and whose result tells how many of them were
  accepted.\<close>

definition net_safe ::
  "seccomp_notif \<Rightarrow> bool \<Rightarrow> live_policy option \<Rightarrow> network_state \<Rightarrow> ('a \<Rightarrow> nat) \<Rightarrow> 'a prog \<Rightarrow> bool" where
  "net_safe n pr live ns count p \<longleftrightarrow>
     (\<forall>h. safe (request_ok n pr live ns) (\<lambda>h' a. accepted h' = accepted h + count a) h p)"

definition action_count :: "notif_action \<Rightarrow> nat" where
  "action_count a = (case a of ReturnValue _ \<Rightarrow> 1 | _ \<Rightarrow> 0)"

lemma action_count_simps [simp]:
  "action_count (ReturnValue v) = 1" "action_count (Errno e) = 0" "action_count Continue = 0"
  by (simp_all add: action_count_def)

lemma net_safe_sendto: "net_safe n pr live ns action_count (sendto_on_behalf n live ns)"
  unfolding sendto_on_behalf_def Let_def net_safe_def
  by (auto intro!: safe_read_child_mem safe_dup_fd safe_query_protocol request_ok_harmless
      simp: request_ok_emit accepted_quiet split: option.splits sum.splits)
    (blast intro: copied_mono quiet_trans endpoint_checkedI endpoint_checked_mono)+

lemma net_safe_send_msghdr:
  assumes "(KSoProtocol dup_fd, Inr (v, y)) \<in> set h" "protocol_of_number v = Some proto"
  shows "safe (request_ok n pr live ns)
    (\<lambda>h' a. set h \<subseteq> set h' \<and> accepted h' = accepted h + (case a of Inr _ \<Rightarrow> 1 | Inl _ \<Rightarrow> 0)) h
    (send_msghdr_on_behalf n live ns dup_fd proto ptr flags)"
  unfolding send_msghdr_on_behalf_def Let_def
  using assms
  by (auto intro!: safe_read_child_mem safe_copy_iovecs request_ok_harmless
      simp: request_ok_emit accepted_quiet split: option.splits sum.splits)
    (blast intro: copied_mono quiet_trans endpoint_checkedI endpoint_checked_mono dest: quiet_set)+

lemma safe_send_msghdr:
  assumes "(KSoProtocol dup_fd, Inr (v, y)) \<in> set h" "protocol_of_number v = Some proto"
    and "\<And>h' e. set h \<subseteq> set h' \<Longrightarrow> accepted h' = accepted h \<Longrightarrow> Q h' (Inl e)"
    and "\<And>h' m. set h \<subseteq> set h' \<Longrightarrow> accepted h' = Suc (accepted h) \<Longrightarrow> Q h' (Inr m)"
  shows "safe (request_ok n pr live ns) Q h (send_msghdr_on_behalf n live ns dup_fd proto ptr flags)"
  by (rule safe_mono [OF net_safe_send_msghdr [OF assms(1,2)]])
    (auto split: sum.splits intro: assms(3,4))

lemma net_safe_sendmsg: "net_safe n pr live ns action_count (sendmsg_on_behalf n live ns)"
  unfolding sendmsg_on_behalf_def Let_def net_safe_def
  by (auto intro!: safe_prescan safe_dup_fd safe_query_protocol safe_send_msghdr request_ok_harmless
      simp: accepted_quiet split: prescan_result.splits option.splits sum.splits)

lemma safe_prescan_all:
  assumes "\<And>h r. \<not> emits r \<Longrightarrow> P h r"
    and "\<And>h' x. quiet h h' \<Longrightarrow> (\<forall>v. x \<noteq> Some (ReturnValue v)) \<Longrightarrow> Q h' x"
  shows "safe P Q h (prescan_all n ptr i k)"
  using assms(2)
proof (induction k arbitrary: h i)
  case (Suc k)
  have "safe P Q h' (prescan_all n ptr (Suc i) k)" if "quiet h h'" for h'
    using that by (intro Suc.IH Suc.prems) (auto intro: quiet_trans)
  then show ?case
    by (auto intro!: safe_prescan assms(1) Suc.prems split: prescan_result.splits)
qed (auto simp: assms(1))

lemma safe_send_all:
  assumes "(KSoProtocol fd, Inr (v, y)) \<in> set h" "protocol_of_number v = Some proto"
  shows "safe (request_ok n pr live ns)
    (\<lambda>h' (sent', e). sent' + accepted h = sent + accepted h' \<and> sent \<le> sent' \<and> sent' \<le> sent + k) h
    (send_all n live ns fd proto ptr flags i k sent)"
  using assms(1)
proof (induction k arbitrary: h i sent)
  case (Suc k)
  have "safe (request_ok n pr live ns)
      (\<lambda>h' (sent', e). sent' + accepted h = sent + accepted h' \<and> sent \<le> sent' \<and> sent' \<le> sent + Suc k)
      h2 (send_all n live ns fd proto ptr flags (Suc i) k (Suc sent))"
    if "set h \<subseteq> set h1" "accepted h1 = Suc (accepted h)" "quiet h1 h2" for h1 h2
  proof -
    have "(KSoProtocol fd, Inr (v, y)) \<in> set h2"
      using Suc.prems that quiet_set by blast
    from Suc.IH [OF this] show ?thesis
      by (rule safe_mono) (use accepted_quiet [OF that(3)] that(2) in auto)
  qed
  then show ?case
    using Suc.prems
    by (auto intro!: safe_send_msghdr [OF _ assms(2)] safe_write_child_mem request_ok_harmless)
qed simp

lemma safe_sendmmsg:
  "safe (request_ok n pr live ns) (\<lambda>h' a. case a of
      ReturnValue m \<Rightarrow> 0 \<le> m \<and> m \<le> 256 \<and> accepted h' = accepted h + nat m
    | _ \<Rightarrow> accepted h' = accepted h) h (sendmmsg_on_behalf n live ns)"
proof -
  let ?vlen = "min (unat (as_u32 (arg n 2))) MAX_MMSGHDR_ENTRIES"
  have "safe (request_ok n pr live ns) (\<lambda>h' (sent, e).
        sent + accepted h = accepted h' \<and> sent \<le> 256) h1
      (send_all n live ns fd proto ptr flags 0 ?vlen 0)"
    if "accepted h1 = accepted h" "(KSoProtocol fd, Inr (v, y)) \<in> set h1"
      "protocol_of_number v = Some proto" for h1 fd v y proto ptr flags
    by (rule safe_mono [OF safe_send_all [OF that(2,3)]])
       (use that(1) in \<open>auto simp: MAX_MMSGHDR_ENTRIES_def\<close>)
  then have send: "safe (request_ok n pr live ns) Q h1 (send_all n live ns fd proto ptr flags 0 ?vlen 0)"
    if "accepted h1 = accepted h" "(KSoProtocol fd, Inr (v, y)) \<in> set h1"
      "protocol_of_number v = Some proto"
      "\<And>h' sent e. sent + accepted h = accepted h' \<Longrightarrow> sent \<le> 256 \<Longrightarrow> Q h' (sent, e)"
    for Q h1 fd v y proto ptr flags
    using that by (blast intro: safe_mono)
  show ?thesis
    unfolding sendmmsg_on_behalf_def Let_def
    by (auto intro!: safe_prescan_all safe_dup_fd safe_query_protocol send request_ok_harmless
        simp: accepted_quiet split: option.splits sum.splits notif_action.splits)
qed

lemma safe_record_orig_dest:
  assumes "\<And>h r. \<not> emits r \<Longrightarrow> P h r"
    and "\<And>h' x. quiet h h' \<Longrightarrow> Q h' x"
  shows "safe P Q h (record_orig_dest fd v6 ip m)"
  by (auto simp: record_orig_dest_def Let_def assms(1) intro!: assms(2) split: sum.splits)

lemma safe_do_connect:
  assumes "copied h (notif_pid n) b" "endpoint_checked ns (notif_pid n) live h fd b"
    and "connect_target ns pr b l = Some (addr, len)"
    and "\<And>h' a. accepted h' = accepted h + action_count a \<Longrightarrow> a \<noteq> Continue \<Longrightarrow> Q h' a"
  shows "safe (request_ok n pr live ns) Q h (do_connect fd addr len)"
proof -
  have "request_ok n pr live ns h (KConnect fd addr len)"
    using assms(1-3) by (auto simp: request_ok_emit)
  then show ?thesis
    by (auto simp: do_connect_def intro!: assms(4) split: sum.splits)
qed

lemma safe_connect_checked:
  assumes b: "copied h (notif_pid n) b" "endpoint_checked ns (notif_pid n) live h fd b"
    and ip: "parse_ip_from_sockaddr b = Some ip"
    and Q: "\<And>h' a ns'. accepted h' = accepted h + action_count a \<Longrightarrow> a \<noteq> Continue \<Longrightarrow> Q h' (a, ns')"
  shows "safe (request_ok n pr live ns) Q h (connect_checked fd b l ip pr ns)"
proof -
  obtain port where port: "parse_port_from_sockaddr b = Some port"
    using parse_port_of_ip [OF ip] by blast
  show ?thesis
  proof (cases "redirect_proxy ns (Some port)")
    case None
    then have "connect_target ns pr b l =
        Some (case (if pr \<and> is_loopback ip then get_real (ns_port_map ns) port else None) of
           Some real \<Rightarrow> set_port_in_sockaddr b real | None \<Rightarrow> b, l)"
      by (simp add: connect_target_def ip port)
    with None show ?thesis
      by (auto simp: connect_checked_def Let_def port intro!: safe_do_connect [OF b] Q
          split: option.splits)
  next
    case (Some proxy)
    show ?thesis
    proof (cases "proxy_sockaddr (is_ipv6 ip) proxy")
      case (Inl e)
      with Some show ?thesis by (simp add: connect_checked_def port Let_def Q)
    next
      case (Inr t)
      then have t: "connect_target ns pr b l = Some (fst t, snd t)"
        using Some by (simp add: connect_target_def ip port)
      have "safe (request_ok n pr live ns) (\<lambda>h' a. Q h' (a, ns')) h1 (do_connect fd (fst t) (snd t))"
        if "quiet h h1" for h1 ns'
        using copied_mono [OF b(1) that] endpoint_checked_mono [OF b(2) that] t
        by (rule safe_do_connect) (simp add: Q accepted_quiet [OF that])
      then show ?thesis
        using Some Inr
        by (auto simp: connect_checked_def port Let_def request_ok_harmless
            intro!: safe_record_orig_dest split: option.splits prod.splits)
    qed
  qed
qed

lemma safe_connect:
  "safe (request_ok n pr live ns) (\<lambda>h' (a, ns'). accepted h' = accepted h + action_count a) h
     (connect_on_behalf n pr live ns)"
  unfolding connect_on_behalf_def Let_def
  by (auto intro!: safe_read_child_mem safe_dup_fd safe_query_protocol request_ok_harmless
        safe_connect_checked
      simp: accepted_quiet split: option.splits sum.splits)
    (blast intro: copied_mono quiet_trans endpoint_checkedI)+

lemma safe_handle_net:
  "safe (request_ok n pr live ns) (\<lambda>h' (a, ns'). accepted h' = accepted h +
      (case a of ReturnValue m \<Rightarrow> if notif_nr n = SYS_sendmmsg then nat m else 1 | _ \<Rightarrow> 0)) h
     (handle_net n pr live ns)"
proof -
  have count: "accepted h' = accepted h + action_count a \<Longrightarrow> notif_nr n \<noteq> SYS_sendmmsg \<Longrightarrow>
      accepted h' = accepted h +
        (case a of ReturnValue m \<Rightarrow> if notif_nr n = SYS_sendmmsg then nat m else 1 | _ \<Rightarrow> 0)" for h' a
    by (simp add: action_count_def split: notif_action.splits)
  have connect: "safe (request_ok n pr live ns) (\<lambda>h' (a, ns'). accepted h' = accepted h +
      (case a of ReturnValue m \<Rightarrow> if notif_nr n = SYS_sendmmsg then nat m else 1 | _ \<Rightarrow> 0)) h
      (connect_on_behalf n pr live ns)" if "notif_nr n \<noteq> SYS_sendmmsg"
    by (rule safe_mono [OF safe_connect]) (use count that in auto)
  have one: "safe (request_ok n pr live ns) (\<lambda>h' a. accepted h' = accepted h +
      (case a of ReturnValue m \<Rightarrow> if notif_nr n = SYS_sendmmsg then nat m else 1 | _ \<Rightarrow> 0)) h p"
    if "net_safe n pr live ns action_count p" "notif_nr n \<noteq> SYS_sendmmsg" for p
    using that unfolding net_safe_def by (blast intro: safe_mono count)
  have many: "safe (request_ok n pr live ns) (\<lambda>h' a. accepted h' = accepted h +
      (case a of ReturnValue m \<Rightarrow> if notif_nr n = SYS_sendmmsg then nat m else 1 | _ \<Rightarrow> 0)) h
      (sendmmsg_on_behalf n live ns)" if "notif_nr n = SYS_sendmmsg"
    by (rule safe_mono [OF safe_sendmmsg]) (use that in \<open>auto split: notif_action.splits\<close>)
  show ?thesis
    unfolding handle_net_def Let_def
    using connect one [OF net_safe_sendto] one [OF net_safe_sendmsg] many by simp
qed

lemma effective_network_policy_static_cong:
  "effective_network_policy (ns\<lparr>http_acl_addr := proxy, http_acl_ports := ports\<rparr>) p proto live =
   effective_network_policy ns p proto live"
proof -
  have "static_policy (ns\<lparr>http_acl_addr := proxy, http_acl_ports := ports\<rparr>) proto = static_policy ns proto"
    by (cases proto) simp_all
  then show ?thesis by (auto simp: effective_network_policy_def split: option.splits)
qed

section \<open>Properties\<close>


text \<open>
  what the child is told is what happened. If the call is answered with an error, or left to the
  kernel, the supervisor has sent nothing and connected nothing; otherwise exactly one emission was
  accepted by the kernel, or, for \<open>sendmmsg\<close>, as many messages as the return value says.
\<close>

theorem handle_net_accounts:
  "accepted (trace K (handle_net n port_remap live ns)) =
    (case fst (result K (handle_net n port_remap live ns)) of
       ReturnValue m \<Rightarrow> if notif_nr n = SYS_sendmmsg then nat m else 1
     | _ \<Rightarrow> 0)"
  using safe_result [OF safe_handle_net [of n port_remap live ns "[]"], of K]
  by (simp add: accepted_def split: prod.splits)

text \<open>
  one message without a destination lets a whole \<open>sendmmsg\<close> through. If the messages before it
  have IP destinations and one message has no destination (or one of another family), the pre-scan
  answers Continue: the kernel then sends all messages itself, and no destination is checked,
  whatever the policy is.
\<close>

theorem sendmmsg_mixed_unchecked:
  assumes "j < min (unat (as_u32 (arg n 2))) MAX_MMSGHDR_ENTRIES"
    and "\<forall>i<j. eval M (prescan_msghdr n (entry_ptr (arg n 1) i)) = OnBehalf"
    and "eval M (prescan_msghdr n (entry_ptr (arg n 1) j)) = ContinueWholeCall"
  shows "result (stateless M) (sendmmsg_on_behalf n live ns) = Continue"
proof -
  have "eval M (prescan_all n ptr i k) = Some Continue"
    if "i \<le> j" "j < i + k" "\<forall>i'. i \<le> i' \<and> i' < j \<longrightarrow> eval M (prescan_msghdr n (entry_ptr ptr i')) = OnBehalf"
      "eval M (prescan_msghdr n (entry_ptr ptr j)) = ContinueWholeCall" for i k ptr
    using that
  proof (induction k arbitrary: i)
    case (Suc k)
    then show ?case
      by (cases "i = j") (auto simp: Suc_le_eq)
  qed simp
  then have "eval M (prescan_all n (arg n 1) 0 (min (unat (as_u32 (arg n 2))) MAX_MMSGHDR_ENTRIES))
      = Some Continue"
    using assms by simp
  then show ?thesis
    using assms(1) by (simp add: result_stateless sendmmsg_on_behalf_def Let_def)
qed

text \<open>The witness: a UDP socket under a policy that permits nothing. Alone, the first message (to
  \<open>8.8.8.8:53\<close>) is refused; followed by one without a destination, both go out unchecked.\<close>

definition deny_all :: network_state where
  "deny_all = NetworkState_new\<lparr>tcp_policy := AllowList Map.empty {},
     udp_policy := AllowList Map.empty {}, icmp_policy := AllowList Map.empty {}\<rparr>"

definition dns_sockaddr :: bytes where
  "dns_sockaddr = sockaddr_in 53 [8, 8, 8, 8]"

definition sample_memory :: "sysreq \<Rightarrow> sysres" where
  "sample_memory r = (case r of
     KIdValid _ \<Rightarrow> Inr (0, [])
   | KPidfdOpen _ \<Rightarrow> Inr (7, [])
   | KPidfdGetfd _ _ \<Rightarrow> Inr (8, [])
   | KSoProtocol _ \<Rightarrow> Inr (17, [])
   | KReadVm _ a len \<Rightarrow>
       if a = 0x1000 then Inr (56, le_bytes 8 (0x2000 :: u64) @ le_bytes 4 (16 :: u32) @ replicate 44 0)
       else if a = 0x1040 then Inr (56, replicate 56 0)
       else if a = 0x2000 then Inr (16, dns_sockaddr)
       else if a = 0x3000 then Inr (16, [0, 0] @ drop 2 dns_sockaddr)
       else Inl 14
   | KSendto _ d _ _ _ \<Rightarrow> Inr (int (length d), [])
   | _ \<Rightarrow> Inl 38)"

definition sample_notif :: "u32 \<Rightarrow> u64 list \<Rightarrow> seccomp_notif" where
  "sample_notif nr as = \<lparr>notif_id = 1, notif_pid = 100, notif_flags = 0,
     notif_data = \<lparr>nr_of = nr, arch_of = AUDIT_ARCH, ip_of = 0, args_of = as\<rparr>\<rparr>"

theorem sendmmsg_mixed_unchecked_witness:
  "result (stateless sample_memory)
     (sendmmsg_on_behalf (sample_notif SYS_sendmmsg [3, 0x1000, 2, 0, 0, 0]) None deny_all) = Continue
   \<and> result (stateless sample_memory)
     (sendmsg_on_behalf (sample_notif SYS_sendmsg [3, 0x1000, 0, 0, 0, 0]) None deny_all)
       = Errno ECONNREFUSED"
proof
  have pre: "eval sample_memory (prescan_msghdr (sample_notif SYS_sendmmsg [3, 0x1000, 2, 0, 0, 0])
        (entry_ptr 0x1000 0)) = OnBehalf"
    "eval sample_memory (prescan_msghdr (sample_notif SYS_sendmmsg [3, 0x1000, 2, 0, 0, 0])
        (entry_ptr 0x1000 1)) = ContinueWholeCall"
    by code_simp+
  have args: "arg (sample_notif SYS_sendmmsg [3, 0x1000, 2, 0, 0, 0]) 1 = 0x1000"
    "as_u32 (arg (sample_notif SYS_sendmmsg [3, 0x1000, 2, 0, 0, 0]) 2) = 2"
    by (simp_all add: arg_def sample_notif_def as_u32_def)
  show "result (stateless sample_memory)
     (sendmmsg_on_behalf (sample_notif SYS_sendmmsg [3, 0x1000, 2, 0, 0, 0]) None deny_all) = Continue"
    by (rule sendmmsg_mixed_unchecked [of 1])
       (use pre args in \<open>auto simp: MAX_MMSGHDR_ENTRIES_def less_Suc_eq\<close>)
  show "result (stateless sample_memory)
     (sendmsg_on_behalf (sample_notif SYS_sendmsg [3, 0x1000, 0, 0, 0, 0]) None deny_all)
       = Errno ECONNREFUSED"
    unfolding result_stateless by code_simp
qed

text \<open>
  A destination of another address family is not checked by \<open>sendto\<close>: the call is left to the
  kernel whatever the policy is. That includes the family AF_UNSPEC, with which a UDP socket sends to
  the IPv4 address in the buffer all the same.
\<close>

theorem sendto_other_family_unchecked:
  assumes "unat (arg n 2) \<le> MAX_SEND_BUF" "arg n 4 \<noteq> 0"
    and "M (KIdValid (notif_id n)) = Inr z"
    and "M (KReadVm (notif_pid n) (arg n 4) (unat (as_u32 (arg n 5)))) = Inr (y, bs)"
    and "sockaddr_family bs \<notin> {AF_INET, AF_INET6}"
  shows "result (stateless M) (sendto_on_behalf n live ns) = Continue"
proof -
  have "parse_ip_from_sockaddr (take len bs) = None" for len
    using assms(5) by (simp add: parse_ip_from_sockaddr_def sockaddr_family_def Let_def)
  then show ?thesis
    using assms(1,2) eval_read_child_mem [OF assms(3,4)]
    by (simp add: result_stateless sendto_on_behalf_def Let_def)
qed

text \<open>The same bytes with family AF_INET are refused.\<close>

theorem sendto_other_family_unchecked_witness:
  "result (stateless sample_memory)
     (sendto_on_behalf (sample_notif SYS_sendto [3, 0x9000, 4, 0, 0x3000, 16]) None deny_all) = Continue
   \<and> result (stateless sample_memory)
     (sendto_on_behalf (sample_notif SYS_sendto [3, 0x9000, 4, 0, 0x2000, 16]) None deny_all)
       = Errno ECONNREFUSED"
proof
  let ?n = "sample_notif SYS_sendto [3, 0x9000, 4, 0, 0x3000, 16]"
  show "result (stateless sample_memory) (sendto_on_behalf ?n None deny_all) = Continue"
    by (rule sendto_other_family_unchecked [of _ _ "(0, [])" 16 "[0, 0] @ drop 2 dns_sockaddr"])
       (simp_all add: sample_notif_def arg_def as_u32_def sample_memory_def MAX_SEND_BUF_def
          sockaddr_family_def u16_from_ne_def)
  show "result (stateless sample_memory)
     (sendto_on_behalf (sample_notif SYS_sendto [3, 0x9000, 4, 0, 0x2000, 16]) None deny_all)
       = Errno ECONNREFUSED"
    unfolding result_stateless by code_simp
qed

text \<open>
  The HTTP rules do not reach \<open>sendto\<close>. The handler behaves the same with and without the HTTP
  proxy, whatever ports it intercepts; a TCP socket that connects through \<open>sendto\<close> with MSG_FASTOPEN
  to an intercepted port therefore goes to the destination itself, not to the proxy.
\<close>

theorem sendto_ignores_proxy:
  "sendto_on_behalf n live (ns\<lparr>http_acl_addr := proxy, http_acl_ports := ports\<rparr>) =
   sendto_on_behalf n live ns"
  unfolding sendto_on_behalf_def effective_network_policy_static_cong ..

end
