(* ===== verification/ProcIndex.thy ===== *)
theory ProcIndex
  imports Supervisor "HOL-Library.AList"
begin

text \<open>
  The registry of sandboxed processes: \<open>PidKey\<close>, \<open>PerProcessState\<close> and \<open>ProcessIndex\<close> of
  \<open>seccomp/state.rs\<close>. The hash map is an association list with distinct keys (\<open>index_ok\<close>), so that the
  sweep can visit its entries in some order. Locks are not modelled: every operation holds the lock
  throughout, except \<open>prune_dead\<close>, whose reading half and removing half are separate.
\<close>

section \<open>Text of proc files\<close>

text \<open>\<open>s.split_whitespace()\<close>\<close>

lemma split_once_ws_length: "split_once_ws s = Some (a, b) \<Longrightarrow> length b < length s"
proof (induction s arbitrary: a)
  case (Cons x xs)
  then show ?case by (fastforce split: if_splits option.splits)
qed simp

function split_whitespace :: "string \<Rightarrow> string list" where
  "split_whitespace s = (case split_once_ws s of
     None \<Rightarrow> if s = [] then [] else [s]
   | Some (a, b) \<Rightarrow> (if a = [] then [] else [a]) @ split_whitespace b)"
  by auto
termination
  by (relation "measure length") (auto dest: split_once_ws_length)

declare split_whitespace.simps [simp del]

text \<open>\<open>s.rsplit_once(pat)\<close> for a string pattern: the last occurrence.\<close>

definition rsplit_once_str :: "string \<Rightarrow> string \<Rightarrow> (string \<times> string) option" where
  "rsplit_once_str pat s =
     (case filter (\<lambda>i. prefix pat (drop i s)) (rev [0..<Suc (length s)]) of
        [] \<Rightarrow> None
      | i # _ \<Rightarrow> Some (take i s, drop (i + length pat) s))"

definition show_int :: "int \<Rightarrow> string" where
  "show_int i = (if i < 0 then CHR ''-'' # show_nat (nat (- i)) else show_nat (nat i))"

text \<open>\<open>str::parse::<i32>()\<close>\<close>

definition parse_i32 :: "string \<Rightarrow> int option" where
  "parse_i32 s = (case s of
     c # r \<Rightarrow>
       if c = CHR ''-'' then
         (if r = [] \<or> hd r = CHR ''+'' then None
          else map_option (\<lambda>n. - int n) (parse_uint 2147483648 10 r))
       else map_option int (parse_uint 2147483647 10 s)
   | [] \<Rightarrow> None)"

text \<open>Evaluation compares with the large bounds as integers.\<close>

lemma parse_u64_code [code]:
  "parse_u64 s = (let ds = (case s of c # r \<Rightarrow> if c = CHR ''+'' \<and> r \<noteq> [] then r else s | [] \<Rightarrow> s)
     in if ds = [] then None
        else case digits_val 10 0 ds of
          Some v \<Rightarrow> if int v \<le> 18446744073709551615 then Some (word_of_nat v) else None
        | None \<Rightarrow> None)"
  by (simp add: parse_u64_def parse_uint_def Let_def split: option.split)

lemma parse_u32_code [code]:
  "parse_u32 s = (let ds = (case s of c # r \<Rightarrow> if c = CHR ''+'' \<and> r \<noteq> [] then r else s | [] \<Rightarrow> s)
     in if ds = [] then None
        else case digits_val 10 0 ds of
          Some v \<Rightarrow> if int v \<le> 4294967295 then Some (word_of_nat v) else None
        | None \<Rightarrow> None)"
  by (simp add: parse_u32_def parse_uint_def Let_def split: option.split)

definition decimal_at_most :: "int \<Rightarrow> string \<Rightarrow> int option" where
  "decimal_at_most m s = (let ds = (case s of c # r \<Rightarrow> if c = CHR ''+'' \<and> r \<noteq> [] then r else s | [] \<Rightarrow> s)
     in if ds = [] then None
        else case digits_val 10 0 ds of
          Some v \<Rightarrow> if int v \<le> m then Some (int v) else None
        | None \<Rightarrow> None)"

lemma parse_uint_decimal:
  "map_option int (parse_uint m 10 s) = decimal_at_most (int m) s"
  by (simp add: parse_uint_def decimal_at_most_def Let_def split: option.split)

lemma parse_i32_code [code]:
  "parse_i32 s = (case s of
     c # r \<Rightarrow>
       if c = CHR ''-'' then
         (if r = [] \<or> hd r = CHR ''+'' then None
          else map_option uminus (decimal_at_most 2147483648 r))
       else decimal_at_most 2147483647 s
   | [] \<Rightarrow> None)"
proof -
  have "map_option (\<lambda>n. - int n) x = map_option uminus (map_option int x)" for x
    by (simp add: option.map_comp comp_def)
  then show ?thesis
    by (simp add: parse_i32_def parse_uint_decimal split: list.split)
qed

section \<open>State\<close>

record PidKey =
  key_pid :: int
  key_start_time :: u64

record PerProcessState =
  virtual_cwd :: "string option"
  brk_base :: "u64 option"
  cow_dir_cache :: "u32 \<Rightarrow> (string \<times> bytes list) option"
  procfs_dir_cache :: "u32 \<times> string \<Rightarrow> bytes list option"

definition PerProcessState_default :: PerProcessState where
  "PerProcessState_default = \<lparr>virtual_cwd = None, brk_base = None, cow_dir_cache = Map.empty,
     procfs_dir_cache = Map.empty\<rparr>"

record ProcessEntry =
  entry_key :: PidKey
  entry_state :: PerProcessState

type_synonym process_index = "(int \<times> ProcessEntry) list"

text \<open>\<open>read_pid_start_time\<close>: the 20th field after the command name.\<close>

definition read_pid_start_time :: "int \<Rightarrow> u64 option prog" where
  "read_pid_start_time pid =
     pbind (syscall (KReadFile (''/proc/'' @ show_int pid @ ''/stat''))) (\<lambda>x. Done (case x of
       Inl _ \<Rightarrow> None
     | Inr (_, content) \<Rightarrow>
         Option.bind (from_utf8 content) (\<lambda>stat.
         Option.bind (rsplit_once_str '') '' stat) (\<lambda>(_, rest).
         let fields = split_whitespace rest in
         if 19 < length fields then parse_u64 (fields ! 19) else None))))"

section \<open>The index\<close>

definition ProcessIndex_new :: process_index where
  "ProcessIndex_new = []"

text \<open>The insertion of \<open>register\<close>, once the start time is known.\<close>

definition insert_process :: "int \<Rightarrow> u64 \<Rightarrow> process_index \<Rightarrow> process_index" where
  "insert_process pid start_time ix =
     AList.update pid \<lparr>entry_key = \<lparr>key_pid = pid, key_start_time = start_time\<rparr>,
                       entry_state = PerProcessState_default\<rparr> ix"

definition register :: "int \<Rightarrow> process_index \<Rightarrow> (PidKey option \<times> process_index) prog" where
  "register pid ix = pbind (read_pid_start_time pid) (\<lambda>st. case st of
     None \<Rightarrow> Done (None, ix)
   | Some start_time \<Rightarrow>
       Done (Some \<lparr>key_pid = pid, key_start_time = start_time\<rparr>, insert_process pid start_time ix))"

definition key_for :: "process_index \<Rightarrow> int \<Rightarrow> PidKey option" where
  "key_for ix pid = map_option entry_key (map_of ix pid)"

definition entry_for :: "process_index \<Rightarrow> int \<Rightarrow> (PidKey \<times> PerProcessState) option" where
  "entry_for ix pid = map_option (\<lambda>e. (entry_key e, entry_state e)) (map_of ix pid)"

definition contains :: "process_index \<Rightarrow> int \<Rightarrow> bool" where
  "contains ix pid \<longleftrightarrow> map_of ix pid \<noteq> None"

definition index_len :: "process_index \<Rightarrow> nat" where
  "index_len ix = length ix"

definition max_pid :: "process_index \<Rightarrow> int option" where
  "max_pid ix = (if ix = [] then None else Some (Max (set (map fst ix))))"

definition pids_snapshot :: "process_index \<Rightarrow> int list" where
  "pids_snapshot ix = map fst ix"

definition unregister :: "PidKey \<Rightarrow> process_index \<Rightarrow> process_index" where
  "unregister key ix =
     (if key_for ix (key_pid key) = Some key then AList.delete (key_pid key) ix else ix)"

text \<open>The sweep: collect the entries whose process is gone or recycled, then remove each that is still
  there.\<close>

primrec find_dead :: "(int \<times> PidKey) list \<Rightarrow> PidKey list prog" where
  "find_dead [] = Done []"
| "find_dead (c # cs) =
     pbind (read_pid_start_time (fst c)) (\<lambda>st.
     pbind (find_dead cs) (\<lambda>dead.
       Done (if st = Some (key_start_time (snd c)) then dead else snd c # dead)))"

definition remove_all :: "PidKey list \<Rightarrow> process_index \<Rightarrow> process_index" where
  "remove_all dead ix = fold unregister dead ix"

definition prune_dead :: "process_index \<Rightarrow> process_index prog" where
  "prune_dead ix =
     pbind (find_dead (map (\<lambda>(p, e). (p, entry_key e)) ix)) (\<lambda>dead.
       Done (if dead = [] then ix else remove_all dead ix))"

text \<open>\<open>perproc.lock()\<close>: a handler changes the state of the entry it holds.\<close>

definition update_state ::
  "int \<Rightarrow> (PerProcessState \<Rightarrow> PerProcessState) \<Rightarrow> process_index \<Rightarrow> process_index" where
  "update_state pid f ix = AList.map_entry pid (\<lambda>e. e\<lparr>entry_state := f (entry_state e)\<rparr>) ix"

section \<open>Invariant\<close>

text \<open>Keys are distinct, and every entry's key carries the pid it is filed under.\<close>

definition index_ok :: "process_index \<Rightarrow> bool" where
  "index_ok ix \<longleftrightarrow> distinct (map fst ix) \<and> (\<forall>(p, e)\<in>set ix. key_pid (entry_key e) = p)"

lemma index_ok_new [simp]: "index_ok ProcessIndex_new"
  by (simp add: index_ok_def ProcessIndex_new_def)

lemma index_ok_key: "index_ok ix \<Longrightarrow> key_for ix pid = Some k \<Longrightarrow> key_pid k = pid"
  by (auto simp: index_ok_def key_for_def dest: map_of_SomeD)

lemma set_update: "distinct (map fst ix) \<Longrightarrow>
    set (AList.update k v ix) = insert (k, v) {(p, e) \<in> set ix. p \<noteq> k}"
  by (induction ix) (auto simp: image_iff)

lemma index_ok_insert: "index_ok ix \<Longrightarrow> index_ok (insert_process pid st ix)"
  by (auto simp: index_ok_def insert_process_def distinct_update set_update)

lemma index_ok_delete: "index_ok ix \<Longrightarrow> index_ok (AList.delete p ix)"
  unfolding index_ok_def using distinct_delete
  by (auto simp: AList.delete_eq distinct_map_filter)

lemma index_ok_unregister: "index_ok ix \<Longrightarrow> index_ok (unregister k ix)"
  by (simp add: unregister_def index_ok_delete)

lemma index_ok_remove_all: "index_ok ix \<Longrightarrow> index_ok (remove_all ks ix)"
  unfolding remove_all_def by (induction ks arbitrary: ix) (simp_all add: index_ok_unregister)

section \<open>The index as an interface\<close>

locale pid_registry =
  fixes ok :: "'ix \<Rightarrow> bool"
    and ins :: "int \<Rightarrow> u64 \<Rightarrow> 'ix \<Rightarrow> 'ix"
    and del :: "PidKey \<Rightarrow> 'ix \<Rightarrow> 'ix"
    and look :: "'ix \<Rightarrow> int \<Rightarrow> PidKey option"
  assumes ok_ins: "ok ix \<Longrightarrow> ok (ins p st ix)"
    and ok_del: "ok ix \<Longrightarrow> ok (del k ix)"
    and look_key: "ok ix \<Longrightarrow> look ix p = Some k \<Longrightarrow> key_pid k = p"
    and look_ins: "ok ix \<Longrightarrow> look (ins p st ix) q =
          (if q = p then Some \<lparr>key_pid = p, key_start_time = st\<rparr> else look ix q)"
    and look_del: "ok ix \<Longrightarrow> look (del k ix) q = (if look ix q = Some k then None else look ix q)"
begin

text \<open>An exit of an earlier process with the same pid does not remove the one registered since.\<close>

lemma late_exit:
  "ok ix \<Longrightarrow> st \<noteq> st' \<Longrightarrow>
    look (del \<lparr>key_pid = p, key_start_time = st\<rparr> (ins p st' ix)) p =
      Some \<lparr>key_pid = p, key_start_time = st'\<rparr>"
  by (simp add: look_ins look_del ok_ins)

lemma ok_sweep: "ok ix \<Longrightarrow> ok (fold del ks ix)"
  by (induction ks arbitrary: ix) (simp_all add: ok_del)

lemma look_sweep:
  "ok ix \<Longrightarrow> look (fold del ks ix) q =
     (case look ix q of None \<Rightarrow> None | Some k \<Rightarrow> if k \<in> set ks then None else Some k)"
  by (induction ks arbitrary: ix) (auto simp: look_del ok_del split: option.splits)

end

lemma key_for_insert:
  "key_for (insert_process p st ix) q =
     (if q = p then Some \<lparr>key_pid = p, key_start_time = st\<rparr> else key_for ix q)"
  by (simp add: key_for_def insert_process_def update_conv')

lemma key_for_unregister:
  assumes "index_ok ix"
  shows "key_for (unregister k ix) q = (if key_for ix q = Some k then None else key_for ix q)"
proof (cases "key_for ix q = Some k")
  case True
  then have "key_pid k = q" by (rule index_ok_key [OF assms])
  with True show ?thesis by (simp add: unregister_def key_for_def delete_conv')
next
  case False
  then show ?thesis by (auto simp: unregister_def key_for_def delete_conv')
qed

interpretation registry: pid_registry index_ok insert_process unregister key_for
  by unfold_locales
    (simp_all add: index_ok_insert index_ok_unregister index_ok_key key_for_insert key_for_unregister)

text \<open>Removal leaves the other entries, their state included.\<close>

lemma map_of_remove_all:
  assumes "index_ok ix"
  shows "map_of (remove_all ks ix) q =
    (case map_of ix q of None \<Rightarrow> None | Some e \<Rightarrow> if entry_key e \<in> set ks then None else Some e)"
  using assms unfolding remove_all_def
proof (induction ks arbitrary: ix)
  case Nil
  show ?case by (simp split: option.split)
next
  case (Cons k ks)
  have "map_of (unregister k ix) q =
      (case map_of ix q of None \<Rightarrow> None | Some e \<Rightarrow> if entry_key e = k then None else Some e)"
    (is "_ = ?rhs")
  proof (cases "key_for ix q = Some k")
    case True
    then have "key_pid k = q" by (rule index_ok_key [OF Cons.prems])
    with True show ?thesis by (auto simp: unregister_def key_for_def delete_conv')
  next
    case False
    then have "?rhs = map_of ix q" by (auto simp: key_for_def split: option.split)
    with False show ?thesis by (auto simp: unregister_def key_for_def delete_conv')
  qed
  with Cons.IH [OF index_ok_unregister [OF Cons.prems, of k]] show ?case
    by (auto split: option.splits)
qed

lemma eval_find_dead:
  "eval M (find_dead cs) =
     map snd (filter (\<lambda>c. eval M (read_pid_start_time (fst c)) \<noteq> Some (key_start_time (snd c))) cs)"
  by (induction cs) auto

section \<open>Properties\<close>


text \<open>Process 7 is alive, process 8 was recycled: only 7 stays.\<close>

definition stat_text :: "string \<Rightarrow> string" where
  "stat_text st = ''7 (a b) S 1 7 7 0 0 0 0 0 0 0 0 0 0 0 0 0 1 0 '' @ st @ '' 0 0''"

definition two_processes :: process_index where
  "two_processes = insert_process 8 500 (insert_process 7 400 ProcessIndex_new)"

definition proc_files :: "sysreq \<Rightarrow> sysres" where
  "proc_files r = (case r of
     KReadFile f \<Rightarrow> if f = ''/proc/7/stat'' then Inr (0, bytes_of_string (stat_text ''400''))
       else if f = ''/proc/8/stat'' then Inr (0, bytes_of_string (stat_text ''900'')) else Inl 2
   | _ \<Rightarrow> Inl 1)"


end
