(* ===== verification/Resource.thy ===== *)
theory Resource
  imports Config ProcIndex
begin

text \<open>
  Resource limits: \<open>NotifPolicy\<close> (\<open>seccomp/notif.rs\<close>), \<open>ResourceState\<close> (\<open>seccomp/state.rs\<close>) and the
  handlers of \<open>resource.rs\<close> for fork-like, wait and memory system calls. The load average and the
  start instant of \<open>ResourceState\<close>, which only \<open>/proc\<close> files show, are left out.
\<close>

unbundle bit_operations_syntax

section \<open>Policy and state\<close>

text \<open>Paths are byte strings, a mount is a pair of the virtual and the host path.\<close>

record notif_policy =
  np_max_memory_bytes :: u64
  np_max_processes :: u32
  np_has_memory_limit :: bool
  np_has_net_allowlist :: bool
  np_has_random_seed :: bool
  np_has_time_start :: bool
  np_argv_safety_required :: bool
  np_time_offset :: int
  np_num_cpus :: "u32 option"
  np_port_remap :: bool
  np_cow_enabled :: bool
  np_chroot_root :: "string option"
  np_chroot_readable :: "string list"
  np_chroot_writable :: "string list"
  np_chroot_denied :: "string list"
  np_chroot_mounts :: "(string \<times> string) list"
  np_deterministic_dirs :: bool
  np_virtual_hostname :: "string option"
  np_has_http_acl :: bool
  np_virtual_etc_hosts :: "string option"

text \<open>The policy the sandbox start builds from the configuration; \<open>canonicalize\<close> is the file system's
  answer, \<open>now\<close> the current time in seconds, \<open>extra\<close> the syscalls of caller-supplied handlers.\<close>

definition notif_policy_of ::
  "(string \<Rightarrow> string option) \<Rightarrow> int \<Rightarrow> int list \<Rightarrow> string \<Rightarrow> string option \<Rightarrow> sandbox \<Rightarrow> notif_policy" where
  "notif_policy_of canonicalize now extra rt_name etc_hosts p =
    \<lparr>np_max_memory_bytes = (case sb_max_memory p of Some m \<Rightarrow> m | None \<Rightarrow> 0),
     np_max_processes = sb_max_processes p,
     np_has_memory_limit = (sb_max_memory p \<noteq> None),
     np_has_net_allowlist = (sb_net_allow p \<noteq> [] \<or> sb_policy_fn p \<noteq> None
        \<or> sb_http_allow p \<noteq> [] \<or> sb_http_deny p \<noteq> []),
     np_has_random_seed = (sb_random_seed p \<noteq> None),
     np_has_time_start = (sb_time_start p \<noteq> None),
     np_argv_safety_required = (sb_policy_fn p \<noteq> None
        \<or> list_ex (\<lambda>h. h = SYS_execve \<or> h = SYS_execveat) extra),
     np_time_offset = (case sb_time_start p of Some t \<Rightarrow> max 0 t - max 0 now | None \<Rightarrow> 0),
     np_num_cpus = sb_num_cpus p,
     np_port_remap = sb_port_remap p,
     np_cow_enabled = (sb_workdir p \<noteq> None \<and> sb_fs_isolation p = FsNone),
     np_chroot_root = Option.bind (sb_chroot p) canonicalize,
     np_chroot_readable = sb_fs_readable p,
     np_chroot_writable = sb_fs_writable p,
     np_chroot_denied = sb_fs_denied p,
     np_chroot_mounts = map (\<lambda>(vp, hp).
        (vp, case canonicalize hp of Some c \<Rightarrow> c | None \<Rightarrow> hp)) (sb_fs_mount p),
     np_deterministic_dirs = sb_deterministic_dirs p,
     np_virtual_hostname = Some rt_name,
     np_has_http_acl = (sb_http_allow p \<noteq> [] \<or> sb_http_deny p \<noteq> []),
     np_virtual_etc_hosts = etc_hosts\<rparr>"

record resource_state =
  proc_count :: u32
  max_processes :: u32
  mem_used :: u64
  rs_max_memory_bytes :: u64
  hold_forks :: bool
  held_notif_ids :: "u64 list"

definition ResourceState_new :: "u64 \<Rightarrow> u32 \<Rightarrow> resource_state" where
  "ResourceState_new max_memory max_procs =
     \<lparr>proc_count = 0, max_processes = max_procs, mem_used = 0, rs_max_memory_bytes = max_memory,
      hold_forks = False, held_notif_ids = []\<rparr>"

section \<open>Forks\<close>

definition CLONE_THREAD :: u64 where "CLONE_THREAD = 0x00010000"
definition MAP_ANONYMOUS :: u64 where "MAP_ANONYMOUS = 0x20"

definition clone_flags :: "seccomp_notif \<Rightarrow> u64 option prog" where
  "clone_flags n =
     (let nr = notif_nr n in
      if nr = SYS_clone then Done (Some (arg n 0))
      else if nr = SYS_clone3 then
        (let ptr = arg n 0; size = arg n 1 in
         if ptr = 0 \<or> size < 8 then Done None
         else pbind (read_child_mem (notif_id n) (notif_pid n) ptr 8) (\<lambda>r. case r of
             Inl _ \<Rightarrow> Done None
           | Inr buf \<Rightarrow> Done (if length buf = 8 then Some (le_word buf) else None)))
      else if nr = SYS_vfork \<or> nr = SYS_fork then Done (Some 0)
      else Done None)"

definition is_thread_create :: "seccomp_notif \<Rightarrow> bool prog" where
  "is_thread_create n = pbind (clone_flags n) (\<lambda>f. Done (case f of
     Some f \<Rightarrow> f AND CLONE_THREAD \<noteq> 0 | None \<Rightarrow> False))"

definition handle_fork ::
  "seccomp_notif \<Rightarrow> resource_state \<Rightarrow> (notif_action \<times> resource_state) prog" where
  "handle_fork n rs =
     (if notif_nr n = SYS_clone \<and> arg n 0 AND CLONE_NS_FLAGS \<noteq> 0 then Done (Errno EPERM, rs)
      else
      pbind (is_thread_create n) (\<lambda>thread.
        if thread then Done (Continue, rs)
        else if hold_forks rs then
          Done (Hold, rs\<lparr>held_notif_ids := held_notif_ids rs @ [notif_id n]\<rparr>)
        else if proc_count rs \<ge> max_processes rs then Done (Errno EAGAIN, rs)
        else Done (Continue, rs\<lparr>proc_count := proc_count rs + 1\<rparr>)))"

definition handle_wait :: "resource_state \<Rightarrow> notif_action \<times> resource_state" where
  "handle_wait rs = (Continue, rs\<lparr>proc_count := saturating_sub (proc_count rs) 1\<rparr>)"

definition rollback_fork_count :: "resource_state \<Rightarrow> resource_state" where
  "rollback_fork_count rs = rs\<lparr>proc_count := saturating_sub (proc_count rs) 1\<rparr>"

definition is_process_creation_notif :: "seccomp_notif \<Rightarrow> bool" where
  "is_process_creation_notif n = (notif_nr n \<in> set FORK_LIKE_SYSCALLS)"

definition fork_counted_on_continue :: "seccomp_notif \<Rightarrow> bool prog" where
  "fork_counted_on_continue n =
     (if is_process_creation_notif n
      then pbind (is_thread_create n) (\<lambda>thread. Done (\<not> thread)) else Done False)"

definition requires_process_creation_tracking :: "seccomp_notif \<Rightarrow> notif_policy \<Rightarrow> bool prog" where
  "requires_process_creation_tracking n policy =
     (if np_argv_safety_required policy then fork_counted_on_continue n else Done False)"

section \<open>Memory\<close>

text \<open>\<open>handle_memory\<close> keeps the account of anonymous memory; \<open>brk\<close> has its base in the process's own
  state. An increase beyond the limit is answered with \<open>Kill\<close>.\<close>

definition grow :: "u64 \<Rightarrow> u64 \<Rightarrow> resource_state \<Rightarrow> resource_state option" where
  "grow limit n rs =
     (if saturating_add (mem_used rs) n > limit then None
      else Some (rs\<lparr>mem_used := mem_used rs + n\<rparr>))"

definition shrink :: "u64 \<Rightarrow> resource_state \<Rightarrow> resource_state" where
  "shrink n rs = rs\<lparr>mem_used := saturating_sub (mem_used rs) n\<rparr>"

definition handle_brk ::
  "int \<Rightarrow> u64 \<Rightarrow> notif_action \<Rightarrow> u64 \<Rightarrow> process_index \<Rightarrow> resource_state
     \<Rightarrow> notif_action \<times> process_index \<times> resource_state" where
  "handle_brk pid limit kill new_brk ix rs =
     (if new_brk = 0 then (Continue, ix, rs)
      else case entry_for ix pid of
        None \<Rightarrow> (Continue, ix, rs)
      | Some (_, perproc) \<Rightarrow>
          let base = (case brk_base perproc of Some b \<Rightarrow> b | None \<Rightarrow> new_brk);
              set_base = (\<lambda>b. update_state pid (\<lambda>st. st\<lparr>brk_base := Some b\<rparr>) ix)
          in if new_brk > base then
               (case grow limit (new_brk - base) rs of
                  None \<Rightarrow> (kill, set_base base, rs)
                | Some rs' \<Rightarrow> (Continue, set_base new_brk, rs'))
             else if new_brk < base then (Continue, set_base new_brk, shrink (base - new_brk) rs)
             else (Continue, set_base base, rs))"

definition handle_memory ::
  "seccomp_notif \<Rightarrow> notif_policy \<Rightarrow> process_index \<Rightarrow> resource_state
     \<Rightarrow> notif_action \<times> process_index \<times> resource_state" where
  "handle_memory n policy ix rs =
     (let nr = notif_nr n; limit = np_max_memory_bytes policy;
          pid = sint (notif_pid n);
          kill = Kill 9 pid in
      if nr = SYS_mmap then
        (let len = arg n 1; flags = arg n 3 in
         if flags AND MAP_ANONYMOUS \<noteq> 0 then
           (case grow limit len rs of None \<Rightarrow> (kill, ix, rs) | Some rs' \<Rightarrow> (Continue, ix, rs'))
         else (Continue, ix, rs))
      else if nr = SYS_munmap then (Continue, ix, shrink (arg n 1) rs)
      else if nr = SYS_brk then handle_brk pid limit kill (arg n 0) ix rs
      else if nr = SYS_mremap then
        (let old_len = arg n 1; new_len = arg n 2 in
         if new_len > old_len then
           (case grow limit (new_len - old_len) rs of
              None \<Rightarrow> (kill, ix, rs) | Some rs' \<Rightarrow> (Continue, ix, rs'))
         else if new_len < old_len then (Continue, ix, shrink (old_len - new_len) rs)
         else (Continue, ix, rs))
      else if nr = SYS_shmget then
        (let size = arg n 1 in
         if size > 0 \<and> saturating_add (mem_used rs) size > limit then (kill, ix, rs)
         else (Continue, ix, rs\<lparr>mem_used := mem_used rs + size\<rparr>))
      else (Continue, ix, rs))"

section \<open>The handlers preserve the limits\<close>

lemma grow_le: "grow limit n rs = Some rs' \<Longrightarrow> mem_used rs \<le> limit \<Longrightarrow> mem_used rs' \<le> limit"
  by (auto simp: grow_def saturating_add_def split: if_splits)

lemma grow_simps [simp]:
  "grow limit n rs = Some rs' \<Longrightarrow> proc_count rs' = proc_count rs"
  "grow limit n rs = Some rs' \<Longrightarrow> max_processes rs' = max_processes rs"
  by (auto simp: grow_def split: if_splits)

lemma shrink_simps [simp]:
  "proc_count (shrink n rs) = proc_count rs" "max_processes (shrink n rs) = max_processes rs"
  "mem_used (shrink n rs) \<le> mem_used rs"
  by (simp_all add: shrink_def)

lemma shrink_le: "mem_used rs \<le> limit \<Longrightarrow> mem_used (shrink n rs) \<le> limit"
  using shrink_simps(3) by (rule order_trans)

lemma index_ok_map_entry:
  assumes "index_ok ix"
  shows "index_ok (update_state pid f ix)"
proof -
  have "\<forall>(p, e)\<in>set xs. key_pid (entry_key e) = p \<Longrightarrow>
      \<forall>(p, e)\<in>set (AList.map_entry pid (\<lambda>e. e\<lparr>entry_state := f (entry_state e)\<rparr>) xs).
        key_pid (entry_key e) = p" for xs
    by (induction xs) auto
  with assms show ?thesis
    unfolding index_ok_def update_state_def by (blast intro: distinct_map_entry)
qed

text \<open>What \<open>handle_memory\<close> keeps: the memory limit, the process count, the index.\<close>

lemma handle_brk_keeps:
  assumes "handle_brk pid limit kill b ix rs = (a, ix', rs')"
  shows "mem_used rs \<le> limit \<Longrightarrow> mem_used rs' \<le> limit"
    and "proc_count rs' = proc_count rs" "max_processes rs' = max_processes rs"
    and "index_ok ix \<Longrightarrow> index_ok ix'"
  using assms
  by (auto simp: handle_brk_def Let_def index_ok_map_entry intro: grow_le shrink_le
      split: if_splits option.splits)

lemma add_within:
  "\<not> (0 < n \<and> limit < saturating_add m n) \<Longrightarrow> m \<le> limit \<Longrightarrow> m + n \<le> limit"
  for m :: u64
  by (cases "n = 0") (auto simp: saturating_add_def not_less word_neq_0_conv split: if_splits)

lemma handle_memory_keeps:
  assumes "handle_memory n policy ix rs = (a, ix', rs')"
  shows "(mem_used rs \<le> np_max_memory_bytes policy \<longrightarrow> mem_used rs' \<le> np_max_memory_bytes policy)
    \<and> proc_count rs' = proc_count rs \<and> max_processes rs' = max_processes rs
    \<and> (index_ok ix \<longrightarrow> index_ok ix')"
proof (cases "notif_nr n = SYS_brk")
  case True
  with assms have "handle_brk (sint (notif_pid n)) (np_max_memory_bytes policy)
      (Kill 9 (sint (notif_pid n))) (arg n 0) ix rs = (a, ix', rs')"
    by (simp add: handle_memory_def Let_def)
  from handle_brk_keeps [OF this] show ?thesis by blast
next
  case False
  with assms show ?thesis
    unfolding handle_memory_def Let_def
    by (auto split: if_split_asm option.split_asm dest: grow_le intro: add_within shrink_le)
qed

text \<open>The outcomes of \<open>handle_fork\<close>.\<close>

definition fork_outcome :: "resource_state \<Rightarrow> notif_action \<Rightarrow> resource_state \<Rightarrow> bool" where
  "fork_outcome rs a rs' \<longleftrightarrow>
     a = Continue \<and> rs' = rs
   \<or> a = Continue \<and> \<not> hold_forks rs \<and> proc_count rs < max_processes rs
       \<and> rs' = rs\<lparr>proc_count := proc_count rs + 1\<rparr>
   \<or> a = Errno EAGAIN \<and> max_processes rs \<le> proc_count rs \<and> rs' = rs
   \<or> a = Errno EPERM \<and> rs' = rs
   \<or> a = Hold \<and> hold_forks rs \<and> (\<exists>i. rs' = rs\<lparr>held_notif_ids := held_notif_ids rs @ [i]\<rparr>)"

lemma fork_outcomeI:
  "fork_outcome rs Continue rs"
  "fork_outcome rs (Errno EPERM) rs"
  "\<not> hold_forks rs \<Longrightarrow> proc_count rs < max_processes rs \<Longrightarrow>
     fork_outcome rs Continue (rs\<lparr>proc_count := proc_count rs + 1\<rparr>)"
  "max_processes rs \<le> proc_count rs \<Longrightarrow> fork_outcome rs (Errno EAGAIN) rs"
  "hold_forks rs \<Longrightarrow> fork_outcome rs Hold (rs\<lparr>held_notif_ids := held_notif_ids rs @ [i]\<rparr>)"
  unfolding fork_outcome_def by blast+

lemma safe_is_thread_create:
  assumes "\<And>h b. Q h b"
  shows "safe (\<lambda>h r. True) Q h (is_thread_create n)"
  unfolding is_thread_create_def clone_flags_def Let_def
  by (auto intro!: safe_read_mem [where E = "\<lambda>_. False"] assms split: sum.splits)

lemma handle_fork_outcome:
  assumes "result K (handle_fork n rs) = (a, rs')"
  shows "fork_outcome rs a rs'"
proof -
  have "safe (\<lambda>h r. True) (\<lambda>h (a, rs'). fork_outcome rs a rs') [] (handle_fork n rs)"
    unfolding handle_fork_def
    by (simp add: fork_outcomeI safe_is_thread_create not_le)
  from safe_result [OF this, of K] assms show ?thesis by simp
qed

lemma word_Suc_le: "(a :: 'a::len word) < b \<Longrightarrow> a + 1 \<le> b"
  by (simp add: inc_le)

lemma fork_outcome_count:
  "fork_outcome rs a rs' \<Longrightarrow> proc_count rs \<le> m \<Longrightarrow> max_processes rs \<le> m \<Longrightarrow> proc_count rs' \<le> m"
  unfolding fork_outcome_def by (auto dest!: word_Suc_le intro: order_trans)

section \<open>Reachable states\<close>

text \<open>The state after the sandbox start (the first child counts as one process) and every event the
  supervisor handles, in any order, against any kernel.\<close>

inductive resource_reachable :: "notif_policy \<Rightarrow> process_index \<Rightarrow> resource_state \<Rightarrow> bool"
  for policy where
  start: "resource_reachable policy ProcessIndex_new
     ((ResourceState_new (np_max_memory_bytes policy) (np_max_processes policy))\<lparr>proc_count := 1\<rparr>)"
| fork: "resource_reachable policy ix rs \<Longrightarrow> result K (handle_fork n rs) = (a, rs') \<Longrightarrow>
     resource_reachable policy ix rs'"
| "wait": "resource_reachable policy ix rs \<Longrightarrow> resource_reachable policy ix (snd (handle_wait rs))"
| rollback: "resource_reachable policy ix rs \<Longrightarrow> resource_reachable policy ix (rollback_fork_count rs)"
| memory: "resource_reachable policy ix rs \<Longrightarrow> handle_memory n policy ix rs = (a, ix', rs') \<Longrightarrow>
     resource_reachable policy ix' rs'"
| enroll: "resource_reachable policy ix rs \<Longrightarrow> result K (register pid ix) = (k, ix') \<Longrightarrow>
     resource_reachable policy ix' rs"
| "exit": "resource_reachable policy ix rs \<Longrightarrow> resource_reachable policy (unregister k ix) rs"
| sweep: "resource_reachable policy ix rs \<Longrightarrow> resource_reachable policy (result K (prune_dead ix)) rs"

definition limits_ok :: "notif_policy \<Rightarrow> resource_state \<Rightarrow> bool" where
  "limits_ok policy rs \<longleftrightarrow> mem_used rs \<le> np_max_memory_bytes policy
     \<and> max_processes rs = np_max_processes policy
     \<and> proc_count rs \<le> max 1 (np_max_processes policy)"

lemma index_ok_register: "index_ok ix \<Longrightarrow> result K (register pid ix) = (k, ix') \<Longrightarrow> index_ok ix'"
proof -
  assume ok: "index_ok ix" and res: "result K (register pid ix) = (k, ix')"
  have "safe (\<lambda>h r. True) (\<lambda>h (k, ix'). index_ok ix') [] (register pid ix)"
    unfolding register_def read_pid_start_time_def
    using ok by (auto simp: index_ok_insert split: option.splits)
  from safe_result [OF this, of K] res show ?thesis by simp
qed

lemma index_ok_prune: "index_ok ix \<Longrightarrow> index_ok (result K (prune_dead ix))"
proof -
  assume ok: "index_ok ix"
  have any: "safe (\<lambda>h r. True) Q h p" if "\<And>h a. Q h a" for Q h and p :: "PidKey list prog"
    using that by (induction p arbitrary: h) auto
  have "safe (\<lambda>h r. True) (\<lambda>h ix'. index_ok ix') [] (prune_dead ix)"
    unfolding prune_dead_def by (simp add: any ok index_ok_remove_all)
  from safe_result [OF this, of K] show ?thesis by simp
qed

lemma saturating_sub_bound: "(a :: 'a::len word) \<le> m \<Longrightarrow> saturating_sub a b \<le> m"
  using saturating_sub_le by (rule order_trans)

section \<open>Refused growth\<close>

text \<open>How much anonymous memory a call asks for on top of what the account has.\<close>

definition brk_growth :: "int \<Rightarrow> u64 \<Rightarrow> process_index \<Rightarrow> u64" where
  "brk_growth pid new_brk ix = (case entry_for ix pid of
     Some (_, st) \<Rightarrow> (case brk_base st of Some b \<Rightarrow> saturating_sub new_brk b | None \<Rightarrow> 0)
   | None \<Rightarrow> 0)"

definition requested_growth :: "seccomp_notif \<Rightarrow> process_index \<Rightarrow> u64" where
  "requested_growth n ix =
     (let nr = notif_nr n in
      if nr = SYS_mmap then (if arg n 3 AND MAP_ANONYMOUS \<noteq> 0 then arg n 1 else 0)
      else if nr = SYS_brk then brk_growth (sint (notif_pid n)) (arg n 0) ix
      else if nr = SYS_mremap then saturating_sub (arg n 2) (arg n 1)
      else if nr = SYS_shmget then arg n 1
      else 0)"

lemma unat_saturating_add:
  "unat (saturating_add a b) = min (unat a + unat b) (2 ^ 64 - 1)" for a b :: u64
proof (cases "a \<le> a + b")
  case True
  then have "unat (a + b) = unat a + unat b" by (simp add: unat_plus_simple)
  moreover have "unat (a + b) < 2 ^ 64" using unsigned_less [of "a + b", where ?'a = nat] by simp
  ultimately show ?thesis using True by (simp add: saturating_add_def)
next
  case False
  then have "2 ^ 64 \<le> unat a + unat b"
    by (simp add: no_olen_add_nat)
  then show ?thesis using False by (simp add: saturating_add_def unsigned_minus_1_eq_mask mask_eq_exp_minus_1)
qed

lemma grow_None_iff:
  "grow limit n rs = None \<longleftrightarrow> unat limit < min (unat (mem_used rs) + unat n) (2 ^ 64 - 1)"
  by (simp add: grow_def word_less_nat_alt unat_saturating_add del: min_less_iff_conj)

lemma grow_zero: "mem_used rs \<le> limit \<Longrightarrow> grow limit 0 rs = Some rs"
  by (auto simp: grow_def saturating_add_def)

lemma saturating_sub_greater: "b < a \<Longrightarrow> saturating_sub a b = a - b"
  by (simp add: saturating_sub_def order_less_imp_le)

lemma saturating_sub_zero: "\<not> b < a \<Longrightarrow> saturating_sub a b = 0"
  by (auto simp: saturating_sub_def not_less)

lemma brk_refused:
  assumes "mem_used rs \<le> limit"
  shows "fst (handle_brk pid limit kill new_brk ix rs) =
    (if grow limit (brk_growth pid new_brk ix) rs = None then kill else Continue)"
proof -
  note zero = grow_zero [OF assms]
  show ?thesis
  proof (cases "entry_for ix pid")
    case None
    with zero show ?thesis by (simp add: handle_brk_def brk_growth_def)
  next
    case (Some e)
    obtain key st where e: "entry_for ix pid = Some (key, st)" using Some by (cases e) simp
    show ?thesis
    proof (cases "brk_base st")
      case None
      with e zero show ?thesis by (simp add: handle_brk_def brk_growth_def)
    next
      case (Some b)
      have step: "fst (case grow limit k rs of None \<Rightarrow> (kill, x, rs) | Some rs' \<Rightarrow> (Continue, y, rs')) =
          (if grow limit k rs = None then kill else Continue)" for k x y
        by (simp split: option.split)
      have "b < new_brk \<or> saturating_sub new_brk b = 0" using saturating_sub_zero by blast
      moreover have "b < new_brk \<Longrightarrow> new_brk \<noteq> 0" by auto
      ultimately show ?thesis
        using e Some zero
        by (cases "b < new_brk")
           (simp_all add: handle_brk_def brk_growth_def Let_def step saturating_sub_greater)
    qed
  qed
qed

section \<open>Properties\<close>

text \<open>
  C16: the limits hold in every reachable state. Whatever sequence of fork, wait, memory, roll-back
  and exit events the supervisor handles, and whatever the kernel answers, the account of anonymous
  memory stays within the configured limit, the process count within the configured number (one, if
  that is zero), and the process index well formed.
\<close>

theorem resource_limits_hold:
  assumes "resource_reachable policy ix rs"
  shows "limits_ok policy rs \<and> index_ok ix"
  using assms
proof induction
  case start
  show ?case by (simp add: limits_ok_def ResourceState_new_def)
next
  case (fork ix rs K n a rs')
  from fork.hyps(2) have out: "fork_outcome rs a rs'" by (rule handle_fork_outcome)
  then have "mem_used rs' = mem_used rs" "max_processes rs' = max_processes rs"
    by (auto simp: fork_outcome_def)
  with fork.IH fork_outcome_count [OF out, of "max 1 (np_max_processes policy)"]
  show ?case by (simp add: limits_ok_def)
next
  case (memory ix rs n a ix' rs')
  with handle_memory_keeps [OF memory.hyps(2)] show ?case by (simp add: limits_ok_def)
next
  case (enroll ix rs K pid k ix')
  then show ?case using index_ok_register by blast
next
  case (sweep ix rs K)
  then show ?case using index_ok_prune by blast
qed (simp_all add: limits_ok_def handle_wait_def rollback_fork_count_def saturating_sub_bound
  index_ok_unregister)

text \<open>
  growth is refused exactly when it would pass the limit. As long as the account is within the
  limit, \<open>mmap\<close>, \<open>brk\<close>, \<open>mremap\<close> and \<open>shmget\<close> are answered with a kill of the process group if and
  only if the account plus the requested growth, computed without wrap-around and capped at the
  largest 64-bit value, exceeds the limit; every other call continues.
\<close>

theorem memory_refused_iff:
  assumes "mem_used rs \<le> np_max_memory_bytes policy"
  shows "fst (handle_memory n policy ix rs) =
    (if unat (np_max_memory_bytes policy)
          < min (unat (mem_used rs) + unat (requested_growth n ix)) (2 ^ 64 - 1)
     then Kill 9 (sint (notif_pid n)) else Continue)"
proof -
  let ?limit = "np_max_memory_bytes policy"
  note zero = grow_zero [OF assms]
  have shm: "(0 < k \<and> ?limit < saturating_add (mem_used rs) k) = (grow ?limit k rs = None)" for k
    using zero by (cases "k = 0") (auto simp: grow_def word_neq_0_conv)
  have result: "fst (case grow ?limit k rs of None \<Rightarrow> (x, ix, rs) | Some rs' \<Rightarrow> (Continue, ix, rs')) =
      (if grow ?limit k rs = None then x else Continue)" for k x
    by (simp split: option.split)
  consider "notif_nr n = SYS_mmap" | "notif_nr n = SYS_brk" | "notif_nr n = SYS_mremap"
    | "notif_nr n = SYS_shmget" | "notif_nr n \<notin> {SYS_mmap, SYS_brk, SYS_mremap, SYS_shmget}"
    by auto
  then show ?thesis
    unfolding grow_None_iff [symmetric] handle_memory_def requested_growth_def Let_def
    by cases (simp_all add: brk_refused [OF assms] shm result zero saturating_sub_greater
      saturating_sub_zero)
qed

text \<open>A reachable state with one fork behind it, and an \<open>mmap\<close> that does not fit.\<close>

definition small_policy :: notif_policy where
  "small_policy = \<lparr>np_max_memory_bytes = 1000, np_max_processes = 2, np_has_memory_limit = True,
     np_has_net_allowlist = False, np_has_random_seed = False, np_has_time_start = False,
     np_argv_safety_required = False, np_time_offset = 0, np_num_cpus = None, np_port_remap = False,
     np_cow_enabled = False, np_chroot_root = None, np_chroot_readable = [], np_chroot_writable = [],
     np_chroot_denied = [], np_chroot_mounts = [], np_deterministic_dirs = False,
     np_virtual_hostname = None, np_has_http_acl = False, np_virtual_etc_hosts = None\<rparr>"

definition small_start :: resource_state where
  "small_start = (ResourceState_new 1000 2)\<lparr>proc_count := 1\<rparr>"

definition call :: "u32 \<Rightarrow> u64 list \<Rightarrow> seccomp_notif" where
  "call nr as = \<lparr>notif_id = 1, notif_pid = 100, notif_flags = 0,
     notif_data = \<lparr>nr_of = nr, arch_of = AUDIT_ARCH, ip_of = 0, args_of = as\<rparr>\<rparr>"

lemma fork_count_one:
  assumes "notif_nr n = SYS_fork" "\<not> hold_forks rs" "proc_count rs < max_processes rs"
  shows "result K (handle_fork n rs) = (Continue, rs\<lparr>proc_count := proc_count rs + 1\<rparr>)"
proof -
  have "is_thread_create n = Done False"
    using assms(1) by (simp add: is_thread_create_def clone_flags_def)
  moreover have "\<not> (max_processes rs \<le> proc_count rs)" using assms(3) by (simp only: not_le)
  ultimately show ?thesis
    using assms(1,2) by (simp add: result_def handle_fork_def del: not_le)
qed

theorem resource_limits_hold_witness:
  "limits_ok small_policy (small_start\<lparr>proc_count := 2\<rparr>) \<and> index_ok ProcessIndex_new"
proof (rule resource_limits_hold)
  have "resource_reachable small_policy ProcessIndex_new small_start"
    using resource_reachable.start [of small_policy] by (simp add: small_start_def small_policy_def)
  moreover have "result (\<lambda>_ _. Inl 1) (handle_fork (call SYS_fork [0, 0, 0, 0, 0, 0]) small_start) =
      (Continue, small_start\<lparr>proc_count := 2\<rparr>)"
    by (subst fork_count_one)
       (simp_all add: call_def notif_nr_def small_start_def ResourceState_new_def)
  ultimately show "resource_reachable small_policy ProcessIndex_new (small_start\<lparr>proc_count := 2\<rparr>)"
    by (rule resource_reachable.fork)
qed

theorem memory_refused_iff_witness:
  "fst (handle_memory (call SYS_mmap [0, 1001, 3, 0x22, 0, 0]) small_policy [] small_start)
     = Kill 9 100
   \<and> fst (handle_memory (call SYS_mmap [0, 1000, 3, 0x22, 0, 0]) small_policy [] small_start)
     = Continue"
proof -
  have fits: "mem_used small_start \<le> np_max_memory_bytes small_policy"
    by (simp add: small_start_def small_policy_def ResourceState_new_def)
  have growth: "requested_growth (call SYS_mmap [0, len, 3, 0x22, 0, 0]) [] = len" for len
    by (simp add: requested_growth_def call_def notif_nr_def arg_def MAP_ANONYMOUS_def)
  show ?thesis
    by (simp add: memory_refused_iff [OF fits] growth)
       (simp add: small_start_def small_policy_def ResourceState_new_def call_def)
qed

text \<open>
  the process limit does not bind a child that calls \<open>wait4\<close>. Every blocking wait lowers the
  count by one before the kernel runs it, whether or not there is a child to reap; a process that
  alternates waits (which fail at once without children) and forks is let through for ever, although
  none of its children has ended.
\<close>

fun wait_fork :: "kernel \<Rightarrow> seccomp_notif \<Rightarrow> nat \<Rightarrow> resource_state \<Rightarrow> notif_action list \<times> resource_state"
where
  "wait_fork K n 0 rs = ([], rs)"
| "wait_fork K n (Suc k) rs =
     (let rs1 = snd (handle_wait rs);
          (a, rs2) = result K (handle_fork n rs1);
          (as, rs3) = wait_fork K n k rs2
      in (a # as, rs3))"

theorem wait_defeats_process_limit:
  assumes "notif_nr n = SYS_fork" "\<not> hold_forks rs"
    and "0 < proc_count rs" "proc_count rs \<le> max_processes rs"
  shows "wait_fork K n k rs = (replicate k Continue, rs)"
proof (induction k)
  case (Suc k)
  have one: "1 \<le> proc_count rs"
    using assms(3) by (simp add: word_less_nat_alt word_le_nat_alt)
  then have sub: "saturating_sub (proc_count rs) 1 = proc_count rs - 1"
    by (simp add: saturating_sub_def)
  have "proc_count rs - 1 < max_processes rs"
    using assms(3,4) unat_sub [OF one] by (simp add: word_less_nat_alt word_le_nat_alt)
  then have "result K (handle_fork n (snd (handle_wait rs))) = (Continue, rs)"
    using assms by (subst fork_count_one) (simp_all add: handle_wait_def sub)
  with Suc show ?case by simp
qed simp

theorem wait_defeats_process_limit_witness:
  "wait_fork (\<lambda>_ _. Inl 10) (call SYS_fork [0, 0, 0, 0, 0, 0]) 1000 (small_start\<lparr>proc_count := 2\<rparr>) =
     (replicate 1000 Continue, small_start\<lparr>proc_count := 2\<rparr>)"
  by (rule wait_defeats_process_limit)
     (simp_all add: call_def notif_nr_def small_start_def ResourceState_new_def)

text \<open>
  The memory limit does not bind a child that calls \<open>munmap\<close>. The account is lowered by the
  length of every \<open>munmap\<close>, whatever its address holds; a child that follows each mapping with a
  \<open>munmap\<close> of as many bytes where nothing is mapped gets every mapping, for ever.
\<close>

fun map_unmap ::
  "notif_policy \<Rightarrow> seccomp_notif \<Rightarrow> seccomp_notif \<Rightarrow> nat \<Rightarrow> process_index \<Rightarrow> resource_state
     \<Rightarrow> notif_action list \<times> resource_state" where
  "map_unmap policy m u 0 ix rs = ([], rs)"
| "map_unmap policy m u (Suc k) ix rs =
     (let (a, ix1, rs1) = handle_memory m policy ix rs;
          (b, ix2, rs2) = handle_memory u policy ix1 rs1;
          (as, rs3) = map_unmap policy m u k ix2 rs2
      in (a # b # as, rs3))"

theorem munmap_defeats_memory_limit:
  assumes "notif_nr m = SYS_mmap" "arg m 3 AND MAP_ANONYMOUS \<noteq> 0"
    and "notif_nr u = SYS_munmap" "arg m 1 \<le> arg u 1"
    and "unat (mem_used rs) + unat (arg m 1) \<le> unat (np_max_memory_bytes policy)"
  shows "fst (map_unmap policy m u k ix rs) = replicate (2 * k) Continue"
  using assms(5)
proof (induction k arbitrary: rs)
  case (Suc k)
  let ?limit = "np_max_memory_bytes policy" and ?n = "mem_used rs + arg m 1"
  have "unat (mem_used rs) + unat (arg m 1) < 2 ^ 64"
    using Suc.prems unsigned_less [of ?limit, where ?'a = nat] by simp
  then have n: "unat ?n = unat (mem_used rs) + unat (arg m 1)"
    by (simp add: unat_plus_simple [symmetric] no_olen_add_nat)
  have first: "handle_memory m policy ix rs = (Continue, ix, rs\<lparr>mem_used := ?n\<rparr>)"
    using assms(1,2) Suc.prems n
    by (simp add: handle_memory_def grow_def word_less_nat_alt unat_saturating_add)
  have le: "saturating_sub ?n (arg u 1) \<le> mem_used rs"
    using assms(4) n
    by (auto simp: saturating_sub_def word_le_nat_alt unat_sub)
  then have "unat (saturating_sub ?n (arg u 1)) + unat (arg m 1) \<le> unat ?limit"
    using Suc.prems by (simp add: word_le_nat_alt)
  then have "fst (map_unmap policy m u k ix (rs\<lparr>mem_used := saturating_sub ?n (arg u 1)\<rparr>)) =
      replicate (2 * k) Continue"
    by (intro Suc.IH) simp
  moreover have "handle_memory u policy ix (rs\<lparr>mem_used := ?n\<rparr>) =
      (Continue, ix, rs\<lparr>mem_used := saturating_sub ?n (arg u 1)\<rparr>)"
    using assms(3) by (simp add: handle_memory_def shrink_def)
  ultimately show ?case
    by (simp add: first split_beta)
qed simp

theorem munmap_defeats_memory_limit_witness:
  "fst (map_unmap small_policy (call SYS_mmap [0, 1000, 3, 0x22, 0, 0])
     (call SYS_munmap [0x1000, 1000, 0, 0, 0, 0]) 500 [] small_start) = replicate (2 * 500) Continue"
  by (rule munmap_defeats_memory_limit)
     (simp_all add: call_def notif_nr_def arg_def MAP_ANONYMOUS_def small_start_def small_policy_def
       ResourceState_new_def)

end
