(* ===== verification/Freeze.thy ===== *)
theory Freeze
  imports ProcIndex
begin

text \<open>
  \<open>freeze.rs\<close>: before the policy callback sees the arguments of an \<open>execve\<close>, every other thread of the
  sandbox is stopped with \<open>ptrace\<close>, and let go afterwards. The set of thread groups is visited in the
  order of a hash set, which the model takes as the argument \<open>order\<close>.
\<close>

section \<open>Tasks in proc\<close>

text \<open>An \<open>io::Error\<close>: the errno of a system call, or an error made up by the program.\<close>

datatype io_error = RawOs int | InvalidData | OtherError

abbreviation (input) ESRCH :: int where "ESRCH \<equiv> 3"

definition proc_path :: "int \<Rightarrow> string \<Rightarrow> string" where
  "proc_path pid name = ''/proc/'' @ show_int pid @ ''/'' @ name"

text \<open>\<open>read_task_state\<close>: the state letter in the status file.\<close>

definition state_letter :: "sysres \<Rightarrow> char option" where
  "state_letter x = (case x of
     Inl _ \<Rightarrow> None
   | Inr (_, content) \<Rightarrow>
       Option.bind (from_utf8 content) (\<lambda>status.
       Option.bind (find (prefix ''State:'') (lines_of status)) (\<lambda>l.
         case split_whitespace l of _ # (c # _) # _ \<Rightarrow> Some c | _ \<Rightarrow> None)))"

definition read_task_state :: "int \<Rightarrow> char option prog" where
  "read_task_state tid =
     pbind (syscall (KReadFile (proc_path tid ''status''))) (\<lambda>x. Done (state_letter x))"

text \<open>\<open>list_threads_of_tgid\<close>: the names of the task directory that are numbers.\<close>

definition task_ids :: "bytes \<Rightarrow> int list" where
  "task_ids names = List.map_filter parse_i32 (split_on CHR ''/'' (string_of_bytes names))"

definition list_threads_of_tgid :: "int \<Rightarrow> (io_error + int list) prog" where
  "list_threads_of_tgid tgid =
     pbind (syscall (KReadDir (proc_path tgid ''task''))) (\<lambda>x. Done (case x of
       Inl e \<Rightarrow> Inl (RawOs e) | Inr (_, names) \<Rightarrow> Inr (task_ids names)))"

text \<open>\<open>read_tgid_of_tid\<close>: only the first \<open>Tgid:\<close> line counts.\<close>

definition tgid_line :: "bytes \<Rightarrow> int option" where
  "tgid_line content =
     Option.bind (from_utf8 content) (\<lambda>status.
     Option.bind (find_map (strip_prefix ''Tgid:'') (lines_of status)) (\<lambda>rest.
       parse_i32 (trim rest)))"

definition read_tgid_of_tid :: "int \<Rightarrow> (io_error + int) prog" where
  "read_tgid_of_tid tid =
     pbind (syscall (KReadFile (proc_path tid ''status''))) (\<lambda>x. Done (case x of
       Inl e \<Rightarrow> Inl (RawOs e)
     | Inr (_, content) \<Rightarrow> (case tgid_line content of Some g \<Rightarrow> Inr g | None \<Rightarrow> Inl InvalidData)))"

section \<open>Stopping and releasing\<close>

definition detach :: "int \<Rightarrow> unit prog" where
  "detach tid = pbind (syscall (KPtrace Detach tid)) (\<lambda>_. Done ())"

primrec detach_peers :: "int list \<Rightarrow> unit prog" where
  "detach_peers [] = Done ()"
| "detach_peers (t # ts) = pbind (detach t) (\<lambda>_. detach_peers ts)"

definition seize_and_interrupt :: "int \<Rightarrow> (int + bool) prog" where
  "seize_and_interrupt tid =
     pbind (read_task_state tid) (\<lambda>st.
       if st = Some CHR ''D'' then Done (Inr False)
       else pbind (syscall (KPtrace Seize tid)) (\<lambda>x. case x of
         Inl e \<Rightarrow> if e = ESRCH then Done (Inr False) else Done (Inl e)
       | Inr _ \<Rightarrow> pbind (syscall (KPtrace Interrupt tid)) (\<lambda>x. case x of
           Inl e \<Rightarrow> pbind (detach tid) (\<lambda>_.
             if e = ESRCH then Done (Inr False) else Done (Inl e))
         | Inr _ \<Rightarrow> pbind (syscall (KWaitpid tid)) (\<lambda>_. Done (Inr True)))))"

record SandboxFreeze =
  sibling_tids :: "int list"
  peer_tids :: "int list"

definition detach_all :: "SandboxFreeze \<Rightarrow> unit prog" where
  "detach_all fr = pbind (detach_peers (sibling_tids fr)) (\<lambda>_. detach_peers (peer_tids fr))"

text \<open>The two nested loops of \<open>freeze_sandbox_for_execve\<close>. On an error everything frozen so far is
  detached, siblings first.\<close>

definition add_frozen :: "bool \<Rightarrow> int \<Rightarrow> SandboxFreeze \<Rightarrow> SandboxFreeze" where
  "add_frozen same tid fr =
     (if same then fr\<lparr>sibling_tids := sibling_tids fr @ [tid]\<rparr>
      else fr\<lparr>peer_tids := peer_tids fr @ [tid]\<rparr>)"

primrec freeze_tids :: "int \<Rightarrow> bool \<Rightarrow> int list \<Rightarrow> SandboxFreeze \<Rightarrow> (int + SandboxFreeze) prog" where
  "freeze_tids caller same [] fr = Done (Inr fr)"
| "freeze_tids caller same (t # ts) fr =
     (if t = caller then freeze_tids caller same ts fr
      else pbind (seize_and_interrupt t) (\<lambda>r. case r of
          Inl e \<Rightarrow> pbind (detach_all fr) (\<lambda>_. Done (Inl e))
        | Inr stopped \<Rightarrow>
            freeze_tids caller same ts (if stopped then add_frozen same t fr else fr)))"

primrec freeze_tgids :: "int \<Rightarrow> int \<Rightarrow> int list \<Rightarrow> SandboxFreeze \<Rightarrow> (int + SandboxFreeze) prog" where
  "freeze_tgids caller caller_tgid [] fr = Done (Inr fr)"
| "freeze_tgids caller caller_tgid (g # gs) fr =
     pbind (list_threads_of_tgid g) (\<lambda>l. case l of
       Inl _ \<Rightarrow> freeze_tgids caller caller_tgid gs fr
     | Inr tids \<Rightarrow> pbind (freeze_tids caller (g = caller_tgid) tids fr) (\<lambda>r. case r of
         Inl e \<Rightarrow> Done (Inl e)
       | Inr fr' \<Rightarrow> freeze_tgids caller caller_tgid gs fr'))"

definition freeze_sandbox_for_execve ::
  "(int list \<Rightarrow> int list) \<Rightarrow> process_index \<Rightarrow> int \<Rightarrow> (io_error + SandboxFreeze) prog" where
  "freeze_sandbox_for_execve order ix caller =
     pbind (read_tgid_of_tid caller) (\<lambda>g. case g of
       Inl e \<Rightarrow> Done (Inl e)
     | Inr caller_tgid \<Rightarrow>
         pbind (freeze_tgids caller caller_tgid (order (List.insert caller_tgid (pids_snapshot ix)))
             \<lparr>sibling_tids = [], peer_tids = []\<rparr>)
           (\<lambda>r. Done (map_sum RawOs id r)))"

definition requires_freeze_on_continue :: "int \<Rightarrow> bool" where
  "requires_freeze_on_continue nr \<longleftrightarrow> nr = SYS_execve \<or> nr = SYS_execveat"

section \<open>Which threads are held\<close>

text \<open>The threads a history has attached to and not asked to release since. The child of a traced fork is
  attached by the kernel; the tracer knows it once it has read the event message.\<close>

definition event_child :: "bytes \<Rightarrow> int" where
  "event_child bs = sint (ucast (le_word bs :: u64) :: u32)"

definition hold_step :: "sysreq \<times> sysres \<Rightarrow> int set \<Rightarrow> int set" where
  "hold_step rx S = (case rx of
     (KPtrace q t, x) \<Rightarrow>
        if q = Detach then S - {t}
        else if q = GetEventMsg then (case x of Inl _ \<Rightarrow> S | Inr (_, bs) \<Rightarrow> insert (event_child bs) S)
        else if (q = Seize \<or> q = SeizeForkEvents) \<and> \<not> isl x then insert t S else S
   | _ \<Rightarrow> S)"

definition held :: "history \<Rightarrow> int set" where
  "held h = fold hold_step h {}"

lemma held_Nil [simp]: "held [] = {}"
  by (simp add: held_def)

lemma held_snoc [simp]: "held (h @ [rx]) = hold_step rx (held h)"
  by (simp add: held_def)

lemma hold_step_simps [simp]:
  "hold_step (KReadFile f, x) S = S"
  "hold_step (KReadDir f, x) S = S"
  "hold_step (KPtrace Detach t, x) S = S - {t}"
  "hold_step (KPtrace Seize t, Inl e) S = S"
  "hold_step (KPtrace Seize t, Inr y) S = insert t S"
  "hold_step (KPtrace SeizeForkEvents t, Inl e) S = S"
  "hold_step (KPtrace SeizeForkEvents t, Inr y) S = insert t S"
  "hold_step (KPtrace Interrupt t, x) S = S"
  "hold_step (KPtrace ResumeToSyscall t, x) S = S"
  "hold_step (KPtrace GetEventMsg t, Inl e) S = S"
  "hold_step (KPtrace GetEventMsg t, Inr (n, bs)) S = insert (event_child bs) S"
  "hold_step (KPtrace GetSyscallInfo t, x) S = S"
  "hold_step (KWaitpid t, x) S = S"
  "hold_step (KPidfdOpen p, x) S = S"
  "hold_step (KPidfdOpenThread p, x) S = S"
  "hold_step (KKill k s, x) S = S"
  by (simp_all add: hold_step_def)

lemma held_snoc2 [simp]: "held (h @ [rx, ry]) = hold_step ry (hold_step rx (held h))"
  by (simp add: held_def)

text \<open>A thread the freeze may leave alone: gone, or asleep in the kernel; and one that cannot run.\<close>

definition excused :: "history \<Rightarrow> int \<Rightarrow> bool" where
  "excused h t \<longleftrightarrow>
     (\<exists>x. (KReadFile (proc_path t ''status''), x) \<in> set h \<and> state_letter x = Some CHR ''D'')
     \<or> (KPtrace Seize t, Inl ESRCH) \<in> set h \<or> (KPtrace Interrupt t, Inl ESRCH) \<in> set h"

definition unable :: "history \<Rightarrow> int \<Rightarrow> bool" where
  "unable h t \<longleftrightarrow> t \<in> held h \<or> excused h t"

lemma excused_mono: "excused h t \<Longrightarrow> set h \<subseteq> set h' \<Longrightarrow> excused h' t"
  unfolding excused_def by blast

definition all_frozen :: "SandboxFreeze \<Rightarrow> int set" where
  "all_frozen fr = set (sibling_tids fr) \<union> set (peer_tids fr)"

lemma all_frozen_simps [simp]:
  "all_frozen \<lparr>sibling_tids = [], peer_tids = []\<rparr> = {}"
  "all_frozen (add_frozen same t fr) = insert t (all_frozen fr)"
  by (auto simp: all_frozen_def add_frozen_def)

abbreviation (input) anything :: "history \<Rightarrow> sysreq \<Rightarrow> bool" where
  "anything \<equiv> \<lambda>h r. True"

lemma safe_detach_peers:
  assumes "\<And>h'. held h' = held h - set ts \<Longrightarrow> set h \<subseteq> set h' \<Longrightarrow> Q h' ()"
  shows "safe anything Q h (detach_peers ts)"
  using assms
proof (induction ts arbitrary: h)
  case Nil
  then show ?case by simp
next
  case (Cons t ts)
  have "safe anything Q (h @ [(KPtrace Detach t, x)]) (detach_peers ts)" for x
    by (rule Cons.IH, rule Cons.prems) auto
  then show ?case by (simp add: detach_def)
qed

lemma safe_detach_all:
  assumes "\<And>h'. held h' = held h - all_frozen fr \<Longrightarrow> set h \<subseteq> set h' \<Longrightarrow> Q h' ()"
  shows "safe anything Q h (detach_all fr)"
  unfolding detach_all_def safe_pbind
  by (intro safe_detach_peers assms) (auto simp: all_frozen_def)

lemma safe_seize:
  assumes "\<And>h' e. held h' \<subseteq> held h \<Longrightarrow> set h \<subseteq> set h' \<Longrightarrow> Q h' (Inl e)"
    and "\<And>h'. held h' \<subseteq> held h \<Longrightarrow> held h - {t} \<subseteq> held h' \<Longrightarrow> set h \<subseteq> set h' \<Longrightarrow> excused h' t
           \<Longrightarrow> Q h' (Inr False)"
    and "\<And>h'. held h' = insert t (held h) \<Longrightarrow> set h \<subseteq> set h' \<Longrightarrow> Q h' (Inr True)"
  shows "safe anything Q h (seize_and_interrupt t)"
  unfolding seize_and_interrupt_def read_task_state_def detach_def
  by (auto intro!: assms split: sum.split simp: excused_def) (simp_all add: held_def)

text \<open>What the loops keep: everything held is in the lists, and everything in the lists cannot run.\<close>

definition keeps :: "history \<Rightarrow> SandboxFreeze \<Rightarrow> bool" where
  "keeps h fr \<longleftrightarrow> held h \<subseteq> all_frozen fr \<and> (\<forall>t\<in>all_frozen fr. unable h t)"

definition stops :: "history \<Rightarrow> int \<Rightarrow> int list \<Rightarrow> bool" where
  "stops h caller ts \<longleftrightarrow> list_all (\<lambda>t. t = caller \<or> unable h t) ts"

lemma keeps_add:
  assumes "keeps h fr" "held h' = insert t (held h)" "set h \<subseteq> set h'"
  shows "keeps h' (add_frozen same t fr)"
  using assms excused_mono unfolding keeps_def unable_def by auto

lemma keeps_excused:
  assumes "keeps h fr" "held h' \<subseteq> held h" "held h - {t} \<subseteq> held h'" "set h \<subseteq> set h'" "excused h' t"
  shows "keeps h' fr"
  using assms excused_mono unfolding keeps_def unable_def by blast

lemma stops_mono:
  assumes "stops h caller ts" "keeps h' fr" "set h \<subseteq> set h'" "held h \<subseteq> all_frozen fr"
  shows "stops h' caller ts"
  using assms excused_mono unfolding stops_def keeps_def unable_def list_all_iff by blast

lemma safe_freeze_tids:
  assumes "keeps h fr"
    and "\<And>h' e. held h' = {} \<Longrightarrow> set h \<subseteq> set h' \<Longrightarrow> Q h' (Inl e)"
    and "\<And>h' fr'. keeps h' fr' \<Longrightarrow> all_frozen fr \<subseteq> all_frozen fr' \<Longrightarrow> set h \<subseteq> set h'
           \<Longrightarrow> stops h' caller ts \<Longrightarrow> Q h' (Inr fr')"
  shows "safe anything Q h (freeze_tids caller same ts fr)"
  using assms
proof (induction ts arbitrary: h fr)
  case Nil
  then show ?case by (simp add: stops_def)
next
  case (Cons t ts)
  have step: "safe anything Q h1 (freeze_tids caller same ts fr1)"
    if start: "keeps h1 fr1" "all_frozen fr \<subseteq> all_frozen fr1" "set h \<subseteq> set h1" "t = caller \<or> unable h1 t"
    for h1 fr1
  proof (rule Cons.IH [OF start(1)])
    show "Q h' (Inl e)" if "held h' = {}" "set h1 \<subseteq> set h'" for h' e
      using that start(3) by (intro Cons.prems(2)) auto
    show "Q h' (Inr fr')"
      if end_: "keeps h' fr'" "all_frozen fr1 \<subseteq> all_frozen fr'" "set h1 \<subseteq> set h'" "stops h' caller ts"
      for h' fr'
    proof (rule Cons.prems(3) [OF end_(1)])
      have "stops h1 caller [t]" using start(4) by (simp add: stops_def)
      then have "stops h' caller [t]"
        using stops_mono [OF _ end_(1) end_(3)] start(1) end_(2) unfolding keeps_def by blast
      then show "stops h' caller (t # ts)" using end_(4) by (simp add: stops_def)
    qed (use start end_ in auto)
  qed
  show ?case
  proof (cases "t = caller")
    case True
    then show ?thesis using step [OF Cons.prems(1)] by simp
  next
    case False
    have "safe anything (\<lambda>h' r. safe anything Q h' (case r of
          Inl e \<Rightarrow> pbind (detach_all fr) (\<lambda>_. Done (Inl e))
        | Inr stopped \<Rightarrow>
            freeze_tids caller same ts (if stopped then add_frozen same t fr else fr))) h
        (seize_and_interrupt t)"
    proof (rule safe_seize)
      fix h' e
      assume h': "held h' \<subseteq> held h" "set h \<subseteq> set h'"
      have "safe anything (\<lambda>h'' _. Q h'' (Inl e)) h' (detach_all fr)"
        using Cons.prems(1) h' by (intro safe_detach_all Cons.prems(2)) (auto simp: keeps_def)
      then show "safe anything Q h' (case Inl e of
            Inl e \<Rightarrow> pbind (detach_all fr) (\<lambda>_. Done (Inl e))
          | Inr stopped \<Rightarrow>
              freeze_tids caller same ts (if stopped then add_frozen same t fr else fr))"
        by simp
    next
      fix h'
      assume h': "held h' \<subseteq> held h" "held h - {t} \<subseteq> held h'" "set h \<subseteq> set h'" "excused h' t"
      have "safe anything Q h' (freeze_tids caller same ts fr)"
        by (rule step [OF keeps_excused [OF Cons.prems(1) h']]) (use h' in \<open>auto simp: unable_def\<close>)
      then show "safe anything Q h' (case Inr False of
            Inl e \<Rightarrow> pbind (detach_all fr) (\<lambda>_. Done (Inl e))
          | Inr stopped \<Rightarrow>
              freeze_tids caller same ts (if stopped then add_frozen same t fr else fr))"
        by simp
    next
      fix h'
      assume h': "held h' = insert t (held h)" "set h \<subseteq> set h'"
      have "safe anything Q h' (freeze_tids caller same ts (add_frozen same t fr))"
        by (rule step [OF keeps_add [OF Cons.prems(1) h']]) (use h' in \<open>auto simp: unable_def\<close>)
      then show "safe anything Q h' (case Inr True of
            Inl e \<Rightarrow> pbind (detach_all fr) (\<lambda>_. Done (Inl e))
          | Inr stopped \<Rightarrow>
              freeze_tids caller same ts (if stopped then add_frozen same t fr else fr))"
        by simp
    qed
    then show ?thesis using False by simp
  qed
qed

text \<open>Every thread group in the list was enumerated, and its threads, the caller apart, cannot run;
  a group whose directory cannot be read has none.\<close>

definition group_stopped :: "history \<Rightarrow> int \<Rightarrow> int \<Rightarrow> bool" where
  "group_stopped h caller g \<longleftrightarrow>
     (\<exists>e. (KReadDir (proc_path g ''task''), Inl e) \<in> set h)
     \<or> (\<exists>n names. (KReadDir (proc_path g ''task''), Inr (n, names)) \<in> set h
          \<and> stops h caller (task_ids names))"

lemma group_stopped_mono:
  assumes "group_stopped h caller g" "keeps h' fr" "set h \<subseteq> set h'" "held h \<subseteq> all_frozen fr"
  shows "group_stopped h' caller g"
  using assms stops_mono [OF _ assms(2-4)] unfolding group_stopped_def by blast

lemma safe_freeze_tgids:
  assumes "keeps h fr"
    and "\<And>h' e. held h' = {} \<Longrightarrow> set h \<subseteq> set h' \<Longrightarrow> Q h' (Inl e)"
    and "\<And>h' fr'. keeps h' fr' \<Longrightarrow> all_frozen fr \<subseteq> all_frozen fr' \<Longrightarrow> set h \<subseteq> set h'
           \<Longrightarrow> list_all (group_stopped h' caller) gs \<Longrightarrow> Q h' (Inr fr')"
  shows "safe anything Q h (freeze_tgids caller ct gs fr)"
  using assms
proof (induction gs arbitrary: h fr)
  case Nil
  then show ?case by simp
next
  case (Cons g gs)
  have step: "safe anything Q h1 (freeze_tgids caller ct gs fr1)"
    if start: "keeps h1 fr1" "all_frozen fr \<subseteq> all_frozen fr1" "set h \<subseteq> set h1" "group_stopped h1 caller g"
    for h1 fr1
  proof (rule Cons.IH [OF start(1)])
    show "Q h' (Inl e)" if "held h' = {}" "set h1 \<subseteq> set h'" for h' e
      using that start(3) by (intro Cons.prems(2)) auto
    show "Q h' (Inr fr')"
      if end_: "keeps h' fr'" "all_frozen fr1 \<subseteq> all_frozen fr'" "set h1 \<subseteq> set h'"
        "list_all (group_stopped h' caller) gs" for h' fr'
    proof (rule Cons.prems(3) [OF end_(1)])
      show "list_all (group_stopped h' caller) (g # gs)"
        using group_stopped_mono [OF start(4) end_(1) end_(3)] start(1) end_(2,4)
        unfolding keeps_def by auto
    qed (use start end_ in auto)
  qed
  let ?h = "\<lambda>x. h @ [(KReadDir (proc_path g ''task''), x)]"
  have keeps: "keeps (?h x) fr" for x
    using Cons.prems(1) excused_mono [of h _ "?h x"] by (auto simp: keeps_def unable_def)
  have none: "safe anything Q (?h (Inl e)) (freeze_tgids caller ct gs fr)" for e
    by (rule step [OF keeps]) (auto simp: group_stopped_def)
  have some: "safe anything Q (?h (Inr (n, names)))
      (pbind (freeze_tids caller same (task_ids names) fr) (\<lambda>r. case r of
         Inl e \<Rightarrow> Done (Inl e) | Inr fr' \<Rightarrow> freeze_tgids caller ct gs fr'))" for n names same
    unfolding safe_pbind
  proof (rule safe_freeze_tids [OF keeps])
    fix h' fr'
    assume "keeps h' fr'" "all_frozen fr \<subseteq> all_frozen fr'" "set (?h (Inr (n, names))) \<subseteq> set h'"
      "stops h' caller (task_ids names)"
    then show "safe anything Q h' (case Inr fr' of
        Inl e \<Rightarrow> Done (Inl e) | Inr fr' \<Rightarrow> freeze_tgids caller ct gs fr')"
      by (auto intro!: step simp: group_stopped_def)
  qed (auto intro!: Cons.prems(2))
  show ?case
    by (auto simp: list_threads_of_tgid_def none some [unfolded safe_pbind] split: sum.split)
qed

text \<open>The caller's group and every tracked group are stopped.\<close>

definition sandbox_stopped :: "history \<Rightarrow> (int list \<Rightarrow> int list) \<Rightarrow> process_index \<Rightarrow> int \<Rightarrow> bool" where
  "sandbox_stopped h order ix caller \<longleftrightarrow>
     (\<exists>n content g. (KReadFile (proc_path caller ''status''), Inr (n, content)) \<in> set h
        \<and> tgid_line content = Some g
        \<and> list_all (group_stopped h caller) (order (List.insert g (pids_snapshot ix))))"

lemma safe_freeze:
  assumes "held h = {}"
    and "\<And>h' e. held h' = {} \<Longrightarrow> set h \<subseteq> set h' \<Longrightarrow> Q h' (Inl e)"
    and "\<And>h' fr. held h' \<subseteq> all_frozen fr \<Longrightarrow> set h \<subseteq> set h' \<Longrightarrow>
           sandbox_stopped h' order ix caller \<Longrightarrow> Q h' (Inr fr)"
  shows "safe anything Q h (freeze_sandbox_for_execve order ix caller)"
proof -
  let ?h = "\<lambda>x. h @ [(KReadFile (proc_path caller ''status''), x)]"
  have "safe anything (\<lambda>h' r. Q h' (map_sum RawOs id r))
      (?h (Inr (n, content)))
      (freeze_tgids caller g (order (List.insert g (pids_snapshot ix)))
         \<lparr>sibling_tids = [], peer_tids = []\<rparr>)"
    if g: "tgid_line content = Some g" for n content g
  proof (rule safe_freeze_tgids)
    show "keeps (?h (Inr (n, content))) \<lparr>sibling_tids = [], peer_tids = []\<rparr>"
      using assms(1) by (simp add: keeps_def)
  next
    fix h' fr'
    assume "keeps h' fr'" "set (?h (Inr (n, content))) \<subseteq> set h'"
      "list_all (group_stopped h' caller) (order (List.insert g (pids_snapshot ix)))"
    then have "held h' \<subseteq> all_frozen fr'" "set h \<subseteq> set h'" "sandbox_stopped h' order ix caller"
      using g by (auto simp: keeps_def sandbox_stopped_def)
    then show "Q h' (map_sum RawOs id (Inr fr'))"
      using assms(3) by simp
  qed (simp add: assms(2))
  moreover have "Q (?h x) (Inl e)" for x e
    by (rule assms(2)) (simp_all add: assms(1) subset_insertI2)
  ultimately show ?thesis
    unfolding freeze_sandbox_for_execve_def read_tgid_of_tid_def
    by (simp split: sum.split option.split)
qed

section \<open>Properties\<close>


text \<open>A kernel lets a thread have one tracer, and stops a thread that runs.\<close>

definition one_tracer :: "kernel \<Rightarrow> bool" where
  "one_tracer K \<longleftrightarrow> (\<forall>h t. t \<in> held h \<longrightarrow> K h (KPtrace Seize t) = Inl EPERM)"

definition stoppable :: "kernel \<Rightarrow> int \<Rightarrow> bool" where
  "stoppable K t \<longleftrightarrow>
     (\<forall>h. state_letter (K h (KReadFile (proc_path t ''status''))) \<noteq> Some CHR ''D''
        \<and> (t \<notin> held h \<longrightarrow> \<not> isl (K h (KPtrace Seize t))) \<and> \<not> isl (K h (KPtrace Interrupt t)))"

definition lists_thread :: "kernel \<Rightarrow> int \<Rightarrow> int \<Rightarrow> bool" where
  "lists_thread K t g \<longleftrightarrow> (\<forall>h. \<exists>n names. K h (KReadDir (proc_path g ''task'')) = Inr (n, names)
     \<and> t \<in> set (task_ids names))"

lemma run_seize_self:
  assumes "one_tracer K" "stoppable K t"
  obtains e h' where "t \<in> held h" "run K (seize_and_interrupt t) h = (Inl e, h')"
  | h' where "t \<notin> held h" "run K (seize_and_interrupt t) h = (Inr True, h')" "t \<in> held h'"
proof (cases "t \<in> held h")
  case True
  let ?r = "KReadFile (proc_path t ''status'')"
  have "t \<in> held (h @ [(?r, K h ?r)])" using True by simp
  then have "K (h @ [(?r, K h ?r)]) (KPtrace Seize t) = Inl EPERM"
    using assms(1) by (simp only: one_tracer_def)
  then have "fst (run K (seize_and_interrupt t) h) = Inl EPERM"
    using assms(2)
    by (simp add: seize_and_interrupt_def read_task_state_def run_pbind stoppable_def Let_def)
  then show ?thesis using True that(1) by (metis prod.collapse)
next
  case False
  let ?r = "KReadFile (proc_path t ''status'')"
  let ?h1 = "h @ [(?r, K h ?r)]"
  have "t \<notin> held ?h1" using False by simp
  then obtain x where x: "K ?h1 (KPtrace Seize t) = Inr x"
    using assms(2) unfolding stoppable_def by (metis isl_def sumE)
  obtain y where y: "K (?h1 @ [(KPtrace Seize t, Inr x)]) (KPtrace Interrupt t) = Inr y"
    using assms(2) unfolding stoppable_def by (metis isl_def sumE)
  have "fst (run K (seize_and_interrupt t) h) = Inr True"
    "t \<in> held (snd (run K (seize_and_interrupt t) h))"
    using assms(2) x y
    by (simp_all add: seize_and_interrupt_def read_task_state_def run_pbind stoppable_def Let_def
        held_def)
  then show ?thesis using False that(2) by (metis prod.collapse)
qed

text \<open>Another thread's seizure leaves \<open>t\<close> held.\<close>

lemma held_seize_other:
  assumes "t \<noteq> t'"
  shows "t \<in> held (snd (run K (seize_and_interrupt t') h)) \<longleftrightarrow> t \<in> held h"
  using assms
  by (auto simp: seize_and_interrupt_def read_task_state_def detach_def run_pbind Let_def held_def
      split: sum.split)

lemma run_freeze_tids:
  assumes K: "one_tracer K" "stoppable K t" "t \<noteq> caller"
    and ok: "run K (freeze_tids caller same ts fr) h = (Inr fr', h')"
  shows "(t \<in> held h \<longrightarrow> t \<notin> set ts) \<and> (t \<in> held h' \<longleftrightarrow> t \<in> held h \<or> t \<in> set ts)"
  using ok
proof (induction ts arbitrary: h fr)
  case Nil
  then show ?case by simp
next
  case (Cons t' ts)
  show ?case
  proof (cases "t' = caller")
    case True
    with Cons K(3) show ?thesis by auto
  next
    case False
    obtain r h1 where seize: "run K (seize_and_interrupt t') h = (r, h1)"
      by (rule prod.exhaust)
    with Cons.prems False obtain b where r: "r = Inr b"
      and rest: "run K (freeze_tids caller same ts (if b then add_frozen same t' fr else fr)) h1
        = (Inr fr', h')"
      by (cases r) (auto simp: run_pbind split: prod.splits)
    note IH = Cons.IH [OF rest]
    show ?thesis
    proof (cases "t' = t")
      case True
      then have "t \<notin> held h" "t \<in> held h1"
        using run_seize_self [OF K(1,2), of h] seize r by auto
      with IH True show ?thesis by auto
    next
      case False
      with held_seize_other [of t t' K h] seize IH show ?thesis by auto
    qed
  qed
qed

lemma run_freeze_tgids_again:
  assumes K: "one_tracer K" "stoppable K t" "t \<noteq> caller"
    and ok: "run K (freeze_tgids caller ct gs fr) h = (Inr fr', h')"
  shows "(t \<in> held h \<longrightarrow> filter (lists_thread K t) gs = []) \<and> length (filter (lists_thread K t) gs) < 2"
  using ok
proof (induction gs arbitrary: h fr)
  case Nil
  then show ?case by simp
next
  case (Cons g gs)
  let ?r = "KReadDir (proc_path g ''task'')"
  let ?h1 = "h @ [(?r, K h ?r)]"
  have same: "t \<in> held ?h1 \<longleftrightarrow> t \<in> held h" by simp
  show ?case
  proof (cases "K h ?r")
    case (Inl e)
    then have "run K (freeze_tgids caller ct gs fr) ?h1 = (Inr fr', h')"
      using Cons.prems by (simp add: list_threads_of_tgid_def Let_def)
    moreover have "\<not> lists_thread K t g"
      using Inl by (auto simp: lists_thread_def intro!: exI [of _ h])
    ultimately show ?thesis using Cons.IH same by auto
  next
    case (Inr y)
    obtain n names where y: "y = (n, names)" by (rule prod.exhaust)
    obtain r h2 where tids: "run K (freeze_tids caller (g = ct) (task_ids names) fr) ?h1 = (r, h2)"
      by (rule prod.exhaust)
    obtain fr1 where r: "r = Inr fr1" and rest: "run K (freeze_tgids caller ct gs fr1) h2 = (Inr fr', h')"
      using Cons.prems Inr y tids
      by (cases r) (auto simp: list_threads_of_tgid_def Let_def run_pbind split: prod.splits)
    have "lists_thread K t g \<Longrightarrow> t \<in> set (task_ids names)"
      using Inr y unfolding lists_thread_def by (metis old.sum.inject(2) prod.inject)
    with run_freeze_tids [OF K tids [unfolded r]] Cons.IH [OF rest] same show ?thesis
      by auto
  qed
qed

text \<open>
  a thread listed under two tracked pids makes every \<open>execve\<close> of another thread fail. Threads are
  registered under their own pid where \<open>pidfd_open\<close> accepts them, and the task directory of a thread
  lists its whole group; on a kernel where a thread has one tracer, the second listing makes the freeze
  fail, whatever the order of the groups.
\<close>

theorem double_listing_refuses_execve:
  assumes "one_tracer K" "stoppable K t" "t \<noteq> caller"
    and "a \<noteq> b" "lists_thread K t a" "lists_thread K t b"
    and "key_for ix a \<noteq> None" "key_for ix b \<noteq> None"
    and "\<And>gs. set (order gs) = set gs"
  shows "\<exists>e. result K (freeze_sandbox_for_execve order ix caller) = Inl e"
proof -
  have two: "2 \<le> length (filter (lists_thread K t) (order (List.insert g (pids_snapshot ix))))" for g
  proof -
    let ?gs = "order (List.insert g (pids_snapshot ix))"
    have "a \<in> fst ` set ix" "b \<in> fst ` set ix"
      using assms(7,8) by (force simp: key_for_def dest: map_of_SomeD)+
    then have "{a, b} \<subseteq> set (filter (lists_thread K t) ?gs)"
      using assms(5,6,9) by (auto simp: pids_snapshot_def)
    then have "card {a, b} \<le> card (set (filter (lists_thread K t) ?gs))"
      by (intro card_mono) simp_all
    also have "\<dots> \<le> length (filter (lists_thread K t) ?gs)" by (rule card_length)
    finally show ?thesis using assms(4) by simp
  qed
  have "fst (run K (freeze_tgids caller g (order (List.insert g (pids_snapshot ix))) fr) h) \<noteq> Inr fr'"
    for g fr h fr'
    using run_freeze_tgids_again [OF assms(1-3)] two [of g] by (metis leD prod.collapse)
  then have "fst (run K (freeze_sandbox_for_execve order ix caller) h) \<noteq> Inr fr'" for h fr'
    by (auto simp: freeze_sandbox_for_execve_def read_tgid_of_tid_def run_pbind Let_def
        map_sum_def split: sum.splits prod.splits option.splits) (metis fst_conv sum.exhaust)+
  then show ?thesis
    unfolding result_def by (metis sum.exhaust)
qed

definition running_status :: string where
  "running_status = ''Tgid: 5'' @ [CHR 0x0A] @ ''State: R (running)''"

definition busy_kernel :: kernel where
  "busy_kernel h r = (case r of
     KReadFile f \<Rightarrow> Inr (0, bytes_of_string running_status)
   | KReadDir f \<Rightarrow> Inr (0, bytes_of_string ''7/8'')
   | KPtrace q t \<Rightarrow> if q = Seize \<and> t \<in> held h then Inl EPERM else Inr (0, [])
   | _ \<Rightarrow> Inr (0, []))"

theorem double_listing_refuses_execve_witness:
  "\<exists>e. result busy_kernel (freeze_sandbox_for_execve rev two_processes 5) = Inl e"
proof (rule double_listing_refuses_execve [where t = 8 and a = 7 and b = 8])
  show "one_tracer busy_kernel"
    by (simp add: one_tracer_def busy_kernel_def)
  have utf8: "from_utf8 (bytes_of_string running_status) = Some running_status"
    unfolding from_utf8_def string_of_bytes_of_string by code_simp
  have line: "find (prefix ''State:'') (lines_of running_status) = Some ''State: R (running)''"
    "split_whitespace ''State: R (running)'' = [''State:'', ''R'', ''(running)'']"
    by code_simp+
  have "state_letter (Inr (0, bytes_of_string running_status)) = Some CHR ''R''"
    by (simp only: state_letter_def sum.case prod.case utf8 line Option.bind.simps list.case)
  then show "stoppable busy_kernel 8"
    by (simp add: stoppable_def busy_kernel_def)
  have "task_ids (bytes_of_string ''7/8'') = [7, 8]"
    unfolding task_ids_def string_of_bytes_of_string by code_simp
  then show "lists_thread busy_kernel 8 7" "lists_thread busy_kernel 8 8"
    by (simp_all add: lists_thread_def busy_kernel_def)
  show "key_for two_processes 7 \<noteq> None" "key_for two_processes 8 \<noteq> None"
    by (simp_all add: two_processes_def insert_process_def key_for_def ProcessIndex_new_def)
qed simp_all

end
