(* ===== verification/Tracking.thy ===== *)
theory Tracking
  imports Resource Freeze
begin

text \<open>
  Registering processes (\<open>resource.rs\<close>): the lazy registration before a notification is handled, and
  the one-shot \<open>ptrace\<close> session around a fork-like call, which registers the child before it can run.
  The guard \<open>ProcessCreationTrace\<close> detaches the caller when it is dropped; the model writes the
  detach out at every exit. \<open>waitpid\<close> is retried while it is interrupted and the session goes on until the
  fork event or the exit stop; both loops have a fuel argument, and \<open>None\<close> is a run that has not ended.
\<close>

unbundle bit_operations_syntax

section \<open>Registration\<close>

definition tgid_if_known :: "int \<Rightarrow> int option prog" where
  "tgid_if_known tid =
     pbind (syscall (KReadFile (proc_path tid ''status''))) (\<lambda>x. Done (case x of
       Inl _ \<Rightarrow> None | Inr (_, content) \<Rightarrow> tgid_line content))"

definition register_opened :: "int \<Rightarrow> process_index \<Rightarrow> (bool \<times> process_index) prog" where
  "register_opened pid ix =
     pbind (register pid ix) (\<lambda>(key, ix'). Done (key \<noteq> None, ix'))"

definition register_pid_if_new :: "process_index \<Rightarrow> int \<Rightarrow> (bool \<times> process_index) prog" where
  "register_pid_if_new ix pid =
     (if contains ix pid then Done (True, ix)
      else pbind (syscall (KPidfdOpen (word_of_int pid))) (\<lambda>x. case x of
        Inr _ \<Rightarrow> register_opened pid ix
      | Inl _ \<Rightarrow> pbind (syscall (KPidfdOpenThread (word_of_int pid))) (\<lambda>x. case x of
          Inr _ \<Rightarrow> register_opened pid ix
        | Inl _ \<Rightarrow> pbind (tgid_if_known pid) (\<lambda>g. case g of
            Some tgid \<Rightarrow> Done (contains ix tgid, ix)
          | None \<Rightarrow> Done (False, ix)))))"

section \<open>Waiting\<close>

abbreviation (input) EINTR :: int where "EINTR \<equiv> 4"
abbreviation (input) SIGKILL :: int where "SIGKILL \<equiv> 9"

definition obind :: "'a option prog \<Rightarrow> ('a \<Rightarrow> 'b option prog) \<Rightarrow> 'b option prog" where
  "obind p f = pbind p (\<lambda>r. case r of None \<Rightarrow> Done None | Some a \<Rightarrow> f a)"

text \<open>The macros of \<open>wait.h\<close> on the status word.\<close>

definition WIFSTOPPED :: "u32 \<Rightarrow> bool" where "WIFSTOPPED s \<longleftrightarrow> s AND 0xff = 0x7f"
definition WSTOPSIG :: "u32 \<Rightarrow> u32" where "WSTOPSIG s = drop_bit 8 s AND 0xff"

primrec wait_for_ptrace_stop :: "nat \<Rightarrow> int \<Rightarrow> (io_error + u32) option prog" where
  "wait_for_ptrace_stop 0 tid = Done None"
| "wait_for_ptrace_stop (Suc n) tid =
     pbind (syscall (KWaitpid tid)) (\<lambda>x. case x of
       Inl e \<Rightarrow> if e = EINTR then wait_for_ptrace_stop n tid else Done (Some (Inl (RawOs e)))
     | Inr (_, bs) \<Rightarrow>
         let status = le_word bs in
         Done (Some (if WIFSTOPPED status then Inr status else Inl OtherError)))"

definition syscall_stop_kind :: "int \<Rightarrow> (io_error + u8) prog" where
  "syscall_stop_kind tid =
     pbind (syscall (KPtrace GetSyscallInfo tid)) (\<lambda>x. Done (case x of
       Inl e \<Rightarrow> Inl (RawOs e)
     | Inr (_, info) \<Rightarrow> Inr (case info of op # _ \<Rightarrow> op | [] \<Rightarrow> 0)))"

section \<open>The session around a fork-like call\<close>

text \<open>Dropping the guard, with the value returned.\<close>

definition drop_trace :: "int \<Rightarrow> 'a \<Rightarrow> 'a option prog" where
  "drop_trace tid r = pbind (detach tid) (\<lambda>_. Done (Some r))"

text \<open>\<open>prepare_process_creation_tracking_blocking\<close>; success leaves the guard, the caller's attachment,
  to the code that follows.\<close>

definition prepare_process_creation_tracking :: "nat \<Rightarrow> int \<Rightarrow> (io_error + unit) option prog" where
  "prepare_process_creation_tracking n tid =
     pbind (syscall (KPtrace SeizeForkEvents tid)) (\<lambda>x. case x of
       Inl e \<Rightarrow> Done (Some (Inl (RawOs e)))
     | Inr _ \<Rightarrow> pbind (syscall (KPtrace Interrupt tid)) (\<lambda>x. case x of
         Inl e \<Rightarrow> drop_trace tid (Inl (RawOs e))
       | Inr _ \<Rightarrow> obind (wait_for_ptrace_stop n tid) (\<lambda>w. case w of
           Inl e \<Rightarrow> drop_trace tid (Inl e)
         | Inr _ \<Rightarrow> pbind (syscall (KPtrace ResumeToSyscall tid)) (\<lambda>x. case x of
             Inl e \<Rightarrow> drop_trace tid (Inl (RawOs e))
           | Inr _ \<Rightarrow> Done (Some (Inr ()))))))"

fun release_child ::
  "nat \<Rightarrow> int \<Rightarrow> int \<Rightarrow> bool \<times> process_index \<Rightarrow> ((io_error + bool) \<times> process_index) option prog" where
  "release_child n tid child (ok, ix') =
     (if \<not> ok then
        pbind (syscall (KKill child SIGKILL)) (\<lambda>_.
        pbind (detach child) (\<lambda>_. drop_trace tid (Inl OtherError, ix')))
      else
        obind (wait_for_ptrace_stop n child) (\<lambda>_.
        pbind (detach child) (\<lambda>_. drop_trace tid (Inr True, ix'))))"

definition finish_process_creation_event ::
  "nat \<Rightarrow> process_index \<Rightarrow> int \<Rightarrow> ((io_error + bool) \<times> process_index) option prog" where
  "finish_process_creation_event n ix tid =
     pbind (syscall (KPtrace GetEventMsg tid)) (\<lambda>x. case x of
       Inl e \<Rightarrow> drop_trace tid (Inl (RawOs e), ix)
     | Inr (_, bs) \<Rightarrow>
         let child = event_child bs in
         pbind (register_pid_if_new ix child) (release_child n tid child))"

abbreviation (input) PTRACE_SYSCALL_INFO_ENTRY :: u8 where "PTRACE_SYSCALL_INFO_ENTRY \<equiv> 1"
abbreviation (input) PTRACE_SYSCALL_INFO_EXIT :: u8 where "PTRACE_SYSCALL_INFO_EXIT \<equiv> 2"

definition stop_event :: "u32 \<Rightarrow> u32" where
  "stop_event status = drop_bit 16 status AND 0xffff"

definition is_fork_event :: "u32 \<Rightarrow> bool" where
  "is_fork_event event \<longleftrightarrow> event = 1 \<or> event = 2 \<or> event = 3"

primrec finish_process_creation_tracking ::
  "nat \<Rightarrow> nat \<Rightarrow> process_index \<Rightarrow> int \<Rightarrow> ((io_error + bool) \<times> process_index) option prog" where
  "finish_process_creation_tracking 0 n ix tid = Done None"
| "finish_process_creation_tracking (Suc m) n ix tid =
     obind (wait_for_ptrace_stop n tid) (\<lambda>w. case w of
       Inl e \<Rightarrow> drop_trace tid (Inl e, ix)
     | Inr status \<Rightarrow>
         let event = stop_event status in
         if is_fork_event event then finish_process_creation_event n ix tid
         else if event = 0 \<and> WSTOPSIG status = 0x85 then
           pbind (syscall_stop_kind tid) (\<lambda>k. case k of
             Inl e \<Rightarrow> drop_trace tid (Inl e, ix)
           | Inr op \<Rightarrow>
               if op = PTRACE_SYSCALL_INFO_ENTRY then
                 pbind (syscall (KPtrace ResumeToSyscall tid)) (\<lambda>x. case x of
                   Inl e \<Rightarrow> drop_trace tid (Inl (RawOs e), ix)
                 | Inr _ \<Rightarrow> finish_process_creation_tracking m n ix tid)
               else if op = PTRACE_SYSCALL_INFO_EXIT then drop_trace tid (Inr False, ix)
               else drop_trace tid (Inl OtherError, ix))
         else drop_trace tid (Inl OtherError, ix))"

definition abort_process_creation_tracking :: "nat \<Rightarrow> int \<Rightarrow> unit option prog" where
  "abort_process_creation_tracking n tid =
     pbind (syscall (KPtrace Interrupt tid)) (\<lambda>x. case x of
       Inl _ \<Rightarrow> drop_trace tid ()
     | Inr _ \<Rightarrow> obind (wait_for_ptrace_stop n tid) (\<lambda>_. drop_trace tid ()))"

section \<open>The session leaves nothing attached\<close>

definition ptracing :: "sysreq \<Rightarrow> bool" where
  "ptracing r = (case r of KPtrace _ _ \<Rightarrow> True | _ \<Rightarrow> False)"

lemma ptracing_simps [simp]:
  "ptracing (KPtrace q t)" "\<not> ptracing (KWaitpid t)" "\<not> ptracing (KReadFile f)"
  "\<not> ptracing (KPidfdOpen p)" "\<not> ptracing (KPidfdOpenThread p)" "\<not> ptracing (KKill t s)"
  by (simp_all add: ptracing_def)

lemma hold_step_calm: "\<not> ptracing r \<Longrightarrow> hold_step (r, x) S = S"
  by (cases r) (simp_all add: hold_step_def)

lemma held_calm: "calm ptracing h h' \<Longrightarrow> held h' = held h"
proof -
  have "held (h @ t) = held h" if "list_all (\<lambda>(r, x). \<not> ptracing r) t" for t
    using that
  proof (induction t rule: rev_induct)
    case (snoc rx t)
    obtain r x where [simp]: "rx = (r, x)" by (rule prod.exhaust)
    have "held (h @ t @ [rx]) = hold_step rx (held (h @ t))"
      using held_snoc [of "h @ t" rx] by simp
    with snoc show ?case by (simp add: hold_step_calm)
  qed simp
  then show "calm ptracing h h' \<Longrightarrow> held h' = held h" by (auto simp: calm_def)
qed

text \<open>The children whose birth the session has seen.\<close>

definition born :: "history \<Rightarrow> int set" where
  "born h = {event_child bs | t n bs. (KPtrace GetEventMsg t, Inr (n, bs)) \<in> set h}"

lemma born_Nil [simp]: "born [] = {}"
  by (simp add: born_def)

lemma born_snoc [simp]:
  "born (h @ [rx]) = (case rx of (KPtrace GetEventMsg t, Inr (n, bs)) \<Rightarrow> insert (event_child bs) (born h)
     | _ \<Rightarrow> born h)"
  by (auto simp: born_def split: prod.splits sum.splits sysreq.splits ptrace_req.splits)

lemma born_calm:
  assumes "calm ptracing h h'"
  shows "born h' = born h"
proof -
  have "(KPtrace q t, x) \<in> set h' \<longleftrightarrow> (KPtrace q t, x) \<in> set h" for q t x
    using assms by (force simp: calm_def list_all_iff)
  then show ?thesis by (simp add: born_def)
qed

text \<open>A child is accounted for when it or its thread group is in the index, or it has been killed.\<close>

definition known :: "history \<Rightarrow> process_index \<Rightarrow> int \<Rightarrow> bool" where
  "known h ix c \<longleftrightarrow> contains ix c
     \<or> (\<exists>n content g. (KReadFile (proc_path c ''status''), Inr (n, content)) \<in> set h
          \<and> tgid_line content = Some g \<and> contains ix g)"

definition accounted :: "history \<Rightarrow> process_index \<Rightarrow> int \<Rightarrow> bool" where
  "accounted h ix c \<longleftrightarrow> known h ix c \<or> (\<exists>x. (KKill c SIGKILL, x) \<in> set h)"

lemma accounted_calm: "accounted h ix c \<Longrightarrow> set h \<subseteq> set h' \<Longrightarrow> accounted h' ix c"
  unfolding accounted_def known_def by blast

lemma contains_register:
  "contains (insert_process pid st ix) pid"
  by (simp add: contains_def insert_process_def update_conv')

lemma calm_snocs [simp]:
  "calm E h (h @ [(r, x)]) \<longleftrightarrow> \<not> E r"
  "calm E h (h @ [(r, x), (r', x')]) \<longleftrightarrow> \<not> E r \<and> \<not> E r'"
  "calm E h (h @ [(r, x), (r', x'), (r'', x'')]) \<longleftrightarrow> \<not> E r \<and> \<not> E r' \<and> \<not> E r''"
  by simp_all

lemma safe_register_opened:
  assumes "\<And>h' ix'. calm ptracing h h' \<Longrightarrow> known h' ix' pid \<Longrightarrow> Q h' (True, ix')"
    and "\<And>h'. calm ptracing h h' \<Longrightarrow> Q h' (False, ix)"
  shows "safe anything Q h (register_opened pid ix)"
proof -
  have "Q h' (case case st of None \<Rightarrow> (None, ix)
        | Some s \<Rightarrow> (Some \<lparr>key_pid = pid, key_start_time = s\<rparr>, insert_process pid s ix) of
          (key, ix') \<Rightarrow> (key \<noteq> None, ix'))" if "calm ptracing h h'" for h' st
    using that assms by (cases st) (simp_all add: known_def contains_register)
  then show ?thesis
    by (auto simp: register_opened_def register_def read_pid_start_time_def assms known_def
        contains_register split: option.split)
qed

lemma safe_register_pid:
  assumes "\<And>h' ix'. calm ptracing h h' \<Longrightarrow> known h' ix' pid \<Longrightarrow> Q h' (True, ix')"
    and "\<And>h' ix'. calm ptracing h h' \<Longrightarrow> Q h' (False, ix')"
  shows "safe anything Q h (register_pid_if_new ix pid)"
proof -
  have opened: "safe anything Q h1 (register_opened pid ix)" if "calm ptracing h h1" for h1
    using that by (intro safe_register_opened assms) (blast intro: calm_trans)+
  have group: "Q h' (contains ix g, ix)"
    if "calm ptracing h h'" "(KReadFile (proc_path pid ''status''), Inr (n, content)) \<in> set h'"
      "tgid_line content = Some g" for h' n content g
  proof (cases "contains ix g")
    case True
    with that have "known h' ix pid" unfolding known_def by blast
    with True that(1) assms(1) show ?thesis by simp
  qed (use that(1) assms(2) in simp)
  show ?thesis
    by (auto simp: register_pid_if_new_def tgid_if_known_def assms known_def intro!: opened group
        split: sum.split option.split)
qed

lemma safe_wait:
  assumes "\<And>h' r. calm ptracing h h' \<Longrightarrow> Q h' r"
  shows "safe anything Q h (wait_for_ptrace_stop n tid)"
  using assms
proof (induction n arbitrary: h)
  case 0
  then show ?case by simp
next
  case (Suc n)
  have "safe anything Q (h @ [(KWaitpid tid, x)]) (wait_for_ptrace_stop n tid)" for x
    by (rule Suc.IH, rule Suc.prems, erule calm_trans [rotated]) simp
  then show ?case by (auto simp: Suc.prems Let_def split: sum.split)
qed

text \<open>The state of a session that has ended: nothing held, every child accounted for.\<close>

definition clean :: "history \<Rightarrow> process_index \<Rightarrow> bool" where
  "clean h ix \<longleftrightarrow> held h = {} \<and> (\<forall>c\<in>born h. accounted h ix c)"

definition done_clean :: "history \<Rightarrow> ('a \<times> process_index) option \<Rightarrow> bool" where
  "done_clean h r = (case r of None \<Rightarrow> True | Some (_, ix) \<Rightarrow> clean h ix)"

text \<open>While it goes on, only the caller is held, and no child is born.\<close>

definition armed :: "int \<Rightarrow> history \<Rightarrow> bool" where
  "armed tid h \<longleftrightarrow> held h \<subseteq> {tid} \<and> born h = {}"

lemma armed_calm: "armed tid h \<Longrightarrow> calm ptracing h h' \<Longrightarrow> armed tid h'"
  by (simp add: armed_def held_calm born_calm)

lemma armed_snoc [simp]:
  "armed tid (h @ [(KPtrace Interrupt t, x)]) = armed tid h"
  "armed tid (h @ [(KPtrace ResumeToSyscall t, x)]) = armed tid h"
  "armed tid (h @ [(KPtrace GetSyscallInfo t, x)]) = armed tid h"
  "armed tid (h @ [(KPtrace GetEventMsg t, Inl e)]) = armed tid h"
  by (simp_all add: armed_def)

lemma armed_snoc2 [simp]:
  "armed tid (h @ [rx, (KPtrace ResumeToSyscall t, x)]) = armed tid (h @ [rx])"
  using armed_snoc(2) [of tid "h @ [rx]"] by simp

lemma armed_dropped:
  "armed tid h \<Longrightarrow> held (h @ [(KPtrace Detach tid, x)]) = {}"
  "armed tid h \<Longrightarrow> born (h @ [(KPtrace Detach tid, x)]) = {}"
  by (auto simp: armed_def)

lemma safe_drop:
  assumes "\<And>x. Q (h @ [(KPtrace Detach tid, x)]) (Some r)"
  shows "safe anything Q h (drop_trace tid r)"
  using assms by (simp add: drop_trace_def detach_def)

lemma safe_drop_armed: "armed tid h \<Longrightarrow> safe anything done_clean h (drop_trace tid (r, ix))"
  by (rule safe_drop) (simp add: done_clean_def clean_def armed_dropped del: held_snoc born_snoc)

lemma safe_obind:
  assumes "safe P (\<lambda>h r. case r of None \<Rightarrow> Q h None | Some a \<Rightarrow> safe P Q h (f a)) h p"
  shows "safe P Q h (obind p f)"
  unfolding obind_def safe_pbind using assms by (rule safe_mono) (auto split: option.splits)

text \<open>The fork event: the child is registered or killed, then both are released.\<close>

lemma safe_finish_event:
  assumes "armed tid h"
  shows "safe anything done_clean h (finish_process_creation_event n ix tid)"
proof -
  let ?h = "\<lambda>y bs. h @ [(KPtrace GetEventMsg tid, Inr (y, bs))]"
  have "safe anything (\<lambda>h' p. safe anything done_clean h' (release_child n tid c p))
       (?h y bs) (register_pid_if_new ix c)" if c: "c = event_child bs" for y bs c
  proof (rule safe_register_pid)
    have start: "held (?h y bs) \<subseteq> {c, tid}" "born (?h y bs) = {c}"
      using assms c by (auto simp: armed_def)
    fix h' ix'
    assume "calm ptracing (?h y bs) h'"
    then have h': "held h' \<subseteq> {c, tid}" "born h' = {c}"
      using start held_calm born_calm by simp_all
    have "accounted (h' @ [(KKill c SIGKILL, x), (KPtrace Detach c, x'), (KPtrace Detach tid, x'')]) ix' c"
      for x x' x'' unfolding accounted_def by simp blast
    moreover have "held (h' @ [(KKill c SIGKILL, x), (KPtrace Detach c, x'), (KPtrace Detach tid, x'')]) = {}"
      "born (h' @ [(KKill c SIGKILL, x), (KPtrace Detach c, x'), (KPtrace Detach tid, x'')]) = {c}"
      for x x' x'' using h' held_snoc [of "h' @ [_, _]"] born_snoc [of "h' @ [_, _]"]
        born_snoc [of "h' @ [_]"] by auto
    ultimately show "safe anything done_clean h' (release_child n tid c (False, ix'))"
      by (simp add: detach_def drop_trace_def done_clean_def clean_def del: held_snoc held_snoc2 born_snoc)
    assume "known h' ix' c"
    then have known: "accounted h'' ix' c" if "set h' \<subseteq> set h''" for h''
      using that unfolding accounted_def known_def by blast
    have "safe anything done_clean h' (obind (wait_for_ptrace_stop n c) (\<lambda>_.
           pbind (detach c) (\<lambda>_. drop_trace tid (Inr True, ix'))))"
    proof (rule safe_obind, rule safe_wait)
      fix h'' and r :: "(io_error + u32) option"
      assume "calm ptracing h' h''"
      then have "held h'' \<subseteq> {c, tid}" "born h'' = {c}" "set h' \<subseteq> set h''"
        using h' held_calm born_calm calm_set by simp_all
      then have "clean (h'' @ [(KPtrace Detach c, x), (KPtrace Detach tid, x')]) ix'" for x x'
        using known [of "h'' @ [(KPtrace Detach c, x), (KPtrace Detach tid, x')]"]
          born_snoc [of "h'' @ [_]"] by (auto simp: clean_def)
      then show "case r of None \<Rightarrow> done_clean h'' None
          | Some a \<Rightarrow> safe anything done_clean h''
              (pbind (detach c) (\<lambda>_. drop_trace tid (Inr True, ix')))"
        by (simp add: detach_def drop_trace_def done_clean_def split: option.split)
    qed
    then show "safe anything done_clean h' (release_child n tid c (True, ix'))"
      by simp
  qed
  then show ?thesis
    unfolding finish_process_creation_event_def
    using assms by (auto simp: Let_def intro!: safe_drop_armed split: sum.split)
qed

lemma safe_stop_kind:
  assumes "\<And>x r. Q (h @ [(KPtrace GetSyscallInfo tid, x)]) r"
  shows "safe anything Q h (syscall_stop_kind tid)"
  using assms by (simp add: syscall_stop_kind_def)

lemma safe_finish:
  assumes "armed tid h"
  shows "safe anything done_clean h (finish_process_creation_tracking m n ix tid)"
  using assms
proof (induction m arbitrary: h)
  case 0
  then show ?case by (simp add: done_clean_def)
next
  case (Suc m)
  show ?case
    unfolding finish_process_creation_tracking.simps(2)
  proof (rule safe_obind, rule safe_wait)
    fix h' and r :: "(io_error + u32) option"
    assume "calm ptracing h h'"
    with Suc.prems have "armed tid h'" by (rule armed_calm)
    then show "case r of None \<Rightarrow> done_clean h' None
      | Some w \<Rightarrow> safe anything done_clean h' (case w of
           Inl e \<Rightarrow> drop_trace tid (Inl e, ix)
         | Inr status \<Rightarrow>
             let event = stop_event status in
             if is_fork_event event then finish_process_creation_event n ix tid
             else if event = 0 \<and> WSTOPSIG status = 0x85 then
               pbind (syscall_stop_kind tid) (\<lambda>k. case k of
                 Inl e \<Rightarrow> drop_trace tid (Inl e, ix)
               | Inr op \<Rightarrow>
                   if op = PTRACE_SYSCALL_INFO_ENTRY then
                     pbind (syscall (KPtrace ResumeToSyscall tid)) (\<lambda>x. case x of
                       Inl e \<Rightarrow> drop_trace tid (Inl (RawOs e), ix)
                     | Inr _ \<Rightarrow> finish_process_creation_tracking m n ix tid)
                   else if op = PTRACE_SYSCALL_INFO_EXIT then drop_trace tid (Inr False, ix)
                   else drop_trace tid (Inl OtherError, ix))
             else drop_trace tid (Inl OtherError, ix))"
      by (auto simp: done_clean_def [of _ None] Let_def
          intro!: safe_drop_armed safe_finish_event safe_stop_kind Suc.IH
          split: option.split sum.split)
  qed
qed

lemma safe_prepare:
  assumes "armed tid h"
    and "\<And>h' e. held h' = {} \<Longrightarrow> born h' = {} \<Longrightarrow> Q h' (Some (Inl e))"
    and "\<And>h'. armed tid h' \<Longrightarrow> Q h' (Some (Inr ()))" "\<And>h'. Q h' None"
    and "held h = {}"
  shows "safe anything Q h (prepare_process_creation_tracking n tid)"
proof -
  have drop: "safe anything Q h1 (drop_trace tid (Inl e))" if "armed tid h1" for h1 e
    by (rule safe_drop, rule assms(2)) (rule armed_dropped [OF that])+
  let ?h = "\<lambda>x y. h @ [(KPtrace SeizeForkEvents tid, Inr x), (KPtrace Interrupt tid, y)]"
  have armed: "armed tid (?h x y)" for x y
    using assms(1,5) born_snoc [of "h @ [_]"] by (auto simp: armed_def)
  have "safe anything Q (?h x y) (obind (wait_for_ptrace_stop n tid) (\<lambda>w. case w of
       Inl e \<Rightarrow> drop_trace tid (Inl e)
     | Inr _ \<Rightarrow> pbind (syscall (KPtrace ResumeToSyscall tid)) (\<lambda>x. case x of
         Inl e \<Rightarrow> drop_trace tid (Inl (RawOs e))
       | Inr _ \<Rightarrow> Done (Some (Inr ())))))" for x y
    by (rule safe_obind, rule safe_wait, drule armed_calm [OF armed])
      (auto intro!: drop assms(3,4) split: option.split sum.split)
  moreover have "Q (h @ [(KPtrace SeizeForkEvents tid, Inl e)]) (Some (Inl (RawOs e)))" for e
    using assms(1,5) by (intro assms(2)) (auto simp: armed_def)
  moreover have "safe anything Q (?h x y) (drop_trace tid (Inl (RawOs e)))" for x y e
    using armed by (rule drop)
  ultimately show ?thesis
    unfolding prepare_process_creation_tracking_def by (auto split: sum.split)
qed

lemma safe_abort:
  assumes "armed tid h" "\<And>h' r. held h' = {} \<Longrightarrow> born h' = {} \<Longrightarrow> Q h' r" "\<And>h'. Q h' None"
  shows "safe anything Q h (abort_process_creation_tracking n tid)"
proof -
  have drop: "safe anything Q h1 (drop_trace tid ())" if "armed tid h1" for h1
    by (rule safe_drop, rule assms(2)) (rule armed_dropped [OF that])+
  have "safe anything Q (h @ [(KPtrace Interrupt tid, x)])
      (obind (wait_for_ptrace_stop n tid) (\<lambda>_. drop_trace tid ()))" for x
    by (rule safe_obind, rule safe_wait, drule armed_calm [rotated, where tid = tid])
      (auto simp: assms(1,3) intro!: drop split: option.split)
  then show ?thesis
    unfolding abort_process_creation_tracking_def
    using assms(1) by (auto intro!: drop split: sum.split)
qed

text \<open>The session as \<open>handle_notification\<close> runs it; the response is sent, or fails to be sent, between
  its two halves.\<close>

definition tracking_session ::
  "nat \<Rightarrow> nat \<Rightarrow> process_index \<Rightarrow> int \<Rightarrow> bool \<Rightarrow> ((io_error + bool) \<times> process_index) option prog" where
  "tracking_session m n ix tid sent =
     obind (prepare_process_creation_tracking n tid) (\<lambda>r. case r of
       Inl e \<Rightarrow> Done (Some (Inl e, ix))
     | Inr _ \<Rightarrow>
         if sent then finish_process_creation_tracking m n ix tid
         else obind (abort_process_creation_tracking n tid) (\<lambda>_. Done (Some (Inr False, ix))))"

text \<open>
  C18: no task stays attached. When the tracking session around a fork-like call ends, by whatever
  error or event, the supervisor holds neither the caller nor a child, and every child whose birth it saw
  is in the index, or belongs to a thread group in the index, or has been killed before its release.
\<close>

theorem tracking_leaves_nothing_attached:
  "(case result K (tracking_session m n ix tid sent) of
      None \<Rightarrow> True
    | Some (r, ix') \<Rightarrow> clean (trace K (tracking_session m n ix tid sent)) ix')"
proof -
  have "safe anything done_clean [] (tracking_session m n ix tid sent)"
    unfolding tracking_session_def
  proof (rule safe_obind, rule safe_prepare)
    fix h :: history
    assume "armed tid h"
    moreover from this have "safe anything done_clean h
        (obind (abort_process_creation_tracking n tid)
           (\<lambda>_. Done (Some (Inr False :: io_error + bool, ix))))"
      by (intro safe_obind safe_abort) (auto simp: done_clean_def clean_def split: option.split)
    ultimately show "case Some (Inr ()) of None \<Rightarrow> done_clean h None
      | Some r \<Rightarrow> safe anything done_clean h (case r of
          Inl e \<Rightarrow> Done (Some (Inl e, ix))
        | Inr _ \<Rightarrow>
            if sent then finish_process_creation_tracking m n ix tid
            else obind (abort_process_creation_tracking n tid) (\<lambda>_. Done (Some (Inr False, ix))))"
      by (simp add: safe_finish)
  qed (simp_all add: armed_def done_clean_def clean_def)
  from safe_result [OF this] show ?thesis by (simp add: done_clean_def)
qed

section \<open>The session ends\<close>

text \<open>A kernel that interrupts a wait at most \<open>a\<close> times, and reports at most \<open>b\<close> entry stops.\<close>

definition interruptions :: "history \<Rightarrow> nat" where
  "interruptions h = length (filter (\<lambda>(r, x). x = Inl EINTR) h)"

definition entry_stops :: "history \<Rightarrow> nat" where
  "entry_stops h = length (filter (\<lambda>(r, x). case (r, x) of
     (KPtrace GetSyscallInfo t, Inr (n, op # _)) \<Rightarrow> op = PTRACE_SYSCALL_INFO_ENTRY | _ \<Rightarrow> False) h)"

definition patient :: "kernel \<Rightarrow> nat \<Rightarrow> nat \<Rightarrow> bool" where
  "patient K a b \<longleftrightarrow>
     (\<forall>h t. K h (KWaitpid t) = Inl EINTR \<longrightarrow> interruptions h < a)
     \<and> (\<forall>h t n info. K h (KPtrace GetSyscallInfo t) = Inr (n, PTRACE_SYSCALL_INFO_ENTRY # info)
          \<longrightarrow> entry_stops h < b)"

lemma run_obind:
  "run K (obind p f) h = (let (r, h') = run K p h in case r of None \<Rightarrow> (None, h') | Some a \<Rightarrow> run K (f a) h')"
  by (auto simp: obind_def run_pbind split: prod.split option.split)

lemma run_extends: "\<exists>t. snd (run K p h) = h @ t"
proof (induction p arbitrary: h)
  case (Call r k)
  obtain t where "snd (run K (k (K h r)) (h @ [(r, K h r)])) = (h @ [(r, K h r)]) @ t"
    using Call [OF rangeI] by blast
  then show ?case by (auto simp: Let_def)
qed simp

lemma entry_stops_run: "entry_stops h \<le> entry_stops (snd (run K p h))"
  using run_extends [of K p h] by (auto simp: entry_stops_def)

definition ends :: "kernel \<Rightarrow> history \<Rightarrow> 'a option prog \<Rightarrow> bool" where
  "ends K h p \<longleftrightarrow> fst (run K p h) \<noteq> None"

lemma ends_simps [simp]:
  "ends K h (Done (Some a))"
  "ends K h (Call r k) = ends K (h @ [(r, K h r)]) (k (K h r))"
  by (simp_all add: ends_def Let_def)

lemma wait_ends:
  assumes "patient K a b" "a - interruptions h < n"
  shows "ends K h (wait_for_ptrace_stop n tid)"
  using assms(2)
proof (induction n arbitrary: h)
  case 0
  then show ?case by simp
next
  case (Suc n)
  let ?x = "K h (KWaitpid tid)"
  show ?case
  proof (cases "?x = Inl EINTR")
    case True
    then have "interruptions h < a" using assms(1) unfolding patient_def by blast
    moreover have "interruptions (h @ [(KWaitpid tid, Inl EINTR)]) = Suc (interruptions h)"
      by (simp add: interruptions_def)
    ultimately have "a - interruptions (h @ [(KWaitpid tid, Inl EINTR)]) < n"
      using Suc.prems by simp
    with Suc.IH True show ?thesis by simp
  next
    case False
    then show ?thesis by (auto simp: Let_def split: sum.split)
  qed
qed

lemma drop_ends: "ends K h (drop_trace tid r)"
  by (simp add: drop_trace_def detach_def)

lemma obind_ends:
  assumes "ends K h p" "\<And>a h'. run K p h = (Some a, h') \<Longrightarrow> ends K h' (f a)"
  shows "ends K h (obind p f)"
  using assms by (cases "run K p h") (auto simp: ends_def run_obind split: option.split)

lemma pbind_ends:
  assumes "\<And>a h'. run K p h = (a, h') \<Longrightarrow> ends K h' (f a)"
  shows "ends K h (pbind p f)"
  using assms by (cases "run K p h") (auto simp: ends_def run_pbind)

lemma finish_event_ends:
  assumes "patient K a b" "a < n"
  shows "ends K h (finish_process_creation_event n ix tid)"
proof -
  have "ends K h' (release_child n tid c p)" for c p h'
  proof (cases p)
    case (Pair ok ix')
    have "a - interruptions h' < n" using assms(2) by simp
    with wait_ends [OF assms(1)]
    have "ends K h' (obind (wait_for_ptrace_stop n c) (\<lambda>_.
        pbind (detach c) (\<lambda>_. drop_trace tid (Inr True :: io_error + bool, ix'))))"
      by (intro obind_ends pbind_ends drop_ends) blast
    then show ?thesis
      using Pair by (auto intro!: pbind_ends drop_ends)
  qed
  then show ?thesis
    by (auto simp: finish_process_creation_event_def Let_def simp del: release_child.simps
        intro!: pbind_ends drop_ends split: sum.split)
qed

lemma finish_ends:
  assumes "patient K a b" "a < n" "b - entry_stops h < m"
  shows "ends K h (finish_process_creation_tracking m n ix tid)"
  using assms(3)
proof (induction m arbitrary: h)
  case (Suc m)
  have again: "ends K h' (finish_process_creation_tracking m n ix tid)"
    if stop: "run K (syscall_stop_kind tid) h1 = (Inr PTRACE_SYSCALL_INFO_ENTRY, h2)"
      and "entry_stops h \<le> entry_stops h1" "entry_stops h2 \<le> entry_stops h'" for h1 h2 h'
  proof (rule Suc.IH)
    let ?r = "KPtrace GetSyscallInfo tid"
    obtain y info where x: "K h1 ?r = Inr (y, PTRACE_SYSCALL_INFO_ENTRY # info)"
      and h2: "h2 = h1 @ [(?r, K h1 ?r)]"
      using stop by (auto simp: syscall_stop_kind_def Let_def split: sum.splits list.splits)
    have "entry_stops h1 < b" using assms(1) x unfolding patient_def by blast
    moreover have "entry_stops h2 = Suc (entry_stops h1)" by (simp add: h2 x entry_stops_def)
    ultimately show "b - entry_stops h' < m" using that(2,3) Suc.prems by linarith
  qed
  have wait: "ends K h (wait_for_ptrace_stop n tid)"
    using assms(2) by (intro wait_ends [OF assms(1)]) simp
  have grow: "entry_stops h \<le> entry_stops h1" if "run K (wait_for_ptrace_stop n tid) h = (w, h1)" for w h1
    using entry_stops_run [of h K "wait_for_ptrace_stop n tid"] that by simp
  show ?case
    unfolding finish_process_creation_tracking.simps(2)
  proof (rule obind_ends [OF wait])
    fix w h1
    assume w: "run K (wait_for_ptrace_stop n tid) h = (Some w, h1)"
    have resume: "ends K (h2 @ [(KPtrace ResumeToSyscall tid, y)])
        (finish_process_creation_tracking m n ix tid)"
      if "run K (syscall_stop_kind tid) h1 = (Inr PTRACE_SYSCALL_INFO_ENTRY, h2)" for h2 y
      by (rule again [OF that grow [OF w]]) (simp add: entry_stops_def)
    show "ends K h1 (case w of
           Inl e \<Rightarrow> drop_trace tid (Inl e, ix)
         | Inr status \<Rightarrow>
             let event = stop_event status in
             if is_fork_event event then finish_process_creation_event n ix tid
             else if event = 0 \<and> WSTOPSIG status = 0x85 then
               pbind (syscall_stop_kind tid) (\<lambda>k. case k of
                 Inl e \<Rightarrow> drop_trace tid (Inl e, ix)
               | Inr op \<Rightarrow>
                   if op = PTRACE_SYSCALL_INFO_ENTRY then
                     pbind (syscall (KPtrace ResumeToSyscall tid)) (\<lambda>x. case x of
                       Inl e \<Rightarrow> drop_trace tid (Inl (RawOs e), ix)
                     | Inr _ \<Rightarrow> finish_process_creation_tracking m n ix tid)
                   else if op = PTRACE_SYSCALL_INFO_EXIT then drop_trace tid (Inr False, ix)
                   else drop_trace tid (Inl OtherError, ix))
             else drop_trace tid (Inl OtherError, ix))"
      unfolding Let_def
      by (auto split: sum.split intro!: drop_ends pbind_ends resume
          finish_event_ends [OF assms(1,2)])
  qed
qed simp

text \<open>
  C26: the session ends. On a kernel that interrupts waits at most \<open>a\<close> times and reports at most \<open>b\<close>
  entry stops, \<open>a + 1\<close> rounds of each wait and \<open>b + 1\<close> rounds of the session are enough.
\<close>

theorem tracking_session_ends:
  assumes "patient K a b" "a < n" "b < m"
  shows "result K (tracking_session m n ix tid sent) \<noteq> None"
proof -
  have wait: "ends K h (wait_for_ptrace_stop n tid)" for h
    using assms(2) by (intro wait_ends [OF assms(1)]) simp
  have prepare: "ends K h (prepare_process_creation_tracking n tid)" for h
    unfolding prepare_process_creation_tracking_def
    by (auto intro!: drop_ends obind_ends wait split: sum.split)
  have abort: "ends K h (abort_process_creation_tracking n tid)" for h
    unfolding abort_process_creation_tracking_def
    by (auto intro!: drop_ends obind_ends wait split: sum.split)
  have finish: "ends K h (finish_process_creation_tracking m n ix tid)" for h
    using assms(3) by (intro finish_ends [OF assms(1,2)]) simp
  have "ends K [] (tracking_session m n ix tid sent)"
    unfolding tracking_session_def
    by (rule obind_ends [OF prepare]) (auto intro!: obind_ends abort finish split: sum.split)
  then show ?thesis by (simp add: ends_def result_def)
qed

text \<open>A kernel that lets every wait see a fork event, whose child is process 9 with start time 400.\<close>

definition forking_kernel :: kernel where
  "forking_kernel h r = (case r of
     KWaitpid t \<Rightarrow> Inr (t, [0x7f, 5, 1, 0])
   | KPtrace q t \<Rightarrow> Inr (0, if q = GetEventMsg then [9] else [])
   | KReadFile f \<Rightarrow> Inr (0, bytes_of_string (stat_text ''400''))
   | _ \<Rightarrow> Inr (3, []))"

theorem tracking_session_ends_witness:
  "result forking_kernel (tracking_session 1 1 ProcessIndex_new 5 True) \<noteq> None"
proof (rule tracking_session_ends [where a = 0 and b = 0])
  show "patient forking_kernel 0 0"
    by (simp add: patient_def forking_kernel_def)
qed simp_all

end
