(* ===== verification/Dispatch.thy ===== *)
theory Dispatch
  imports Resource Context
begin

text \<open>
  The dispatch table (\<open>seccomp/dispatch.rs\<close>) and the checks on caller-supplied handlers
  (\<open>seccomp/syscall.rs\<close>, \<open>sandbox.rs\<close>). A handler of the source is a closure; here it is a name, and
  what a name does is the argument \<open>handle\<close> of \<open>dispatch\<close>. The table is built by one list of
  registrations per block of \<open>build_dispatch_table\<close>, in the order of the source.
\<close>

section \<open>Caller-supplied handlers\<close>

datatype syscall_error = Negative int | UnknownForArch int

datatype handler_error = InvalidSyscall syscall_error | OnDenySyscall int

definition Syscall_checked :: "int \<Rightarrow> syscall_error + int" where
  "Syscall_checked nr =
     (if nr < 0 then Inl (Negative nr)
      else if \<not> is_known_syscall nr then Inl (UnknownForArch nr)
      else Inr nr)"

primrec validate_handler_syscalls_against_policy :: "int list \<Rightarrow> sandbox \<Rightarrow> int + unit" where
  "validate_handler_syscalls_against_policy [] p = Inr ()"
| "validate_handler_syscalls_against_policy (nr # nrs) p =
     (if (word_of_int nr :: u32) \<in> set (blocklist_syscall_numbers p) then Inl nr
      else validate_handler_syscalls_against_policy nrs p)"

definition collect_extra_handlers :: "(int \<times> 'h) list \<Rightarrow> sandbox \<Rightarrow> handler_error + (int \<times> 'h) list" where
  "collect_extra_handlers extra p =
     try_bind (collect_results (\<lambda>(nr, h). case Syscall_checked nr of
         Inl e \<Rightarrow> Inl (InvalidSyscall e) | Inr n \<Rightarrow> Inr (n, h)) extra) (\<lambda>pending.
       case validate_handler_syscalls_against_policy (map fst pending) p of
         Inl nr \<Rightarrow> Inl (OnDenySyscall nr)
       | Inr _ \<Rightarrow> Inr pending)"

text \<open>The numbers handed to the filter: \<open>h.0 as u32\<close>.\<close>

definition extra_syscalls :: "(int \<times> 'h) list \<Rightarrow> u32 list" where
  "extra_syscalls pending = map (\<lambda>h. word_of_int (fst h)) pending"

section \<open>The table\<close>

type_synonym 'h dispatch_table = "int \<Rightarrow> 'h list option"

definition DispatchTable_new :: "'h dispatch_table" where
  "DispatchTable_new = Map.empty"

definition register_arc :: "int \<Rightarrow> 'h \<Rightarrow> 'h dispatch_table \<Rightarrow> 'h dispatch_table" where
  "register_arc nr h t = t(nr \<mapsto> (case t nr of None \<Rightarrow> [] | Some hs \<Rightarrow> hs) @ [h])"

text \<open>The chain: the first answer that is not \<open>Continue\<close> wins. The state of the supervisor is threaded
  through the handlers.\<close>

primrec run_chain ::
  "('h \<Rightarrow> seccomp_notif \<Rightarrow> 's \<Rightarrow> (notif_action \<times> 's) prog) \<Rightarrow> seccomp_notif \<Rightarrow> 'h list \<Rightarrow> 's
     \<Rightarrow> (notif_action \<times> 's) prog" where
  "run_chain handle n [] s = Done (Continue, s)"
| "run_chain handle n (h # hs) s =
     pbind (handle h n s) (\<lambda>(action, s').
       if action \<noteq> Continue then Done (action, s') else run_chain handle n hs s')"

definition dispatch ::
  "('h \<Rightarrow> seccomp_notif \<Rightarrow> 's \<Rightarrow> (notif_action \<times> 's) prog) \<Rightarrow> 'h dispatch_table \<Rightarrow> seccomp_notif \<Rightarrow> 's
     \<Rightarrow> (notif_action \<times> 's) prog" where
  "dispatch handle t n s =
     (case t (notif_nr n) of Some hs \<Rightarrow> run_chain handle n hs s | None \<Rightarrow> Done (Continue, s))"

section \<open>The handlers of the supervisor\<close>

datatype chroot_handler =
    Chroot_open | Chroot_legacy_open | Chroot_exec | Chroot_write | Chroot_legacy_unlink
  | Chroot_legacy_rmdir | Chroot_legacy_mkdir | Chroot_legacy_rename | Chroot_legacy_symlink
  | Chroot_legacy_link | Chroot_legacy_chmod | Chroot_legacy_chown bool | Chroot_stat
  | Chroot_legacy_stat | Chroot_legacy_lstat | Chroot_legacy_access | Chroot_statx
  | Chroot_readlink | Chroot_legacy_readlink | Chroot_getdents | Chroot_chdir | Chroot_getcwd
  | Chroot_statfs | Chroot_utimensat

datatype cow_handler =
    Cow_write | Cow_utimensat | Cow_access | Cow_open | Cow_stat | Cow_statx | Cow_readlink
  | Cow_getdents | Cow_chdir | Cow_getcwd | Cow_exec

datatype 'u handler =
    Fork | Wait | Memory | Net | Getrandom | Random_open | Timer
  | Chroot_handler chroot_handler | Cow_handler cow_handler
  | Proc_open | Proc_getdents | Sched_getaffinity u32 | Uname string | Hostname_open string
  | Etc_hosts_open string | Sorted_getdents
  | Netlink_socket | Netlink_bind | Netlink_getsockname | Netlink_recvmsg | Netlink_close
  | Bind | Getsockname
  | User 'u

definition both :: "'h \<Rightarrow> int list \<Rightarrow> (int \<times> 'h) list" where
  "both h nrs = map (\<lambda>nr. (nr, h)) nrs"

definition chroot_changing_handlers :: "(int \<times> chroot_handler) list" where
  "chroot_changing_handlers =
     [(SYS_openat, Chroot_open), (SYS_open, Chroot_legacy_open)]
     @ both Chroot_exec [SYS_execve, SYS_execveat]
     @ both Chroot_write [SYS_unlinkat, SYS_mkdirat, SYS_renameat2, SYS_symlinkat, SYS_linkat,
         SYS_fchmodat, SYS_fchownat, SYS_truncate]
     @ [(SYS_unlink, Chroot_legacy_unlink), (SYS_rmdir, Chroot_legacy_rmdir),
        (SYS_mkdir, Chroot_legacy_mkdir), (SYS_rename, Chroot_legacy_rename),
        (SYS_symlink, Chroot_legacy_symlink), (SYS_link, Chroot_legacy_link),
        (SYS_chmod, Chroot_legacy_chmod), (SYS_chown, Chroot_legacy_chown False),
        (SYS_lchown, Chroot_legacy_chown True)]"

definition chroot_reading_handlers :: "(int \<times> chroot_handler) list" where
  "chroot_reading_handlers =
     both Chroot_stat [SYS_newfstatat, SYS_faccessat, SYS_faccessat2]
     @ [(SYS_stat, Chroot_legacy_stat), (SYS_lstat, Chroot_legacy_lstat),
        (SYS_access, Chroot_legacy_access), (SYS_statx, Chroot_statx),
        (SYS_readlinkat, Chroot_readlink), (SYS_readlink, Chroot_legacy_readlink)]
     @ both Chroot_getdents [SYS_getdents64, SYS_getdents]
     @ [(SYS_chdir, Chroot_chdir), (SYS_getcwd, Chroot_getcwd), (SYS_statfs, Chroot_statfs),
        (SYS_utimensat, Chroot_utimensat)]"

definition chroot_handlers :: "(int \<times> 'u handler) list" where
  "chroot_handlers =
     map (\<lambda>(nr, h). (nr, Chroot_handler h)) (chroot_changing_handlers @ chroot_reading_handlers)"

lemmas chroot_handlers_defs =
  chroot_handlers_def chroot_changing_handlers_def chroot_reading_handlers_def

definition cow_handlers :: "(int \<times> 'u handler) list" where
  "cow_handlers = map (\<lambda>(nr, h). (nr, Cow_handler h))
     (both Cow_write ([SYS_unlinkat, SYS_mkdirat, SYS_renameat2, SYS_symlinkat, SYS_linkat,
          SYS_fchmodat, SYS_fchownat, SYS_truncate]
        @ [SYS_unlink, SYS_rmdir, SYS_mkdir, SYS_rename, SYS_symlink, SYS_link, SYS_chmod,
           SYS_chown, SYS_lchown])
      @ [(SYS_utimensat, Cow_utimensat)]
      @ both Cow_access [SYS_faccessat, SYS_faccessat2, SYS_access]
      @ both Cow_open [SYS_openat, SYS_open]
      @ both Cow_stat [SYS_newfstatat, SYS_faccessat, SYS_stat, SYS_lstat, SYS_access]
      @ [(SYS_statx, Cow_statx)]
      @ both Cow_readlink [SYS_readlinkat, SYS_readlink]
      @ both Cow_getdents [SYS_getdents64, SYS_getdents]
      @ [(SYS_chdir, Cow_chdir), (SYS_getcwd, Cow_getcwd)]
      @ both Cow_exec [SYS_execve, SYS_execveat])"

definition netlink_handlers :: "(int \<times> 'u handler) list" where
  "netlink_handlers =
     [(SYS_socket, Netlink_socket), (SYS_bind, Netlink_bind), (SYS_getsockname, Netlink_getsockname)]
     @ both Netlink_recvmsg [SYS_recvfrom, SYS_recvmsg]
     @ [(SYS_close, Netlink_close)]"

definition supervision_handlers :: "notif_policy \<Rightarrow> (int \<times> 'u handler) list" where
  "supervision_handlers policy =
     both Fork FORK_LIKE_SYSCALLS
     @ both Wait [SYS_wait4, SYS_waitid]
     @ (if np_has_memory_limit policy
        then both Memory [SYS_mmap, SYS_munmap, SYS_brk, SYS_mremap, SYS_shmget] else [])
     @ (if np_has_net_allowlist policy \<or> np_has_http_acl policy
        then both Net [SYS_connect, SYS_sendto, SYS_sendmsg, SYS_sendmmsg] else [])
     @ (if np_has_random_seed policy then [(SYS_getrandom, Getrandom)] else [])
     @ (if np_has_random_seed policy then [(SYS_openat, Random_open)] else [])
     @ (if np_has_time_start policy
        then both Timer [SYS_clock_nanosleep, SYS_timerfd_settime, SYS_timer_settime] else [])
     @ (if np_chroot_root policy \<noteq> None then chroot_handlers else [])
     @ (if np_cow_enabled policy then cow_handlers else [])"

definition virtual_handlers :: "notif_policy \<Rightarrow> (int \<times> 'u handler) list" where
  "virtual_handlers policy =
     [(SYS_openat, Proc_open)]
     @ both Proc_getdents [SYS_getdents64, SYS_getdents]
     @ (case np_num_cpus policy of Some n \<Rightarrow> [(SYS_sched_getaffinity, Sched_getaffinity n)] | None \<Rightarrow> [])
     @ (case np_virtual_hostname policy of
          Some name \<Rightarrow> [(SYS_uname, Uname name), (SYS_openat, Hostname_open name)] | None \<Rightarrow> [])
     @ (case np_virtual_etc_hosts policy of
          Some hosts \<Rightarrow> [(SYS_openat, Etc_hosts_open hosts)] | None \<Rightarrow> [])
     @ (if np_deterministic_dirs policy
        then both Sorted_getdents [SYS_getdents64, SYS_getdents] else [])"

definition bind_handlers :: "notif_policy \<Rightarrow> (int \<times> 'u handler) list" where
  "bind_handlers policy =
     (if np_port_remap policy \<or> np_has_net_allowlist policy then [(SYS_bind, Bind)] else [])
     @ (if np_port_remap policy then [(SYS_getsockname, Getsockname)] else [])"

definition builtin_handlers :: "notif_policy \<Rightarrow> (int \<times> 'u handler) list" where
  "builtin_handlers policy = supervision_handlers policy @ virtual_handlers policy
     @ netlink_handlers @ bind_handlers policy"

lemmas builtin_handlers_defs =
  builtin_handlers_def supervision_handlers_def virtual_handlers_def bind_handlers_def

definition build_dispatch_table ::
  "notif_policy \<Rightarrow> (int \<times> 'u) list \<Rightarrow> 'u handler dispatch_table" where
  "build_dispatch_table policy pending =
     fold (\<lambda>(nr, h). register_arc nr h)
       (builtin_handlers policy @ map (\<lambda>(nr, h). (nr, User h)) pending) DispatchTable_new"

section \<open>What the table is\<close>

text \<open>The handlers registered for a number, in order.\<close>

definition handlers_for :: "(int \<times> 'h) list \<Rightarrow> int \<Rightarrow> 'h list" where
  "handlers_for regs nr = map snd (filter (\<lambda>(m, h). m = nr) regs)"

lemma handlers_for_append [simp]:
  "handlers_for (as @ bs) nr = handlers_for as nr @ handlers_for bs nr"
  by (simp add: handlers_for_def)

lemma handlers_for_map: "handlers_for (map (\<lambda>(nr, h). (nr, f h)) regs) nr = map f (handlers_for regs nr)"
  by (induction regs) (auto simp: handlers_for_def)

lemma table_lookup:
  "fold (\<lambda>(nr, h). register_arc nr h) regs t nr =
    (let hs = handlers_for regs nr in
     if hs = [] then t nr else Some ((case t nr of None \<Rightarrow> [] | Some hs \<Rightarrow> hs) @ hs))"
proof (induction regs arbitrary: t)
  case Nil
  then show ?case by (simp add: handlers_for_def)
next
  case (Cons r regs)
  obtain m h where r: "r = (m, h)" by (rule prod.exhaust)
  have "register_arc m h t nr = (if nr = m then Some ((case t nr of None \<Rightarrow> [] | Some hs \<Rightarrow> hs) @ [h]) else t nr)"
    by (simp add: register_arc_def)
  then show ?case
    by (auto simp: r Cons.IH Let_def handlers_for_def)
qed

lemma run_chain_append:
  "run_chain handle n (as @ bs) s =
     pbind (run_chain handle n as s) (\<lambda>(a, s').
       if a \<noteq> Continue then Done (a, s') else run_chain handle n bs s')"
proof (induction as arbitrary: s)
  case Nil
  then show ?case by simp
next
  case (Cons h as)
  show ?case by (simp add: pbind_assoc pbind_if Cons.IH split_def cong: if_cong)
qed

lemma dispatch_chain:
  "dispatch handle (build_dispatch_table policy pending) n s =
     run_chain handle n
       (handlers_for (builtin_handlers policy) (notif_nr n) @ map User (handlers_for pending (notif_nr n))) s"
  by (simp add: dispatch_def build_dispatch_table_def table_lookup DispatchTable_new_def Let_def
      handlers_for_map)

section \<open>Properties of the table\<close>

text \<open>
  C27: dispatching through the table is running the built-in handlers of the call's number in the
  order they are registered, then the caller-supplied ones in theirs, until one does not answer
  \<open>Continue\<close>. So no caller-supplied handler sees a call a built-in has answered, and none replaces one.
\<close>

theorem dispatch_builtins_first:
  "dispatch handle (build_dispatch_table policy pending) n s =
     pbind (run_chain handle n (handlers_for (builtin_handlers policy) (notif_nr n)) s) (\<lambda>(a, s').
       if a \<noteq> Continue then Done (a, s')
       else run_chain handle n (map User (handlers_for pending (notif_nr n))) s')"
  by (simp add: dispatch_chain run_chain_append)

lemma collect_checked:
  "collect_results (\<lambda>(nr, h). case Syscall_checked nr of
         Inl e \<Rightarrow> Inl (InvalidSyscall e) | Inr n \<Rightarrow> Inr (n, h)) extra =
     (case find (\<lambda>(nr, h). \<not> is_known_syscall nr) extra of
        Some (nr, h) \<Rightarrow> Inl (InvalidSyscall (if nr < 0 then Negative nr else UnknownForArch nr))
      | None \<Rightarrow> Inr extra)"
  by (induction extra)
    (auto simp: Syscall_checked_def is_known_syscall_def split: option.splits if_splits)

lemma validate_find:
  "validate_handler_syscalls_against_policy (map fst extra) p =
     (case find (\<lambda>(nr, h). word_of_int nr \<in> set (blocklist_syscall_numbers p)) extra of
        Some (nr, h) \<Rightarrow> Inl nr | None \<Rightarrow> Inr ())"
  by (induction extra) auto

text \<open>
  C28: which registrations are accepted. The first number that is negative or beyond the syscall table
  is reported; with none, the first number on the blocklist is; with none of either, the
  registrations are taken as they are.
\<close>

theorem collect_extra_handlers_result:
  "collect_extra_handlers extra p =
    (case find (\<lambda>(nr, h). \<not> is_known_syscall nr) extra of
       Some (nr, h) \<Rightarrow> Inl (InvalidSyscall (if nr < 0 then Negative nr else UnknownForArch nr))
     | None \<Rightarrow> (case find (\<lambda>(nr, h). word_of_int nr \<in> set (blocklist_syscall_numbers p)) extra of
         Some (nr, h) \<Rightarrow> Inl (OnDenySyscall nr)
       | None \<Rightarrow> Inr extra))"
  unfolding collect_extra_handlers_def collect_checked validate_find by (auto split: option.split)

section \<open>The table and the filter\<close>

lemma set_notif_syscalls:
  "set (notif_syscalls p nm) = set (notif_process p) \<union> set (notif_memory p) \<union> set (notif_network p)
     \<union> set (notif_determinism p) \<union> set (notif_virtual p nm) \<union> set (notif_cow p) \<union> set (notif_chroot p)
     \<union> set (notif_denied p) \<union> set (notif_policy_fn p) \<union> set (notif_port_remap p)"
  by (simp add: notif_syscalls_def set_sort_dedup Un_assoc)

lemma chroot_handlers_notified:
  "sb_chroot p \<noteq> None \<Longrightarrow>
     list_all (\<lambda>nr. word_of_int nr \<in> set (notif_chroot p)) (map fst chroot_handlers)"
  by (simp add: chroot_handlers_defs both_def notif_chroot_def push_optionals_def
      push_optional_syscall_def)

lemma cow_handlers_notified:
  "sb_workdir p \<noteq> None \<Longrightarrow> sb_fs_isolation p = FsNone \<Longrightarrow>
     list_all (\<lambda>nr. word_of_int nr \<in> set (notif_cow p)) (map fst cow_handlers)"
  by (simp add: cow_handlers_def both_def notif_cow_def push_optionals_def
      push_optional_syscall_def)

lemma netlink_handlers_notified:
  "list_all (\<lambda>nr. word_of_int nr \<in> set (notif_virtual p nm)) (map fst netlink_handlers)"
  by (simp add: netlink_handlers_def both_def notif_virtual_def push_optionals_def
      push_optional_syscall_def)

lemma notified_block:
  "list_all (\<lambda>nr. word_of_int nr \<in> A) (map fst regs) \<Longrightarrow> (nr, h) \<in> set regs \<Longrightarrow> word_of_int nr \<in> A"
  by (auto simp: list_all_iff)

lemma fork_notified:
  "nr \<in> set FORK_LIKE_SYSCALLS \<Longrightarrow> nr = SYS_fork \<and> sb_policy_fn p = None
     \<or> word_of_int nr \<in> set (notif_process p)"
  by (auto simp: FORK_LIKE_SYSCALLS_def notif_process_def push_optionals_def push_optional_syscall_def)

definition covered :: "sandbox \<Rightarrow> string option \<Rightarrow> int \<Rightarrow> bool" where
  "covered p nm nr \<longleftrightarrow> word_of_int nr \<in> set (notif_syscalls p nm)
     \<or> nr = SYS_fork \<and> sb_policy_fn p = None \<or> nr = SYS_shmget \<and> \<not> allows_sysv_ipc p"

lemma coveredI:
  assumes "word_of_int nr \<in> set (notif_process p) \<union> set (notif_memory p) \<union> set (notif_network p)
     \<union> set (notif_determinism p) \<union> set (notif_virtual p nm) \<union> set (notif_cow p) \<union> set (notif_chroot p)
     \<union> set (notif_port_remap p)"
  shows "covered p nm nr"
  using assms unfolding covered_def set_notif_syscalls by blast

lemma builtins_covered:
  assumes "(nr, h) \<in> set (builtin_handlers (notif_policy_of canonicalize now extra rt_name etc_hosts p))"
  shows "covered p (Some rt_name) nr"
proof -
  let ?policy = "notif_policy_of canonicalize now extra rt_name etc_hosts p"
  have fork: "covered p (Some rt_name) m" if "m \<in> set FORK_LIKE_SYSCALLS" for m
    using fork_notified [OF that, of p] unfolding covered_def set_notif_syscalls by blast
  have chroot: "covered p (Some rt_name) nr" if "(nr, h) \<in> set chroot_handlers" "np_chroot_root ?policy \<noteq> None"
  proof -
    have "sb_chroot p \<noteq> None" using that(2) by (cases "sb_chroot p") (auto simp: notif_policy_of_def)
    from notified_block [OF chroot_handlers_notified [OF this] that(1)] show ?thesis
      by (intro coveredI) simp
  qed
  have cow: "covered p (Some rt_name) nr" if "(nr, h) \<in> set cow_handlers" "np_cow_enabled ?policy"
    using notified_block [OF cow_handlers_notified that(1)] that(2)
    by (intro coveredI) (auto simp: notif_policy_of_def)
  have netlink: "covered p (Some rt_name) nr" if "(nr, h) \<in> set netlink_handlers"
    using notified_block [OF netlink_handlers_notified that] by (intro coveredI) auto
  have memory: "covered p (Some rt_name) m"
    if "m \<in> {SYS_mmap, SYS_munmap, SYS_brk, SYS_mremap, SYS_shmget}" "np_has_memory_limit ?policy" for m
  proof (cases "m = SYS_shmget \<and> \<not> allows_sysv_ipc p")
    case False
    with that show ?thesis by (intro coveredI) (auto simp: notif_policy_of_def notif_memory_def)
  qed (simp add: covered_def)
  have net: "covered p (Some rt_name) m"
    if "m \<in> {SYS_connect, SYS_sendto, SYS_sendmsg, SYS_sendmmsg}"
      "np_has_net_allowlist ?policy \<or> np_has_http_acl ?policy" for m
    using that by (intro coveredI) (auto simp: notif_policy_of_def notif_network_def)
  have random: "covered p (Some rt_name) m" if "m = SYS_getrandom" "np_has_random_seed ?policy" for m
    using that by (intro coveredI) (auto simp: notif_policy_of_def notif_determinism_def)
  have timer: "covered p (Some rt_name) m"
    if "m \<in> {SYS_clock_nanosleep, SYS_timerfd_settime, SYS_timer_settime}" "np_has_time_start ?policy" for m
    using that by (intro coveredI) (auto simp: notif_policy_of_def notif_determinism_def)
  have always: "covered p (Some rt_name) m"
    if "m \<in> {SYS_wait4, SYS_waitid, SYS_openat, SYS_getdents64, SYS_getdents, SYS_uname, SYS_bind,
          SYS_getsockname}" for m
    using that by (intro coveredI)
      (auto simp: notif_process_def notif_virtual_def push_optionals_def push_optional_syscall_def)
  have cpus: "covered p (Some rt_name) m" if "m = SYS_sched_getaffinity" "Some k = np_num_cpus ?policy" for m k
    using that by (intro coveredI) (auto simp: notif_policy_of_def notif_virtual_def)
  show ?thesis
    using assms unfolding builtin_handlers_defs both_def
    by (auto split: if_splits option.splits
        intro: fork chroot cow netlink memory net random timer always cpus)
qed

text \<open>
  C29: no enforcement point is dead. Whatever a sandbox configures, every call a built-in handler is
  registered for is on the notification list of the filter installed for that sandbox, with two
  exceptions: \<open>fork\<close> without a policy callback, and \<open>shmget\<close> when SysV IPC is refused anyway.
\<close>

theorem builtin_handlers_notified:
  assumes "(nr, h) \<in> set (builtin_handlers (notif_policy_of canonicalize now extra rt_name etc_hosts p))"
  shows "word_of_int nr \<in> set (notif_syscalls p (Some rt_name))
    \<or> (nr = SYS_fork \<and> sb_policy_fn p = None) \<or> (nr = SYS_shmget \<and> \<not> allows_sysv_ipc p)"
  using builtins_covered [OF assms] by (simp add: covered_def)

theorem builtin_handlers_notified_witness:
  "word_of_int SYS_clone3 \<in> set (notif_syscalls minimal_sandbox (Some ''box''))
    \<or> (SYS_clone3 = (SYS_fork :: int) \<and> sb_policy_fn minimal_sandbox = None)
    \<or> (SYS_clone3 = (SYS_shmget :: int) \<and> \<not> allows_sysv_ipc minimal_sandbox)"
  by (rule builtin_handlers_notified [where h = "Fork :: unit handler" and canonicalize = "\<lambda>_. None"
        and now = 0 and extra = "[]" and etc_hosts = None])
     (simp add: builtin_handlers_defs both_def FORK_LIKE_SYSCALLS_def)

lemma notif_subset_merged: "set (notif_syscalls p nm) \<subseteq> set (merged_notif p nm extra)"
  by (auto simp: merged_notif_def Let_def set_sort_dedup push_optional_syscall_def)

lemma handlers_for_both: "handlers_for (both h nrs) nr = map (\<lambda>_. h) (filter (\<lambda>m. m = nr) nrs)"
  by (induction nrs) (auto simp: handlers_for_def both_def)

lemma handlers_for_Cons: "handlers_for ((m, h) # regs) nr = (if m = nr then [h] else []) @ handlers_for regs nr"
  by (simp add: handlers_for_def)

lemma handlers_for_Nil: "handlers_for [] nr = []"
  by (simp add: handlers_for_def)

lemma handlers_for_if:
  "handlers_for (if c then as else bs) nr = (if c then handlers_for as nr else handlers_for bs nr)"
  by simp

lemma handlers_for_option:
  "handlers_for (case x of None \<Rightarrow> as | Some v \<Rightarrow> f v) nr =
     (case x of None \<Rightarrow> handlers_for as nr | Some v \<Rightarrow> handlers_for (f v) nr)"
  by (simp split: option.split)

lemmas handlers_for_simps = handlers_for_if handlers_for_option handlers_for_both handlers_for_Cons handlers_for_Nil
  chroot_handlers_defs cow_handlers_def netlink_handlers_def handlers_for_map FORK_LIKE_SYSCALLS_def

lemma handlers_for_none: "nr \<notin> set (map fst regs) \<Longrightarrow> handlers_for regs nr = []"
  by (induction regs) (auto simp: handlers_for_def)

lemma net_not_special:
  assumes "nr \<in> {SYS_connect, SYS_sendto, SYS_sendmsg, SYS_sendmmsg}"
  shows "handlers_for chroot_handlers nr = []" "handlers_for cow_handlers nr = []"
    "handlers_for netlink_handlers nr = []"
  using assms
  by (auto intro!: handlers_for_none simp: chroot_handlers_defs cow_handlers_def netlink_handlers_def both_def)

lemma net_chain:
  assumes "np_has_net_allowlist policy \<or> np_has_http_acl policy"
    and nr: "nr \<in> {SYS_connect, SYS_sendto, SYS_sendmsg, SYS_sendmmsg}"
  shows "handlers_for (builtin_handlers policy) nr = [Net]"
proof -
  consider "nr = SYS_connect" | "nr = SYS_sendto" | "nr = SYS_sendmsg" | "nr = SYS_sendmmsg"
    using nr by auto
  then show ?thesis
    unfolding builtin_handlers_defs
    by cases (simp_all add: assms(1) handlers_for_if handlers_for_option handlers_for_both
        handlers_for_Cons handlers_for_Nil FORK_LIKE_SYSCALLS_def net_not_special
        split: option.split)
qed

lemma table_of_chain:
  assumes "handlers_for (builtin_handlers policy) nr = h # hs"
  shows "build_dispatch_table policy pending nr = Some (h # hs @ map User (handlers_for pending nr))"
  using assms by (simp add: build_dispatch_table_def table_lookup DispatchTable_new_def handlers_for_map)

lemma user_notified:
  assumes "cbpf exec" "length extra \<le> 24" "arch_of d = AUDIT_ARCH" "arg_decision p d = None"
    and "nr_of d \<in> set (notif_syscalls p nm)"
  shows "\<exists>prog. confine_child_filter p nm False extra = Inr prog
    \<and> exec d prog a = SECCOMP_RET_USER_NOTIF"
  using cbpf.exec_confined [OF assms(1,2), of p nm False] assms(3-5) notif_subset_merged [of p nm extra]
  by (auto simp: filter_decision_def)

text \<open>
  the network rules cannot be walked around. In a sandbox with network or HTTP rules or a policy
  callback, the installed filter sends every native \<open>connect\<close>, \<open>sendto\<close>, \<open>sendmsg\<close> and \<open>sendmmsg\<close> to the
  supervisor, whose table answers them with the network handler before any caller-supplied one.
\<close>

theorem net_calls_mediated:
  assumes "cbpf exec" "length pending \<le> 24"
    and "sb_net_allow p \<noteq> [] \<or> sb_policy_fn p \<noteq> None \<or> sb_http_allow p \<noteq> [] \<or> sb_http_deny p \<noteq> []"
    and "nr \<in> {SYS_connect, SYS_sendto, SYS_sendmsg, SYS_sendmmsg}"
    and "arch_of d = AUDIT_ARCH" "nr_of d = word_of_int nr"
  shows "(\<exists>prog. confine_child_filter p (Some rt_name) False (extra_syscalls pending) = Inr prog
      \<and> exec d prog a = SECCOMP_RET_USER_NOTIF)
    \<and> build_dispatch_table (notif_policy_of canonicalize now extra rt_name etc_hosts p) pending nr
      = Some (Net # map User (handlers_for pending nr))"
proof
  have nr: "nr_of d \<in> {SYS_connect, SYS_sendto, SYS_sendmsg, SYS_sendmmsg}"
    using assms(4,6) by auto
  then have "nr_of d \<in> set (notif_network p)"
    using assms(3) by (auto simp: notif_network_def)
  then have "nr_of d \<in> set (notif_syscalls p (Some rt_name))"
    unfolding set_notif_syscalls by blast
  moreover have "arg_decision p d = None"
    using nr by (auto simp: arg_decision_def)
  ultimately show "\<exists>prog. confine_child_filter p (Some rt_name) False (extra_syscalls pending) = Inr prog
      \<and> exec d prog a = SECCOMP_RET_USER_NOTIF"
    using assms(2) by (intro user_notified [OF assms(1) _ assms(5)]) (simp_all add: extra_syscalls_def)
  show "build_dispatch_table (notif_policy_of canonicalize now extra rt_name etc_hosts p) pending nr
      = Some (Net # map User (handlers_for pending nr))"
    using assms(3) table_of_chain [OF net_chain [OF _ assms(4)], of _ pending]
    by (simp add: notif_policy_of_def)
qed

definition acl_sandbox :: sandbox where
  "acl_sandbox = minimal_sandbox\<lparr>sb_http_deny :=
     [\<lparr>rule_method = ''*'', rule_host = ''*'', rule_path = ''/admin''\<rparr>]\<rparr>"

theorem net_calls_mediated_witness:
  "(\<exists>prog. confine_child_filter acl_sandbox (Some ''box'') False (extra_syscalls [(SYS_openat, ())]) = Inr prog
      \<and> bpf_run (call_data SYS_connect AUDIT_ARCH []) prog 0 = SECCOMP_RET_USER_NOTIF)
    \<and> build_dispatch_table (notif_policy_of (\<lambda>_. None) 0 [] ''box'' None acl_sandbox)
        [(SYS_openat, ())] SYS_connect
      = Some (Net # map User (handlers_for [(SYS_openat, ())] SYS_connect))"
  by (rule net_calls_mediated [OF kernel.cbpf_axioms]) (simp_all add: acl_sandbox_def call_data_def)

text \<open>
  Accepting handlers never re-opens a refused call. With handlers that \<open>collect_extra_handlers\<close>
  accepted, the filter still answers EPERM to every native call of a syscall on the default blocklist,
  and of a SysV IPC syscall where these are not allowed.
\<close>

theorem accepted_handlers_keep_refusals:
  assumes "cbpf exec" "length extra \<le> 24" "collect_extra_handlers extra p = Inr pending"
    and "nm \<in> refused_names p" "syscall_name_to_nr nm = Some (nr_of d)" "arch_of d = AUDIT_ARCH"
  shows "\<exists>prog. confine_child_filter p rt_name nested (extra_syscalls pending) = Inr prog
    \<and> exec d prog a = RET_EPERM"
proof -
  have pending: "pending = extra"
    and "find (\<lambda>(nr, h). word_of_int nr \<in> set (blocklist_syscall_numbers p)) extra = None"
    using assms(3) unfolding collect_extra_handlers_def collect_checked validate_find
    by (auto split: option.splits)
  then have "set (extra_syscalls pending) \<inter> set (blocklist_syscall_numbers p) = {}"
    by (auto simp: extra_syscalls_def find_None_iff)
  moreover have "nr_of d \<in> set (blocklist_syscall_numbers p)"
    using assms(4,5) by (auto simp: set_blocklist refused_names_def split: if_splits)
  ultimately have "nr_of d \<notin> set (extra_syscalls pending)" by blast
  moreover have "length (extra_syscalls pending) \<le> 24"
    using assms(2) pending by (simp add: extra_syscalls_def)
  ultimately show ?thesis
    using cbpf.refused_EPERM [OF assms(1) _ assms(4-6)] by blast
qed

theorem accepted_handlers_keep_refusals_witness:
  "\<exists>prog. confine_child_filter minimal_sandbox None False (extra_syscalls [(SYS_openat, ())]) = Inr prog
    \<and> bpf_run (call_data SYS_ptrace AUDIT_ARCH []) prog 0 = RET_EPERM"
proof (rule accepted_handlers_keep_refusals [OF kernel.cbpf_axioms, of "[(SYS_openat, ())]" _ _ "''ptrace''"])
  have "(257 :: u32) \<notin> set (blocklist_syscall_numbers minimal_sandbox)"
    by code_simp
  then show "collect_extra_handlers [(SYS_openat, ())] minimal_sandbox = Inr [(SYS_openat, ())]"
    by (simp add: collect_extra_handlers_def Syscall_checked_def is_known_syscall_def)
qed (simp_all add: refused_names_def DEFAULT_BLOCKLIST_SYSCALLS_def syscall_name_to_nr_def
       syscall_table_def call_data_def)

text \<open>
  a plain \<open>fork\<close> is not counted. Without a policy callback the filter lets the kernel run \<open>fork\<close>
  unseen, so the process limit, which the handler of the fork-like calls keeps, does not apply to it.
\<close>

theorem plain_fork_unseen:
  assumes "cbpf exec" "length extra \<le> 24" "sb_policy_fn p = None"
    and "SYS_fork \<notin> set extra" "SYS_execve \<notin> set extra" "SYS_execveat \<notin> set extra"
    and "SYS_fork \<notin> set (blocklist_syscall_numbers p)"
    and "arch_of d = AUDIT_ARCH" "nr_of d = SYS_fork"
  shows "\<exists>prog. confine_child_filter p rt_name False extra = Inr prog
    \<and> exec d prog a = SECCOMP_RET_ALLOW"
proof -
  have "SYS_fork \<notin> set (notif_syscalls p rt_name)"
    using assms(3) by (auto simp: set_notif_syscalls notif_defs split: if_splits)
  then have "SYS_fork \<notin> set (merged_notif p rt_name extra)"
    using assms(4-6) by (auto simp: merged_notif_def Let_def set_sort_dedup list_ex_iff)
  then show ?thesis
    using cbpf.exec_confined [OF assms(1,2), of p rt_name False] assms(7-9)
    by (auto simp: filter_decision_def arg_decision_def)
qed

theorem plain_fork_unseen_witness:
  "\<exists>prog. confine_child_filter minimal_sandbox None False [] = Inr prog
    \<and> bpf_run (call_data SYS_fork AUDIT_ARCH []) prog 0 = SECCOMP_RET_ALLOW"
proof (rule plain_fork_unseen [OF kernel.cbpf_axioms])
  show "SYS_fork \<notin> set (blocklist_syscall_numbers minimal_sandbox)"
    by code_simp
qed (simp_all add: minimal_sandbox_def call_data_def)

lemma clone3_not_special:
  "handlers_for chroot_handlers SYS_clone3 = []" "handlers_for cow_handlers SYS_clone3 = []"
  "handlers_for netlink_handlers SYS_clone3 = []"
  by (auto intro!: handlers_for_none simp: chroot_handlers_defs cow_handlers_def netlink_handlers_def both_def)

text \<open>
  the flags of \<open>clone3\<close> are not checked. The filter has no argument filter for it (its flags are in
  memory) and sends every call to the supervisor; the handler of the fork-like calls, first in
  the chain, answers \<open>Continue\<close> below the process limit, whatever namespaces the flags ask for.
\<close>

theorem clone3_flags_unchecked:
  assumes "cbpf exec" "length pending \<le> 24" "arch_of d = AUDIT_ARCH" "nr_of d = SYS_clone3"
    and "notif_nr n = SYS_clone3" "\<not> hold_forks rs" "proc_count rs < max_processes rs"
  shows "(\<exists>prog. confine_child_filter p (Some rt_name) False (extra_syscalls pending) = Inr prog
      \<and> exec d prog a = SECCOMP_RET_USER_NOTIF)
    \<and> build_dispatch_table policy pending SYS_clone3 = Some (Fork # map User (handlers_for pending SYS_clone3))
    \<and> fst (result K (handle_fork n rs)) = Continue"
proof (intro conjI)
  have "nr_of d \<in> set (notif_syscalls p (Some rt_name))" "arg_decision p d = None"
    using assms(4) by (simp_all add: set_notif_syscalls notif_process_def arg_decision_def)
  then show "\<exists>prog. confine_child_filter p (Some rt_name) False (extra_syscalls pending) = Inr prog
      \<and> exec d prog a = SECCOMP_RET_USER_NOTIF"
    using assms(2) by (intro user_notified [OF assms(1) _ assms(3)]) (simp_all add: extra_syscalls_def)
  have "handlers_for (builtin_handlers policy) SYS_clone3 = [Fork]"
    unfolding builtin_handlers_defs
    by (simp add: handlers_for_if handlers_for_option handlers_for_both handlers_for_Cons
        handlers_for_Nil FORK_LIKE_SYSCALLS_def clone3_not_special split: option.split)
  from table_of_chain [OF this, of pending]
  show "build_dispatch_table policy pending SYS_clone3 = Some (Fork # map User (handlers_for pending SYS_clone3))"
    by simp
  show "fst (result K (handle_fork n rs)) = Continue"
    using assms(5-7) unfolding result_def handle_fork_def
    by (cases "run K (is_thread_create n) []") (auto simp: run_pbind)
qed

definition idle_resources :: resource_state where
  "idle_resources = ResourceState_new 0 8"

definition namespace_call :: seccomp_notif where
  "namespace_call = call SYS_clone3 [0x7000, 88]"

definition asks_for_namespaces :: kernel where
  "asks_for_namespaces h r = (case r of
     KReadVm p a len \<Rightarrow> Inr (8, le_bytes 8 (CLONE_NEWUSER OR CLONE_NEWNS)) | _ \<Rightarrow> Inr (0, []))"

theorem clone3_flags_unchecked_witness:
  "(\<exists>prog. confine_child_filter minimal_sandbox (Some ''box'') False (extra_syscalls ([] :: (int \<times> unit) list)) = Inr prog
      \<and> bpf_run (call_data SYS_clone3 AUDIT_ARCH [0x7000, 88]) prog 0 = SECCOMP_RET_USER_NOTIF)
    \<and> build_dispatch_table (notif_policy_of (\<lambda>_. None) 0 [] ''box'' None minimal_sandbox)
        ([] :: (int \<times> unit) list) SYS_clone3
      = Some (Fork # map User (handlers_for [] SYS_clone3))
    \<and> fst (result asks_for_namespaces (handle_fork namespace_call idle_resources)) = Continue"
  by (rule clone3_flags_unchecked [OF kernel.cbpf_axioms])
    (simp_all add: call_data_def namespace_call_def call_def notif_nr_def idle_resources_def
       ResourceState_new_def)

end
