(* ===== verification/PolicyFn.thy ===== *)
theory PolicyFn
  imports NetPolicy
begin

text \<open>
  The operations a policy callback has on the running policy (\<open>policy_fn.rs\<close>). The locks of the source
  protect single reads and writes; the callback runs on one thread, so its operations are a sequence.
  The second half states what the operations promise, field by field, and that they keep it.
\<close>

section \<open>The context of the callback\<close>

datatype policy_fn_error = FieldRestricted string

record policy_context =
  pc_live :: live_policy
  pc_ceiling :: live_policy
  pc_restricted :: "string set"
  pc_pid_overrides :: "u32 \<Rightarrow> ip_addr set option"
  pc_denied_paths :: "string set"

definition PolicyContext_new ::
  "live_policy \<Rightarrow> live_policy \<Rightarrow> (u32 \<Rightarrow> ip_addr set option) \<Rightarrow> string set \<Rightarrow> policy_context" where
  "PolicyContext_new live ceiling pid_overrides denied_paths =
     \<lparr>pc_live = live, pc_ceiling = ceiling, pc_restricted = {},
      pc_pid_overrides = pid_overrides, pc_denied_paths = denied_paths\<rparr>"

definition check_not_restricted :: "policy_context \<Rightarrow> string \<Rightarrow> policy_fn_error + unit" where
  "check_not_restricted ctx field =
     (if field \<in> pc_restricted ctx then Inl (FieldRestricted field) else Inr ())"

definition grant_network :: "ip_addr list \<Rightarrow> policy_context \<Rightarrow> policy_fn_error + policy_context" where
  "grant_network ips ctx =
     try_bind (check_not_restricted ctx ''allowed_ips'') (\<lambda>_.
       Inr (ctx\<lparr>pc_live := fold (\<lambda>ip live.
           if ip \<in> allowed_ips (pc_ceiling ctx)
           then live\<lparr>allowed_ips := insert ip (allowed_ips live)\<rparr> else live) ips (pc_live ctx)\<rparr>))"

definition grant_max_memory :: "u64 \<Rightarrow> policy_context \<Rightarrow> policy_fn_error + policy_context" where
  "grant_max_memory bytes ctx =
     try_bind (check_not_restricted ctx ''max_memory_bytes'') (\<lambda>_.
       Inr (ctx\<lparr>pc_live := (pc_live ctx)\<lparr>live_max_memory_bytes :=
         min bytes (live_max_memory_bytes (pc_ceiling ctx))\<rparr>\<rparr>))"

definition grant_max_processes :: "u32 \<Rightarrow> policy_context \<Rightarrow> policy_fn_error + policy_context" where
  "grant_max_processes n ctx =
     try_bind (check_not_restricted ctx ''max_processes'') (\<lambda>_.
       Inr (ctx\<lparr>pc_live := (pc_live ctx)\<lparr>live_max_processes :=
         min n (live_max_processes (pc_ceiling ctx))\<rparr>\<rparr>))"

definition restrict_network :: "ip_addr list \<Rightarrow> policy_context \<Rightarrow> policy_context" where
  "restrict_network ips ctx =
     ctx\<lparr>pc_restricted := insert ''allowed_ips'' (pc_restricted ctx),
         pc_live := (pc_live ctx)\<lparr>allowed_ips := set ips\<rparr>\<rparr>"

definition restrict_max_memory :: "u64 \<Rightarrow> policy_context \<Rightarrow> policy_context" where
  "restrict_max_memory bytes ctx =
     ctx\<lparr>pc_restricted := insert ''max_memory_bytes'' (pc_restricted ctx),
         pc_live := (pc_live ctx)\<lparr>live_max_memory_bytes := bytes\<rparr>\<rparr>"

definition restrict_max_processes :: "u32 \<Rightarrow> policy_context \<Rightarrow> policy_context" where
  "restrict_max_processes n ctx =
     ctx\<lparr>pc_restricted := insert ''max_processes'' (pc_restricted ctx),
         pc_live := (pc_live ctx)\<lparr>live_max_processes := n\<rparr>\<rparr>"

definition restrict_pid_network :: "u32 \<Rightarrow> ip_addr list \<Rightarrow> policy_context \<Rightarrow> policy_context" where
  "restrict_pid_network pid ips ctx =
     ctx\<lparr>pc_pid_overrides := (pc_pid_overrides ctx)(pid \<mapsto> set ips)\<rparr>"

definition clear_pid_override :: "u32 \<Rightarrow> policy_context \<Rightarrow> policy_context" where
  "clear_pid_override pid ctx = ctx\<lparr>pc_pid_overrides := (pc_pid_overrides ctx)(pid := None)\<rparr>"

definition deny_path :: "string \<Rightarrow> policy_context \<Rightarrow> policy_context" where
  "deny_path path ctx = ctx\<lparr>pc_denied_paths := insert path (pc_denied_paths ctx)\<rparr>"

definition allow_path :: "string \<Rightarrow> policy_context \<Rightarrow> policy_context" where
  "allow_path path ctx = ctx\<lparr>pc_denied_paths := pc_denied_paths ctx - {path}\<rparr>"

section \<open>Sequences of operations\<close>

datatype policy_op =
    GrantNetwork "ip_addr list" | GrantMaxMemory u64 | GrantMaxProcesses u32
  | RestrictNetwork "ip_addr list" | RestrictMaxMemory u64 | RestrictMaxProcesses u32
  | RestrictPidNetwork u32 "ip_addr list" | ClearPidOverride u32
  | DenyPath string | AllowPath string

primrec perform :: "policy_op \<Rightarrow> policy_context \<Rightarrow> policy_fn_error + policy_context" where
  "perform (GrantNetwork ips) ctx = grant_network ips ctx"
| "perform (GrantMaxMemory b) ctx = grant_max_memory b ctx"
| "perform (GrantMaxProcesses n) ctx = grant_max_processes n ctx"
| "perform (RestrictNetwork ips) ctx = Inr (restrict_network ips ctx)"
| "perform (RestrictMaxMemory b) ctx = Inr (restrict_max_memory b ctx)"
| "perform (RestrictMaxProcesses n) ctx = Inr (restrict_max_processes n ctx)"
| "perform (RestrictPidNetwork pid ips) ctx = Inr (restrict_pid_network pid ips ctx)"
| "perform (ClearPidOverride pid) ctx = Inr (clear_pid_override pid ctx)"
| "perform (DenyPath path) ctx = Inr (deny_path path ctx)"
| "perform (AllowPath path) ctx = Inr (allow_path path ctx)"

text \<open>A failed grant leaves the context as it was; the results are kept.\<close>

primrec perform_all :: "policy_op list \<Rightarrow> policy_context \<Rightarrow> bool list \<times> policy_context" where
  "perform_all [] ctx = ([], ctx)"
| "perform_all (op # ops) ctx = (case perform op ctx of
     Inl _ \<Rightarrow> (let (rs, ctx') = perform_all ops ctx in (False # rs, ctx'))
   | Inr ctx1 \<Rightarrow> (let (rs, ctx') = perform_all ops ctx1 in (True # rs, ctx')))"

section \<open>What the operations promise\<close>

text \<open>A field is open, and moves within its ceiling, or it is fixed for good.\<close>

datatype 'a field = Open 'a | Fixed 'a

record policy_fields =
  f_ips :: "ip_addr set field"
  f_memory :: "u64 field"
  f_processes :: "u32 field"

fun field_grant :: "('a \<Rightarrow> 'a) \<Rightarrow> 'a field \<Rightarrow> 'a field" where
  "field_grant f (Open x) = Open (f x)"
| "field_grant f (Fixed x) = Fixed x"

fun is_open :: "'a field \<Rightarrow> bool" where
  "is_open (Open x) = True"
| "is_open (Fixed x) = False"

definition within :: "live_policy \<Rightarrow> policy_fields \<Rightarrow> bool" where
  "within ceiling fs \<longleftrightarrow>
     (case f_ips fs of Open x \<Rightarrow> x \<subseteq> allowed_ips ceiling | Fixed _ \<Rightarrow> True)
     \<and> (case f_memory fs of Open x \<Rightarrow> x \<le> live_max_memory_bytes ceiling | Fixed _ \<Rightarrow> True)
     \<and> (case f_processes fs of Open x \<Rightarrow> x \<le> live_max_processes ceiling | Fixed _ \<Rightarrow> True)"

primrec spec_step :: "live_policy \<Rightarrow> policy_op \<Rightarrow> policy_fields \<Rightarrow> bool \<times> policy_fields" where
  "spec_step c (GrantNetwork ips) fs =
     (is_open (f_ips fs), fs\<lparr>f_ips := field_grant (\<lambda>x. x \<union> (set ips \<inter> allowed_ips c)) (f_ips fs)\<rparr>)"
| "spec_step c (GrantMaxMemory b) fs =
     (is_open (f_memory fs), fs\<lparr>f_memory := field_grant (\<lambda>_. min b (live_max_memory_bytes c)) (f_memory fs)\<rparr>)"
| "spec_step c (GrantMaxProcesses n) fs =
     (is_open (f_processes fs), fs\<lparr>f_processes := field_grant (\<lambda>_. min n (live_max_processes c)) (f_processes fs)\<rparr>)"
| "spec_step c (RestrictNetwork ips) fs = (True, fs\<lparr>f_ips := Fixed (set ips)\<rparr>)"
| "spec_step c (RestrictMaxMemory b) fs = (True, fs\<lparr>f_memory := Fixed b\<rparr>)"
| "spec_step c (RestrictMaxProcesses n) fs = (True, fs\<lparr>f_processes := Fixed n\<rparr>)"
| "spec_step c (RestrictPidNetwork pid ips) fs = (True, fs)"
| "spec_step c (ClearPidOverride pid) fs = (True, fs)"
| "spec_step c (DenyPath path) fs = (True, fs)"
| "spec_step c (AllowPath path) fs = (True, fs)"

primrec spec_run :: "live_policy \<Rightarrow> policy_op list \<Rightarrow> policy_fields \<Rightarrow> bool list \<times> policy_fields" where
  "spec_run c [] fs = ([], fs)"
| "spec_run c (op # ops) fs =
     (let (r, fs1) = spec_step c op fs; (rs, fs') = spec_run c ops fs1 in (r # rs, fs'))"

definition field_of :: "policy_context \<Rightarrow> string \<Rightarrow> 'a \<Rightarrow> 'a field" where
  "field_of ctx name x = (if name \<in> pc_restricted ctx then Fixed x else Open x)"

definition abs_fields :: "policy_context \<Rightarrow> policy_fields" where
  "abs_fields ctx =
     \<lparr>f_ips = field_of ctx ''allowed_ips'' (allowed_ips (pc_live ctx)),
      f_memory = field_of ctx ''max_memory_bytes'' (live_max_memory_bytes (pc_live ctx)),
      f_processes = field_of ctx ''max_processes'' (live_max_processes (pc_live ctx))\<rparr>"

lemma fold_grant:
  "fold (\<lambda>ip live. if ip \<in> C then live\<lparr>allowed_ips := insert ip (allowed_ips live)\<rparr> else live) ips live =
     live\<lparr>allowed_ips := allowed_ips live \<union> (set ips \<inter> C)\<rparr>"
  by (induction ips arbitrary: live) (auto simp: insert_commute intro!: arg_cong [where f = "\<lambda>A. live_policy.allowed_ips_update (\<lambda>_. A) _"])

lemma perform_refines:
  "spec_step (pc_ceiling ctx) op (abs_fields ctx) =
     (case perform op ctx of Inl _ \<Rightarrow> (False, abs_fields ctx) | Inr ctx' \<Rightarrow> (True, abs_fields ctx'))"
  by (cases op)
    (auto simp: abs_fields_def field_of_def grant_network_def grant_max_memory_def
      grant_max_processes_def restrict_network_def restrict_max_memory_def restrict_max_processes_def
      restrict_pid_network_def clear_pid_override_def deny_path_def allow_path_def
      check_not_restricted_def fold_grant)

lemma perform_ceiling: "perform op ctx = Inr ctx' \<Longrightarrow> pc_ceiling ctx' = pc_ceiling ctx"
  by (cases op)
    (auto simp: grant_network_def grant_max_memory_def grant_max_processes_def restrict_network_def
      restrict_max_memory_def restrict_max_processes_def restrict_pid_network_def
      clear_pid_override_def deny_path_def allow_path_def check_not_restricted_def split: if_splits)

lemma perform_all_refines:
  "spec_run (pc_ceiling ctx) ops (abs_fields ctx) =
     (fst (perform_all ops ctx), abs_fields (snd (perform_all ops ctx)))"
proof (induction ops arbitrary: ctx)
  case Nil
  then show ?case by simp
next
  case (Cons op ops)
  show ?case
  proof (cases "perform op ctx")
    case (Inl e)
    with Cons.IH [of ctx] show ?thesis
      by (simp add: perform_refines split: prod.split)
  next
    case (Inr ctx1)
    with Cons.IH [of ctx1] perform_ceiling [OF Inr] show ?thesis
      by (simp add: perform_refines split: prod.split)
  qed
qed

section \<open>Properties\<close>


text \<open>The last restriction of each field in a sequence.\<close>

definition last_of :: "(policy_op \<Rightarrow> 'a option) \<Rightarrow> policy_op list \<Rightarrow> 'a option" where
  "last_of f ops = fold (\<lambda>op r. case f op of Some x \<Rightarrow> Some x | None \<Rightarrow> r) ops None"

fun restricts_ips :: "policy_op \<Rightarrow> ip_addr set option" where
  "restricts_ips (RestrictNetwork ips) = Some (set ips)"
| "restricts_ips _ = None"

fun restricts_memory :: "policy_op \<Rightarrow> u64 option" where
  "restricts_memory (RestrictMaxMemory b) = Some b"
| "restricts_memory _ = None"

fun restricts_processes :: "policy_op \<Rightarrow> u32 option" where
  "restricts_processes (RestrictMaxProcesses n) = Some n"
| "restricts_processes _ = None"

definition final_field :: "('a \<Rightarrow> bool) \<Rightarrow> 'a option \<Rightarrow> 'a field \<Rightarrow> bool" where
  "final_field ok r f = (case r of Some x \<Rightarrow> f = Fixed x | None \<Rightarrow> (case f of Open x \<Rightarrow> ok x | Fixed _ \<Rightarrow> False))"

definition bounded :: "live_policy \<Rightarrow> policy_op list \<Rightarrow> policy_fields \<Rightarrow> bool" where
  "bounded c ops fs \<longleftrightarrow>
     final_field (\<lambda>x. x \<subseteq> allowed_ips c) (last_of restricts_ips ops) (f_ips fs)
     \<and> final_field (\<lambda>x. x \<le> live_max_memory_bytes c) (last_of restricts_memory ops) (f_memory fs)
     \<and> final_field (\<lambda>x. x \<le> live_max_processes c) (last_of restricts_processes ops) (f_processes fs)"

lemma last_of_snoc: "last_of f (ops @ [op]) = (case f op of Some x \<Rightarrow> Some x | None \<Rightarrow> last_of f ops)"
  by (simp add: last_of_def split: option.split)

lemma spec_step_bounded: "bounded c ops fs \<Longrightarrow> bounded c (ops @ [op]) (snd (spec_step c op fs))"
  by (cases op; cases "f_ips fs"; cases "f_memory fs"; cases "f_processes fs")
    (auto simp: bounded_def final_field_def last_of_snoc split: option.splits)

lemma spec_run_bounded:
  "bounded c pre fs \<Longrightarrow> bounded c (pre @ ops) (snd (spec_run c ops fs))"
proof (induction ops arbitrary: pre fs)
  case (Cons op ops)
  from Cons.IH [OF spec_step_bounded [OF Cons.prems, of op]] show ?case
    by (simp split: prod.split) (metis snd_conv)
qed simp

text \<open>
  restrictions are final, grants are bounded. From the context a sandbox starts with, whose live
  policy is its ceiling, after any operations: a field that was ever restricted has exactly the value of
  its last restriction, whatever was granted since, and a field never restricted is within the ceiling.
\<close>

theorem callback_policy_bounded:
  "bounded ceiling ops
     (abs_fields (snd (perform_all ops (PolicyContext_new ceiling ceiling overrides denied))))"
proof -
  let ?ctx = "PolicyContext_new ceiling ceiling overrides denied"
  have "bounded ceiling [] (abs_fields ?ctx)"
    by (simp add: bounded_def final_field_def last_of_def abs_fields_def field_of_def PolicyContext_new_def)
  from spec_run_bounded [OF this, of ops] perform_all_refines [of ?ctx ops] show ?thesis
    by (simp add: PolicyContext_new_def)
qed

end
