(* ===== verification/Paths.thy ===== *)
theory Paths
  imports Http
begin

text \<open>
  Paths: the part of Rust's \<open>std::path\<close> the supervisor uses, the normalisation of \<open>seccomp/notif.rs\<close>
  and the two path functions of \<open>chroot/resolve.rs\<close>. A path is its byte string. The lemmas show that the
  two normalisations agree, and what \<open>starts_with\<close> means on normalised paths.
\<close>

section \<open>std::path\<close>

datatype component = RootDir | CurDir | ParentDir | Normal string

definition is_absolute :: "string \<Rightarrow> bool" where
  "is_absolute s \<longleftrightarrow> s \<noteq> [] \<and> hd s = CHR ''/''"

definition component_of :: "string \<Rightarrow> component" where
  "component_of p = (if p = ''..'' then ParentDir else Normal p)"

definition normal_pieces :: "string \<Rightarrow> string list" where
  "normal_pieces s = filter (\<lambda>p. p \<noteq> [] \<and> p \<noteq> ''.'') (split_on CHR ''/'' s)"

definition path_components :: "string \<Rightarrow> component list" where
  "path_components s =
     (if is_absolute s then [RootDir]
      else if hd (split_on CHR ''/'' s) = ''.'' then [CurDir] else [])
     @ map component_of (normal_pieces s)"

definition path_starts_with :: "string \<Rightarrow> string \<Rightarrow> bool" where
  "path_starts_with p base \<longleftrightarrow> prefix (path_components base) (path_components p)"

text \<open>\<open>PathBuf::push\<close>, which is also \<open>Path::join\<close>.\<close>

definition path_push :: "string \<Rightarrow> string \<Rightarrow> string" where
  "path_push p c =
     (if is_absolute c then c
      else if p = [] \<or> last p = CHR ''/'' then p @ c
      else p @ CHR ''/'' # c)"

text \<open>\<open>PathBuf::pop\<close>, for paths without trailing or doubled separators.\<close>

definition path_pop :: "string \<Rightarrow> string" where
  "path_pop p =
     (if p = ''/'' then p
      else case rsplit_once CHR ''/'' p of
        None \<Rightarrow> []
      | Some (a, b) \<Rightarrow> if a = [] then ''/'' else a)"

text \<open>\<open>Path::parent\<close>: trailing separators do not count.\<close>

definition trim_slashes :: "string \<Rightarrow> string" where
  "trim_slashes p = (let q = rev (dropWhile (\<lambda>c. c = CHR ''/'') (rev p)) in
     if q = [] \<and> p \<noteq> [] then ''/'' else q)"

definition path_parent :: "string \<Rightarrow> string option" where
  "path_parent p = (let q = trim_slashes p in
     if q = [] \<or> q = ''/'' then None else Some (trim_slashes (path_pop q)))"

text \<open>\<open>Path::to_string_lossy\<close>: every maximal invalid sequence becomes U+FFFD. \<open>utf8_chunk\<close> gives the
  length of the first sequence and whether it is a character.\<close>

definition at_byte :: "string \<Rightarrow> nat \<Rightarrow> char" where
  "at_byte s i = (if i < length s then s ! i else CHR 0x00)"

definition utf8_chunk :: "string \<Rightarrow> nat \<times> bool" where
  "utf8_chunk s = (let a = at_byte s 0; b = at_byte s 1; c = at_byte s 2; d = at_byte s 3 in
     if between 0 0x7F a then (1, True)
     else if between 0xC2 0xDF a then (if between 0x80 0xBF b then (2, True) else (1, False))
     else if between 0xE0 0xEF a then
       (if \<not> between (if between 0xE0 0xE0 a then 0xA0 else 0x80)
                    (if between 0xED 0xED a then 0x9F else 0xBF) b then (1, False)
        else if \<not> between 0x80 0xBF c then (2, False) else (3, True))
     else if between 0xF0 0xF4 a then
       (if \<not> between (if between 0xF0 0xF0 a then 0x90 else 0x80)
                    (if between 0xF4 0xF4 a then 0x8F else 0xBF) b then (1, False)
        else if \<not> between 0x80 0xBF c then (2, False)
        else if \<not> between 0x80 0xBF d then (3, False) else (4, True))
     else (1, False))"

definition REPLACEMENT :: string where
  "REPLACEMENT = [CHR 0xEF, CHR 0xBF, CHR 0xBD]"

lemma utf8_chunk_pos: "0 < fst (utf8_chunk s)"
  by (simp add: utf8_chunk_def Let_def)

function to_string_lossy :: "string \<Rightarrow> string" where
  "to_string_lossy s = (if s = [] then [] else
     let (n, ok) = utf8_chunk s in
     (if ok then take n s else REPLACEMENT) @ to_string_lossy (drop n s))"
  by auto
termination
proof (relation "measure length")
  fix s :: string and x n ok
  assume "s \<noteq> []" "x = utf8_chunk s" "(n, ok) = x"
  with utf8_chunk_pos [of s] have "0 < n" by (metis fst_conv)
  with \<open>s \<noteq> []\<close> show "(drop n s, s) \<in> measure length" by simp
qed simp

declare to_string_lossy.simps [simp del]

section \<open>seccomp/notif.rs: normalize\_path\<close>

primrec normalize_component :: "string \<Rightarrow> component \<Rightarrow> string" where
  "normalize_component acc RootDir = acc"
| "normalize_component acc CurDir = acc"
| "normalize_component acc ParentDir = path_pop acc"
| "normalize_component acc (Normal part) = path_push acc part"

definition notif_normalize_path :: "string \<Rightarrow> string" where
  "notif_normalize_path path =
     (let absolute = is_absolute path;
          normalized = foldl normalize_component (if absolute then ''/'' else []) (path_components path)
      in if normalized = [] then (if absolute then ''/'' else ''.'') else to_string_lossy normalized)"

section \<open>chroot/resolve.rs: confine, to\_virtual\_path\<close>

definition confine :: "string \<Rightarrow> string" where
  "confine virtual_path =
     foldl path_push ''/'' (foldl push_segment [] (split_on CHR ''/'' virtual_path))"

text \<open>\<open>host_path.strip_prefix(chroot_root)\<close> gives the remaining components as a path.\<close>

primrec component_text :: "component \<Rightarrow> string" where
  "component_text RootDir = ''/''"
| "component_text CurDir = ''.''"
| "component_text ParentDir = ''..''"
| "component_text (Normal p) = p"

definition to_virtual_path :: "string \<Rightarrow> string \<Rightarrow> string option" where
  "to_virtual_path chroot_root host_path =
     (let r = path_components chroot_root; h = path_components host_path in
      if prefix r h
      then Some (path_push ''/'' (foldl path_push [] (map component_text (drop (length r) h))))
      else None)"

section \<open>The normalisations are one\<close>

text \<open>The path with the given segments below a root (the empty string for a relative path).\<close>

definition render :: "string \<Rightarrow> string list \<Rightarrow> string" where
  "render root segs = root @ join_with ''/'' segs"

lemma join_with_snoc:
  "join_with sep (ps @ [p]) = (if ps = [] then p else join_with sep ps @ sep @ p)"
  by (induction sep ps rule: join_with.induct) auto

lemma plain_relative: "plain_segment p \<Longrightarrow> \<not> is_absolute p"
  by (cases p) (auto simp: plain_segment_def is_absolute_def)

lemma join_plain_last:
  assumes "list_all plain_segment ps" "ps \<noteq> []"
  shows "join_with ''/'' ps \<noteq> [] \<and> last (join_with ''/'' ps) \<noteq> CHR ''/''"
proof -
  obtain qs q where [simp]: "ps = qs @ [q]" using assms(2) by (metis rev_exhaust)
  have "q \<noteq> []" "CHR ''/'' \<notin> set q" using assms(1) by (auto simp: plain_segment_def)
  then show ?thesis by (auto simp: join_with_snoc dest: last_in_set)
qed

lemma render_push:
  assumes "root \<in> {[], ''/''}" "list_all plain_segment ps" "plain_segment p"
  shows "path_push (render root ps) p = render root (ps @ [p])"
  using assms join_plain_last [OF assms(2)] plain_relative [OF assms(3)]
  by (cases "ps = []") (auto simp: path_push_def render_def join_with_snoc)

lemma rsplit_once_plain: "c \<notin> set b \<Longrightarrow> rsplit_once c (a @ c # b) = Some (a, b)"
  by (induction a) (simp_all add: rsplit_once_NoneD [THEN iffD2])

lemma render_pop:
  assumes "root \<in> {[], ''/''}" "list_all plain_segment ps"
  shows "path_pop (render root ps) = render root (butlast ps)"
proof (cases ps rule: rev_cases)
  case Nil
  then show ?thesis using assms(1) by (auto simp: render_def path_pop_def)
next
  case (snoc qs q)
  have q: "q \<noteq> []" "CHR ''/'' \<notin> set q" using assms(2) snoc by (auto simp: plain_segment_def)
  show ?thesis
  proof (cases "qs = []")
    case True
    with snoc q assms(1) show ?thesis
      using rsplit_once_plain [OF q(2), of "[]"]
      by (auto simp: render_def path_pop_def rsplit_once_NoneD [THEN iffD2])
  next
    case False
    have "path_pop (root @ join_with ''/'' qs @ CHR ''/'' # q) = root @ join_with ''/'' qs"
      using rsplit_once_plain [OF q(2), of "root @ join_with ''/'' qs"] False q
        join_plain_last [of qs] assms(2) snoc
      by (auto simp: path_pop_def)
    with False snoc show ?thesis by (simp add: render_def join_with_snoc)
  qed
qed

text \<open>The components of a path, as the stack machine of the HTTP rules sees its pieces.\<close>

lemma foldl_components:
  assumes "root \<in> {[], ''/''}" "list_all plain_segment st" "\<And>p. p \<in> set ps \<Longrightarrow> CHR ''/'' \<notin> set p"
  shows "foldl normalize_component (render root st)
      (map component_of (filter (\<lambda>p. p \<noteq> [] \<and> p \<noteq> ''.'') ps))
    = render root (foldl push_segment st ps)"
  using assms(2,3)
proof (induction ps arbitrary: st)
  case Nil
  then show ?case by simp
next
  case (Cons p ps)
  consider "p = [] \<or> p = ''.''" | "p = ''..''" | "plain_segment p"
    using Cons.prems(2) by (auto simp: plain_segment_def)
  then show ?case
  proof cases
    case 1
    with Cons show ?thesis by (auto simp: push_segment_ignored)
  next
    case 2
    have "push_segment st ''..'' = butlast st" by (simp add: push_segment_def)
    moreover have "list_all plain_segment (butlast st)"
      using Cons.prems(1) by (auto simp: list_all_iff dest: in_set_butlastD)
    ultimately show ?thesis
      using 2 Cons by (simp add: component_of_def render_pop [OF assms(1)])
  next
    case 3
    then have p: "p \<noteq> []" "p \<noteq> ''.''" "p \<noteq> ''..''" and push: "push_segment st p = st @ [p]"
      by (auto simp: push_segment_def plain_segment_def)
    have "list_all plain_segment (st @ [p])" using Cons.prems(1) 3 by simp
    with Cons.IH [of "st @ [p]"] Cons.prems p push show ?thesis
      by (simp add: component_of_def render_push [OF assms(1) Cons.prems(1) 3])
  qed
qed

definition resolved :: "string \<Rightarrow> string list" where
  "resolved s = resolve_segments (split_on CHR ''/'' s)"

lemma resolved_plain: "list_all plain_segment (resolved s)"
  unfolding resolved_def by (rule resolve_segments_plain)

lemma normalized_text:
  "foldl normalize_component (if is_absolute s then ''/'' else []) (path_components s)
     = render (if is_absolute s then ''/'' else []) (resolved s)"
proof -
  have "foldl normalize_component (render root []) (map component_of (normal_pieces s))
      = render root (resolved s)" if "root \<in> {[], ''/''}" for root
    unfolding normal_pieces_def resolved_def resolve_segments_def
    by (rule foldl_components [OF that]) (auto dest: split_on_pieces)
  then show ?thesis by (simp add: path_components_def render_def)
qed

lemma notif_normalize_absolute:
  "is_absolute s \<Longrightarrow> notif_normalize_path s = to_string_lossy (''/'' @ join_with ''/'' (resolved s))"
  using normalized_text [of s] by (simp add: notif_normalize_path_def Let_def render_def)

lemma foldl_push_render:
  "list_all plain_segment ps \<Longrightarrow> list_all plain_segment qs \<Longrightarrow>
     foldl path_push (render ''/'' qs) ps = render ''/'' (qs @ ps)"
  by (induction ps arbitrary: qs) (simp_all add: render_push)

lemma confine_text: "confine s = ''/'' @ join_with ''/'' (resolved s)"
  using foldl_push_render [OF resolved_plain [of s], of "[]"]
  by (simp add: confine_def resolved_def resolve_segments_def render_def)

lemma at_byte_simps [simp]:
  "at_byte (x # xs) 0 = x" "at_byte (x # xs) 1 = at_byte xs 0"
  "at_byte (x # xs) (Suc 0) = at_byte xs 0"
  "at_byte (x # xs) 2 = at_byte xs 1" "at_byte (x # xs) 3 = at_byte xs 2"
  by (simp_all add: at_byte_def nth_Cons')

lemma utf8_chunk_valid:
  assumes "utf8_valid s" "s \<noteq> []"
  shows "snd (utf8_chunk s) \<and> utf8_valid (drop (fst (utf8_chunk s)) s)"
proof -
  obtain a r where s: "s = a # r" using assms(2) by (cases s) auto
  consider "between 0 0x7F a"
    | "\<not> between 0 0x7F a" "between 0xC2 0xDF a"
    | "\<not> between 0 0x7F a" "\<not> between 0xC2 0xDF a" "between 0xE0 0xEF a"
    | "\<not> between 0 0x7F a" "\<not> between 0xC2 0xDF a" "\<not> between 0xE0 0xEF a"
    by blast
  then show ?thesis
  proof cases
    case 1
    with assms(1) s show ?thesis by (simp add: utf8_chunk_def Let_def)
  next
    case 2
    with assms(1) s obtain b r1 where "r = b # r1" by (cases r) auto
    with 2 assms(1) s show ?thesis by (simp add: utf8_chunk_def Let_def)
  next
    case 3
    with assms(1) s obtain b r1 where r: "r = b # r1" by (cases r) auto
    with 3 assms(1) s obtain c r2 where "r1 = c # r2" by (cases r1) auto
    with 3 assms(1) s r show ?thesis by (simp add: utf8_chunk_def Let_def)
  next
    case 4
    with assms(1) s obtain b r1 where r: "r = b # r1" by (cases r) auto
    with 4 assms(1) s obtain c r2 where r1: "r1 = c # r2" by (cases r1) auto
    with 4 assms(1) s r obtain d r3 where "r2 = d # r3" by (cases r2) auto
    with 4 assms(1) s r r1 show ?thesis by (simp add: utf8_chunk_def Let_def)
  qed
qed

lemma utf8_valid_append:
  assumes "between 0 0x7F c"
  shows "utf8_valid (a @ c # b) \<longleftrightarrow> utf8_valid a \<and> utf8_valid (c # b)"
proof (induction "length a" arbitrary: a rule: less_induct)
  case less
  have cont: "\<not> between 0x80 0xBF c" "\<not> between 0xA0 0xBF c" "\<not> between 0x80 0x9F c"
    "\<not> between 0x90 0xBF c" "\<not> between 0x80 0x8F c" "\<not> between 0xA0 0x9F c" "\<not> between 0x90 0x8F c"
    using assms by (auto simp: between_def)
  show ?case
  proof (cases a)
    case Nil
    then show ?thesis by simp
  next
    case a: (Cons x a1)
    have IH: "utf8_valid (r @ c # b) \<longleftrightarrow> utf8_valid r \<and> utf8_valid (c # b)" if "length r < length a" for r
      using less that by blast
    show ?thesis
    proof (cases a1)
      case Nil
      with a cont assms IH [of "[]"] show ?thesis by (auto split: list.splits)
    next
      case a1: (Cons y a2)
      show ?thesis
      proof (cases a2)
        case Nil
        with a a1 cont assms IH [of "[]"] IH [of "[y]"] show ?thesis by (auto split: list.splits)
      next
        case a2: (Cons z a3)
        show ?thesis
          using a a1 a2 cont IH [of a1] IH [of a2] IH [of a3] IH [of "tl a3"]
          by (cases a3) auto
      qed
    qed
  qed
qed

lemma lossy_valid: "utf8_valid s \<Longrightarrow> to_string_lossy s = s"
proof (induction s rule: to_string_lossy.induct)
  case (1 s)
  show ?case
  proof (cases "s = []")
    case True
    then show ?thesis by (simp add: to_string_lossy.simps)
  next
    case False
    obtain n ok where chunk: "utf8_chunk s = (n, ok)" by (rule prod.exhaust)
    with utf8_chunk_valid [OF "1.prems" False] have "ok" "utf8_valid (drop n s)" by simp_all
    with "1.IH" [OF False chunk [symmetric] refl] False chunk show ?thesis
      by (subst to_string_lossy.simps) simp
  qed
qed

lemma slash_ascii: "between 0 0x7F CHR ''/''"
  by (simp add: between_def)

lemma utf8_valid_pieces: "utf8_valid s \<Longrightarrow> p \<in> set (split_on CHR ''/'' s) \<Longrightarrow> utf8_valid p"
proof (induction "length s" arbitrary: s rule: less_induct)
  case less
  show ?case
  proof (cases "CHR ''/'' \<in> set s")
    case False
    with less.prems(2) less.prems(1) show ?thesis by (simp add: split_on_plain)
  next
    case True
    then obtain a b where s: "s = a @ CHR ''/'' # b" and a: "CHR ''/'' \<notin> set a"
      by (meson split_list_first)
    have "utf8_valid a" "utf8_valid b"
      using less.prems(1) s utf8_valid_append [OF slash_ascii, of a b] slash_ascii by auto
    with less.hyps [of b] less.prems(2) s a show ?thesis
      by (auto simp: split_on_append split_on_plain)
  qed
qed

lemma set_push_segments: "set (foldl push_segment st ps) \<subseteq> set st \<union> set ps"
  by (induction ps arbitrary: st)
    (fastforce simp: push_segment_def dest: in_set_butlastD split: if_splits)+

lemma utf8_valid_join:
  "(\<And>p. p \<in> set ps \<Longrightarrow> utf8_valid p) \<Longrightarrow> utf8_valid (join_with ''/'' ps)"
proof (induction "''/''" ps rule: join_with.induct)
  case (3 p q ps)
  then show ?case
    using utf8_valid_append [OF slash_ascii, of p "join_with ''/'' (q # ps)"] slash_ascii by simp
qed auto

lemma utf8_valid_confine:
  assumes "utf8_valid s"
  shows "utf8_valid (confine s)"
proof -
  have "utf8_valid p" if "p \<in> set (resolved s)" for p
    using that utf8_valid_pieces [OF assms] set_push_segments [of "[]" "split_on CHR ''/'' s"]
    by (auto simp: resolved_def resolve_segments_def)
  then have "utf8_valid (join_with ''/'' (resolved s))" by (rule utf8_valid_join)
  then show ?thesis using slash_ascii by (simp add: confine_text)
qed

section \<open>Components of normalised paths\<close>

lemma split_render:
  assumes "list_all plain_segment ps"
  shows "normal_pieces (''/'' @ join_with ''/'' ps) = ps"
proof (cases "ps = []")
  case True
  then show ?thesis by (simp add: normal_pieces_def)
next
  case False
  have "split_on CHR ''/'' (join_with ''/'' ps) = ps"
    using assms by (intro split_on_join [OF False]) (auto simp: list_all_iff plain_segment_def)
  moreover have "filter (\<lambda>p. p \<noteq> [] \<and> p \<noteq> ''.'') ps = ps"
    using assms by (auto simp: filter_id_conv list_all_iff plain_segment_def)
  ultimately show ?thesis by (simp add: normal_pieces_def)
qed

lemma map_component_plain: "list_all plain_segment ps \<Longrightarrow> map component_of ps = map Normal ps"
  by (auto simp: list_all_iff component_of_def plain_segment_def)

lemma components_render:
  assumes "list_all plain_segment ps"
  shows "path_components (''/'' @ join_with ''/'' ps) = RootDir # map Normal ps"
  using split_render [OF assms] map_component_plain [OF assms]
  by (simp add: path_components_def is_absolute_def)

lemma components_confine: "path_components (confine s) = RootDir # map Normal (resolved s)"
  unfolding confine_text by (rule components_render) (rule resolved_plain)

lemma resolved_confine: "resolved (confine s) = resolved s"
proof -
  have "foldl push_segment [] (filter (\<lambda>p. p \<noteq> [] \<and> p \<noteq> ''.'') ps) = foldl push_segment [] ps" for ps
    by (induction ps rule: rev_induct) (auto simp: push_segment_ignored)
  then have "resolved (confine s) = foldl push_segment [] (normal_pieces (confine s))"
    by (simp add: resolved_def resolve_segments_def normal_pieces_def)
  also have "\<dots> = resolved s"
    unfolding confine_text split_render [OF resolved_plain] foldl_push_id [OF resolved_plain] by simp
  finally show ?thesis .
qed

lemma components_trailing: "path_components (p @ ''/'') = path_components p" if "is_absolute p"
proof -
  have "split_on CHR ''/'' (p @ ''/'') = split_on CHR ''/'' p @ [[]]"
    using split_on_append [of "CHR ''/''" p "[]"] by simp
  moreover have "is_absolute (p @ ''/'')" using that by (simp add: is_absolute_def)
  ultimately show ?thesis using that by (simp add: path_components_def normal_pieces_def)
qed

lemma push_confined:
  "path_components (path_push (confine r) (join_with ''/'' ps)) = RootDir # map Normal (resolved r @ ps)"
  if ps: "list_all plain_segment ps"
proof (cases "ps = []")
  case True
  have "path_push (confine r) [] \<in> {confine r, confine r @ ''/''}"
    by (simp add: path_push_def is_absolute_def)
  moreover have "is_absolute (confine r)" by (simp add: confine_text is_absolute_def)
  ultimately show ?thesis
    using True components_confine components_trailing by auto
next
  case False
  have rel: "\<not> is_absolute (join_with ''/'' ps)"
  proof -
    obtain q qs where "ps = q # qs" using False by (cases ps) auto
    with ps show ?thesis
      by (cases qs; cases q) (auto simp: is_absolute_def plain_segment_def)
  qed
  have "join_with ''/'' (as @ bs) = (if as = [] then join_with ''/'' bs
      else join_with ''/'' as @ ''/'' @ join_with ''/'' bs)" if "bs \<noteq> []" for as bs :: "string list"
    using that by (induction "''/''" as rule: join_with.induct) (auto simp: neq_Nil_conv)
  from this [OF False, of "resolved r"]
  have "path_push (confine r) (join_with ''/'' ps) = ''/'' @ join_with ''/'' (resolved r @ ps)"
    using rel join_plain_last [OF resolved_plain, of r]
    by (cases "resolved r = []") (auto simp: path_push_def confine_text)
  then show ?thesis
    using components_render [of "resolved r @ ps"] resolved_plain [of r] ps by simp
qed

lemma foldl_push_relative:
  "list_all plain_segment ps \<Longrightarrow> foldl path_push [] ps = join_with ''/'' ps"
proof (induction ps rule: rev_induct)
  case (snoc p ps)
  then show ?case
    using render_push [of "[]" ps p] by (simp add: render_def)
qed simp

section \<open>Properties\<close>

text \<open>
  one normalisation. The supervisor's normalisation of an absolute path is the chroot's confinement
  of it; confining gives a slash and plain segments, stays below the root, and does nothing the
  second time.
\<close>

theorem normalisations_agree:
  assumes "is_absolute s"
  shows "notif_normalize_path s = to_string_lossy (confine s)
    \<and> confine (confine s) = confine s
    \<and> path_components (confine s) = RootDir # map Normal (resolved s)
    \<and> list_all plain_segment (resolved s)"
  using notif_normalize_absolute [OF assms] resolved_plain components_confine
  by (simp add: confine_text [of "confine s"] resolved_confine confine_text [of s, symmetric])
    (simp add: confine_text)

theorem normalisations_agree_witness:
  "notif_normalize_path ''/a/./b/../../../etc//passwd'' = ''/etc/passwd''
   \<and> confine ''/a/./b/../../../etc//passwd'' = ''/etc/passwd''"
proof -
  have "confine ''/a/./b/../../../etc//passwd'' = ''/etc/passwd''" by code_simp
  moreover have "to_string_lossy ''/etc/passwd'' = ''/etc/passwd''"
    by (rule lossy_valid) code_simp
  moreover have "is_absolute ''/a/./b/../../../etc//passwd''" by (simp add: is_absolute_def)
  ultimately show ?thesis
    using normalisations_agree [of "''/a/./b/../../../etc//passwd''"] by simp
qed

text \<open>
  C31: the host path of a virtual path maps back to it. For a root in normal form and any virtual
  path, joining the confined path to the root and stripping the root again gives the confined path.
\<close>

theorem virtual_path_roundtrip:
  "to_virtual_path (confine r) (path_push (confine r) (drop 1 (confine v))) = Some (confine v)"
proof -
  have host: "path_components (path_push (confine r) (drop 1 (confine v)))
      = RootDir # map Normal (resolved r @ resolved v)"
    using push_confined [OF resolved_plain [of v], of r] by (simp add: confine_text [of v])
  have "foldl path_push [] (resolved v) = join_with ''/'' (resolved v)"
    by (rule foldl_push_relative [OF resolved_plain])
  moreover have "path_push ''/'' (join_with ''/'' (resolved v)) = confine v"
  proof (cases "resolved v")
    case Nil
    then show ?thesis by (simp add: confine_text path_push_def is_absolute_def)
  next
    case (Cons q qs)
    then have "\<not> is_absolute (join_with ''/'' (resolved v))"
      using resolved_plain [of v]
      by (cases qs; cases q) (auto simp: is_absolute_def plain_segment_def)
    then show ?thesis by (simp add: confine_text path_push_def)
  qed
  moreover have "map component_text (map Normal ps) = ps" for ps by (simp add: comp_def)
  ultimately show ?thesis
    unfolding to_virtual_path_def host components_confine by (simp add: Let_def comp_def)
qed

end
