(* ===== verification/PathDenial.thy ===== *)
theory PathDenial
  imports Paths PolicyFn ProcIndex
begin

text \<open>
  The check of denied paths (\<open>seccomp/notif.rs\<close>, \<open>seccomp/state.rs\<close>): which path a notification names,
  read from the child's memory and resolved against its directories in \<open>/proc\<close>, and whether that path,
  or the file it leads to, lies below a denied one.
\<close>

section \<open>Denied paths\<close>

record policy_fn_state =
  pf_event_tx :: bool
  pf_live_policy :: "live_policy option"
  pf_denied_paths :: "string set"

definition PolicyFnState_new :: policy_fn_state where
  "PolicyFnState_new = \<lparr>pf_event_tx = False, pf_live_policy = None, pf_denied_paths = {}\<rparr>"

definition is_path_denied :: "policy_fn_state \<Rightarrow> string \<Rightarrow> bool" where
  "is_path_denied st path \<longleftrightarrow> (\<exists>d\<in>pf_denied_paths st. path_starts_with path d)"

definition is_denied_with_symlink_resolve :: "policy_fn_state \<Rightarrow> string \<Rightarrow> bool prog" where
  "is_denied_with_symlink_resolve st path =
     (if is_path_denied st path then Done True
      else pbind (syscall (KCanonicalize path)) (\<lambda>x. Done (case x of
        Inl _ \<Rightarrow> False
      | Inr (_, real) \<Rightarrow> is_path_denied st (to_string_lossy (string_of_bytes real)))))"

section \<open>The path of a notification\<close>

abbreviation (input) AT_FDCWD :: int where "AT_FDCWD \<equiv> - 100"

definition read_path_for_event :: "seccomp_notif \<Rightarrow> u64 \<Rightarrow> string option prog" where
  "read_path_for_event n addr =
     (if addr = 0 then Done None
      else pbind (read_child_mem (notif_id n) (notif_pid n) addr 256) (\<lambda>r. Done (case r of
        Inl _ \<Rightarrow> None | Inr bs \<Rightarrow> from_utf8 (until_nul bs))))"

definition proc_dir :: "u32 \<Rightarrow> string" where
  "proc_dir pid = ''/proc/'' @ show_nat (unat pid)"

definition resolve_at_path_for_event :: "seccomp_notif \<Rightarrow> u64 \<Rightarrow> string \<Rightarrow> string option prog" where
  "resolve_at_path_for_event n dirfd path =
     (if is_absolute path then Done (Some (notif_normalize_path path))
      else let dirfd32 = as_i32 dirfd in
        pbind (syscall (KReadlink (proc_dir (notif_pid n)
            @ (if dirfd32 = AT_FDCWD then ''/cwd'' else ''/fd/'' @ show_int dirfd32)))) (\<lambda>x. Done (case x of
          Inl _ \<Rightarrow> None
        | Inr (_, base) \<Rightarrow> Some (notif_normalize_path (path_push (string_of_bytes base) path)))))"

text \<open>\<open>libc::AT_FDCWD as i64\<close>, passed where the call has no directory argument.\<close>

definition cwd_arg :: u64 where "cwd_arg = word_of_int AT_FDCWD"

definition resolve_arg :: "seccomp_notif \<Rightarrow> u64 \<Rightarrow> u64 \<Rightarrow> string option prog" where
  "resolve_arg n dirfd addr =
     pbind (read_path_for_event n addr) (\<lambda>p. case p of
       None \<Rightarrow> Done None | Some path \<Rightarrow> resolve_at_path_for_event n dirfd path)"

definition resolve_path_for_notif :: "seccomp_notif \<Rightarrow> string option prog" where
  "resolve_path_for_notif n =
     (let nr = notif_nr n in
      if nr = SYS_openat then resolve_arg n (arg n 0) (arg n 1)
      else if nr = SYS_open \<or> nr = SYS_execve then resolve_arg n cwd_arg (arg n 0)
      else if nr = SYS_execveat then resolve_arg n (arg n 0) (arg n 1)
      else if nr = SYS_linkat then resolve_arg n (arg n 0) (arg n 1)
      else if nr = SYS_renameat2 then resolve_arg n (arg n 0) (arg n 1)
      else if nr = SYS_symlinkat then resolve_arg n cwd_arg (arg n 0)
      else if nr = SYS_link then resolve_arg n cwd_arg (arg n 0)
      else if nr = SYS_rename then resolve_arg n cwd_arg (arg n 0)
      else if nr = SYS_symlink then resolve_arg n cwd_arg (arg n 0)
      else Done None)"

definition resolve_second_path_for_notif :: "seccomp_notif \<Rightarrow> string option prog" where
  "resolve_second_path_for_notif n =
     (let nr = notif_nr n in
      if nr = SYS_renameat2 then resolve_arg n (arg n 2) (arg n 3)
      else if nr = SYS_linkat then resolve_arg n (arg n 2) (arg n 3)
      else if nr = SYS_rename then resolve_arg n cwd_arg (arg n 1)
      else if nr = SYS_link then resolve_arg n cwd_arg (arg n 1)
      else Done None)"

definition denied_if_some :: "policy_fn_state \<Rightarrow> string option \<Rightarrow> bool prog" where
  "denied_if_some st p = (case p of None \<Rightarrow> Done False | Some path \<Rightarrow> is_denied_with_symlink_resolve st path)"

definition is_path_denied_for_notif :: "policy_fn_state \<Rightarrow> seccomp_notif \<Rightarrow> bool prog" where
  "is_path_denied_for_notif st n =
     pbind (pbind (resolve_path_for_notif n) (denied_if_some st)) (\<lambda>d.
       if d then Done True
       else pbind (resolve_second_path_for_notif n) (denied_if_some st))"

section \<open>What is checked\<close>

lemma starts_with_resolved:
  assumes "is_absolute d" "is_absolute s" "normal_pieces d = resolved d"
  shows "path_starts_with (confine s) d \<longleftrightarrow> prefix (resolved d) (resolved s)"
proof -
  have "path_components d = RootDir # map Normal (resolved d)"
    using assms(1,3) map_component_plain [OF resolved_plain [of d]] by (simp add: path_components_def)
  moreover have "prefix (map Normal xs) (map Normal ys) \<longleftrightarrow> prefix xs ys" for xs ys
    by (metis map_mono_prefix prefix_map_rightE component.inject inj_onI list.inj_map_strong map_injective inj_def)
  ultimately show ?thesis by (simp add: path_starts_with_def components_confine)
qed

text \<open>The argument with the path of a call that opens or executes one.\<close>

definition opening_path :: "seccomp_notif \<Rightarrow> u64" where
  "opening_path n =
     (if notif_nr n = SYS_openat \<or> notif_nr n = SYS_execveat then arg n 1 else arg n 0)"

definition opens_path :: "seccomp_notif \<Rightarrow> bool" where
  "opens_path n \<longleftrightarrow> notif_nr n \<in> {SYS_openat, SYS_open, SYS_execve, SYS_execveat} \<and> opening_path n \<noteq> 0"

text \<open>What the 256 bytes read from there contain before the first NUL.\<close>

definition reads_path :: "(sysreq \<Rightarrow> sysres) \<Rightarrow> seccomp_notif \<Rightarrow> string \<Rightarrow> bool" where
  "reads_path M n p \<longleftrightarrow> \<not> isl (M (KIdValid (notif_id n)))
     \<and> (\<exists>y raw. M (KReadVm (notif_pid n) (opening_path n) 256) = Inr (y, raw)
          \<and> until_nul (take 256 raw) = bytes_of_string p)"

lemma eval_opening:
  assumes "opens_path n" "reads_path M n p" "utf8_valid p" "is_absolute p"
  shows "eval M (is_path_denied_for_notif st n) =
    (is_path_denied st (confine p)
     \<or> (\<exists>y real. M (KCanonicalize (confine p)) = Inr (y, real)
           \<and> is_path_denied st (to_string_lossy (string_of_bytes real))))"
proof -
  obtain z where id: "M (KIdValid (notif_id n)) = Inr z"
    using assms(2) by (cases "M (KIdValid (notif_id n))") (auto simp: reads_path_def)
  obtain y raw where mem: "M (KReadVm (notif_pid n) (opening_path n) 256) = Inr (y, raw)"
    and raw: "until_nul (take 256 raw) = bytes_of_string p"
    using assms(2) unfolding reads_path_def by blast
  have "eval M (read_path_for_event n (opening_path n)) = Some p"
    using assms(1,3) raw eval_read_child_mem [of M "notif_id n" z "notif_pid n" "opening_path n" 256 y raw, OF id mem]
    by (simp add: read_path_for_event_def opens_path_def from_utf8_def Let_def)
  then have resolve: "eval M (resolve_arg n dirfd (opening_path n)) = Some (notif_normalize_path p)" for dirfd
    using assms(4) by (simp add: resolve_arg_def resolve_at_path_for_event_def)
  have norm: "notif_normalize_path p = confine p"
    using notif_normalize_absolute [OF assms(4)] lossy_valid [OF utf8_valid_confine [OF assms(3)]]
    by (simp add: confine_text)
  have first: "eval M (resolve_path_for_notif n) = Some (confine p)"
    using assms(1) resolve unfolding norm by (auto simp: opens_path_def opening_path_def resolve_path_for_notif_def)
  have second: "eval M (resolve_second_path_for_notif n) = None"
    using assms(1) by (auto simp: opens_path_def resolve_second_path_for_notif_def)
  show ?thesis
    by (auto simp: is_path_denied_for_notif_def first second denied_if_some_def
        is_denied_with_symlink_resolve_def split: sum.split)
qed

section \<open>Properties\<close>


text \<open>
  only 256 bytes of a path are looked at. A path that starts with 256 slashes, whatever follows
  them, passes the check as long as the root directory itself is not denied.
\<close>

theorem padded_path_not_denied:
  assumes "opens_path n" "\<not> isl (M (KIdValid (notif_id n)))"
    and "M (KReadVm (notif_pid n) (opening_path n) 256) = Inr (y, replicate 256 0x2F @ rest)"
    and "M (KCanonicalize ''/'') = Inr (z, [0x2F])"
    and "\<And>d. d \<in> pf_denied_paths st \<Longrightarrow> \<not> path_starts_with ''/'' d"
  shows "\<not> eval M (is_path_denied_for_notif st n)"
proof -
  let ?p = "replicate 256 CHR ''/''"
  have "until_nul (replicate k 0x2F) = bytes_of_string (replicate k CHR ''/'')" for k
    by (induction k) (simp_all add: until_nul_def bytes_of_string_def)
  then have reads: "reads_path M n ?p"
    using assms(2,3) unfolding reads_path_def by simp
  have "utf8_valid (replicate k CHR ''/'')" for k
    by (induction k) (simp_all add: between_def)
  moreover have "is_absolute ?p" by (simp add: is_absolute_def)
  moreover have "split_on CHR ''/'' (replicate k CHR ''/'') = replicate (Suc k) []" for k
    by (induction k) simp_all
  then have "confine ?p = ''/''"
  proof -
    have "foldl push_segment [] (replicate k []) = []" for k
      by (induction k) (simp_all add: push_segment_ignored)
    then show ?thesis
      using \<open>\<And>k. split_on CHR ''/'' (replicate k CHR ''/'') = replicate (Suc k) []\<close> [of 256]
      by (simp only: confine_text resolved_def resolve_segments_def) simp
  qed
  moreover have "to_string_lossy (string_of_bytes [0x2F]) = ''/''"
    by code_simp
  ultimately show ?thesis
    using eval_opening [OF assms(1) reads, of st] assms(4,5) by (auto simp: is_path_denied_def)
qed

text \<open>The witnesses open \<open>/tmp/../etc//shadow\<close>, and the same file behind 256 slashes.\<close>

definition open_notif :: seccomp_notif where
  "open_notif = \<lparr>notif_id = 1, notif_pid = 100, notif_flags = 0,
     notif_data = \<lparr>nr_of = SYS_openat, arch_of = AUDIT_ARCH, ip_of = 0, args_of = [0, 0x7000, 0, 0]\<rparr>\<rparr>"

definition shadow_denied :: policy_fn_state where
  "shadow_denied = PolicyFnState_new\<lparr>pf_denied_paths := {''/etc/shadow''}\<rparr>"

definition memory_at :: "bytes \<Rightarrow> sysreq \<Rightarrow> sysres" where
  "memory_at bs r = (case r of
     KIdValid i \<Rightarrow> Inr (0, [])
   | KReadVm p a len \<Rightarrow> Inr (0, bs)
   | KCanonicalize f \<Rightarrow> Inr (0, [0x2F])
   | _ \<Rightarrow> Inl 2)"

lemma opens_open_notif: "opens_path open_notif"
  by (simp add: open_notif_def opens_path_def opening_path_def notif_nr_def arg_def)


theorem padded_path_not_denied_witness:
  "\<not> eval (memory_at (replicate 256 0x2F @ bytes_of_string ''etc/shadow'' @ [0]))
     (is_path_denied_for_notif shadow_denied open_notif)"
proof (rule padded_path_not_denied [OF opens_open_notif])
  have "\<not> path_starts_with ''/'' ''/etc/shadow''" by code_simp
  then show "\<not> path_starts_with ''/'' d" if "d \<in> pf_denied_paths shadow_denied" for d
    using that by (simp add: shadow_denied_def PolicyFnState_new_def)
qed (simp_all add: memory_at_def)

end
