(* ===== verification/Events.thy ===== *)
theory Events
  imports PathDenial Resource
begin

text \<open>
  The event shown to the policy callback (\<open>seccomp/notif.rs\<close>): names and categories of system calls, what
  is read from the child and from \<open>/proc\<close> to fill the event in, and the callback's verdict. Slices that
  the source takes without a length check panic when they are too short; a panic is a result here.
\<close>

section \<open>Outcomes\<close>

text \<open>\<open>Blocked\<close> is a run that has not ended within the fuel of the waits it makes.\<close>

datatype 'a outcome = Panicked | Blocked | Finished 'a

definition and_then :: "'a outcome prog \<Rightarrow> ('a \<Rightarrow> 'b outcome prog) \<Rightarrow> 'b outcome prog" where
  "and_then p f = pbind p (\<lambda>r. case r of
     Panicked \<Rightarrow> Done Panicked | Blocked \<Rightarrow> Done Blocked | Finished a \<Rightarrow> f a)"

section \<open>Names and categories\<close>

definition syscall_name :: "int \<Rightarrow> string" where
  "syscall_name nr =
     (if nr = SYS_openat then ''openat''
      else if nr = SYS_connect then ''connect''
      else if nr = SYS_sendto then ''sendto''
      else if nr = SYS_sendmsg then ''sendmsg''
      else if nr = SYS_sendmmsg then ''sendmmsg''
      else if nr = SYS_bind then ''bind''
      else if nr = SYS_clone then ''clone''
      else if nr = SYS_clone3 then ''clone3''
      else if nr = SYS_vfork then ''vfork''
      else if nr = SYS_fork then ''fork''
      else if nr = SYS_execve then ''execve''
      else if nr = SYS_execveat then ''execveat''
      else if nr = SYS_mmap then ''mmap''
      else if nr = SYS_munmap then ''munmap''
      else if nr = SYS_brk then ''brk''
      else if nr = SYS_getrandom then ''getrandom''
      else if nr = SYS_unlinkat then ''unlinkat''
      else if nr = SYS_mkdirat then ''mkdirat''
      else ''unknown'')"

definition syscall_category :: "int \<Rightarrow> SyscallCategory" where
  "syscall_category nr =
     (if nr \<in> {SYS_openat, SYS_unlinkat, SYS_mkdirat, SYS_renameat2, SYS_symlinkat, SYS_linkat,
               SYS_fchmodat, SYS_fchownat, SYS_truncate, SYS_readlinkat, SYS_newfstatat, SYS_statx,
               SYS_faccessat, SYS_getdents64, SYS_getdents} then FileCategory
      else if nr \<in> {SYS_connect, SYS_sendto, SYS_sendmsg, SYS_sendmmsg, SYS_bind, SYS_getsockname}
        then NetworkCategory
      else if nr \<in> {SYS_clone, SYS_clone3, SYS_vfork, SYS_fork, SYS_execve, SYS_execveat}
        then ProcessCategory
      else if nr \<in> {SYS_mmap, SYS_munmap, SYS_brk, SYS_mremap} then MemoryCategory
      else FileCategory)"

section \<open>What the event is filled with\<close>

text \<open>\<open>read_ppid\<close>: the second field after the last closing parenthesis and the character after it.\<close>

definition ppid_field :: "string \<Rightarrow> u32 option outcome" where
  "ppid_field stat = (case rsplit_once CHR '')'' stat of
     None \<Rightarrow> Finished None
   | Some (_, rest) \<Rightarrow>
       if rest = [] then Panicked
       else let fields = split_whitespace (tl rest) in
         Finished (if 1 < length fields then parse_u32 (fields ! 1) else None))"

definition read_ppid :: "u32 \<Rightarrow> u32 option outcome prog" where
  "read_ppid pid = pbind (syscall (KReadFile (proc_dir pid @ ''/stat''))) (\<lambda>x. Done (case x of
     Inl _ \<Rightarrow> Finished None
   | Inr (_, content) \<Rightarrow> (case from_utf8 content of None \<Rightarrow> Finished None | Some stat \<Rightarrow> ppid_field stat)))"

definition sockaddr_event :: "bytes \<Rightarrow> ip_addr option \<times> u16 option" where
  "sockaddr_event bs =
     (if length bs < 4 then (None, None)
      else let family = u16_from_ne (bs ! 0) (bs ! 1); port = u16_from_be (bs ! 2) (bs ! 3) in
        (if family = AF_INET \<and> length bs \<ge> 8 then Some (V4 (bs ! 4) (bs ! 5) (bs ! 6) (bs ! 7))
         else if family = AF_INET6 \<and> length bs \<ge> 24 then Some (V6 (subslice 8 24 bs))
         else None,
         if port > 0 then Some port else None))"

definition read_sockaddr_for_event ::
  "seccomp_notif \<Rightarrow> u64 \<Rightarrow> u64 \<Rightarrow> (ip_addr option \<times> u16 option) prog" where
  "read_sockaddr_for_event n addr len =
     (if addr = 0 \<or> len < 4 then Done (None, None)
      else pbind (read_child_mem (notif_id n) (notif_pid n) addr (min (unat len) 128)) (\<lambda>r. Done (case r of
        Inl _ \<Rightarrow> (None, None) | Inr bs \<Rightarrow> sockaddr_event bs)))"

text \<open>The loop of \<open>read_argv_for_event\<close>, with the entries left to read. A pointer that is read only in
  part makes \<open>ptr_bytes[..8]\<close> panic.\<close>

primrec read_argv_loop :: "nat \<Rightarrow> seccomp_notif \<Rightarrow> u64 \<Rightarrow> string list \<Rightarrow> string list option outcome prog" where
  "read_argv_loop 0 n ptr_addr args = Done (Finished (Some args))"
| "read_argv_loop (Suc k) n ptr_addr args =
     pbind (read_child_mem (notif_id n) (notif_pid n) ptr_addr 8) (\<lambda>r. case r of
       Inl _ \<Rightarrow> Done (Finished None)
     | Inr bs \<Rightarrow>
         if length bs < 8 then Done Panicked
         else let str_ptr = le_word (take 8 bs) :: u64 in
           if str_ptr = 0 then Done (Finished (Some args))
           else pbind (read_path_for_event n str_ptr) (\<lambda>s. case s of
               Some a \<Rightarrow> read_argv_loop k n (ptr_addr + 8) (args @ [a])
             | None \<Rightarrow> Done (Finished (Some args))))"

definition read_argv_for_event :: "seccomp_notif \<Rightarrow> u64 \<Rightarrow> string list option outcome prog" where
  "read_argv_for_event n argv_ptr =
     (if argv_ptr = 0 then Done (Finished None)
      else and_then (read_argv_loop 64 n argv_ptr []) (\<lambda>r. Done (Finished (case r of
        Some args \<Rightarrow> if args = [] then None else Some args
      | None \<Rightarrow> None))))"

section \<open>Emitting the event\<close>

datatype verdict = Allow | Audit | Deny | DenyWith int

text \<open>The answer to a held event: none within five seconds or a closed channel, a plain verdict by its
  position, or the errno of \<open>DenyWith\<close>, marked by a byte.\<close>

definition verdict_of :: "sysres \<Rightarrow> verdict option" where
  "verdict_of x = (case x of
     Inl _ \<Rightarrow> None
   | Inr (code, mark) \<Rightarrow>
       Some (if mark \<noteq> [] then DenyWith code
             else if code = 1 then Audit else if code = 2 then Deny else Allow))"

definition is_held :: "int \<Rightarrow> bool" where
  "is_held nr \<longleftrightarrow> nr = SYS_execve \<or> nr = SYS_execveat \<or> nr = SYS_connect \<or> nr = SYS_sendto
     \<or> nr = SYS_bind \<or> nr = SYS_openat"

definition is_errno :: "notif_action \<Rightarrow> bool" where
  "is_errno a = (case a of Errno _ \<Rightarrow> True | _ \<Rightarrow> False)"

definition send_event ::
  "seccomp_notif \<Rightarrow> bool \<Rightarrow> u32 option \<Rightarrow> string list option \<Rightarrow> verdict option outcome prog" where
  "send_event n denied parent_pid argv =
     (let nr = notif_nr n in
      pbind (if nr = SYS_connect \<or> nr = SYS_sendto \<or> nr = SYS_bind
             then read_sockaddr_for_event n (arg n 1) (arg n 2)
             else Done (None, None)) (\<lambda>(host, port).
      let event = \<lparr>ev_syscall = syscall_name nr, ev_category = syscall_category nr,
            ev_pid = notif_pid n, ev_parent_pid = parent_pid, ev_host = host, ev_port = port,
            ev_size = (if nr = SYS_mmap then Some (arg n 1) else None), ev_argv = argv,
            ev_denied = denied\<rparr>
      in if is_held nr
         then pbind (syscall (KPolicyEvent event True)) (\<lambda>x. Done (Finished (verdict_of x)))
         else pbind (syscall (KPolicyEvent event False)) (\<lambda>_. Done (Finished None))))"

definition emit_policy_event ::
  "seccomp_notif \<Rightarrow> notif_action \<Rightarrow> policy_fn_state \<Rightarrow> verdict option outcome prog" where
  "emit_policy_event n action pfs =
     (if \<not> pf_event_tx pfs then Done (Finished None)
      else
      let nr = notif_nr n; denied = is_errno action in
      and_then (read_ppid (notif_pid n)) (\<lambda>parent_pid.
      and_then (if \<not> denied \<and> (nr = SYS_execve \<or> nr = SYS_execveat)
                then read_argv_for_event n (if nr = SYS_execveat then arg n 2 else arg n 1)
                else Done (Finished None))
        (send_event n denied parent_pid)))"

text \<open>\<open>SyscallEvent::argv_contains\<close>\<close>

definition argv_contains :: "syscall_event \<Rightarrow> string \<Rightarrow> bool" where
  "argv_contains ev s = (case ev_argv ev of
     None \<Rightarrow> False | Some args \<Rightarrow> list_ex (\<lambda>a. sublist s a) args)"

end
