(* ===== verification/Notification.thy ===== *)
theory Notification
  imports NetHandlers Tracking Dispatch Events
begin

text \<open>
  The life of one notification (\<open>seccomp/notif.rs\<close>, \<open>handle_notification\<close>): registration of the caller,
  the check of denied paths, dispatch, the freeze around \<open>execve\<close>, the policy event and its verdict, the
  tracking of a fork-like call, the response and the release. What the handlers do is the argument
  \<open>disp\<close>; what the properties need of them is the locale \<open>supervised\<close>. Effects of the callback's answer
  on the shared policy fall between notifications.
\<close>

section \<open>State\<close>

text \<open>\<open>SupervisorCtx\<close>, as far as the notification loop uses it; the record can be extended by the state
  of further handlers.\<close>

record supervisor =
  sv_processes :: process_index
  sv_resource :: resource_state
  sv_network :: network_state
  sv_policy_fn :: policy_fn_state
  sv_vdso_patched_addr :: int

definition maybe_patch_vdso :: "notif_policy \<Rightarrow> int \<Rightarrow> int \<Rightarrow> int prog" where
  "maybe_patch_vdso policy pid patched =
     pbind (syscall (KVdsoBase pid)) (\<lambda>x. case x of
       Inl _ \<Rightarrow> Done patched
     | Inr (base, _) \<Rightarrow>
         if base = patched then Done patched
         else pbind (syscall (KVdsoPatch pid
               (if np_has_time_start policy then Some (np_time_offset policy) else None)
               (np_has_random_seed policy)))
             (\<lambda>x. Done (case x of Inl _ \<Rightarrow> patched | Inr _ \<Rightarrow> base)))"

section \<open>The action\<close>

type_synonym 's dispatcher = "seccomp_notif \<Rightarrow> 's \<Rightarrow> (notif_action \<times> 's) prog"

definition path_check_nrs :: "int list" where
  "path_check_nrs = [SYS_openat, SYS_execve, SYS_execveat, SYS_linkat, SYS_renameat2, SYS_symlinkat,
     SYS_open, SYS_link, SYS_rename, SYS_symlink]"

definition decide_action ::
  "'x supervisor_scheme dispatcher \<Rightarrow> notif_policy \<Rightarrow> seccomp_notif \<Rightarrow> 'x supervisor_scheme
     \<Rightarrow> (notif_action \<times> 'x supervisor_scheme) prog" where
  "decide_action disp policy n sv =
     (if np_chroot_root policy = None \<and> notif_nr n \<in> set path_check_nrs then
        pbind (is_path_denied_for_notif (sv_policy_fn sv) n) (\<lambda>denied.
          if denied then Done (Errno EACCES, sv) else disp n sv)
      else disp n sv)"

text \<open>The freeze; a failure turns the action into an error.\<close>

definition freeze_for_exec ::
  "(int list \<Rightarrow> int list) \<Rightarrow> notif_policy \<Rightarrow> seccomp_notif \<Rightarrow> process_index \<Rightarrow> notif_action
     \<Rightarrow> (notif_action \<times> SandboxFreeze option) prog" where
  "freeze_for_exec order policy n ix action =
     (if action = Continue \<and> np_argv_safety_required policy \<and> requires_freeze_on_continue (notif_nr n)
      then pbind (freeze_sandbox_for_execve order ix (sint (notif_pid n))) (\<lambda>r. Done (case r of
          Inr outcome \<Rightarrow> (action, Some outcome)
        | Inl _ \<Rightarrow> (Errno EPERM, None)))
      else Done (action, None))"

definition apply_verdict :: "verdict option \<Rightarrow> notif_action \<Rightarrow> notif_action" where
  "apply_verdict v action = (case v of
     Some Deny \<Rightarrow> Errno EPERM | Some (DenyWith errno) \<Rightarrow> Errno errno | _ \<Rightarrow> action)"

definition rollback :: "'x supervisor_scheme \<Rightarrow> 'x supervisor_scheme" where
  "rollback sv = sv\<lparr>sv_resource := rollback_fork_count (sv_resource sv)\<rparr>"

section \<open>Response and release\<close>

definition prepare_tracking ::
  "nat \<Rightarrow> notif_policy \<Rightarrow> seccomp_notif \<Rightarrow> bool \<Rightarrow> notif_action \<Rightarrow> 'x supervisor_scheme
     \<Rightarrow> (bool \<times> notif_action \<times> 'x supervisor_scheme) option prog" where
  "prepare_tracking k policy n fork_counted action sv =
     (if action = Continue
      then pbind (requires_process_creation_tracking n policy) (\<lambda>required.
        if required then
          obind (prepare_process_creation_tracking k (sint (notif_pid n))) (\<lambda>r. Done (Some (case r of
              Inr _ \<Rightarrow> (True, action, sv)
            | Inl _ \<Rightarrow> (False, Errno EPERM, if fork_counted then rollback sv else sv))))
        else Done (Some (False, action, sv)))
      else Done (Some (False, action, sv)))"

definition complete_tracking ::
  "nat \<Rightarrow> nat \<Rightarrow> int \<Rightarrow> bool \<Rightarrow> 'x supervisor_scheme \<Rightarrow> 'x supervisor_scheme option prog" where
  "complete_tracking m k tid sent sv =
     (if sent then
        obind (finish_process_creation_tracking m k (sv_processes sv) tid) (\<lambda>(r, ix).
          let sv = sv\<lparr>sv_processes := ix\<rparr> in
          Done (Some (case r of Inr True \<Rightarrow> sv | _ \<Rightarrow> rollback sv)))
      else obind (abort_process_creation_tracking k tid) (\<lambda>_. Done (Some (rollback sv))))"

definition release_freeze :: "SandboxFreeze option \<Rightarrow> bool \<Rightarrow> unit prog" where
  "release_freeze fr continued = (case fr of
     None \<Rightarrow> Done ()
   | Some fr \<Rightarrow> if continued then detach_peers (peer_tids fr) else detach_all fr)"

definition blocking :: "'a option prog \<Rightarrow> ('a \<Rightarrow> 'b outcome prog) \<Rightarrow> 'b outcome prog" where
  "blocking p f = pbind p (\<lambda>r. case r of None \<Rightarrow> Done Blocked | Some a \<Rightarrow> f a)"

text \<open>From the verdict to the end. The callback of a tracked injection is part of the result.\<close>

definition send_and_release ::
  "nat \<Rightarrow> nat \<Rightarrow> seccomp_notif \<Rightarrow> SandboxFreeze option \<Rightarrow> bool \<Rightarrow> notif_action \<Rightarrow> 'x supervisor_scheme
     \<Rightarrow> ('x supervisor_scheme \<times> (inject_callback \<times> int) option) outcome prog" where
  "send_and_release m k n exec_freeze traced action sv =
     (let exec_continued = (exec_freeze \<noteq> None \<and> action = Continue) in
     pbind (send_response (notif_id n) action) (\<lambda>(sent, on_success).
     blocking (if traced then complete_tracking m k (sint (notif_pid n)) (\<not> isl sent) sv
               else Done (Some sv)) (\<lambda>sv.
     pbind (release_freeze exec_freeze (exec_continued \<and> \<not> isl sent)) (\<lambda>_.
       Done (Finished (sv, on_success))))))"

definition respond ::
  "nat \<Rightarrow> nat \<Rightarrow> notif_policy \<Rightarrow> seccomp_notif \<Rightarrow> bool \<Rightarrow> SandboxFreeze option \<Rightarrow> notif_action
     \<Rightarrow> 'x supervisor_scheme \<Rightarrow> ('x supervisor_scheme \<times> (inject_callback \<times> int) option) outcome prog" where
  "respond m k policy n fork_counted exec_freeze action sv =
     blocking (prepare_tracking k policy n fork_counted action sv) (\<lambda>(traced, action, sv).
       send_and_release m k n exec_freeze traced action sv)"

text \<open>From the action of the handlers on.\<close>

definition conclude ::
  "(int list \<Rightarrow> int list) \<Rightarrow> nat \<Rightarrow> nat \<Rightarrow> notif_policy \<Rightarrow> seccomp_notif \<Rightarrow> notif_action
     \<Rightarrow> 'x supervisor_scheme \<Rightarrow> ('x supervisor_scheme \<times> (inject_callback \<times> int) option) outcome prog" where
  "conclude order m k policy n action sv =
     pbind (if action = Continue then fork_counted_on_continue n else Done False) (\<lambda>fork_counted.
     pbind (freeze_for_exec order policy n (sv_processes sv) action) (\<lambda>(action, exec_freeze).
     and_then (emit_policy_event n action (sv_policy_fn sv)) (\<lambda>verdict.
     let action = apply_verdict verdict action;
         sv = (if fork_counted \<and> action \<noteq> Continue then rollback sv else sv)
     in respond m k policy n fork_counted exec_freeze action sv)))"

definition handle_notification ::
  "'x supervisor_scheme dispatcher \<Rightarrow> (int list \<Rightarrow> int list) \<Rightarrow> nat \<Rightarrow> nat \<Rightarrow> notif_policy \<Rightarrow> seccomp_notif
     \<Rightarrow> 'x supervisor_scheme \<Rightarrow> ('x supervisor_scheme \<times> (inject_callback \<times> int) option) outcome prog" where
  "handle_notification disp order m k policy n sv =
     pbind (register_pid_if_new (sv_processes sv) (sint (notif_pid n))) (\<lambda>(_, ix).
     let sv = sv\<lparr>sv_processes := ix\<rparr> in
     pbind (if np_has_time_start policy \<or> np_has_random_seed policy
            then maybe_patch_vdso policy (sint (notif_pid n)) (sv_vdso_patched_addr sv)
            else Done (sv_vdso_patched_addr sv)) (\<lambda>addr.
     pbind (decide_action disp policy n (sv\<lparr>sv_vdso_patched_addr := addr\<rparr>)) (\<lambda>(action, sv).
     conclude order m k policy n action sv)))"

section \<open>The process index between notifications\<close>

text \<open>The exit of a process (\<open>cleanup_pid\<close>), and one round of the periodic sweep.\<close>

definition cleanup_pid :: "PidKey \<Rightarrow> 'x supervisor_scheme \<Rightarrow> 'x supervisor_scheme" where
  "cleanup_pid key sv = sv\<lparr>sv_processes := unregister key (sv_processes sv)\<rparr>"

definition process_index_gc :: "'x supervisor_scheme \<Rightarrow> 'x supervisor_scheme prog" where
  "process_index_gc sv =
     (if index_len (sv_processes sv) = 0 then Done sv
      else pbind (prune_dead (sv_processes sv)) (\<lambda>ix. Done (sv\<lparr>sv_processes := ix\<rparr>)))"

section \<open>The requests a program makes\<close>

primrec only :: "(sysreq \<Rightarrow> bool) \<Rightarrow> 'a prog \<Rightarrow> bool" where
  "only R (Done a) = True"
| "only R (Call r k) = (R r \<and> (\<forall>x. only R (k x)))"

lemma only_pbind: "only R p \<Longrightarrow> (\<And>a. only R (f a)) \<Longrightarrow> only R (pbind p f)"
  by (induction p) auto

lemma only_mono: "only R p \<Longrightarrow> (\<And>r. R r \<Longrightarrow> R' r) \<Longrightarrow> only R' p"
  by (induction p) auto

lemma only_and_then: "only R p \<Longrightarrow> (\<And>a. only R (f a)) \<Longrightarrow> only R (and_then p f)"
  unfolding and_then_def by (rule only_pbind) (auto split: outcome.split)

lemma only_obind: "only R p \<Longrightarrow> (\<And>a. only R (f a)) \<Longrightarrow> only R (obind p f)"
  unfolding obind_def by (rule only_pbind) (auto split: option.split)

text \<open>What a program of restricted requests keeps, besides what is known of its result.\<close>

lemma safe_both:
  assumes "only R p" "safe anything Q0 h p" "\<And>h r. R r \<Longrightarrow> P h r"
    and "\<And>h' a. calm (\<lambda>r. \<not> R r) h h' \<Longrightarrow> Q0 h' a \<Longrightarrow> Q h' a"
  shows "safe P Q h p"
  using assms
proof (induction p arbitrary: h)
  case (Done a)
  then show ?case by simp
next
  case (Call r k)
  have "safe P Q (h @ [(r, x)]) (k x)" for x
  proof (rule Call.IH [OF rangeI])
    fix h' a
    assume h': "calm (\<lambda>r. \<not> R r) (h @ [(r, x)]) h'" "Q0 h' a"
    have "calm (\<lambda>r. \<not> R r) h (h @ [(r, x)])" using Call.prems(1) by simp
    from calm_trans [OF this h'(1)] h'(2) show "Q h' a" by (rule Call.prems(4))
  qed (use Call.prems in auto)
  then show ?case using Call.prems by simp
qed

lemma safe_anything [simp]: "safe anything (\<lambda>h a. True) h p"
  by (induction p arbitrary: h) auto

lemma safe_only:
  assumes "only R p" "\<And>h r. R r \<Longrightarrow> P h r" "\<And>h' a. calm (\<lambda>r. \<not> R r) h h' \<Longrightarrow> Q h' a"
  shows "safe P Q h p"
  by (rule safe_both [OF assms(1) safe_anything]) (use assms in auto)

lemma safe_conj: "safe P Q1 h p \<Longrightarrow> safe P Q2 h p \<Longrightarrow> safe P (\<lambda>h a. Q1 h a \<and> Q2 h a) h p"
  by (induction p arbitrary: h) auto

text \<open>Requests that answer a notification; and the ones a handler may make.\<close>

definition answering :: "sysreq \<Rightarrow> bool" where
  "answering r = (case r of KNotifSend _ _ _ _ \<Rightarrow> True | KNotifAddfd _ fl _ _ _ \<Rightarrow> fl = 2 | _ \<Rightarrow> False)"

definition showing :: "sysreq \<Rightarrow> bool" where
  "showing r = (case r of KPolicyEvent _ _ \<Rightarrow> True | _ \<Rightarrow> False)"

definition quiet :: "sysreq \<Rightarrow> bool" where
  "quiet r \<longleftrightarrow> \<not> answering r \<and> \<not> showing r \<and> \<not> ptracing r"

definition working :: "sysreq \<Rightarrow> bool" where
  "working r \<longleftrightarrow> \<not> answering r \<and> \<not> showing r"

lemma kinds_simps [simp]:
  "\<not> answering (KIdValid i)" "\<not> answering (KReadVm p ad len)" "\<not> answering (KWriteVm p ad bs)"
  "\<not> answering (KPidfdOpen p)" "\<not> answering (KPidfdGetfd x y)" "\<not> answering (KReadFile f)"
  "\<not> answering (KReadlink f)" "\<not> answering (KCanonicalize f)" "\<not> answering (KSoProtocol fd)"
  "\<not> answering (KBind fd a l)" "\<not> answering (KGetsockname fd l)" "\<not> answering (KConnect fd a l)"
  "\<not> answering (KSendto fd d fl' a l)" "\<not> answering (KSendmsg fd a ds c fl')"
  "\<not> answering (KKillpg s t)" "\<not> answering (KKill s t)" "\<not> answering (KPidfdOpenThread p)"
  "\<not> answering (KReadDir f)" "\<not> answering (KPtrace q s)" "\<not> answering (KWaitpid s)"
  "\<not> answering (KPolicyEvent ev b)" "\<not> answering (KVdsoBase s)" "\<not> answering (KVdsoPatch s off b)"
  "\<not> answering (KFs q')" "\<not> answering (KIo q'')"
  "answering (KNotifSend i v e w)" "answering (KNotifAddfd i fl s t w) = (fl = 2)"
  "\<not> showing (KIdValid i)" "\<not> showing (KReadVm p ad len)" "\<not> showing (KWriteVm p ad bs)"
  "\<not> showing (KPidfdOpen p)" "\<not> showing (KPidfdGetfd x y)" "\<not> showing (KReadFile f)"
  "\<not> showing (KReadlink f)" "\<not> showing (KCanonicalize f)" "\<not> showing (KSoProtocol fd)"
  "\<not> showing (KBind fd a l)" "\<not> showing (KGetsockname fd l)" "\<not> showing (KConnect fd a l)"
  "\<not> showing (KSendto fd d fl' a l)" "\<not> showing (KSendmsg fd a ds c fl')"
  "\<not> showing (KKillpg s t)" "\<not> showing (KKill s t)" "\<not> showing (KPidfdOpenThread p)"
  "\<not> showing (KReadDir f)" "\<not> showing (KPtrace q s)" "\<not> showing (KWaitpid s)"
  "showing (KPolicyEvent ev b)" "\<not> showing (KVdsoBase s)" "\<not> showing (KVdsoPatch s off b)"
  "\<not> showing (KFs q')" "\<not> showing (KIo q'')"
  "\<not> showing (KNotifSend i v e w)" "\<not> showing (KNotifAddfd i fl s t w)"
  "\<not> ptracing (KIdValid i)" "\<not> ptracing (KReadVm p ad len)" "\<not> ptracing (KWriteVm p ad bs)"
  "\<not> ptracing (KPidfdGetfd x y)"
  "\<not> ptracing (KReadlink f)" "\<not> ptracing (KCanonicalize f)" "\<not> ptracing (KSoProtocol fd)"
  "\<not> ptracing (KBind fd a l)" "\<not> ptracing (KGetsockname fd l)" "\<not> ptracing (KConnect fd a l)"
  "\<not> ptracing (KSendto fd d fl' a l)" "\<not> ptracing (KSendmsg fd a ds c fl')"
  "\<not> ptracing (KKillpg s t)" "\<not> ptracing (KReadDir f)" "\<not> ptracing (KPolicyEvent ev b)"
  "\<not> ptracing (KVdsoBase s)" "\<not> ptracing (KVdsoPatch s off b)"
  "\<not> ptracing (KFs q')" "\<not> ptracing (KIo q'')"
  "\<not> ptracing (KNotifSend i v e w)" "\<not> ptracing (KNotifAddfd i fl s t w)"
  by (simp_all add: answering_def showing_def ptracing_def)

lemma quiet_simps [simp]:
  "quiet (KIdValid i)" "quiet (KReadVm p ad len)" "quiet (KWriteVm p ad bs)" "quiet (KPidfdOpen p)"
  "quiet (KPidfdGetfd x y)" "quiet (KReadFile f)" "quiet (KReadlink f)" "quiet (KCanonicalize f)"
  "quiet (KSoProtocol fd)" "quiet (KBind fd a l)" "quiet (KGetsockname fd l)" "quiet (KConnect fd a l)"
  "quiet (KSendto fd d fl a l)" "quiet (KSendmsg fd a ds c fl)" "quiet (KPidfdOpenThread p)"
  "quiet (KVdsoBase s)" "quiet (KVdsoPatch s off b)"
  "quiet (KFs q')" "quiet (KIo q'')"
  "working (KReadFile f)" "working (KReadDir f)" "working (KPtrace q s)" "working (KWaitpid s)"
  "working (KKill s t)"
  by (simp_all add: quiet_def working_def)

lemma quiet_working: "quiet r \<Longrightarrow> working r"
  by (simp add: quiet_def working_def)

named_theorems requests "bounds on the requests of an operation"

lemma only_read_mem [requests]: "only quiet (read_child_mem i p a len)"
  by (auto simp: read_child_mem_def read_child_mem_vm_def id_valid_def split: sum.split)

lemma only_write_mem [requests]: "only quiet (write_child_mem i p a bs)"
  by (auto simp: write_child_mem_def write_child_mem_vm_def id_valid_def split: sum.split)

lemma only_dup [requests]: "only quiet (dup_fd_from_pid p fd)"
  unfolding dup_fd_from_pid_def pidfd_open_def tgid_of_def
  by (auto intro!: only_pbind split: sum.split option.split)

lemma only_clone_flags [requests]: "only quiet (clone_flags n)"
  unfolding clone_flags_def Let_def by (auto intro!: only_pbind requests split: sum.split)

lemma only_thread_create [requests]: "only quiet (is_thread_create n)"
  unfolding is_thread_create_def by (auto intro!: only_pbind requests)

lemma only_fork_counted [requests]: "only quiet (fork_counted_on_continue n)"
  unfolding fork_counted_on_continue_def by (auto intro!: only_pbind requests)

lemma only_requires_tracking [requests]: "only quiet (requires_process_creation_tracking n policy)"
  unfolding requires_process_creation_tracking_def by (auto intro!: requests)

lemma only_register [requests]: "only quiet (register_pid_if_new ix pid)"
  unfolding register_pid_if_new_def register_opened_def register_def read_pid_start_time_def tgid_if_known_def
  by (auto intro!: only_pbind split: sum.split option.split)

lemma only_vdso [requests]: "only quiet (maybe_patch_vdso policy pid patched)"
  unfolding maybe_patch_vdso_def by (auto split: sum.split)

lemma only_resolve [requests]: "only quiet (resolve_arg n dirfd addr)"
  unfolding resolve_arg_def read_path_for_event_def resolve_at_path_for_event_def Let_def
  by (auto intro!: only_pbind requests split: option.split)

lemma only_denied [requests]: "only quiet (denied_if_some st p)"
  unfolding denied_if_some_def is_denied_with_symlink_resolve_def
  by (auto split: option.split)

lemma only_path_denied [requests]: "only quiet (is_path_denied_for_notif st n)"
  unfolding is_path_denied_for_notif_def resolve_path_for_notif_def resolve_second_path_for_notif_def Let_def
  by (auto intro!: only_pbind requests)

lemma only_ppid [requests]: "only quiet (read_ppid pid)"
  unfolding read_ppid_def by simp

lemma only_argv_loop: "only quiet (read_argv_loop k n a args)"
proof (induction k arbitrary: a args)
  case (Suc k)
  then show ?case
    unfolding read_argv_loop.simps read_path_for_event_def Let_def
    by (auto intro!: only_pbind requests split: sum.split option.split)
qed simp

lemma only_argv [requests]: "only quiet (read_argv_for_event n a)"
  unfolding read_argv_for_event_def by (auto intro!: only_and_then only_argv_loop)

lemma only_sockaddr [requests]: "only quiet (read_sockaddr_for_event n a l)"
  unfolding read_sockaddr_for_event_def by (auto intro!: only_pbind requests)

lemma only_seize [requests]: "only working (seize_and_interrupt t)"
  unfolding seize_and_interrupt_def read_task_state_def detach_def
  by (auto split: sum.split)

lemma only_detach_peers [requests]: "only working (detach_peers ts)"
  by (induction ts) (auto simp: detach_def)

lemma only_detach_all [requests]: "only working (detach_all fr)"
  unfolding detach_all_def by (auto intro!: only_pbind requests)

lemma only_freeze_tids [requests]: "only working (freeze_tids caller same ts fr)"
  by (induction ts arbitrary: fr) (auto intro!: only_pbind requests split: sum.split)

lemma only_freeze_tgids [requests]: "only working (freeze_tgids caller g gs fr)"
  by (induction gs arbitrary: fr)
    (auto simp: list_threads_of_tgid_def intro!: only_pbind requests split: sum.split)

lemma only_freeze [requests]: "only working (freeze_sandbox_for_execve order ix caller)"
  unfolding freeze_sandbox_for_execve_def read_tgid_of_tid_def
  by (auto intro!: only_pbind requests split: sum.split option.split)

lemma only_wait [requests]: "only working (wait_for_ptrace_stop k tid)"
  by (induction k) (auto simp: Let_def split: sum.split)

lemma only_drop [requests]: "only working (drop_trace tid r)"
  unfolding drop_trace_def detach_def by simp

lemma only_prepare [requests]: "only working (prepare_process_creation_tracking k tid)"
  unfolding prepare_process_creation_tracking_def
  by (auto intro!: only_obind only_pbind requests split: sum.split)

lemma only_abort [requests]: "only working (abort_process_creation_tracking k tid)"
  unfolding abort_process_creation_tracking_def
  by (auto intro!: only_obind only_pbind requests split: sum.split)

lemma only_release_child [requests]: "only working (release_child k tid c p)"
  by (cases p) (auto simp: detach_def intro!: only_obind only_pbind requests split: sum.split)

lemma only_finish_event [requests]: "only working (finish_process_creation_event k ix tid)"
  unfolding finish_process_creation_event_def Let_def
  by (auto intro!: only_pbind requests only_mono [OF only_register quiet_working]
      simp del: release_child.simps split: sum.split)

lemma only_finish [requests]: "only working (finish_process_creation_tracking m k ix tid)"
proof (induction m)
  case (Suc m)
  then show ?case
    unfolding finish_process_creation_tracking.simps syscall_stop_kind_def Let_def
    by (auto intro!: only_obind only_pbind requests split: sum.split)
qed simp

section \<open>Histories\<close>

lemma calm_mono: "calm E h h' \<Longrightarrow> (\<And>r. E' r \<Longrightarrow> E r) \<Longrightarrow> calm E' h h'"
  unfolding calm_def by (fastforce simp: list_all_iff)

text \<open>How often a notification has been answered.\<close>

definition answered :: "history \<Rightarrow> nat" where
  "answered h = length (filter (\<lambda>(r, x). answering r \<and> \<not> isl x) h)"

lemma answered_Nil [simp]: "answered [] = 0"
  by (simp add: answered_def)

lemma answered_snoc [simp]:
  "answered (h @ [(r, x)]) = answered h + (if answering r \<and> \<not> isl x then 1 else 0)"
  by (simp add: answered_def)

lemma answered_calm:
  assumes "calm answering h h'"
  shows "answered h' = answered h"
proof -
  have "filter (\<lambda>(r, x). answering r \<and> \<not> isl x) t = []" if "list_all (\<lambda>(r, x). \<not> answering r) t" for t
    using that by (induction t) auto
  with assms show ?thesis by (auto simp: calm_def answered_def)
qed

text \<open>The groups with the given leaders and the caller's group are stopped.\<close>

definition tasks_stopped :: "history \<Rightarrow> int set \<Rightarrow> int \<Rightarrow> bool" where
  "tasks_stopped h pids caller \<longleftrightarrow>
     (\<exists>k content g. (KReadFile (proc_path caller ''status''), Inr (k, content)) \<in> set h
        \<and> tgid_line content = Some g \<and> (\<forall>p\<in>insert g pids. group_stopped h caller p))"

lemma tasks_stopped_calm:
  assumes "tasks_stopped h pids caller" "calm ptracing h h'"
  shows "tasks_stopped h' pids caller"
proof -
  have held: "held h' = held h" and sub: "set h \<subseteq> set h'"
    using assms(2) held_calm calm_set by blast+
  have "stops h' caller ts" if "stops h caller ts" for ts
    using that excused_mono [OF _ sub] by (auto simp: stops_def unable_def held list_all_iff)
  then have "group_stopped h' caller p" if "group_stopped h caller p" for p
    using that sub unfolding group_stopped_def by blast
  with assms(1) sub show ?thesis unfolding tasks_stopped_def by blast
qed

text \<open>The threads listed for a group, and for the caller's own.\<close>

definition listed :: "history \<Rightarrow> int \<Rightarrow> int set" where
  "listed h g = {t. \<exists>k names. (KReadDir (proc_path g ''task''), Inr (k, names)) \<in> set h
     \<and> t \<in> set (task_ids names)}"

definition siblings_of :: "history \<Rightarrow> int \<Rightarrow> int set" where
  "siblings_of h tid = {t. \<exists>k content g. (KReadFile (proc_path tid ''status''), Inr (k, content)) \<in> set h
     \<and> tgid_line content = Some g \<and> t \<in> listed h g}"

lemma listed_mono: "set h \<subseteq> set h' \<Longrightarrow> listed h g \<subseteq> listed h' g"
  unfolding listed_def by blast

lemma siblings_mono: "set h \<subseteq> set h' \<Longrightarrow> siblings_of h tid \<subseteq> siblings_of h' tid"
  unfolding siblings_of_def using listed_mono by blast

section \<open>The sections of a notification\<close>

definition siblings_within :: "int set \<Rightarrow> ('e + SandboxFreeze) \<Rightarrow> bool" where
  "siblings_within S r = (case r of Inl _ \<Rightarrow> True | Inr fr \<Rightarrow> set (sibling_tids fr) \<subseteq> S)"

lemma siblings_within_simps [simp]:
  "siblings_within S (Inl e)"
  "siblings_within S (Inr fr) \<longleftrightarrow> set (sibling_tids fr) \<subseteq> S"
  by (simp_all add: siblings_within_def)

lemma siblings_within_mono: "siblings_within S r \<Longrightarrow> S \<subseteq> T \<Longrightarrow> siblings_within T r"
  by (cases r) auto

lemma safe_tids_siblings:
  assumes "set (sibling_tids fr) \<subseteq> S" "same \<Longrightarrow> set ts \<subseteq> S"
  shows "safe anything (\<lambda>h. siblings_within S) h (freeze_tids caller same ts fr)"
  using assms
proof (induction ts arbitrary: h fr)
  case (Cons t ts)
  have next_: "safe anything (\<lambda>h. siblings_within S) h1 (freeze_tids caller same ts fr1)"
    if "fr1 \<in> {fr, add_frozen same t fr}" for h1 fr1
    using that Cons.prems by (intro Cons.IH) (auto simp: add_frozen_def split: if_splits)
  have fail: "safe anything (\<lambda>h. siblings_within S) h1 (pbind (detach_all fr) (\<lambda>_. Done (Inl e)))" for h1 e
    using safe_mono [OF safe_anything [of h1 "detach_all fr"]] by simp
  have "safe anything (\<lambda>h. siblings_within S) h1 (case r of
          Inl e \<Rightarrow> pbind (detach_all fr) (\<lambda>_. Done (Inl e))
        | Inr stopped \<Rightarrow> freeze_tids caller same ts (if stopped then add_frozen same t fr else fr))" for h1 r
    using fail next_ by (cases r) (auto simp del: safe_pbind)
  then have "safe anything (\<lambda>h. siblings_within S) h (pbind (seize_and_interrupt t) (\<lambda>r. case r of
          Inl e \<Rightarrow> pbind (detach_all fr) (\<lambda>_. Done (Inl e))
        | Inr stopped \<Rightarrow> freeze_tids caller same ts (if stopped then add_frozen same t fr else fr)))"
    unfolding safe_pbind by (rule safe_mono [OF safe_anything])
  then show ?case using next_ [of fr] by simp
qed simp

lemma safe_tgids_siblings:
  assumes "set (sibling_tids fr) \<subseteq> listed h ct"
  shows "safe anything (\<lambda>h. siblings_within (listed h ct)) h (freeze_tgids caller ct gs fr)"
  using assms
proof (induction gs arbitrary: h fr)
  case (Cons g gs)
  let ?h = "\<lambda>x. h @ [(KReadDir (proc_path g ''task''), x)]"
  have sub: "set (sibling_tids fr) \<subseteq> listed (?h x) ct" for x
    using Cons.prems listed_mono [of h "?h x"] by auto
  have own: "set (task_ids names) \<subseteq> listed (?h (Inr (k, names))) g" for k names
    by (auto simp: listed_def)
  have some: "safe anything (\<lambda>h. siblings_within (listed h ct)) (?h (Inr (k, names)))
      (pbind (freeze_tids caller (g = ct) (task_ids names) fr) (\<lambda>r. case r of
         Inl e \<Rightarrow> Done (Inl e) | Inr fr' \<Rightarrow> freeze_tgids caller ct gs fr'))" for k names
    unfolding safe_pbind
  proof (rule safe_both [OF only_freeze_tids safe_tids_siblings [OF sub]])
    fix h' and r :: "int + SandboxFreeze"
    assume "calm (\<lambda>r. \<not> working r) (?h (Inr (k, names))) h'"
      and "siblings_within (listed (?h (Inr (k, names))) ct) r"
    with siblings_within_mono [OF _ listed_mono [OF calm_set]]
    have "siblings_within (listed h' ct) r" by blast
    then show "safe anything (\<lambda>h. siblings_within (listed h ct)) h'
        (case r of Inl e \<Rightarrow> Done (Inl e) | Inr fr' \<Rightarrow> freeze_tgids caller ct gs fr')"
      using Cons.IH by (cases r) simp_all
  qed (use own in auto)
  from Cons.IH [OF sub] some [unfolded safe_pbind] show ?case
    by (simp add: list_threads_of_tgid_def split: sum.split)
qed simp

lemma safe_freeze_siblings:
  "safe anything (\<lambda>h. siblings_within (siblings_of h caller)) h (freeze_sandbox_for_execve order ix caller)"
proof -
  let ?h = "\<lambda>x. h @ [(KReadFile (proc_path caller ''status''), x)]"
  have "safe anything (\<lambda>h r. siblings_within (siblings_of h caller) (map_sum RawOs id r)) (?h (Inr (k, content)))
      (freeze_tgids caller g gs \<lparr>sibling_tids = [], peer_tids = []\<rparr>)"
    if g: "tgid_line content = Some g" for k content g gs
  proof (rule safe_both [OF only_freeze_tgids safe_tgids_siblings])
    fix h' and r :: "int + SandboxFreeze"
    assume h': "calm (\<lambda>r. \<not> working r) (?h (Inr (k, content))) h'" and r: "siblings_within (listed h' g) r"
    have "(KReadFile (proc_path caller ''status''), Inr (k, content)) \<in> set h'"
      using calm_set [OF h'] by auto
    with g have "listed h' g \<subseteq> siblings_of h' caller" unfolding siblings_of_def by blast
    with r show "siblings_within (siblings_of h' caller) (map_sum RawOs id r)" by (cases r) auto
  qed simp_all
  then show ?thesis
    unfolding freeze_sandbox_for_execve_def read_tgid_of_tid_def
    by (simp split: sum.split option.split)
qed

section \<open>What a notification may do\<close>

abbreviation (input) is_exec :: "seccomp_notif \<Rightarrow> bool" where
  "is_exec n \<equiv> requires_freeze_on_continue (notif_nr n)"

abbreviation (input) tid_of :: "seccomp_notif \<Rightarrow> int" where
  "tid_of n \<equiv> sint (notif_pid n)"

text \<open>Arguments are shown, and an \<open>execve\<close> is continued, only while every task is stopped.\<close>

definition exec_guard :: "bool \<Rightarrow> seccomp_notif \<Rightarrow> int set \<Rightarrow> history \<Rightarrow> sysreq \<Rightarrow> bool" where
  "exec_guard required n pids h r = (case r of
     KPolicyEvent ev _ \<Rightarrow> required \<and> ev_argv ev \<noteq> None \<longrightarrow> tasks_stopped h pids (tid_of n)
   | KNotifSend _ _ _ fl \<Rightarrow> required \<and> is_exec n \<and> fl = 1 \<longrightarrow> tasks_stopped h pids (tid_of n)
   | _ \<Rightarrow> True)"

lemma exec_guard_simps [simp]:
  "exec_guard required n pids h (KPolicyEvent ev b) \<longleftrightarrow>
     (required \<and> ev_argv ev \<noteq> None \<longrightarrow> tasks_stopped h pids (tid_of n))"
  "exec_guard required n pids h (KNotifSend i v e fl) \<longleftrightarrow>
     (required \<and> is_exec n \<and> fl = 1 \<longrightarrow> tasks_stopped h pids (tid_of n))"
  "exec_guard required n pids h (KNotifAddfd i fl s t w)" "exec_guard required n pids h (KKillpg s t)"
  by (simp_all add: exec_guard_def)

lemma guard_working: "working r \<Longrightarrow> exec_guard required n pids h r"
  by (auto simp: exec_guard_def working_def split: sysreq.split)

lemma guard_quiet: "quiet r \<Longrightarrow> exec_guard required n pids h r"
  by (rule guard_working [OF quiet_working])

text \<open>When it is over: one answer at most, and nothing held but the siblings of a continued \<open>execve\<close>.\<close>

definition released :: "seccomp_notif \<Rightarrow> history \<Rightarrow> bool" where
  "released n h \<longleftrightarrow> held h = {}
     \<or> (is_exec n \<and> (\<exists>x. (KNotifSend (notif_id n) 0 0 1, Inr x) \<in> set h) \<and> held h \<subseteq> siblings_of h (tid_of n))"

definition settled :: "seccomp_notif \<Rightarrow> history \<Rightarrow> 'a outcome \<Rightarrow> bool" where
  "settled n h r = (case r of
     Panicked \<Rightarrow> answered h = 0
   | Blocked \<Rightarrow> answered h \<le> 1
   | Finished _ \<Rightarrow> answered h \<le> 1 \<and> released n h)"

lemma settled_simps [simp]:
  "settled n h Panicked \<longleftrightarrow> answered h = 0"
  "settled n h Blocked \<longleftrightarrow> answered h \<le> 1"
  "settled n h (Finished a) \<longleftrightarrow> answered h \<le> 1 \<and> released n h"
  by (simp_all add: settled_def)

text \<open>Between the freeze and the response.\<close>

definition ready :: "bool \<Rightarrow> seccomp_notif \<Rightarrow> int set \<Rightarrow> history \<Rightarrow> notif_action \<Rightarrow> SandboxFreeze option \<Rightarrow> bool" where
  "ready required n pids h action fr \<longleftrightarrow> answered h = 0
     \<and> (is_exec n \<and> required \<longrightarrow> action = Continue \<or> is_errno action)
     \<and> (case fr of
          None \<Rightarrow> held h = {} \<and> (\<not> is_exec n \<longrightarrow> born h = {}) \<and> (is_exec n \<and> required \<longrightarrow> is_errno action)
        | Some f \<Rightarrow> is_exec n \<and> required \<and> held h \<subseteq> all_frozen f
            \<and> set (sibling_tids f) \<subseteq> siblings_of h (tid_of n) \<and> tasks_stopped h pids (tid_of n))"

lemma ready_calm:
  assumes "ready required n pids h action fr" "calm (\<lambda>r. answering r \<or> ptracing r) h h'"
  shows "ready required n pids h' action fr"
proof -
  have "calm answering h h'" "calm ptracing h h'" using assms(2) by (auto intro: calm_mono)
  then have "answered h' = answered h" "held h' = held h" "born h' = born h" "set h \<subseteq> set h'"
    by (simp_all add: answered_calm held_calm born_calm calm_set)
  moreover from this have "t \<in> siblings_of h' tid" if "t \<in> siblings_of h tid" for t tid
    using that siblings_mono [of h h' tid] by blast
  ultimately show ?thesis
    using assms(1) tasks_stopped_calm [OF _ \<open>calm ptracing h h'\<close>]
    unfolding ready_def by (auto split: option.splits)
qed

lemma ready_verdict:
  "ready required n pids h action fr \<Longrightarrow> ready required n pids h (apply_verdict v action) fr"
  by (auto simp: ready_def apply_verdict_def is_errno_def split: option.splits verdict.splits)

lemma safe_and_then:
  assumes "safe P (\<lambda>h r. case r of Panicked \<Rightarrow> Q h Panicked | Blocked \<Rightarrow> Q h Blocked
      | Finished a \<Rightarrow> safe P Q h (f a)) h p"
  shows "safe P Q h (and_then p f)"
  unfolding and_then_def safe_pbind using assms by (rule safe_mono) (auto split: outcome.splits)

lemma safe_blocking:
  assumes "safe P (\<lambda>h r. case r of None \<Rightarrow> Q h Blocked | Some a \<Rightarrow> safe P Q h (f a)) h p"
  shows "safe P Q h (blocking p f)"
  unfolding blocking_def safe_pbind using assms by (rule safe_mono) (auto split: option.splits)

lemma calm_quiet: "calm (\<lambda>r. \<not> quiet r) h h' \<Longrightarrow> calm (\<lambda>r. answering r \<or> ptracing r) h h'"
  by (erule calm_mono) (auto simp: quiet_def)

section \<open>The event\<close>

lemma safe_emit:
  assumes "ready required n pids h action fr"
    and "\<And>h' v. ready required n pids h' action fr \<Longrightarrow> Q h' (Finished v)"
    and "\<And>h'. answered h' = 0 \<Longrightarrow> Q h' Panicked" "\<And>h'. answered h' = 0 \<Longrightarrow> Q h' Blocked"
  shows "safe (exec_guard required n pids) Q h (emit_policy_event n action st)"
proof -
  let ?P = "exec_guard required n pids"
  have quiet: "safe ?P R h1 p"
    if "only quiet p" "ready required n pids h1 action fr"
      "\<And>h' a. ready required n pids h' action fr \<Longrightarrow> R h' a" for R h1 and p :: "'a prog"
    by (rule safe_only [OF that(1) guard_quiet that(3) [OF ready_calm [OF that(2) calm_quiet]]])
  have zero: "answered h' = 0" if "ready required n pids h' action fr" for h'
    using that by (simp add: ready_def)
  have stopped: "tasks_stopped h' pids (tid_of n)"
    if "ready required n pids h' action fr" "required" "is_exec n" "\<not> is_errno action" for h'
    using that by (auto simp: ready_def split: option.splits)
  have event: "Q (h' @ [(KPolicyEvent ev b, x)]) (Finished v)"
    if "ready required n pids h' action fr" for h' ev b x v
    by (rule assms(2), rule ready_calm [OF that]) simp
  have last: "safe ?P Q h1 (send_event n denied ppid argv)"
    if "ready required n pids h1 action fr" "argv \<noteq> None \<Longrightarrow> is_exec n \<and> \<not> is_errno action" for h1 denied ppid argv
    unfolding send_event_def Let_def safe_pbind
  proof (rule quiet [OF _ that(1)], goal_cases)
    case (2 h' a)
    then show ?case
      using that(2) stopped [OF 2] event [OF 2] by (auto split: prod.split)
  qed (simp add: only_sockaddr)
  have argv: "safe ?P Q h1 (and_then
      (if \<not> is_errno action \<and> is_exec n then read_argv_for_event n a else Done (Finished None))
      (send_event n denied ppid))"
    if "ready required n pids h1 action fr" for h1 denied ppid a
  proof (cases "\<not> is_errno action \<and> is_exec n")
    case True
    then show ?thesis
      using that
      by (auto intro!: safe_and_then quiet [OF only_argv] last simp: zero assms(3,4) split: outcome.split)
  next
    case False
    with last [OF that] show ?thesis by (auto simp: and_then_def)
  qed
  show ?thesis
  proof (cases "pf_event_tx st")
    case True
    have "safe ?P Q h (and_then (read_ppid (notif_pid n)) (\<lambda>parent_pid.
        and_then (if \<not> is_errno action \<and> is_exec n then read_argv_for_event n a else Done (Finished None))
          (send_event n (is_errno action) parent_pid)))" for a
    proof (rule safe_and_then, rule quiet [OF only_ppid assms(1)], goal_cases)
      case (1 h' r)
      then show ?case by (cases r) (simp_all only: outcome.case zero assms(3,4) argv)
    qed
    with True show ?thesis
      by (simp add: emit_policy_event_def requires_freeze_on_continue_def Let_def)
  next
    case False
    with assms(1,2) show ?thesis by (simp add: emit_policy_event_def)
  qed
qed

section \<open>The response\<close>

lemma safe_send_response:
  assumes "\<And>h' v e fl. calm ptracing h h' \<Longrightarrow> (fl = 1 \<Longrightarrow> \<not> is_errno action) \<Longrightarrow> P h' (KNotifSend i v e fl)"
    and "\<And>h' fl s t w. P h' (KNotifAddfd i fl s t w)" "\<And>h' p s. P h' (KKillpg p s)"
    and "\<And>h' r cb. calm ptracing h h' \<Longrightarrow> answered h' \<le> answered h + 1 \<Longrightarrow>
      (action = Continue \<Longrightarrow> \<not> isl r \<Longrightarrow> \<exists>x. (KNotifSend i 0 0 1, Inr x) \<in> set h') \<Longrightarrow> Q h' (r, cb)"
  shows "safe P Q h (send_response i action)"
proof -
  have two: "answered (h @ [(r, x), (r', x')]) = answered h
      + (if answering r \<and> \<not> isl x then 1 else 0) + (if answering r' \<and> \<not> isl x' then 1 else 0)" for r x r' x'
    using answered_snoc [of "h @ [(r, x)]" r' x'] by simp
  have "(fl = 1 \<Longrightarrow> \<not> is_errno action) \<Longrightarrow> P (h @ [(KNotifAddfd i w s t w', x)]) (KNotifSend i v e fl)"
    "(fl = 1 \<Longrightarrow> \<not> is_errno action) \<Longrightarrow> P (h @ [(KKillpg g s, x)]) (KNotifSend i v e fl)"
    "(fl = 1 \<Longrightarrow> \<not> is_errno action) \<Longrightarrow> P h (KNotifSend i v e fl)" for v e fl w s t w' x g
    by (intro assms(1); simp)+
  note P = this assms(2,3)
  show ?thesis
    by (cases action)
      (auto simp: send_response_def respond_continue_def respond_errno_def respond_value_def
        send_resp_raw_def inject_fd_def inject_fd_and_send_def two is_errno_def
        intro!: P assms(4) split: sum.split)
qed

lemma released_peers:
  assumes "held h \<subseteq> all_frozen f" "is_exec n" "set (sibling_tids f) \<subseteq> siblings_of h (tid_of n)"
    and "(KNotifSend (notif_id n) 0 0 1, Inr x) \<in> set h"
    and "held h' = held h - set (peer_tids f)" "set h \<subseteq> set h'"
  shows "released n h'"
proof -
  have "held h' \<subseteq> siblings_of h (tid_of n)" using assms(1,3,5) by (auto simp: all_frozen_def)
  then have "held h' \<subseteq> siblings_of h' (tid_of n)" using siblings_mono [OF assms(6)] by blast
  with assms(2,4,6) show ?thesis unfolding released_def by blast
qed

lemma safe_untraced:
  assumes "ready required n pids h action fr"
  shows "safe (exec_guard required n pids) (settled n) h (send_and_release m k n fr False action sv)"
proof -
  let ?P = "exec_guard required n pids"
  have "safe ?P (\<lambda>h' (sent, cb). safe ?P (\<lambda>h'' _. settled n h'' (Finished ())) h'
      (release_freeze fr (fr \<noteq> None \<and> action = Continue \<and> \<not> isl sent))) h (send_response (notif_id n) action)"
  proof (rule safe_send_response)
    fix h' and v e and fl :: u32
    assume h': "calm ptracing h h'" and fl: "fl = 1 \<Longrightarrow> \<not> is_errno action"
    have "tasks_stopped h pids (tid_of n)" if "required" "is_exec n" "fl = 1"
      using assms fl that by (auto simp: ready_def split: option.splits)
    with tasks_stopped_calm [OF _ h'] show "?P h' (KNotifSend (notif_id n) v e fl)" by simp
  next
    fix h' and r :: "int + unit" and cb :: "(inject_callback \<times> int) option"
    assume h': "calm ptracing h h'" and count: "answered h' \<le> answered h + 1"
      and sent: "action = Continue \<Longrightarrow> \<not> isl r \<Longrightarrow> \<exists>x. (KNotifSend (notif_id n) 0 0 1, Inr x) \<in> set h'"
    have count': "answered h' \<le> 1" using count assms by (simp add: ready_def)
    have held: "held h' = held h" by (rule held_calm [OF h'])
    have same: "answered h'' = answered h'" if "calm (\<lambda>r. \<not> working r) h' h''" for h''
      by (rule answered_calm [OF calm_mono [OF that]]) (simp add: working_def)
    show "case (r, cb) of (sent, cb) \<Rightarrow> safe ?P (\<lambda>h'' _. settled n h'' (Finished ())) h'
      (release_freeze fr (fr \<noteq> None \<and> action = Continue \<and> \<not> isl sent))"
    proof (cases fr)
      case None
      then show ?thesis using assms held count' by (simp add: release_freeze_def ready_def released_def)
    next
      case (Some f)
      with assms have f: "is_exec n" "held h' \<subseteq> all_frozen f"
        "set (sibling_tids f) \<subseteq> siblings_of h' (tid_of n)"
        using held siblings_mono [OF calm_set [OF h'], of "tid_of n"] by (auto simp: ready_def)
      have "safe ?P (\<lambda>h'' _. settled n h'' (Finished ())) h' (detach_peers (peer_tids f))"
        if continued: "action = Continue" "\<not> isl r"
      proof (rule safe_both [OF only_detach_peers, where ?Q0.0 = "\<lambda>h'' _.
          held h'' = held h' - set (peer_tids f) \<and> set h' \<subseteq> set h''"])
        fix h'' a
        assume "calm (\<lambda>r. \<not> working r) h' h''"
          "held h'' = held h' - set (peer_tids f) \<and> set h' \<subseteq> set h''"
        moreover obtain x where "(KNotifSend (notif_id n) 0 0 1, Inr x) \<in> set h'"
          using sent [OF continued] by blast
        ultimately show "settled n h'' (Finished ())"
          using same [of h''] count' released_peers [OF f(2,1,3)] by simp
      qed (simp_all add: safe_detach_peers guard_working)
      moreover have "safe ?P (\<lambda>h'' _. settled n h'' (Finished ())) h' (detach_all f)"
      proof (rule safe_both [OF only_detach_all, where ?Q0.0 = "\<lambda>h'' _. held h'' = held h' - all_frozen f"])
        fix h'' a
        assume "calm (\<lambda>r. \<not> working r) h' h''" "held h'' = held h' - all_frozen f"
        moreover from this(2) f(2) have "held h'' = {}" by blast
        ultimately show "settled n h'' (Finished ())"
          using same [of h''] count' by (simp add: released_def)
      qed (simp_all add: safe_detach_all guard_working)
      ultimately show ?thesis using Some by (auto simp: release_freeze_def)
    qed
  qed simp_all
  then show ?thesis
    unfolding send_and_release_def Let_def blocking_def safe_pbind
  proof (rule safe_mono, goal_cases)
    case (1 h' a)
    then show ?case by (cases a) simp
  qed
qed

lemma safe_complete:
  assumes "armed tid h" "\<And>h r. r \<noteq> None \<Longrightarrow> calm answering h0 h \<Longrightarrow> held h = {} \<Longrightarrow> Q h r"
    and "\<And>h. calm answering h0 h \<Longrightarrow> Q h None" "calm answering h0 h"
  shows "safe (exec_guard required n pids) Q h (complete_tracking m k tid sent sv)"
proof -
  let ?P = "exec_guard required n pids"
  have calm: "calm answering h0 h'" if "calm (\<lambda>r. \<not> working r) h h'" for h'
    by (rule calm_trans [OF assms(4)], rule calm_mono [OF that]) (simp add: working_def)
  have "safe ?P Q h (obind (finish_process_creation_tracking m k (sv_processes sv) tid) f)"
    if f: "\<And>a. \<exists>s. f a = Done (Some s)" for f
    unfolding obind_def safe_pbind
  proof (rule safe_both [OF only_finish safe_finish [OF assms(1)]])
    fix h' and r :: "((io_error + bool) \<times> process_index) option"
    assume h': "calm (\<lambda>r. \<not> working r) h h'" "done_clean h' r"
    show "safe ?P Q h' (case r of None \<Rightarrow> Done None | Some a \<Rightarrow> f a)"
    proof (cases r)
      case None
      then show ?thesis using assms(3) calm [OF h'(1)] by simp
    next
      case (Some a)
      obtain s where "f a = Done (Some s)" using f [of a] by blast
      moreover have "held h' = {}" using h'(2) Some by (auto simp: done_clean_def clean_def split: prod.splits)
      ultimately show ?thesis using Some assms(2) calm [OF h'(1)] by simp
    qed
  qed (auto intro: guard_working)
  moreover have "safe ?P Q h (obind (abort_process_creation_tracking k tid) (\<lambda>_. Done (Some s)))" for s
    unfolding obind_def safe_pbind
  proof (rule safe_both [OF only_abort, where ?Q0.0 = "\<lambda>h' r. r \<noteq> None \<longrightarrow> held h' = {}"])
    show "safe anything (\<lambda>h' r. r \<noteq> None \<longrightarrow> held h' = {}) h (abort_process_creation_tracking k tid)"
      by (rule safe_abort [OF assms(1)]) simp_all
  next
    fix h' and r :: "unit option"
    assume "calm (\<lambda>r. \<not> working r) h h'" "r \<noteq> None \<longrightarrow> held h' = {}"
    then show "safe ?P Q h' (case r of None \<Rightarrow> Done None | Some a \<Rightarrow> Done (Some s))"
      using calm [of h'] assms(2,3) by (cases r) simp_all
  qed (auto intro: guard_working)
  ultimately show ?thesis
    unfolding complete_tracking_def by (auto simp: Let_def split: prod.split sum.split)
qed

lemma exec_not_creation:
  "is_exec n \<Longrightarrow> requires_process_creation_tracking n policy = Done False"
  by (auto simp: requires_freeze_on_continue_def requires_process_creation_tracking_def
      fork_counted_on_continue_def is_process_creation_notif_def FORK_LIKE_SYSCALLS_def)

lemma safe_traced:
  assumes "armed (tid_of n) h" "answered h = 0" "\<not> (is_exec n \<and> required)"
  shows "safe (exec_guard required n pids) (settled n) h (send_and_release m k n None True Continue sv)"
proof -
  let ?P = "exec_guard required n pids"
  have "safe ?P (\<lambda>h' a. safe ?P (settled n) h'
      (case a of (sent, cb) \<Rightarrow> blocking (complete_tracking m k (tid_of n) (\<not> isl sent) sv)
        (\<lambda>sv. Done (Finished (sv, cb))))) h (send_response (notif_id n) Continue)"
  proof (rule safe_send_response)
    show "?P h' (KNotifSend (notif_id n) v e fl)" for h' v e fl using assms(3) by auto
  next
    fix h' and r :: "int + unit" and cb :: "(inject_callback \<times> int) option"
    assume h': "calm ptracing h h'" and count: "answered h' \<le> answered h + 1"
    have "safe ?P (settled n) h' (blocking (complete_tracking m k (tid_of n) (\<not> isl r) sv)
        (\<lambda>sv. Done (Finished (sv, cb))))"
    proof (rule safe_blocking, rule safe_complete [OF armed_calm [OF assms(1) h'], where ?h0.0 = h'],
        goal_cases)
      case (1 h'' s)
      then show ?case using count assms(2) by (auto simp: answered_calm released_def)
    next
      case (2 h'')
      then show ?case using count assms(2) by (simp add: answered_calm)
    qed simp
    then show "safe ?P (settled n) h' (case (r, cb) of (sent, cb) \<Rightarrow>
        blocking (complete_tracking m k (tid_of n) (\<not> isl sent) sv) (\<lambda>sv. Done (Finished (sv, cb))))"
      by simp
  qed simp_all
  then show ?thesis
    unfolding send_and_release_def Let_def safe_pbind
    by (rule safe_mono) (simp add: release_freeze_def split: prod.splits)
qed

lemma safe_respond:
  assumes "ready (np_argv_safety_required policy) n pids h action fr"
  shows "safe (exec_guard (np_argv_safety_required policy) n pids) (settled n) h
    (respond m k policy n fork_counted fr action sv)"
proof -
  let ?r = "np_argv_safety_required policy"
  let ?P = "exec_guard ?r n pids"
  let ?tail = "\<lambda>(traced, action, sv). send_and_release m k n fr traced action sv"
  note untraced = safe_untraced [OF assms, of m k]
  show ?thesis
  proof (cases "action = Continue \<and> \<not> is_exec n")
    case False
    have "prepare_tracking k policy n fork_counted action sv = Done (Some (False, action, sv))"
      using False exec_not_creation [of n policy] by (auto simp: prepare_tracking_def)
    then show ?thesis using untraced by (simp add: respond_def blocking_def)
  next
    case True
    then have fr: "fr = None" using assms by (auto simp: ready_def split: option.splits)
    have start: "answered h1 = 0" "held h1 = {}" "born h1 = {}" if "calm (\<lambda>r. \<not> quiet r) h h1" for h1
      using True ready_calm [OF assms calm_quiet [OF that]] fr by (auto simp: ready_def)
    have ready: "ready ?r n pids h1 a None" if "answered h1 = 0" "held h1 = {}" "born h1 = {}" for h1 a
      using that True by (simp add: ready_def)
    have prepare: "safe ?P (\<lambda>h2 r. safe ?P (settled n) h2 (case r of None \<Rightarrow> Done Blocked
        | Some r \<Rightarrow> ?tail (case r of Inr _ \<Rightarrow> (True, Continue, sv)
            | Inl _ \<Rightarrow> (False, Errno EPERM, if fork_counted then rollback sv else sv)))) h1
        (prepare_process_creation_tracking k (tid_of n))"
      if h1: "calm (\<lambda>r. \<not> quiet r) h h1" for h1
    proof (rule safe_both [OF only_prepare, where ?Q0.0 = "\<lambda>h2 r. case r of None \<Rightarrow> True
        | Some (Inl _) \<Rightarrow> held h2 = {} \<and> born h2 = {} | Some (Inr _) \<Rightarrow> armed (tid_of n) h2"])
      show "safe anything (\<lambda>h2 r. case r of None \<Rightarrow> True
        | Some (Inl _) \<Rightarrow> held h2 = {} \<and> born h2 = {} | Some (Inr _) \<Rightarrow> armed (tid_of n) h2) h1
        (prepare_process_creation_tracking k (tid_of n))"
        by (rule safe_prepare) (use start [OF h1] in \<open>simp_all add: armed_def\<close>)
    next
      fix h2 and r :: "(io_error + unit) option"
      assume h2: "calm (\<lambda>r. \<not> working r) h1 h2" and r: "case r of None \<Rightarrow> True
        | Some (Inl _) \<Rightarrow> held h2 = {} \<and> born h2 = {} | Some (Inr _) \<Rightarrow> armed (tid_of n) h2"
      have "calm answering h1 h2" by (rule calm_mono [OF h2]) (simp add: working_def)
      then have zero: "answered h2 = 0" using answered_calm start(1) [OF h1] by simp
      then show "safe ?P (settled n) h2 (case r of None \<Rightarrow> Done Blocked
        | Some r \<Rightarrow> ?tail (case r of Inr _ \<Rightarrow> (True, Continue, sv)
            | Inl _ \<Rightarrow> (False, Errno EPERM, if fork_counted then rollback sv else sv)))"
        using r True safe_untraced [OF ready [OF zero]] safe_traced [OF _ zero, of n ?r]
        by (auto simp: fr split: option.splits sum.splits)
    qed (rule guard_working)
    have "safe ?P (\<lambda>h1 required. safe ?P (settled n) h1 (blocking (if required then
          obind (prepare_process_creation_tracking k (tid_of n)) (\<lambda>r. Done (Some (case r of
              Inr _ \<Rightarrow> (True, Continue, sv)
            | Inl _ \<Rightarrow> (False, Errno EPERM, if fork_counted then rollback sv else sv))))
        else Done (Some (False, Continue, sv))) ?tail)) h (requires_process_creation_tracking n policy)"
    proof (rule safe_only [OF only_requires_tracking guard_quiet], goal_cases)
      case (2 h1 required)
      have "safe ?P (settled n) h1 (send_and_release m k n None False Continue sv)"
        by (rule safe_untraced [OF ready]) (rule start [OF 2])+
      moreover have "safe ?P (settled n) h1 (blocking (obind (prepare_process_creation_tracking k (tid_of n))
            (\<lambda>r. Done (Some (case r of
              Inr _ \<Rightarrow> (True, Continue, sv)
            | Inl _ \<Rightarrow> (False, Errno EPERM, if fork_counted then rollback sv else sv))))) ?tail)"
        unfolding blocking_def obind_def safe_pbind
      proof (rule safe_mono [OF prepare [OF 2]], goal_cases)
        case (1 h2 r)
        then show ?case by (cases r) simp_all
      qed
      ultimately show ?case by (simp add: fr blocking_def)
    qed
    with True show ?thesis
      by (simp add: respond_def prepare_tracking_def blocking_def)
  qed
qed

section \<open>What is asked of the handlers\<close>

text \<open>A handler makes no \<open>ptrace\<close> request, does not answer the notification itself and shows nothing to
  the callback; it removes no process from the index; and an \<open>execve\<close> it does not refuse it leaves to the
  kernel.\<close>

abbreviation (input) tracked :: "'x supervisor_scheme \<Rightarrow> int set" where
  "tracked sv \<equiv> set (pids_snapshot (sv_processes sv))"

locale notification_handler =
  fixes disp :: "'x supervisor_scheme dispatcher"
  assumes requests_quiet: "only quiet (disp n sv)"
    and processes_kept: "safe anything (\<lambda>_ (a, sv'). tracked sv \<subseteq> tracked sv') h (disp n sv)"
begin

lemma decide_quiet: "only quiet (decide_action disp policy n sv)"
  unfolding decide_action_def by (auto intro!: only_pbind only_path_denied requests_quiet)

end

locale supervised = notification_handler +
  assumes exec_answered: "is_exec n \<Longrightarrow> safe anything (\<lambda>_ (a, sv'). a = Continue \<or> is_errno a) h (disp n sv)"
begin

definition decided :: "seccomp_notif \<Rightarrow> int set \<Rightarrow> notif_action \<times> 'x supervisor_scheme \<Rightarrow> bool" where
  "decided n pids r = (case r of (a, sv') \<Rightarrow>
     pids \<subseteq> tracked sv' \<and> (is_exec n \<longrightarrow> a = Continue \<or> is_errno a))"

lemma disp_decided: "safe anything (\<lambda>_. decided n (tracked sv)) h (disp n sv)"
proof (cases "is_exec n")
  case True
  from safe_conj [OF processes_kept exec_answered [OF this]] show ?thesis
    by (rule safe_mono) (auto simp: decided_def)
next
  case False
  with safe_mono [OF processes_kept] show ?thesis by (auto simp: decided_def)
qed

lemma decide_decided: "safe anything (\<lambda>_. decided n (tracked sv)) h (decide_action disp policy n sv)"
proof -
  have "safe anything (\<lambda>_. decided n (tracked sv)) h' (if denied then Done (Errno EACCES, sv) else disp n sv)"
    for h' denied using disp_decided by (simp add: decided_def is_errno_def)
  then have "safe anything (\<lambda>_. decided n (tracked sv)) h
      (pbind (is_path_denied_for_notif (sv_policy_fn sv) n)
        (\<lambda>denied. if denied then Done (Errno EACCES, sv) else disp n sv))"
    unfolding safe_pbind by (rule safe_mono [OF safe_anything])
  then show ?thesis unfolding decide_action_def using disp_decided by simp
qed

end

lemma safe_register_keeps:
  "safe anything (\<lambda>_ (b, ix'). set (pids_snapshot ix) \<subseteq> set (pids_snapshot ix')) h (register_pid_if_new ix pid)"
proof -
  have sub: "set (pids_snapshot ix) \<subseteq> set (pids_snapshot (insert_process pid st ix))" for st
    by (auto simp: pids_snapshot_def insert_process_def update_keys)
  show ?thesis
    unfolding register_pid_if_new_def register_opened_def register_def read_pid_start_time_def tgid_if_known_def
    using sub by (auto split: sum.split option.split)
qed

lemma safe_freeze_for_exec:
  assumes "calm (\<lambda>r. \<not> quiet r) [] h" "pids \<subseteq> set (pids_snapshot ix)" "\<And>xs. set xs \<subseteq> set (order xs)"
    and "is_exec n \<Longrightarrow> action = Continue \<or> is_errno action"
    and "\<And>h' a fr. ready (np_argv_safety_required policy) n pids h' a fr \<Longrightarrow> Q h' (a, fr)"
  shows "safe (exec_guard (np_argv_safety_required policy) n pids) Q h (freeze_for_exec order policy n ix action)"
proof -
  let ?r = "np_argv_safety_required policy"
  have start: "answered h = 0" "held h = {}" "born h = {}"
    using calm_quiet [OF assms(1)] answered_calm [of "[]" h] held_calm [of "[]" h] born_calm [of "[]" h]
      calm_mono [of _ "[]" h] by simp_all
  have pids: "list_all (group_stopped h' c) (order (List.insert g (pids_snapshot ix))) \<Longrightarrow>
      \<forall>p\<in>insert g pids. group_stopped h' c p" for h' c g
    using assms(2) assms(3) [of "List.insert g (pids_snapshot ix)"] by (fastforce simp: list_all_iff)
  have "safe (exec_guard ?r n pids) (\<lambda>h' r. Q h' (case r of Inr outcome \<Rightarrow> (action, Some outcome)
        | Inl _ \<Rightarrow> (Errno EPERM, None))) h (freeze_sandbox_for_execve order ix (tid_of n))"
    if "action = Continue" "?r" "is_exec n"
  proof (rule safe_both [OF only_freeze safe_conj [OF safe_freeze safe_freeze_siblings]])
    show "held h = {}" by (rule start(2))
    show "(\<lambda>h' r. case r of Inl _ \<Rightarrow> held h' = {}
        | Inr fr \<Rightarrow> held h' \<subseteq> all_frozen fr \<and> sandbox_stopped h' order ix (tid_of n)) h' (Inl e)"
      if "held h' = {}" for h' and e :: io_error using that by simp
    show "(\<lambda>h' r. case r of Inl _ \<Rightarrow> held h' = {}
        | Inr fr \<Rightarrow> held h' \<subseteq> all_frozen fr \<and> sandbox_stopped h' order ix (tid_of n)) h' (Inr fr)"
      if "held h' \<subseteq> all_frozen fr" "sandbox_stopped h' order ix (tid_of n)" for h' fr using that by simp
  next
    fix h' and r :: "io_error + SandboxFreeze"
    assume h': "calm (\<lambda>r. \<not> working r) h h'" and r: "(case r of Inl _ \<Rightarrow> held h' = {}
        | Inr fr \<Rightarrow> held h' \<subseteq> all_frozen fr \<and> sandbox_stopped h' order ix (tid_of n))
      \<and> siblings_within (siblings_of h' (tid_of n)) r"
    have "calm answering h h'" by (rule calm_mono [OF h']) (simp add: working_def)
    then have zero: "answered h' = 0" using answered_calm start(1) by simp
    have "tasks_stopped h' pids (tid_of n)" if "sandbox_stopped h' order ix (tid_of n)"
      using that pids unfolding sandbox_stopped_def tasks_stopped_def by blast
    with r zero that show "Q h' (case r of Inr outcome \<Rightarrow> (action, Some outcome) | Inl _ \<Rightarrow> (Errno EPERM, None))"
      by (cases r) (auto intro!: assms(5) simp: ready_def is_errno_def)
  qed (simp_all add: guard_working)
  then show ?thesis
    unfolding freeze_for_exec_def using assms(4) start
    by (auto simp: ready_def intro!: assms(5))
qed

lemma safe_conclude:
  assumes "calm (\<lambda>r. \<not> quiet r) [] h" "pids \<subseteq> tracked sv" "\<And>xs. set xs \<subseteq> set (order xs)"
    and "is_exec n \<Longrightarrow> action = Continue \<or> is_errno action"
  shows "safe (exec_guard (np_argv_safety_required policy) n pids) (settled n) h
    (conclude order m k policy n action sv)"
proof -
  let ?P = "exec_guard (np_argv_safety_required policy) n pids"
  have event: "safe ?P (settled n) h' (and_then (emit_policy_event n a (sv_policy_fn sv)) (\<lambda>verdict.
       let action = apply_verdict verdict a;
           sv = (if fork_counted \<and> action \<noteq> Continue then rollback sv else sv)
       in respond m k policy n fork_counted fr action sv))"
    if "ready (np_argv_safety_required policy) n pids h' a fr" for h' a fr fork_counted
    by (rule safe_and_then, rule safe_emit [OF that]) (simp_all add: Let_def safe_respond ready_verdict)
  show ?thesis
    unfolding conclude_def safe_pbind
  proof (rule safe_only [where R = quiet, OF _ guard_quiet], goal_cases)
    case (3 h' fork_counted)
    show ?case
      by (rule safe_freeze_for_exec [OF calm_trans [OF assms(1) 3] assms(2-4)]) (simp_all only: prod.case event)
  qed (simp_all add: only_fork_counted)
qed

context supervised begin

text \<open>The whole notification, for every kernel.\<close>

lemma safe_handle:
  assumes order: "\<And>xs. set xs \<subseteq> set (order xs)"
  shows "safe (exec_guard (np_argv_safety_required policy) n (tracked sv)) (settled n) []
    (handle_notification disp order m k policy n sv)"
proof -
  let ?P = "exec_guard (np_argv_safety_required policy) n (tracked sv)"
  have decide: "safe ?P (settled n) h
      (pbind (decide_action disp policy n sv1) (\<lambda>(action, sv). conclude order m k policy n action sv))"
    if h: "calm (\<lambda>r. \<not> quiet r) [] h" "tracked sv \<subseteq> tracked sv1" for h sv1
    unfolding safe_pbind
  proof (rule safe_both [OF decide_quiet decide_decided guard_quiet], goal_cases)
    case (2 h' r)
    with h(2) have "decided n (tracked sv) r" by (auto simp: decided_def)
    then show ?case
      by (cases r) (auto simp: decided_def intro!: safe_conclude [OF calm_trans [OF h(1) 2(1)] _ order])
  qed
  have patch: "safe ?P (settled n) h
      (pbind (if c then maybe_patch_vdso policy (tid_of n) addr0 else Done addr0) (\<lambda>addr.
       pbind (decide_action disp policy n (sv1\<lparr>sv_vdso_patched_addr := addr\<rparr>))
         (\<lambda>(action, sv). conclude order m k policy n action sv)))"
    if h: "calm (\<lambda>r. \<not> quiet r) [] h" "tracked sv \<subseteq> tracked sv1" for h sv1 c addr0
    unfolding safe_pbind [of _ _ _ "if c then _ else _"]
  proof (rule safe_only [where R = quiet, OF _ guard_quiet], goal_cases)
    case (3 h' addr)
    have "tracked sv \<subseteq> tracked (sv1\<lparr>sv_vdso_patched_addr := addr\<rparr>)" using h(2) by simp
    from decide [OF calm_trans [OF h(1) 3] this] show ?case .
  qed (simp_all add: only_vdso)
  show ?thesis
    unfolding handle_notification_def safe_pbind [of _ _ _ "register_pid_if_new _ _"]
  proof (rule safe_both [OF only_register safe_register_keeps guard_quiet], goal_cases)
    case (2 h r)
    then have "tracked sv \<subseteq> tracked (sv\<lparr>sv_processes := snd r\<rparr>)" by (cases r) simp
    from patch [OF 2(1) this] show ?case by (cases r) (simp only: prod.case snd_conv Let_def)
  qed
qed

end

section \<open>The handlers of the library\<close>

text \<open>The closures of \<open>build_dispatch_table\<close> for the handlers that are modelled; \<open>other\<close> stands for the
  rest, the caller-supplied ones among them.\<close>

definition run_handler ::
  "notif_policy \<Rightarrow> ('u handler \<Rightarrow> 'x supervisor_scheme dispatcher) \<Rightarrow> 'u handler \<Rightarrow> 'x supervisor_scheme dispatcher"
where
  "run_handler policy other h n sv = (case h of
     Fork \<Rightarrow> pbind (handle_fork n (sv_resource sv)) (\<lambda>(a, rs). Done (a, sv\<lparr>sv_resource := rs\<rparr>))
   | Wait \<Rightarrow> (case handle_wait (sv_resource sv) of (a, rs) \<Rightarrow> Done (a, sv\<lparr>sv_resource := rs\<rparr>))
   | Memory \<Rightarrow> (case handle_memory n policy (sv_processes sv) (sv_resource sv) of (a, ix, rs) \<Rightarrow>
       Done (a, sv\<lparr>sv_processes := ix, sv_resource := rs\<rparr>))
   | Net \<Rightarrow> pbind (handle_net n (np_port_remap policy) (pf_live_policy (sv_policy_fn sv)) (sv_network sv))
       (\<lambda>(a, ns). Done (a, sv\<lparr>sv_network := ns\<rparr>))
   | Bind \<Rightarrow> pbind (handle_bind n (sv_network sv)) (\<lambda>(a, ns). Done (a, sv\<lparr>sv_network := ns\<rparr>))
   | Getsockname \<Rightarrow> pbind (handle_getsockname n (sv_network sv)) (\<lambda>a. Done (a, sv))
   | _ \<Rightarrow> other h n sv)"

lemma pids_map_entry: "set (pids_snapshot (update_state pid f ix)) = set (pids_snapshot ix)"
  by (induction ix) (auto simp: pids_snapshot_def update_state_def)

lemma memory_keeps:
  "handle_memory n policy ix rs = (a, ix', rs') \<Longrightarrow> set (pids_snapshot ix') = set (pids_snapshot ix)"
  unfolding handle_memory_def Let_def handle_brk_def
  by (auto simp: pids_map_entry split: if_split_asm option.split_asm prod.split_asm)

lemma only_fork [requests]: "only quiet (handle_fork n rs)"
  unfolding handle_fork_def by (auto intro!: only_pbind only_thread_create)

lemma only_query_port [requests]: "only quiet (query_local_port fd)"
  unfolding query_local_port_def by (auto split: sum.split)

lemma only_bind_verbatim [requests]: "only quiet (bind_verbatim fd bs ns)"
  unfolding bind_verbatim_def do_bind_def by (auto intro!: only_pbind split: sum.split)

lemma only_bind_tracked [requests]: "only quiet (bind_tracked fd bs l v ns)"
  unfolding bind_tracked_def do_bind_def Let_def
  by (auto intro!: only_pbind only_query_port split: sum.split option.split)

lemma only_handle_bind [requests]: "only quiet (handle_bind n ns)"
  unfolding handle_bind_def Let_def
  by (auto intro!: only_pbind only_read_mem only_dup only_bind_tracked only_bind_verbatim
      split: sum.split option.split)

lemma only_getsockname [requests]: "only quiet (handle_getsockname n ns)"
  unfolding handle_getsockname_def Let_def
  by (auto intro!: only_pbind only_read_mem only_write_mem only_dup split: sum.split)

lemma only_query_protocol: "only quiet (query_socket_protocol fd)"
  unfolding query_socket_protocol_def by (auto split: sum.split)

lemma only_connect: "only quiet (connect_on_behalf n port_remap live ns)"
proof -
  have "only quiet (record_orig_dest fd v6 ip m)" for fd v6 ip m
    unfolding record_orig_dest_def Let_def by (auto split: sum.split)
  moreover have "only quiet (do_connect fd a l)" for fd a l
    unfolding do_connect_def by (auto split: sum.split)
  ultimately have "only quiet (connect_checked fd bs l ip port_remap ns)" for fd bs l ip
    unfolding connect_checked_def Let_def by (auto intro!: only_pbind split: sum.split option.split)
  then show ?thesis
    unfolding connect_on_behalf_def Let_def
    by (auto intro!: only_pbind only_read_mem only_dup only_query_protocol split: sum.split option.split)
qed

lemma only_sendto: "only quiet (sendto_on_behalf n live ns)"
  unfolding sendto_on_behalf_def Let_def
  by (auto intro!: only_pbind only_read_mem only_dup only_query_protocol split: sum.split option.split)

lemma only_prescan: "only quiet (prescan_msghdr n ptr)"
  unfolding prescan_msghdr_def Let_def by (auto intro!: only_pbind only_read_mem split: sum.split)

lemma only_iovecs: "only quiet (copy_iovecs n iov i k bufs)"
  by (induction k arbitrary: i bufs) (auto simp: Let_def intro!: only_pbind only_read_mem split: sum.split)

lemma only_send_msghdr: "only quiet (send_msghdr_on_behalf n live ns fd pr ptr fl)"
  unfolding send_msghdr_on_behalf_def Let_def
  by (auto intro!: only_pbind only_read_mem only_iovecs split: sum.split option.split)

lemma only_sendmsg: "only quiet (sendmsg_on_behalf n live ns)"
  unfolding sendmsg_on_behalf_def Let_def
  by (auto intro!: only_pbind only_prescan only_dup only_query_protocol only_send_msghdr
      split: sum.split option.split prescan_result.split)

lemma only_prescan_all: "only quiet (prescan_all n ptr i k)"
  by (induction k arbitrary: i) (auto intro!: only_pbind only_prescan split: prescan_result.split)

lemma only_send_all: "only quiet (send_all n live ns fd pr ptr fl i k sent)"
  by (induction k arbitrary: i sent)
    (auto intro!: only_pbind only_send_msghdr only_write_mem split: sum.split)

lemma only_sendmmsg: "only quiet (sendmmsg_on_behalf n live ns)"
  unfolding sendmmsg_on_behalf_def Let_def
  by (auto intro!: only_pbind only_prescan_all only_dup only_query_protocol only_send_all
      split: sum.split option.split)

lemma only_handle_net [requests]: "only quiet (handle_net n port_remap live ns)"
  unfolding handle_net_def Let_def
  by (auto intro!: only_pbind only_connect only_sendto only_sendmsg only_sendmmsg)

text \<open>Each modelled handler meets the contract, whatever the others do.\<close>

interpretation fork: notification_handler "run_handler policy other Fork" for policy other
  by unfold_locales
    (auto simp: run_handler_def split_def intro!: only_pbind only_fork)

interpretation waiting: notification_handler "run_handler policy other Wait" for policy other
  by unfold_locales (simp_all add: run_handler_def handle_wait_def)

interpretation memory: notification_handler "run_handler policy other Memory" for policy other
  by unfold_locales (auto simp: run_handler_def memory_keeps split: prod.split)

interpretation net: notification_handler "run_handler policy other Net" for policy other
  by unfold_locales
    (auto simp: run_handler_def split_def intro!: only_pbind only_handle_net)

interpretation binding: notification_handler "run_handler policy other Bind" for policy other
  by unfold_locales
    (auto simp: run_handler_def split_def intro!: only_pbind only_handle_bind)

interpretation sockname: notification_handler "run_handler policy other Getsockname" for policy other
  by unfold_locales
    (auto simp: run_handler_def intro!: only_pbind only_getsockname)

lemma handler_run:
  assumes "\<And>h. notification_handler (other h)"
  shows "notification_handler (run_handler policy other h)"
proof (cases "h \<in> {Fork, Wait, Memory, Net, Bind, Getsockname}")
  case True
  then show ?thesis
    using fork.notification_handler_axioms waiting.notification_handler_axioms
      memory.notification_handler_axioms net.notification_handler_axioms
      binding.notification_handler_axioms sockname.notification_handler_axioms by auto
next
  case False
  then have "run_handler policy other h = other h"
    by (cases h) (auto simp: run_handler_def fun_eq_iff)
  with assms show ?thesis by simp
qed

text \<open>A chain of handlers that meet the contract meets it, and so does the table.\<close>

lemma handler_chain:
  assumes "\<And>h. notification_handler (handle h)"
  shows "only quiet (run_chain handle n hs sv)"
    and "safe anything (\<lambda>_ (a, sv'). tracked sv \<subseteq> tracked sv') h (run_chain handle n hs sv)"
proof -
  note quiet = notification_handler.requests_quiet [OF assms]
  note kept = notification_handler.processes_kept [OF assms]
  show "only quiet (run_chain handle n hs sv)"
    by (induction hs arbitrary: sv) (auto intro!: only_pbind quiet)
  show "safe anything (\<lambda>_ (a, sv'). tracked sv \<subseteq> tracked sv') h (run_chain handle n hs sv)"
  proof (induction hs arbitrary: sv h)
    case (Cons x hs)
    have "safe anything (\<lambda>h1 (a, sv1). safe anything (\<lambda>_ (a, sv'). tracked sv \<subseteq> tracked sv') h1
        (if a \<noteq> Continue then Done (a, sv1) else run_chain handle n hs sv1)) h (handle x n sv)"
    proof (rule safe_mono [OF kept], goal_cases)
      case (1 h1 r)
      then show ?case by (cases r) (auto intro: safe_mono [OF Cons.IH])
    qed
    then show ?case by (simp add: split_def)
  qed simp
qed

lemma handler_dispatch:
  assumes "\<And>h. notification_handler (handle h)"
  shows "notification_handler (dispatch handle t)"
  by unfold_locales (auto simp: dispatch_def handler_chain [OF assms] split: option.split)

lemma exec_builtins:
  assumes "is_exec n"
  shows "set (handlers_for (builtin_handlers policy) (notif_nr n)) \<subseteq> {Chroot_handler Chroot_exec, Cow_handler Cow_exec}"
proof -
  consider "notif_nr n = SYS_execve" | "notif_nr n = SYS_execveat"
    using assms by (auto simp: requires_freeze_on_continue_def)
  then show ?thesis
    unfolding builtin_handlers_defs
    by cases (auto simp: handlers_for_if handlers_for_option handlers_for_both handlers_for_Cons
        handlers_for_Nil FORK_LIKE_SYSCALLS_def chroot_handlers_defs cow_handlers_def netlink_handlers_def
        handlers_for_map split: option.split)
qed

definition leaves_exec :: "notif_action \<Rightarrow> bool" where
  "leaves_exec a \<longleftrightarrow> a = Continue \<or> is_errno a"

lemma exec_chain:
  assumes "\<And>h sv h0. h \<in> set hs \<Longrightarrow> safe anything (\<lambda>_ (a, sv'). leaves_exec a) h0 (handle h n sv)"
  shows "safe anything (\<lambda>_ (a, sv'). leaves_exec a) h0 (run_chain handle n hs sv)"
  using assms
proof (induction hs arbitrary: sv h0)
  case Nil
  then show ?case by (simp add: leaves_exec_def)
next
  case (Cons x hs)
  have "safe anything (\<lambda>_ (a, sv'). leaves_exec a) h1 (run_chain handle n hs sv1)" for h1 sv1
    by (rule Cons.IH) (simp add: Cons.prems)
  then have "safe anything (\<lambda>h1 (a, sv1). safe anything (\<lambda>_ (a, sv'). leaves_exec a) h1
      (if a \<noteq> Continue then Done (a, sv1) else run_chain handle n hs sv1)) h0 (handle x n sv)"
    by (intro safe_mono [OF Cons.prems [of x]]) auto
  then show ?case by (simp add: split_def)
qed

lemma supervised_table:
  assumes "\<And>h. supervised (other h)"
  shows "supervised (dispatch (run_handler policy other) (build_dispatch_table policy pending))"
proof -
  have other: "notification_handler (other h)" for h
    using assms by (simp add: supervised_def)
  have answered: "safe anything (\<lambda>_ (a, sv'). leaves_exec a) h0 (other h n sv)" if "is_exec n" for h0 h n sv
    using supervised.exec_answered [OF assms that] by (simp add: leaves_exec_def)
  have "safe anything (\<lambda>_ (a, sv'). leaves_exec a) h0
      (dispatch (run_handler policy other) (build_dispatch_table policy pending) n sv)"
    if n: "is_exec n" for n h0 sv
    unfolding dispatch_chain
  proof (rule exec_chain)
    fix h sv h0
    assume "h \<in> set (handlers_for (builtin_handlers policy) (notif_nr n) @ map User (handlers_for pending (notif_nr n)))"
    with exec_builtins [OF n, of policy] have "h \<in> {Chroot_handler Chroot_exec, Cow_handler Cow_exec} \<union> range User"
      by auto
    then have "run_handler policy other h n sv = other h n sv" by (auto simp: run_handler_def)
    with answered [OF n] show "safe anything (\<lambda>_ (a, sv'). leaves_exec a) h0 (run_handler policy other h n sv)"
      by simp
  qed
  then show ?thesis
    by (intro supervised.intro supervised_axioms.intro handler_dispatch handler_run other)
      (simp add: leaves_exec_def)
qed

text \<open>A sandbox whose other handlers all leave their calls to the kernel.\<close>

definition passes_on :: "'u handler \<Rightarrow> 'x supervisor_scheme dispatcher" where
  "passes_on h n sv = Done (Continue, sv)"

lemma supervised_passes_on: "supervised (passes_on h)"
  by unfold_locales (simp_all add: passes_on_def)

interpretation sandbox: supervised "dispatch (run_handler policy passes_on) (build_dispatch_table policy pending)"
  for policy pending
  by (rule supervised_table) (rule supervised_passes_on)

section \<open>Properties\<close>


definition watched_policy :: notif_policy where
  "watched_policy = notif_policy_of (\<lambda>_. None) 0 [SYS_execve] ''box'' None minimal_sandbox"

definition fresh_supervisor :: supervisor where
  "fresh_supervisor = \<lparr>sv_processes = insert_process 5 400 ProcessIndex_new,
     sv_resource = ResourceState_new 0 8, sv_network = NetworkState_new,
     sv_policy_fn = PolicyFnState_new, sv_vdso_patched_addr = 0\<rparr>"


text \<open>
  C4: a notification settles. With handlers that meet the contract: however the run of one notification
  ends, it has been answered at most once, and not at all when the supervisor panics; when it finishes,
  no task is left attached, except siblings of the caller of an \<open>execve\<close> that was left to the kernel,
  which kills them.
\<close>

theorem notification_settles:
  assumes "supervised disp" "\<And>xs. set xs \<subseteq> set (order xs)"
  shows "settled n (trace K (handle_notification disp order m k policy n sv))
    (result K (handle_notification disp order m k policy n sv))"
  by (rule safe_result [OF supervised.safe_handle [OF assms]])

theorem notification_settles_witness:
  "settled (call SYS_clone [0])
    (trace forking_kernel (handle_notification
       (dispatch (run_handler watched_policy passes_on)
         (build_dispatch_table watched_policy ([] :: (int \<times> unit) list)))
       rev 2 2 watched_policy (call SYS_clone [0]) fresh_supervisor))
    (result forking_kernel (handle_notification
       (dispatch (run_handler watched_policy passes_on)
         (build_dispatch_table watched_policy ([] :: (int \<times> unit) list)))
       rev 2 2 watched_policy (call SYS_clone [0]) fresh_supervisor))"
  by (rule notification_settles [OF sandbox.supervised_axioms]) simp

text \<open>
  a child can stop its supervisor. If the pointer to the first argument of an \<open>execve\<close> can be read only
  in part, as at the end of a mapped page, filling in the event panics, and the code that answers the child and
  releases the frozen tasks is not reached.
\<close>

theorem short_argv_panics:
  assumes "pf_event_tx st" "notif_nr n = SYS_execve" "\<not> is_errno action"
    and "eval M (read_ppid (notif_pid n)) = Finished ppid"
    and "arg n 1 \<noteq> 0" "M (KIdValid (notif_id n)) = Inr z"
    and "M (KReadVm (notif_pid n) (arg n 1) 8) = Inr (y, bs)" "length bs < 8"
  shows "result (stateless M) (emit_policy_event n action st) = Panicked"
proof -
  have "eval M (read_child_mem (notif_id n) (notif_pid n) (arg n 1) 8) = Inr (take 8 bs)"
    by (rule eval_read_child_mem) fact+
  then have "eval M (read_argv_loop (Suc j) n (arg n 1) []) = Panicked" for j
    using assms(8) by simp
  from this [of 63] have "eval M (read_argv_for_event n (arg n 1)) = Panicked"
    using assms(5) by (simp add: read_argv_for_event_def and_then_def)
  then show ?thesis
    using assms(1-4) by (simp add: result_stateless emit_policy_event_def and_then_def Let_def)
qed

definition half_pointer :: "sysreq \<Rightarrow> sysres" where
  "half_pointer r = (case r of
     KIdValid _ \<Rightarrow> Inr (0, []) | KReadVm _ a _ \<Rightarrow> if a = 0x1ffc then Inr (4, [1, 2, 3, 4]) else Inl EFAULT
   | _ \<Rightarrow> Inl ESRCH)"

theorem short_argv_panics_witness:
  "result (stateless half_pointer)
    (emit_policy_event (call SYS_execve [0x1000, 0x1ffc]) Continue (PolicyFnState_new\<lparr>pf_event_tx := True\<rparr>))
   = Panicked"
  by (rule short_argv_panics [where bs = "[1, 2, 3, 4]" and ppid = None])
    (simp_all add: half_pointer_def read_ppid_def call_def notif_nr_def arg_def is_errno_def)

end
