(* ===== verification/Netlink.thy ===== *)
theory Netlink
  imports NetHandlers ProcIndex
begin

text \<open>
  Netlink virtualisation (\<open>netlink/\<close>): the message format and its writer (\<open>proto.rs\<close>), the synthesised
  replies (\<open>synth.rs\<close>), the registry of injected sockets (\<open>state.rs\<close>), the responder (\<open>proxy.rs\<close>) and the
  system call handlers (\<open>handlers.rs\<close>). The readers of messages and attributes below follow the macros of
  \<open>netlink(7)\<close> and \<open>rtnetlink(3)\<close>; they say what a client makes of a reply.
\<close>

unbundle bit_operations_syntax

section \<open>proto.rs\<close>

abbreviation (input) NLMSG_ALIGN_TO :: "'a::numeral" where "NLMSG_ALIGN_TO \<equiv> 4"
abbreviation (input) NLMSG_HDRLEN :: nat where "NLMSG_HDRLEN \<equiv> 16"
abbreviation (input) RTA_HDRLEN :: nat where "RTA_HDRLEN \<equiv> 4"
abbreviation (input) NLMSG_ERROR :: u16 where "NLMSG_ERROR \<equiv> 2"
abbreviation (input) NLMSG_DONE :: u16 where "NLMSG_DONE \<equiv> 3"
abbreviation (input) RTM_GETLINK :: u16 where "RTM_GETLINK \<equiv> 18"
abbreviation (input) RTM_NEWLINK :: u16 where "RTM_NEWLINK \<equiv> 16"
abbreviation (input) RTM_GETADDR :: u16 where "RTM_GETADDR \<equiv> 22"
abbreviation (input) RTM_NEWADDR :: u16 where "RTM_NEWADDR \<equiv> 20"
abbreviation (input) NLM_F_MULTI :: u16 where "NLM_F_MULTI \<equiv> 0x002"
abbreviation (input) NLM_F_DUMP :: u16 where "NLM_F_DUMP \<equiv> 0x300"

text \<open>Lengths of vectors are far below the width of \<open>usize\<close>, so they are natural numbers here.\<close>

definition nlmsg_align :: "nat \<Rightarrow> nat" where
  "nlmsg_align len = nat ((int len + NLMSG_ALIGN_TO - 1) AND NOT (NLMSG_ALIGN_TO - 1))"

record NlMsgHdr =
  nlmsg_len :: u32
  nlmsg_type :: u16
  nlmsg_flags :: u16
  nlmsg_seq :: u32
  nlmsg_pid :: u32

record IfInfoMsg =
  ifi_family :: u8
  ifi_pad :: u8
  ifi_type :: u16
  ifi_index :: u32
  ifi_flags :: u32
  ifi_change :: u32

record IfAddrMsg =
  ifa_family :: u8
  ifa_prefixlen :: u8
  ifa_flags :: u8
  ifa_scope :: u8
  ifa_index :: u32

record RtAttr =
  rta_len :: u16
  rta_type :: u16

text \<open>The structures as bytes (\<open>repr(C)\<close>, no padding).\<close>

definition NlMsgHdr_bytes :: "NlMsgHdr \<Rightarrow> bytes" where
  "NlMsgHdr_bytes h = le_bytes 4 (nlmsg_len h) @ le_bytes 2 (nlmsg_type h) @ le_bytes 2 (nlmsg_flags h)
     @ le_bytes 4 (nlmsg_seq h) @ le_bytes 4 (nlmsg_pid h)"

definition NlMsgHdr_read :: "bytes \<Rightarrow> NlMsgHdr" where
  "NlMsgHdr_read b = \<lparr>nlmsg_len = le_word (subslice 0 4 b), nlmsg_type = le_word (subslice 4 6 b),
     nlmsg_flags = le_word (subslice 6 8 b), nlmsg_seq = le_word (subslice 8 12 b),
     nlmsg_pid = le_word (subslice 12 16 b)\<rparr>"

definition IfInfoMsg_bytes :: "IfInfoMsg \<Rightarrow> bytes" where
  "IfInfoMsg_bytes m = [ifi_family m, ifi_pad m] @ le_bytes 2 (ifi_type m) @ le_bytes 4 (ifi_index m)
     @ le_bytes 4 (ifi_flags m) @ le_bytes 4 (ifi_change m)"

definition IfAddrMsg_bytes :: "IfAddrMsg \<Rightarrow> bytes" where
  "IfAddrMsg_bytes m =
     [ifa_family m, ifa_prefixlen m, ifa_flags m, ifa_scope m] @ le_bytes 4 (ifa_index m)"

definition RtAttr_bytes :: "RtAttr \<Rightarrow> bytes" where
  "RtAttr_bytes a = le_bytes 2 (rta_len a) @ le_bytes 2 (rta_type a)"

text \<open>The writer is its buffer.\<close>

type_synonym writer = bytes

definition Writer_new :: writer where
  "Writer_new = []"

definition pad_to :: "nat \<Rightarrow> bytes" where
  "pad_to n = replicate (nlmsg_align n - n) 0"

definition write_aligned :: "bytes \<Rightarrow> writer \<Rightarrow> writer" where
  "write_aligned bs w = w @ bs @ pad_to (length bs)"

definition write_attr :: "u16 \<Rightarrow> bytes \<Rightarrow> writer \<Rightarrow> writer" where
  "write_attr t payload w =
     (let total = RTA_HDRLEN + length payload
      in w @ RtAttr_bytes \<lparr>rta_len = word_of_nat total, rta_type = t\<rparr> @ payload @ pad_to total)"

definition begin_msg :: "u16 \<Rightarrow> u16 \<Rightarrow> u32 \<Rightarrow> u32 \<Rightarrow> writer \<Rightarrow> writer \<times> nat" where
  "begin_msg t flags seq pid w =
     (w @ NlMsgHdr_bytes \<lparr>nlmsg_len = 0, nlmsg_type = t, nlmsg_flags = flags, nlmsg_seq = seq, nlmsg_pid = pid\<rparr>,
      length w)"

definition finish_msg :: "nat \<Rightarrow> writer \<Rightarrow> writer" where
  "finish_msg start w =
     (let total = length w - start
      in take start w @ le_bytes 4 (word_of_nat total :: u32) @ drop (start + 4) w @ pad_to total)"

record parsed_request =
  req_type :: u16
  req_flags :: u16
  req_seq :: u32
  req_pid :: u32

definition parse_request :: "bytes \<Rightarrow> parsed_request option" where
  "parse_request buf =
     (if length buf < NLMSG_HDRLEN then None
      else let hdr = NlMsgHdr_read buf in
        if unat (nlmsg_len hdr) > length buf then None
        else Some \<lparr>req_type = nlmsg_type hdr, req_flags = nlmsg_flags hdr,
                    req_seq = nlmsg_seq hdr, req_pid = nlmsg_pid hdr\<rparr>)"

section \<open>synth.rs\<close>

abbreviation (input) IFI_LO_INDEX :: u32 where "IFI_LO_INDEX \<equiv> 1"
abbreviation (input) IFI_LO_TYPE :: u16 where "IFI_LO_TYPE \<equiv> 772"
abbreviation (input) LO_MTU :: u32 where "LO_MTU \<equiv> 65536"
abbreviation (input) IFLA_ADDRESS :: u16 where "IFLA_ADDRESS \<equiv> 1"
abbreviation (input) IFLA_BROADCAST :: u16 where "IFLA_BROADCAST \<equiv> 2"
abbreviation (input) IFLA_IFNAME :: u16 where "IFLA_IFNAME \<equiv> 3"
abbreviation (input) IFLA_MTU :: u16 where "IFLA_MTU \<equiv> 4"
abbreviation (input) IFLA_TXQLEN :: u16 where "IFLA_TXQLEN \<equiv> 13"
abbreviation (input) IFA_ADDRESS :: u16 where "IFA_ADDRESS \<equiv> 1"
abbreviation (input) IFA_LOCAL :: u16 where "IFA_LOCAL \<equiv> 2"
abbreviation (input) IFA_LABEL :: u16 where "IFA_LABEL \<equiv> 3"
abbreviation (input) EOPNOTSUPP :: int where "EOPNOTSUPP \<equiv> 95"

definition LO_FLAGS :: u32 where "LO_FLAGS = 0x1 OR 0x8 OR 0x40"

text \<open>\<open>b"lo\0"\<close>\<close>

definition lo_name :: bytes where "lo_name = [0x6C, 0x6F, 0]"

definition encode_one :: "u16 \<Rightarrow> u16 \<Rightarrow> u32 \<Rightarrow> u32 \<Rightarrow> (writer \<Rightarrow> writer) \<Rightarrow> bytes" where
  "encode_one t flags seq pid body =
     (let (w, start) = begin_msg t flags seq pid Writer_new in finish_msg start (body w))"

definition done_datagram :: "u32 \<Rightarrow> u32 \<Rightarrow> bytes" where
  "done_datagram seq pid =
     encode_one NLMSG_DONE NLM_F_MULTI seq pid (write_aligned (le_bytes 4 (0 :: u32)))"

definition link_body :: "writer \<Rightarrow> writer" where
  "link_body w =
     (let ifi = \<lparr>ifi_family = 0, ifi_pad = 0, ifi_type = IFI_LO_TYPE, ifi_index = IFI_LO_INDEX,
                 ifi_flags = LO_FLAGS, ifi_change = 0\<rparr>;
          w = write_aligned (IfInfoMsg_bytes ifi) w;
          w = write_attr IFLA_IFNAME lo_name w;
          w = write_attr IFLA_MTU (le_bytes 4 LO_MTU) w;
          w = write_attr IFLA_TXQLEN (le_bytes 4 (1000 :: u32)) w;
          w = write_attr IFLA_ADDRESS (replicate 6 0) w
      in write_attr IFLA_BROADCAST (replicate 6 0) w)"

definition build_link_dump :: "u32 \<Rightarrow> u32 \<Rightarrow> bytes list" where
  "build_link_dump seq pid =
     [encode_one RTM_NEWLINK NLM_F_MULTI seq pid link_body, done_datagram seq pid]"

definition addr_body :: "u8 \<Rightarrow> u8 \<Rightarrow> bytes \<Rightarrow> writer \<Rightarrow> writer" where
  "addr_body family prefixlen addr w =
     (let ifa = \<lparr>ifa_family = family, ifa_prefixlen = prefixlen, ifa_flags = 0, ifa_scope = 254,
                 ifa_index = IFI_LO_INDEX\<rparr>;
          w = write_aligned (IfAddrMsg_bytes ifa) w;
          w = write_attr IFA_ADDRESS addr w
      in write_attr IFA_LOCAL addr w)"

definition build_addr_dump :: "u32 \<Rightarrow> u32 \<Rightarrow> bytes list" where
  "build_addr_dump seq pid =
     [encode_one RTM_NEWADDR NLM_F_MULTI seq pid
        (\<lambda>w. write_attr IFA_LABEL lo_name (addr_body 2 8 [127, 0, 0, 1] w)),
      encode_one RTM_NEWADDR NLM_F_MULTI seq pid (addr_body 10 128 (replicate 15 0 @ [1])),
      done_datagram seq pid]"

definition build_error :: "parsed_request \<Rightarrow> int \<Rightarrow> bytes" where
  "build_error req err = encode_one NLMSG_ERROR 0 (req_seq req) (req_pid req) (\<lambda>w.
     let w = write_aligned (le_bytes 4 (word_of_int err :: u32)) w;
         orig = \<lparr>nlmsg_len = word_of_nat NLMSG_HDRLEN, nlmsg_type = req_type req,
                 nlmsg_flags = req_flags req, nlmsg_seq = req_seq req, nlmsg_pid = req_pid req\<rparr>
     in write_aligned (NlMsgHdr_bytes orig) w)"

definition synthesize_reply :: "parsed_request \<Rightarrow> u32 \<Rightarrow> bytes list" where
  "synthesize_reply req reply_pid =
     (if req_type req = RTM_GETLINK \<and> req_flags req AND NLM_F_DUMP \<noteq> 0
      then build_link_dump (req_seq req) reply_pid
      else if req_type req = RTM_GETADDR \<and> req_flags req AND NLM_F_DUMP \<noteq> 0
      then build_addr_dump (req_seq req) reply_pid
      else [build_error req (- EOPNOTSUPP)])"


section \<open>Lengths and bytes\<close>

lemma nlmsg_align_eq: "nlmsg_align n = (n + 3) div 4 * 4"
proof -
  have eq: "x AND NOT 3 = x div 4 * 4" for x :: int
  proof -
    have "x AND NOT (mask 2) = push_bit 2 (drop_bit 2 x)"
    proof (rule bit_eqI)
      fix n
      show "bit (x AND NOT (mask 2)) n = bit (push_bit 2 (drop_bit 2 x)) n"
      proof (cases "2 \<le> n")
        case True
        then obtain m where "n = 2 + m" by (metis le_iff_add)
        then show ?thesis by (simp add: bit_simps)
      qed (simp add: bit_simps)
    qed
    moreover have "mask 2 = (3 :: int)" by (simp add: mask_eq_exp_minus_1)
    ultimately have "x AND NOT 3 = push_bit 2 (drop_bit 2 x)" by (simp only:)
    then show ?thesis by (simp add: push_bit_eq_mult drop_bit_eq_div)
  qed
  have "nlmsg_align n = nat (int (n + 3) div 4 * 4)"
    unfolding nlmsg_align_def using eq [of "int n + 3"] by (simp add: add.commute)
  also have "int (n + 3) div 4 * 4 = int ((n + 3) div 4 * 4)"
    by (simp only: of_nat_div of_nat_mult of_nat_numeral)
  finally show ?thesis by (simp only: nat_int)
qed

lemma nlmsg_align_ge: "n \<le> nlmsg_align n" "4 dvd nlmsg_align n" "nlmsg_align n < n + 4"
  unfolding nlmsg_align_eq by presburger+

section \<open>Reading a reply\<close>

text \<open>\<open>RTA_OK\<close>, \<open>RTA_NEXT\<close>: attributes up to the end of the bytes.\<close>

function read_attrs :: "bytes \<Rightarrow> (u16 \<times> bytes) list option" where
  "read_attrs b =
     (if b = [] then Some []
      else let len = unat (le_word (subslice 0 2 b) :: u16) in
        if len < RTA_HDRLEN \<or> length b < len then None
        else map_option (Cons (le_word (subslice 2 4 b), subslice 4 len b))
               (read_attrs (drop (nlmsg_align len) b)))"
  by auto
termination
  by (relation "measure length") (auto simp: nlmsg_align_eq)

declare read_attrs.simps [simp del]

text \<open>\<open>NLMSG_OK\<close>, \<open>NLMSG_NEXT\<close>: messages, each a header and what follows it.\<close>

function read_msgs :: "bytes \<Rightarrow> (NlMsgHdr \<times> bytes) list option" where
  "read_msgs b =
     (if b = [] then Some []
      else let hdr = NlMsgHdr_read b; len = unat (nlmsg_len hdr) in
        if len < NLMSG_HDRLEN \<or> length b < len then None
        else map_option (Cons (hdr, subslice NLMSG_HDRLEN len b)) (read_msgs (drop (nlmsg_align len) b)))"
  by auto
termination
  by (relation "measure length") (auto simp: nlmsg_align_eq)

declare read_msgs.simps [simp del]

lemma read_attrs_step:
  assumes "unat (le_word (subslice 0 2 b) :: u16) = len" "RTA_HDRLEN \<le> len" "len \<le> length b"
  shows "read_attrs b = map_option (Cons (le_word (subslice 2 4 b), subslice 4 len b))
           (read_attrs (drop (nlmsg_align len) b))"
  using assms by (subst read_attrs.simps) auto

lemma read_msgs_step:
  assumes "NlMsgHdr_read b = h" "unat (nlmsg_len h) = len" "NLMSG_HDRLEN \<le> len" "len \<le> length b"
  shows "read_msgs b = map_option (Cons (h, subslice NLMSG_HDRLEN len b))
           (read_msgs (drop (nlmsg_align len) b))"
  using assms by (subst read_msgs.simps) auto

lemma length_NlMsgHdr_bytes [simp]: "length (NlMsgHdr_bytes h) = 16"
  by (simp add: NlMsgHdr_bytes_def)

lemma NlMsgHdr_read_bytes [simp]: "NlMsgHdr_read (NlMsgHdr_bytes h @ rest) = h"
  by (simp add: NlMsgHdr_read_def NlMsgHdr_bytes_def subslice_def)

lemma length_RtAttr_bytes [simp]: "length (RtAttr_bytes a) = 4"
  by (simp add: RtAttr_bytes_def)

lemma drop_padded [simp]:
  "length bs = n \<Longrightarrow> drop (nlmsg_align n) (bs @ pad_to n @ rest) = rest"
  using nlmsg_align_ge(1) [of n] by (simp add: pad_to_def)

definition rt_attr :: "u16 \<Rightarrow> bytes \<Rightarrow> bytes" where
  "rt_attr t p = write_attr t p []"

lemma write_attr_eq: "write_attr t p w = w @ rt_attr t p"
  by (simp add: rt_attr_def write_attr_def Let_def)

lemma read_attrs_write:
  assumes "RTA_HDRLEN + length p < 2 ^ 16"
  shows "read_attrs (rt_attr t p @ rest) = map_option (Cons (t, p)) (read_attrs rest)"
proof -
  let ?a = "RtAttr_bytes \<lparr>rta_len = word_of_nat (4 + length p), rta_type = t\<rparr>"
  define b where "b = rt_attr t p @ rest"
  have b: "b = (?a @ p) @ pad_to (4 + length p) @ rest"
    by (simp add: b_def rt_attr_def write_attr_def Let_def)
  have len: "unat (le_word (subslice 0 2 b) :: u16) = 4 + length p"
    using assms by (simp add: b RtAttr_bytes_def subslice_def unat_fits del: of_nat_add)
  have t: "le_word (subslice 2 4 b) = t" "subslice 4 (4 + length p) b = p"
    by (simp_all add: b RtAttr_bytes_def subslice_def)
  have d: "drop (nlmsg_align (4 + length p)) b = rest"
    unfolding b by (rule drop_padded) simp
  have "4 + length p \<le> length b" by (simp add: b)
  from read_attrs_step [OF len _ this] show ?thesis by (simp add: t d flip: b_def)
qed

lemma read_attrs_Nil [simp]: "read_attrs [] = Some []"
  by (simp add: read_attrs.simps)

lemmas read_attrs_write_last = read_attrs_write [where rest = "[]", simplified]

lemma length_rt_attr: "length (rt_attr t p) = nlmsg_align (RTA_HDRLEN + length p)"
  using nlmsg_align_ge(1) [of "4 + length p"]
  by (simp add: rt_attr_def write_attr_def Let_def pad_to_def)

lemma read_msgs_Nil [simp]: "read_msgs [] = Some []"
  by (simp add: read_msgs.simps)

text \<open>A body appends its bytes, whatever the buffer holds.\<close>

definition appends :: "(writer \<Rightarrow> writer) \<Rightarrow> bytes \<Rightarrow> bool" where
  "appends body d \<longleftrightarrow> (\<forall>w. body w = w @ d)"

lemma encode_one_eq:
  assumes "appends body d"
  shows "encode_one t flags seq pid body =
     (NlMsgHdr_bytes \<lparr>nlmsg_len = word_of_nat (16 + length d), nlmsg_type = t, nlmsg_flags = flags,
        nlmsg_seq = seq, nlmsg_pid = pid\<rparr> @ d) @ pad_to (16 + length d)"
  using assms
  by (simp add: encode_one_def begin_msg_def finish_msg_def Writer_new_def Let_def appends_def NlMsgHdr_bytes_def)

lemma read_msgs_encode:
  assumes "appends body d" "NLMSG_HDRLEN + length d < 2 ^ 32"
  shows "read_msgs (encode_one t flags seq pid body @ rest) =
     map_option (Cons (\<lparr>nlmsg_len = word_of_nat (16 + length d), nlmsg_type = t, nlmsg_flags = flags,
        nlmsg_seq = seq, nlmsg_pid = pid\<rparr>, d)) (read_msgs rest)"
proof -
  let ?h = "\<lparr>nlmsg_len = word_of_nat (16 + length d), nlmsg_type = t, nlmsg_flags = flags,
        nlmsg_seq = seq, nlmsg_pid = pid\<rparr>"
  define b where "b = encode_one t flags seq pid body @ rest"
  have b: "b = (NlMsgHdr_bytes ?h @ d) @ pad_to (16 + length d) @ rest"
    by (simp add: b_def encode_one_eq [OF assms(1)])
  have h: "NlMsgHdr_read b = ?h" by (simp add: b)
  have len: "unat (nlmsg_len ?h) = 16 + length d"
    using assms(2) by (simp add: unat_fits del: of_nat_add)
  have d: "drop (nlmsg_align (16 + length d)) b = rest"
    unfolding b by (rule drop_padded) simp
  have p: "subslice 16 (16 + length d) b = d" by (simp add: b subslice_def)
  have "16 + length d \<le> length b" by (simp add: b)
  from read_msgs_step [OF h len _ this] show ?thesis by (simp add: d p flip: b_def)
qed

lemma appends_Nil: "appends body d \<Longrightarrow> body [] = d"
  by (simp add: appends_def)

lemma appends_aligned: "appends (write_aligned bs) (bs @ pad_to (length bs))"
  by (simp add: appends_def write_aligned_def)

text \<open>A request and its parsed form: what \<open>encode_one\<close> writes \<open>parse_request\<close> reads.\<close>

lemma parse_request_encode:
  assumes "appends body d" "NLMSG_HDRLEN + length d < 2 ^ 32"
  shows "parse_request (encode_one t flags seq pid body) =
     Some \<lparr>req_type = t, req_flags = flags, req_seq = seq, req_pid = pid\<rparr>"
  using assms(2) by (simp add: parse_request_def encode_one_eq [OF assms(1)] unat_fits Let_def del: of_nat_add)

section \<open>What the replies say\<close>

text \<open>The fixed part before the attributes, by message type.\<close>

definition family_header :: "u16 \<Rightarrow> nat" where
  "family_header t = (if t = RTM_NEWLINK then 16 else if t = RTM_NEWADDR then 8
     else if t = NLMSG_DONE then 4 else 20)"

definition dumps :: "parsed_request \<Rightarrow> bool" where
  "dumps req \<longleftrightarrow> req_type req \<in> {RTM_GETLINK, RTM_GETADDR} \<and> req_flags req AND NLM_F_DUMP \<noteq> 0"

text \<open>Types and attributes of a dump: one loopback interface with the two loopback addresses.\<close>

definition loopback_dump :: "u16 \<Rightarrow> (u16 \<times> (u16 \<times> bytes) list) list" where
  "loopback_dump t =
     (if t = RTM_GETLINK then
        [(RTM_NEWLINK, [(IFLA_IFNAME, lo_name), (IFLA_MTU, le_bytes 4 LO_MTU),
            (IFLA_TXQLEN, le_bytes 4 (1000 :: u32)), (IFLA_ADDRESS, replicate 6 0),
            (IFLA_BROADCAST, replicate 6 0)])]
      else
        [(RTM_NEWADDR, [(IFA_ADDRESS, [127, 0, 0, 1]), (IFA_LOCAL, [127, 0, 0, 1]), (IFA_LABEL, lo_name)]),
         (RTM_NEWADDR, [(IFA_ADDRESS, replicate 15 0 @ [1]), (IFA_LOCAL, replicate 15 0 @ [1])])])
     @ [(NLMSG_DONE, [])]"

definition attributes :: "NlMsgHdr \<times> bytes \<Rightarrow> u16 \<times> (u16 \<times> bytes) list option" where
  "attributes m = (nlmsg_type (fst m), read_attrs (drop (family_header (nlmsg_type (fst m))) (snd m)))"

lemma length_lo_name [simp]: "length lo_name = 3"
  by (simp add: lo_name_def)

lemmas attr_simps = write_attr_eq write_aligned_def pad_to_def nlmsg_align_eq read_attrs_write
  read_attrs_write_last length_rt_attr

definition link_data :: bytes where
  "link_data = link_body []"

definition v4_data :: bytes where
  "v4_data = write_attr IFA_LABEL lo_name (addr_body 2 8 [127, 0, 0, 1] [])"

definition v6_data :: bytes where
  "v6_data = addr_body 10 128 (replicate 15 0 @ [1]) []"

lemma link_data:
  "appends link_body link_data" "length link_data < 1000"
  "(RTM_NEWLINK, read_attrs (drop 16 link_data)) = map_prod id Some (loopback_dump RTM_GETLINK ! 0)"
  by (simp_all add: appends_def link_data_def link_body_def IfInfoMsg_bytes_def attr_simps loopback_dump_def)

lemma v4_data:
  "appends (\<lambda>w. write_attr IFA_LABEL lo_name (addr_body 2 8 [127, 0, 0, 1] w)) v4_data"
  "length v4_data < 1000"
  "(RTM_NEWADDR, read_attrs (drop 8 v4_data)) = map_prod id Some (loopback_dump RTM_GETADDR ! 0)"
  by (simp_all add: appends_def v4_data_def addr_body_def IfAddrMsg_bytes_def attr_simps loopback_dump_def)

lemma v6_data:
  "appends (addr_body 10 128 (replicate 15 0 @ [1])) v6_data" "length v6_data < 1000"
  "(RTM_NEWADDR, read_attrs (drop 8 v6_data)) = map_prod id Some (loopback_dump RTM_GETADDR ! 1)"
  by (simp_all add: appends_def v6_data_def addr_body_def IfAddrMsg_bytes_def attr_simps loopback_dump_def)

definition message :: "u16 \<Rightarrow> u16 \<Rightarrow> u32 \<Rightarrow> u32 \<Rightarrow> bytes \<Rightarrow> NlMsgHdr \<times> bytes" where
  "message t flags seq pid d =
     (\<lparr>nlmsg_len = word_of_nat (16 + length d), nlmsg_type = t, nlmsg_flags = flags,
        nlmsg_seq = seq, nlmsg_pid = pid\<rparr>, d)"

lemma read_msgs_message:
  assumes "appends body d" "length d < 1000"
  shows "read_msgs (encode_one t flags seq pid body @ rest) =
     map_option (Cons (message t flags seq pid d)) (read_msgs rest)"
  unfolding message_def by (rule read_msgs_encode) (use assms in simp_all)

lemma read_msgs_message_last:
  "appends body d \<Longrightarrow> length d < 1000 \<Longrightarrow>
     read_msgs (encode_one t flags seq pid body) = Some [message t flags seq pid d]"
  using read_msgs_message [of body d t flags seq pid "[]"] by simp

definition done_data :: bytes where
  "done_data = le_bytes 4 (0 :: u32)"

lemma done_data: "appends (write_aligned (le_bytes 4 (0 :: u32))) done_data" "length done_data = 4"
  by (simp_all add: done_data_def appends_def write_aligned_def pad_to_def nlmsg_align_eq)

lemma read_done: "read_msgs (done_datagram seq pid) = Some [message NLMSG_DONE NLM_F_MULTI seq pid done_data]"
  unfolding done_datagram_def by (rule read_msgs_message_last) (simp_all add: done_data)

lemma read_link_dump:
  "read_msgs (concat (build_link_dump seq pid)) =
     Some [message RTM_NEWLINK NLM_F_MULTI seq pid link_data, message NLMSG_DONE NLM_F_MULTI seq pid done_data]"
  by (simp add: build_link_dump_def read_msgs_message [OF link_data(1,2)] read_done)

lemma read_addr_dump:
  "read_msgs (concat (build_addr_dump seq pid)) =
     Some [message RTM_NEWADDR NLM_F_MULTI seq pid v4_data, message RTM_NEWADDR NLM_F_MULTI seq pid v6_data,
           message NLMSG_DONE NLM_F_MULTI seq pid done_data]"
  by (simp add: build_addr_dump_def read_msgs_message [OF v4_data(1,2)] read_msgs_message [OF v6_data(1,2)]
    read_done)

definition error_data :: "parsed_request \<Rightarrow> int \<Rightarrow> bytes" where
  "error_data req err = le_bytes 4 (word_of_int err :: u32) @ NlMsgHdr_bytes
     \<lparr>nlmsg_len = 16, nlmsg_type = req_type req, nlmsg_flags = req_flags req, nlmsg_seq = req_seq req,
      nlmsg_pid = req_pid req\<rparr>"

lemma read_error:
  "read_msgs (build_error req err) =
     Some [message NLMSG_ERROR 0 (req_seq req) (req_pid req) (error_data req err)]"
  unfolding build_error_def Let_def
  by (rule read_msgs_message_last)
    (simp_all add: appends_def write_aligned_def pad_to_def nlmsg_align_eq error_data_def)

lemma message_parts [simp]:
  "nlmsg_type (fst (message t f s p d)) = t" "snd (message t f s p d) = d"
  "nlmsg_seq (fst (message t f s p d)) = s" "nlmsg_pid (fst (message t f s p d)) = p"
  "nlmsg_flags (fst (message t f s p d)) = f"
  "length d < 1000 \<Longrightarrow> unat (nlmsg_len (fst (message t f s p d))) = 16 + length d"
  by (simp_all add: message_def unat_fits del: of_nat_add)

lemma attributes_data:
  "attributes (message RTM_NEWLINK f s p link_data) = map_prod id Some (loopback_dump RTM_GETLINK ! 0)"
  "attributes (message RTM_NEWADDR f s p v4_data) = map_prod id Some (loopback_dump RTM_GETADDR ! 0)"
  "attributes (message RTM_NEWADDR f s p v6_data) = map_prod id Some (loopback_dump RTM_GETADDR ! 1)"
  "attributes (message NLMSG_DONE f s p done_data) = (NLMSG_DONE, Some [])"
  using link_data(3) v4_data(3) v6_data(3)
  by (simp_all add: attributes_def family_header_def done_data_def)


section \<open>state.rs\<close>

text \<open>The cookies: process (thread group) and descriptor number of every injected socket.\<close>

type_synonym netlink_state = "(int \<times> int) set"

definition NetlinkState_new :: netlink_state where
  "NetlinkState_new = {}"

definition register_cookie :: "int \<Rightarrow> int \<Rightarrow> netlink_state \<Rightarrow> netlink_state" where
  "register_cookie pid fd st = insert (pid, fd) st"

definition unregister_cookie :: "int \<Rightarrow> int \<Rightarrow> netlink_state \<Rightarrow> netlink_state" where
  "unregister_cookie pid fd st = st - {(pid, fd)}"

definition is_cookie :: "int \<Rightarrow> int \<Rightarrow> netlink_state \<Rightarrow> bool" where
  "is_cookie pid fd st \<longleftrightarrow> (pid, fd) \<in> st"

section \<open>proxy.rs\<close>

abbreviation (input) RECV_BUF :: nat where "RECV_BUF \<equiv> 8192"
abbreviation (input) MSG_NOSIGNAL_DONTWAIT :: int where "MSG_NOSIGNAL_DONTWAIT \<equiv> 16448"

text \<open>One turn of the loop of \<open>responder_loop\<close>; \<open>Some\<close> when the loop returns.\<close>

definition responder_turn :: "int \<Rightarrow> u32 \<Rightarrow> (int + unit) option prog" where
  "responder_turn fd reply_pid =
     pbind (syscall (KIo (IoReadable fd))) (\<lambda>x. case x of
       Inl e \<Rightarrow> Done (Some (Inl e))
     | Inr _ \<Rightarrow> pbind (syscall (KIo (IoRecv fd RECV_BUF))) (\<lambda>x. case x of
         Inl e \<Rightarrow> Done (if e = EAGAIN then None else Some (Inl e))
       | Inr (n, buf) \<Rightarrow>
           if n = 0 then Done (Some (Inr ()))
           else case parse_request (take (nat n) buf) of
             None \<Rightarrow> Done None
           | Some req \<Rightarrow>
               let reply = concat (synthesize_reply req reply_pid)
               in pbind (syscall (KIo (IoSend fd reply MSG_NOSIGNAL_DONTWAIT))) (\<lambda>x. Done (case x of
                    Inl e \<Rightarrow> Some (Inl e) | Inr _ \<Rightarrow> None))))"

primrec responder_turns :: "nat \<Rightarrow> int \<Rightarrow> u32 \<Rightarrow> (int + unit) option prog" where
  "responder_turns 0 fd reply_pid = Done None"
| "responder_turns (Suc k) fd reply_pid =
     pbind (responder_turn fd reply_pid) (\<lambda>r. case r of
       None \<Rightarrow> responder_turns k fd reply_pid | Some r \<Rightarrow> Done (Some r))"

definition responder_loop :: "nat \<Rightarrow> int \<Rightarrow> u32 \<Rightarrow> (int + unit) option prog" where
  "responder_loop k fd reply_pid =
     pbind (syscall (KIo (IoAsyncFd fd))) (\<lambda>x. case x of
       Inl e \<Rightarrow> Done (Some (Inl e)) | Inr _ \<Rightarrow> responder_turns k fd reply_pid)"

section \<open>handlers.rs\<close>

abbreviation (input) AF_UNIX :: "'a::numeral" where "AF_UNIX \<equiv> 1"
abbreviation (input) AF_NETLINK :: "'a::numeral" where "AF_NETLINK \<equiv> 16"
abbreviation (input) NETLINK_ROUTE :: u64 where "NETLINK_ROUTE \<equiv> 0"
abbreviation (input) F_GETFL :: int where "F_GETFL \<equiv> 3"
abbreviation (input) F_SETFL :: int where "F_SETFL \<equiv> 4"
abbreviation (input) O_NONBLOCK :: int where "O_NONBLOCK \<equiv> 2048"
abbreviation (input) O_CLOEXEC :: "'a::numeral" where "O_CLOEXEC \<equiv> 0x80000"
abbreviation (input) SOCK_SEQPACKET_CLOEXEC :: int where "SOCK_SEQPACKET_CLOEXEC \<equiv> 0x80005"

definition family_allowed :: "u64 \<Rightarrow> bool" where
  "family_allowed domain \<longleftrightarrow> domain = AF_UNIX \<or> domain = AF_INET \<or> domain = AF_INET6 \<or> domain = AF_NETLINK"

text \<open>\<open>tgid_of\<close> of this module: a status file that cannot be read makes the thread its own group.\<close>

definition netlink_tgid_of :: "int \<Rightarrow> int prog" where
  "netlink_tgid_of tid = pbind (syscall (KReadFile (''/proc/'' @ show_int tid @ ''/status''))) (\<lambda>x.
     Done (case x of
       Inl _ \<Rightarrow> tid
     | Inr (_, content) \<Rightarrow> (case from_utf8 content of
         None \<Rightarrow> tid
       | Some s \<Rightarrow> (case find_map
             (\<lambda>l. Option.bind (strip_prefix ''Tgid:'' l) (\<lambda>r. parse_i32 (trim r))) (lines_of s) of
           Some v \<Rightarrow> v | None \<Rightarrow> tid))))"

definition socket_tgid :: "seccomp_notif \<Rightarrow> int prog" where
  "socket_tgid n = netlink_tgid_of (sint (notif_pid n))"

text \<open>The pair of sockets, with the supervisor's end made non-blocking.\<close>

definition netlink_pair :: "(int \<times> int) option prog" where
  "netlink_pair = pbind (syscall (KIo (IoSocketpair AF_UNIX SOCK_SEQPACKET_CLOEXEC))) (\<lambda>x. case x of
     Inl _ \<Rightarrow> Done None
   | Inr (fd0, out) \<Rightarrow>
       let fd1 = sint (le_word (take 4 out) :: u32);
           fail = pbind (syscall (KIo (IoClose fd0))) (\<lambda>_.
                  pbind (syscall (KIo (IoClose fd1))) (\<lambda>_. Done None))
       in pbind (syscall (KIo (IoFcntl fd0 F_GETFL 0))) (\<lambda>x. case x of
            Inl _ \<Rightarrow> fail
          | Inr (flags, _) \<Rightarrow> pbind (syscall (KIo (IoFcntl fd0 F_SETFL (flags OR O_NONBLOCK)))) (\<lambda>x. case x of
              Inl _ \<Rightarrow> fail | Inr _ \<Rightarrow> Done (Some (fd0, fd1)))))"

definition netlink_handle_socket :: "seccomp_notif \<Rightarrow> notif_action prog" where
  "netlink_handle_socket n =
     (let domain = arg n 0; protocol = arg n 2 in
      if \<not> family_allowed domain then Done (Errno EAFNOSUPPORT)
      else if domain \<noteq> AF_NETLINK then Done Continue
      else if protocol \<noteq> NETLINK_ROUTE then Done (Errno EAFNOSUPPORT)
      else pbind netlink_pair (\<lambda>r. case r of
        None \<Rightarrow> Done (Errno ENOMEM)
      | Some (responder_fd, child_fd) \<Rightarrow>
          pbind (socket_tgid n) (\<lambda>tgid.
          pbind (syscall (KIo (IoSpawnResponder responder_fd (word_of_int tgid)))) (\<lambda>_.
            Done (InjectFdSendTracked child_fd O_CLOEXEC (RegisterNetlinkCookie (word_of_int tgid)))))))"

text \<open>\<open>read_struct\<close>; the buffer was allocated zeroed at its full size, so a short read leaves zeros.\<close>

definition read_struct :: "seccomp_notif \<Rightarrow> nat \<Rightarrow> u64 \<Rightarrow> bytes option prog" where
  "read_struct n len addr = pbind (read_child_mem (notif_id n) (notif_pid n) addr len) (\<lambda>r. Done (case r of
     Inl _ \<Rightarrow> None | Inr bs \<Rightarrow> Some (take len (bs @ replicate len 0))))"

text \<open>\<open>u32::from_ne_bytes(b.try_into().unwrap_or([0; 4]))\<close>\<close>

definition u32_or_zero :: "bytes \<Rightarrow> u32" where
  "u32_or_zero b = (if length b = 4 then le_word b else 0)"

definition zero_name :: "seccomp_notif \<Rightarrow> u64 \<Rightarrow> unit prog" where
  "zero_name n addr =
     pbind (write_child_mem (notif_id n) (notif_pid n) addr (replicate 12 0)) (\<lambda>_. Done ())"

definition zero_msg_name :: "seccomp_notif \<Rightarrow> unit prog" where
  "zero_msg_name n = pbind (read_struct n 56 (arg n 1)) (\<lambda>r. case r of
     None \<Rightarrow> Done ()
   | Some hdr \<Rightarrow>
       let msg_name = le_word (subslice 0 8 hdr); msg_namelen = le_word (subslice 8 12 hdr) :: u32
       in if msg_name \<noteq> 0 \<and> 12 \<le> unat msg_namelen then zero_name n msg_name else Done ())"

definition zero_src_addr :: "seccomp_notif \<Rightarrow> unit prog" where
  "zero_src_addr n =
     (let src_addr = arg n 4; addrlen_ptr = arg n 5 in
      if src_addr \<noteq> 0 \<and> addrlen_ptr \<noteq> 0 then
        pbind (read_child_mem (notif_id n) (notif_pid n) addrlen_ptr 4) (\<lambda>r. case r of
          Inl _ \<Rightarrow> Done ()
        | Inr b \<Rightarrow> if 12 \<le> unat (u32_or_zero b) then zero_name n src_addr else Done ())
      else Done ())"

definition handle_netlink_recvmsg :: "seccomp_notif \<Rightarrow> netlink_state \<Rightarrow> notif_action prog" where
  "handle_netlink_recvmsg n st = pbind (socket_tgid n) (\<lambda>tgid.
     if \<not> is_cookie tgid (as_i32 (arg n 0)) st then Done Continue
     else pbind (if notif_nr n = SYS_recvmsg then zero_msg_name n
                 else if notif_nr n = SYS_recvfrom then zero_src_addr n else Done ())
            (\<lambda>_. Done Continue))"

definition netlink_handle_bind :: "seccomp_notif \<Rightarrow> netlink_state \<Rightarrow> notif_action prog" where
  "netlink_handle_bind n st = pbind (socket_tgid n) (\<lambda>tgid.
     Done (if is_cookie tgid (as_i32 (arg n 0)) st then ReturnValue 0 else Continue))"

definition netlink_handle_close :: "seccomp_notif \<Rightarrow> netlink_state \<Rightarrow> (notif_action \<times> netlink_state) prog" where
  "netlink_handle_close n st = pbind (socket_tgid n) (\<lambda>tgid.
     let fd = as_i32 (arg n 0) in
     Done (Continue, if is_cookie tgid fd st then unregister_cookie tgid fd st else st))"

definition sockaddr_nl :: "int \<Rightarrow> bytes" where
  "sockaddr_nl tgid = le_bytes 2 (AF_NETLINK :: u16) @ [0, 0] @ le_bytes 4 (word_of_int tgid :: u32) @ replicate 4 0"

definition netlink_handle_getsockname :: "seccomp_notif \<Rightarrow> netlink_state \<Rightarrow> notif_action prog" where
  "netlink_handle_getsockname n st = pbind (socket_tgid n) (\<lambda>tgid.
     if \<not> is_cookie tgid (as_i32 (arg n 0)) st then Done Continue
     else
       let addr = sockaddr_nl tgid; addr_ptr = arg n 1; addrlen_ptr = arg n 2 in
       pbind (read_child_mem (notif_id n) (notif_pid n) addrlen_ptr 4) (\<lambda>r. case r of
         Inl _ \<Rightarrow> Done (Errno EFAULT)
       | Inr b \<Rightarrow>
           let to_write = min (unat (u32_or_zero b)) (length addr) in
           pbind (write_child_mem (notif_id n) (notif_pid n) addr_ptr (take to_write addr)) (\<lambda>w. case w of
             Inl _ \<Rightarrow> Done (Errno EFAULT)
           | Inr _ \<Rightarrow>
               pbind (write_child_mem (notif_id n) (notif_pid n) addrlen_ptr
                        (le_bytes 4 (word_of_nat (length addr) :: u32))) (\<lambda>_. Done (ReturnValue 0)))))"

section \<open>The cookies of a run\<close>

text \<open>What the registry promises its users: a descriptor is a cookie as long as the last thing that
  happened to its slot was an injection.\<close>

datatype cookie_event = Injected int int | Closed int int

locale cookie_registry =
  fixes empty :: 's
    and register :: "int \<Rightarrow> int \<Rightarrow> 's \<Rightarrow> 's"
    and unregister :: "int \<Rightarrow> int \<Rightarrow> 's \<Rightarrow> 's"
    and cookie :: "int \<Rightarrow> int \<Rightarrow> 's \<Rightarrow> bool"
  assumes cookie_empty: "\<not> cookie p f empty"
    and cookie_register: "cookie p f (register p' f' st) \<longleftrightarrow> (p = p' \<and> f = f') \<or> cookie p f st"
    and cookie_unregister: "cookie p f (unregister p' f' st) \<longleftrightarrow> \<not> (p = p' \<and> f = f') \<and> cookie p f st"
begin

abbreviation after_event :: "'s \<Rightarrow> cookie_event \<Rightarrow> 's" where
  "after_event st ev \<equiv>
     (case ev of Injected p f \<Rightarrow> register p f st | Closed p f \<Rightarrow> unregister p f st)"

lemma cookie_after_events:
  "cookie p f (foldl after_event empty evs) \<longleftrightarrow>
     (\<exists>pre post. evs = pre @ Injected p f # post \<and> Closed p f \<notin> set post)"
proof (induction evs rule: rev_induct)
  case Nil
  then show ?case by (simp add: cookie_empty)
next
  case (snoc ev evs)
  have "(\<exists>pre post. evs @ [ev] = pre @ Injected p f # post \<and> Closed p f \<notin> set post) \<longleftrightarrow>
     ev = Injected p f \<or>
     (ev \<noteq> Closed p f \<and> (\<exists>pre post. evs = pre @ Injected p f # post \<and> Closed p f \<notin> set post))"
    (is "?l \<longleftrightarrow> ?r")
  proof
    assume ?l
    then obtain pre post where *: "evs @ [ev] = pre @ Injected p f # post" "Closed p f \<notin> set post" by blast
    then show ?r by (cases post rule: rev_cases) auto
  next
    assume ?r
    then show ?l
    proof (elim disjE conjE exE)
      assume "ev = Injected p f"
      then have "evs @ [ev] = evs @ Injected p f # []" by simp
      then show ?l by (metis empty_iff empty_set)
    next
      fix pre post
      assume "ev \<noteq> Closed p f" "evs = pre @ Injected p f # post" "Closed p f \<notin> set post"
      then have "evs @ [ev] = pre @ Injected p f # (post @ [ev])" "Closed p f \<notin> set (post @ [ev])"
        by auto
      then show ?l by blast
    qed
  qed
  then show ?case
    by (cases ev) (auto simp: snoc.IH cookie_register cookie_unregister)
qed

end

interpretation cookies: cookie_registry NetlinkState_new register_cookie unregister_cookie is_cookie
  by unfold_locales
    (auto simp: NetlinkState_new_def register_cookie_def unregister_cookie_def is_cookie_def)

text \<open>However sockets are injected and closed, the registry holds a descriptor of a process exactly
  if it was injected and not closed since.\<close>

theorem netlink_cookie_iff_open:
  "is_cookie p f (foldl (\<lambda>st ev. case ev of Injected p f \<Rightarrow> register_cookie p f st
       | Closed p f \<Rightarrow> unregister_cookie p f st) NetlinkState_new evs) \<longleftrightarrow>
     (\<exists>pre post. evs = pre @ Injected p f # post \<and> Closed p f \<notin> set post)"
  by (rule cookies.cookie_after_events)

section \<open>What the handlers do\<close>

lemma safe_netlink_tgid:
  assumes "\<And>f. P h (KReadFile f)" "\<And>f x t. Q (h @ [(KReadFile f, x)]) t"
  shows "safe P Q h (socket_tgid n)"
  using assms by (simp add: socket_tgid_def netlink_tgid_of_def)

definition socket_outcome :: "seccomp_notif \<Rightarrow> history \<Rightarrow> notif_action \<Rightarrow> bool" where
  "socket_outcome n h a = (case a of
     Continue \<Rightarrow> arg n 0 = AF_UNIX \<or> arg n 0 = AF_INET \<or> arg n 0 = AF_INET6
   | Errno e \<Rightarrow> e = EAFNOSUPPORT \<or> e = ENOMEM
   | InjectFdSendTracked fd fl (RegisterNetlinkCookie t) \<Rightarrow>
       arg n 0 = AF_NETLINK \<and> arg n 2 = NETLINK_ROUTE \<and>
       (\<exists>fd0 out x. (KIo (IoSocketpair AF_UNIX SOCK_SEQPACKET_CLOEXEC), Inr (fd0, out)) \<in> set h \<and>
          fd = sint (le_word (take 4 out) :: u32) \<and> (KIo (IoSpawnResponder fd0 t), x) \<in> set h)
   | _ \<Rightarrow> False)"

text \<open>The socket handler lets only the families of the allow-list reach the kernel, compared on all
  64 bits of the register; a netlink socket is replaced, only for the routing protocol, by one end of a
  fresh socket pair whose other end a responder drives; everything else is refused.\<close>

theorem netlink_socket_families:
  "socket_outcome n (trace K (netlink_handle_socket n)) (result K (netlink_handle_socket n))"
proof -
  have "safe (\<lambda>h r. True) (socket_outcome n) [] (netlink_handle_socket n)"
    by (auto simp: netlink_handle_socket_def Let_def netlink_pair_def socket_tgid_def netlink_tgid_of_def
        socket_outcome_def family_allowed_def split: sum.splits prod.splits)
  then show ?thesis by (rule safe_result)
qed

definition name_write_fits :: "seccomp_notif \<Rightarrow> history \<Rightarrow> sysreq \<Rightarrow> bool" where
  "name_write_fits n h r = (case r of
     KWriteVm p a bs \<Rightarrow> p = notif_pid n \<and>
       (a = arg n 2 \<and> length bs = 4 \<or>
        a = arg n 1 \<and> (\<exists>y raw. (KReadVm (notif_pid n) (arg n 2) 4, Inr (y, raw)) \<in> set h \<and>
          length bs \<le> unat (u32_or_zero (take 4 raw))))
   | _ \<Rightarrow> True)"

text \<open>A netlink address is reported only for a descriptor that is a cookie, and what is written into
  the child fits: at most the length the child stated, which was read before, and the four bytes of the
  length itself.\<close>

theorem netlink_name_fits:
  "always (name_write_fits n) K (netlink_handle_getsockname n st)"
proof -
  have "safe (name_write_fits n) (\<lambda>h a. True) [] (netlink_handle_getsockname n st)"
    unfolding netlink_handle_getsockname_def
    by (auto simp: socket_tgid_def netlink_tgid_of_def Let_def read_child_mem_def read_child_mem_vm_def
        write_child_mem_def write_child_mem_vm_def id_valid_def name_write_fits_def
        split: sum.splits prod.splits)
  then show ?thesis by (rule safe_always)
qed

text \<open>Requests a responder has received, and datagrams it has sent.\<close>

definition received :: "sysreq \<times> sysres \<Rightarrow> parsed_request option" where
  "received e = (case e of
     (KIo (IoRecv _ _), Inr (n, buf)) \<Rightarrow> parse_request (take (nat n) buf) | _ \<Rightarrow> None)"

definition datagram :: "sysreq \<times> sysres \<Rightarrow> bytes option" where
  "datagram e = (case e of (KIo (IoSend _ d _), _) \<Rightarrow> Some d | _ \<Rightarrow> None)"

definition answers :: "u32 \<Rightarrow> history \<Rightarrow> bool" where
  "answers pid h \<longleftrightarrow>
     List.map_filter datagram h = map (\<lambda>req. concat (synthesize_reply req pid)) (List.map_filter received h)"

lemma answers_turn: "answers pid h \<Longrightarrow> safe (\<lambda>h r. True) (\<lambda>h a. answers pid h) h (responder_turn fd pid)"
  by (auto simp: responder_turn_def Let_def answers_def List.map_filter_def received_def datagram_def
      parse_request_def split: sum.splits prod.splits option.splits)

lemma answers_turns:
  "answers pid h \<Longrightarrow> safe (\<lambda>h r. True) (\<lambda>h a. answers pid h) h (responder_turns k fd pid)"
proof (induction k arbitrary: h)
  case (Suc k)
  have "safe (\<lambda>h r. True) (\<lambda>h' r. safe (\<lambda>h r. True) (\<lambda>h a. answers pid h) h'
      (case r of None \<Rightarrow> responder_turns k fd pid | Some r \<Rightarrow> Done (Some r))) h (responder_turn fd pid)"
    by (rule safe_mono [OF answers_turn [OF Suc.prems]]) (auto intro: Suc.IH split: option.split)
  then show ?case by simp
qed simp

text \<open>C34: At every moment the responder has answered every well-formed request it has received, in
  order and once, with the synthesised reply as a single datagram, and has sent nothing else.\<close>

theorem responder_answers_every_request:
  "List.map_filter datagram (trace K (responder_loop k fd pid)) =
     map (\<lambda>req. concat (synthesize_reply req pid))
       (List.map_filter received (trace K (responder_loop k fd pid)))"
proof -
  have "answers pid [(KIo (IoAsyncFd fd), x)]" for x
    by (simp add: answers_def List.map_filter_def received_def datagram_def)
  then have "safe (\<lambda>h r. True) (\<lambda>h a. answers pid h) [] (responder_loop k fd pid)"
    by (auto simp: responder_loop_def intro: answers_turns split: sum.split)
  then show ?thesis by (fold answers_def) (rule safe_result)
qed

end
