(* ===== verification/TimeRandom.thy ===== *)
theory TimeRandom
  imports NetHandlers
begin

text \<open>
  Deterministic time and randomness: \<open>time.rs\<close> and \<open>random.rs\<close>. The generator (\<open>rand_chacha\<close>) is the
  parameter \<open>fill\<close>: from a state and a length to the bytes and the next state. All that is used of it is
  that it delivers as many bytes as asked for.
\<close>

unbundle bit_operations_syntax

section \<open>time.rs\<close>

abbreviation (input) TIMER_ABSTIME :: u64 where "TIMER_ABSTIME \<equiv> 1"
abbreviation (input) CLOCK_MONOTONIC :: u32 where "CLOCK_MONOTONIC \<equiv> 1"
abbreviation (input) CLOCK_MONOTONIC_RAW :: u32 where "CLOCK_MONOTONIC_RAW \<equiv> 4"
abbreviation (input) CLOCK_MONOTONIC_COARSE :: u32 where "CLOCK_MONOTONIC_COARSE \<equiv> 6"
abbreviation (input) CLOCK_BOOTTIME :: u32 where "CLOCK_BOOTTIME \<equiv> 7"

text \<open>Times are seconds and nanoseconds since the epoch, before it negative;
  \<open>duration_since(UNIX_EPOCH).unwrap_or_default().as_secs() as i64\<close>.\<close>

definition epoch_secs :: "int \<times> int \<Rightarrow> u64" where
  "epoch_secs t = (if fst t < 0 then 0 else word_of_int (fst t))"

definition calculate_time_offset :: "int \<times> int \<Rightarrow> int \<times> int \<Rightarrow> u64" where
  "calculate_time_offset now time_start = epoch_secs time_start - epoch_secs now"

text \<open>\<open>i64\<close> values are kept as words; the subtraction wraps.\<close>

definition adjust_tv_sec :: "seccomp_notif \<Rightarrow> u64 \<Rightarrow> u64 \<Rightarrow> unit prog" where
  "adjust_tv_sec n addr offset =
     pbind (read_child_mem (notif_id n) (notif_pid n) addr 8) (\<lambda>r. case r of
       Inl _ \<Rightarrow> Done ()
     | Inr b \<Rightarrow>
         if length b = 8 then
           let tv_sec = le_word b; adjusted = tv_sec - offset in
           pbind (write_child_mem (notif_id n) (notif_pid n) addr (le_bytes 8 adjusted)) (\<lambda>_. Done ())
         else Done ())"

definition unshifted_clock :: "u32 \<Rightarrow> bool" where
  "unshifted_clock clockid \<longleftrightarrow> clockid \<noteq> CLOCK_MONOTONIC \<and> clockid \<noteq> CLOCK_MONOTONIC_RAW
     \<and> clockid \<noteq> CLOCK_MONOTONIC_COARSE \<and> clockid \<noteq> CLOCK_BOOTTIME"

definition handle_timer :: "seccomp_notif \<Rightarrow> u64 \<Rightarrow> notif_action prog" where
  "handle_timer n time_offset =
     (if time_offset = 0 then Done Continue
      else if arg n 1 AND TIMER_ABSTIME = 0 then Done Continue
      else if notif_nr n = SYS_clock_nanosleep then
        (let clockid = ucast (arg n 0 AND 0xFFFFFFFF) in
         if unshifted_clock clockid then Done Continue
         else if arg n 2 = 0 then Done Continue
         else pbind (adjust_tv_sec n (arg n 2) time_offset) (\<lambda>_. Done Continue))
      else if arg n 2 = 0 then Done Continue
      else pbind (adjust_tv_sec n (arg n 2 + 16) time_offset) (\<lambda>_. Done Continue))"

section \<open>random.rs\<close>

type_synonym 'g rng = "'g \<Rightarrow> nat \<Rightarrow> bytes \<times> 'g"

abbreviation (input) MAX_GETRANDOM_BYTES :: nat where "MAX_GETRANDOM_BYTES \<equiv> 0x100000"
abbreviation (input) RANDOM_MEMFD_SIZE :: nat where "RANDOM_MEMFD_SIZE \<equiv> 0x100000"
abbreviation (input) MFD_FLAGS :: u32 where "MFD_FLAGS \<equiv> 3"
abbreviation (input) F_ADD_SEALS :: int where "F_ADD_SEALS \<equiv> 1033"
abbreviation (input) ALL_SEALS :: int where "ALL_SEALS \<equiv> 15"

definition handle_getrandom :: "'g rng \<Rightarrow> seccomp_notif \<Rightarrow> 'g \<Rightarrow> (notif_action \<times> 'g) prog" where
  "handle_getrandom fill n rng =
     (let buf_addr = arg n 0; buf_len = unat (arg n 1);
          len = min buf_len MAX_GETRANDOM_BYTES;
          (buf, rng) = fill rng len
      in pbind (write_child_mem (notif_id n) (notif_pid n) buf_addr buf) (\<lambda>r. Done (case r of
           Inr _ \<Rightarrow> (ReturnValue (int len), rng) | Inl _ \<Rightarrow> (Continue, rng))))"

text \<open>The injected file: filled, rewound and sealed.\<close>

definition random_memfd :: "'g rng \<Rightarrow> 'g \<Rightarrow> (notif_action \<times> 'g) prog" where
  "random_memfd fill rng =
     pbind (syscall (KIo (IoMemfdCreate ''sandlock-random'' MFD_FLAGS))) (\<lambda>x. case x of
       Inl _ \<Rightarrow> Done (Continue, rng)
     | Inr (memfd, _) \<Rightarrow>
         let (buf, rng) = fill rng RANDOM_MEMFD_SIZE in
         pbind (syscall (KIo (IoWriteAll memfd buf))) (\<lambda>w. case w of
           Inl _ \<Rightarrow> Done (Continue, rng)
         | Inr _ \<Rightarrow> pbind (syscall (KIo (IoRewind memfd))) (\<lambda>s. case s of
             Inl _ \<Rightarrow> Done (Continue, rng)
           | Inr _ \<Rightarrow> pbind (syscall (KIo (IoFcntl memfd F_ADD_SEALS ALL_SEALS))) (\<lambda>_.
               Done (InjectFdSend memfd 0x80000, rng)))))"

definition handle_random_open ::
  "'g rng \<Rightarrow> seccomp_notif \<Rightarrow> 'g \<Rightarrow> (notif_action option \<times> 'g) prog" where
  "handle_random_open fill n rng =
     (let path_ptr = arg n 1 in
      if path_ptr = 0 then Done (None, rng)
      else pbind (read_child_cstr (notif_id n) (notif_pid n) path_ptr 4096) (\<lambda>p. case p of
        None \<Rightarrow> Done (None, rng)
      | Some path \<Rightarrow>
          if path \<noteq> ''/dev/urandom'' \<and> path \<noteq> ''/dev/random'' then Done (None, rng)
          else pbind (random_memfd fill rng) (\<lambda>(a, rng). Done (Some a, rng))))"

section \<open>What reaches the child\<close>

text \<open>The absolute deadline of a timer call, at \<open>addr\<close>.\<close>

definition deadline_addr :: "seccomp_notif \<Rightarrow> u64 option" where
  "deadline_addr n =
     (if arg n 1 AND TIMER_ABSTIME = 0 \<or> arg n 2 = 0 then None
      else if notif_nr n = SYS_clock_nanosleep then
        (if unshifted_clock (ucast (arg n 0)) then None else Some (arg n 2))
      else Some (arg n 2 + 16))"

definition shifts_deadline :: "seccomp_notif \<Rightarrow> u64 \<Rightarrow> history \<Rightarrow> sysreq \<Rightarrow> bool" where
  "shifts_deadline n offset h r = (case r of
     KWriteVm p a bs \<Rightarrow> p = notif_pid n \<and> deadline_addr n = Some a \<and>
       (\<exists>y raw. (KReadVm (notif_pid n) a 8, Inr (y, raw)) \<in> set h \<and> length (take 8 raw) = 8 \<and>
          le_word bs + offset = (le_word (take 8 raw) :: u64) \<and> length bs = 8)
   | _ \<Rightarrow> harmless r)"

lemma clockid_mask: "ucast (x AND 0xFFFFFFFF :: u64) = (ucast x :: u32)"
proof -
  have "(0xFFFFFFFF :: u64) = mask 32" by (simp add: mask_eq_exp_minus_1)
  then show ?thesis
    by (simp only:) (rule bit_word_eqI, simp only: bit_simps, auto)
qed

lemma adjust_shifts:
  assumes "offset \<noteq> 0" "deadline_addr n = Some a"
  shows "safe (shifts_deadline n offset) (\<lambda>h u. True) h (adjust_tv_sec n a offset)"
  using assms
  by (auto simp: adjust_tv_sec_def read_child_mem_def read_child_mem_vm_def write_child_mem_def
      write_child_mem_vm_def id_valid_def Let_def shifts_deadline_def split: sum.splits prod.splits)

text \<open>The timer handler always leaves the call to the kernel, and touches the child's memory only to
  subtract the offset, modulo 2 to the 64, from the seconds of an absolute deadline it has just read;
  nothing is written for relative deadlines, other clocks or an offset of zero.\<close>

theorem timer_shifts_only_deadlines:
  "result K (handle_timer n offset) = Continue \<and> always (shifts_deadline n offset) K (handle_timer n offset)"
proof -
  have "safe (shifts_deadline n offset) (\<lambda>h a. a = Continue) [] (handle_timer n offset)"
    unfolding handle_timer_def Let_def clockid_mask
    by (auto intro!: safe_mono [OF adjust_shifts] simp: deadline_addr_def)
  then show ?thesis using safe_result safe_always by blast
qed

definition random_write :: "seccomp_notif \<Rightarrow> bytes \<Rightarrow> sysreq \<Rightarrow> bool" where
  "random_write n bs r = (case r of KWriteVm p a d \<Rightarrow> p = notif_pid n \<and> a = arg n 0 \<and> d = bs | _ \<Rightarrow> harmless r)"

definition random_answer :: "'g rng \<Rightarrow> seccomp_notif \<Rightarrow> 'g \<Rightarrow> history \<Rightarrow> notif_action \<times> 'g \<Rightarrow> bool" where
  "random_answer fill n rng h res =
     (let (bs, rng') = fill rng (min (unat (arg n 1)) MAX_GETRANDOM_BYTES) in
      snd res = rng' \<and>
      (fst res = Continue \<or>
       fst res = ReturnValue (int (length bs)) \<and>
       (\<exists>ret out. (KWriteVm (notif_pid n) (arg n 0) bs, Inr (ret, out)) \<in> set h \<and> int (length bs) \<le> ret)))"

text \<open>With a generator that delivers as many bytes as asked for, \<open>getrandom\<close> is answered either by the
  kernel or with the number of bytes the supervisor has written, which are the next bytes of the seeded
  stream, as many as the child asked for up to one mebibyte; the state of the generator moves on either
  way.\<close>

theorem getrandom_is_the_seeded_stream:
  assumes "\<And>g k. length (fst (fill g k)) = k"
  shows "random_answer fill n rng (trace K (handle_getrandom fill n rng)) (result K (handle_getrandom fill n rng))
    \<and> always (\<lambda>h. random_write n (fst (fill rng (min (unat (arg n 1)) MAX_GETRANDOM_BYTES)))) K
        (handle_getrandom fill n rng)"
proof -
  obtain bs rng' where f: "fill rng (min (unat (arg n 1)) MAX_GETRANDOM_BYTES) = (bs, rng')"
    by (cases "fill rng (min (unat (arg n 1)) MAX_GETRANDOM_BYTES)")
  with assms [of rng] have "length bs = min (unat (arg n 1)) MAX_GETRANDOM_BYTES" by (metis fst_conv)
  then have "safe (\<lambda>h. random_write n bs) (random_answer fill n rng) [] (handle_getrandom fill n rng)"
    unfolding handle_getrandom_def Let_def
    by (auto simp: f [simplified] random_answer_def random_write_def write_child_mem_def write_child_mem_vm_def id_valid_def
        split: sum.splits prod.splits)
  from safe_result [OF this, of K] safe_always [OF this, of K] show ?thesis
    unfolding f fst_conv by blast
qed


definition counting_rng :: "nat rng" where
  "counting_rng g k = (replicate k (word_of_nat g), Suc g)"

definition getrandom_notif :: seccomp_notif where
  "getrandom_notif = \<lparr>notif_id = 7, notif_pid = 100, notif_flags = 0,
     notif_data = \<lparr>nr_of = SYS_getrandom, arch_of = AUDIT_ARCH, ip_of = 0,
       args_of = [0x1000, 4, 0, 0, 0, 0]\<rparr>\<rparr>"

definition writable :: "sysreq \<Rightarrow> sysres" where
  "writable r = (case r of KWriteVm p a bs \<Rightarrow> Inr (int (length bs), []) | _ \<Rightarrow> Inr (0, []))"

lemma four: "replicate 4 x = [x, x, x, x]"
  by (simp add: eval_nat_numeral)

theorem getrandom_is_the_seeded_stream_witness:
  "result (stateless writable) (handle_getrandom counting_rng getrandom_notif 3) = (ReturnValue 4, 4)
    \<and> always (\<lambda>h. random_write getrandom_notif [3, 3, 3, 3]) (stateless writable)
        (handle_getrandom counting_rng getrandom_notif 3)"
proof -
  have bs: "fst (counting_rng 3 (min (unat (arg getrandom_notif 1)) 0x100000)) = [3, 3, 3, 3]"
    by (simp add: counting_rng_def arg_def getrandom_notif_def four)
  have "length (fst (counting_rng g k)) = k" for g k by (simp add: counting_rng_def)
  from getrandom_is_the_seeded_stream [of counting_rng, OF this, of getrandom_notif 3 "stateless writable"]
  have "always (\<lambda>h. random_write getrandom_notif [3, 3, 3, 3]) (stateless writable)
        (handle_getrandom counting_rng getrandom_notif 3)"
    unfolding bs by blast
  moreover have "result (stateless writable) (handle_getrandom counting_rng getrandom_notif 3) = (ReturnValue 4, 4)"
    unfolding result_stateless
    by (simp add: handle_getrandom_def Let_def counting_rng_def getrandom_notif_def arg_def
        write_child_mem_def write_child_mem_vm_def id_valid_def writable_def)
  ultimately show ?thesis by simp
qed

end
