(* ===== verification/Dirents.thy ===== *)
theory Dirents
  imports Supervisor
begin

text \<open>
  Directory entries handed to the child (\<open>procfs.rs\<close>: \<open>build_dirent64\<close> and the packing loop that every
  \<open>getdents64\<close> handler has). \<open>read_dirents\<close> is the reader of \<open>getdents64(2)\<close>; what is packed reads back,
  and the calls together deliver every entry once.
\<close>

unbundle bit_operations_syntax

abbreviation (input) NAME_MAX :: nat where "NAME_MAX \<equiv> 255"
abbreviation (input) DT_DIR :: u8 where "DT_DIR \<equiv> 4"
abbreviation (input) DT_REG :: u8 where "DT_REG \<equiv> 8"
abbreviation (input) DT_LNK :: u8 where "DT_LNK \<equiv> 10"

definition reclen_of :: "nat \<Rightarrow> nat" where
  "reclen_of name_len = nat ((int (19 + name_len + 1) + 7) AND NOT 7)"

definition build_dirent64 :: "u64 \<Rightarrow> u64 \<Rightarrow> u8 \<Rightarrow> string \<Rightarrow> bytes option" where
  "build_dirent64 d_ino d_off d_type name =
     (let name_bytes = bytes_of_string name in
      if length name_bytes > NAME_MAX then None
      else let reclen = reclen_of (length name_bytes) in
        Some (le_bytes 8 d_ino @ le_bytes 8 d_off @ le_bytes 2 (word_of_nat reclen :: u16) @ [d_type]
              @ name_bytes @ replicate (reclen - (19 + length name_bytes)) 0))"

text \<open>The names \<open>read_dir\<close> yields.\<close>

definition dir_names :: "bytes \<Rightarrow> string list" where
  "dir_names out = filter (\<lambda>n. n \<noteq> []) (split_on CHR ''/'' (string_of_bytes out))"

text \<open>\<open>symlink_metadata(p).map(|m| m.ino()).unwrap_or(0)\<close>\<close>

definition inode_of :: "string \<Rightarrow> u64 prog" where
  "inode_of p = pbind (syscall (KFs (FsSymlinkMetadata p))) (\<lambda>x. Done (case x of
     Inl _ \<Rightarrow> 0 | Inr (_, out) \<Rightarrow> le_word (take 8 (drop 4 out))))"

text \<open>The packing loop: the entries that fit, and those left in the cache.\<close>

fun pack_entries :: "nat \<Rightarrow> bytes list \<Rightarrow> bytes \<Rightarrow> bytes \<times> bytes list" where
  "pack_entries buf_size [] acc = (acc, [])"
| "pack_entries buf_size (e # es) acc =
     (if length acc + length e > buf_size then (acc, e # es) else pack_entries buf_size es (acc @ e))"

text \<open>Rust strings compare by their bytes.\<close>

fun bytes_less :: "string \<Rightarrow> string \<Rightarrow> bool" where
  "bytes_less [] (y # ys) = True"
| "bytes_less (x # xs) (y # ys) =
     (of_char x < (of_char y :: nat) \<or> (x = y \<and> bytes_less xs ys))"
| "bytes_less xs [] = False"

lemma bytes_less_irrefl [simp]: "\<not> bytes_less a a"
  by (induction a) simp_all

lemma bytes_less_trans: "bytes_less a b \<Longrightarrow> bytes_less b c \<Longrightarrow> bytes_less a c"
proof (induction a b arbitrary: c rule: bytes_less.induct)
  case (1 y ys)
  then show ?case by (cases c) simp_all
next
  case (2 x xs y ys)
  then show ?case by (cases c) (auto dest: less_trans)
qed simp

lemma bytes_less_total: "a = b \<or> bytes_less a b \<or> bytes_less b a"
proof (induction a b rule: bytes_less.induct)
  case (2 x xs y ys)
  have "x = y \<or> of_char x < (of_char y :: nat) \<or> of_char y < (of_char x :: nat)"
    by (metis linorder_neqE_nat of_char_eq_iff)
  with 2 show ?case by auto
next
  case (3 xs)
  then show ?case by (cases xs) simp_all
qed simp

section \<open>Reading back\<close>

function read_dirents :: "bytes \<Rightarrow> (u64 \<times> u64 \<times> u8 \<times> bytes) list option" where
  "read_dirents b =
     (if b = [] then Some []
      else let reclen = unat (le_word (subslice 16 18 b) :: u16) in
        if reclen < 20 \<or> length b < reclen then None
        else map_option (Cons (le_word (subslice 0 8 b), le_word (subslice 8 16 b), b ! 18,
               until_nul (subslice 19 reclen b))) (read_dirents (drop reclen b)))"
  by auto
termination
  by (relation "measure length") auto

declare read_dirents.simps [simp del]

lemma reclen_eq: "reclen_of n = (n + 27) div 8 * 8"
proof -
  have eq: "x AND NOT 7 = x div 8 * 8" for x :: int
  proof -
    have "x AND NOT (mask 3) = push_bit 3 (drop_bit 3 x)"
    proof (rule bit_eqI)
      fix n
      show "bit (x AND NOT (mask 3)) n = bit (push_bit 3 (drop_bit 3 x)) n"
      proof (cases "3 \<le> n")
        case True
        then obtain m where "n = 3 + m" by (metis le_iff_add)
        then show ?thesis by (simp add: bit_simps)
      qed (simp add: bit_simps)
    qed
    moreover have "mask 3 = (7 :: int)" by (simp add: mask_eq_exp_minus_1)
    ultimately have "x AND NOT 7 = push_bit 3 (drop_bit 3 x)" by (simp only:)
    then show ?thesis by (simp add: push_bit_eq_mult drop_bit_eq_div)
  qed
  have "reclen_of n = nat (int (n + 27) div 8 * 8)"
    unfolding reclen_of_def using eq [of "int n + 27"] by (simp add: add.commute)
  also have "int (n + 27) div 8 * 8 = int ((n + 27) div 8 * 8)"
    by (simp only: of_nat_div of_nat_mult of_nat_numeral)
  finally show ?thesis by (simp only: nat_int)
qed

lemma reclen_bounds: "n + 20 \<le> reclen_of n" "n \<le> NAME_MAX \<Longrightarrow> reclen_of n < 65536"
  unfolding reclen_eq by presburger+

lemma until_nul_append: "0 \<notin> set n \<Longrightarrow> until_nul (n @ 0 # r) = n"
  by (induction n) (auto simp: until_nul_def)

text \<open>A record with a name, as the child sees it.\<close>

lemma read_dirents_build:
  assumes "build_dirent64 ino off ty name = Some e" "0 \<notin> set (bytes_of_string name)"
  shows "read_dirents (e @ rest) =
     map_option (Cons (ino, off, ty, bytes_of_string name)) (read_dirents rest)"
proof -
  let ?n = "bytes_of_string name"
  define len where "len = reclen_of (length ?n)"
  have le: "length ?n \<le> NAME_MAX" using assms(1) by (simp add: build_dirent64_def Let_def split: if_splits)
  have bounds: "length ?n + 20 \<le> len" "len < 65536"
    using reclen_bounds [of "length ?n"] le by (simp_all add: len_def)
  have e: "e = le_bytes 8 ino @ le_bytes 8 off @ le_bytes 2 (word_of_nat len :: u16) @ [ty] @ ?n
      @ replicate (len - (19 + length ?n)) 0"
    using assms(1) by (simp add: build_dirent64_def len_def Let_def split: if_splits)
  define b where "b = e @ rest"
  have len_e: "length e = len" using bounds by (simp add: e)
  have r: "unat (le_word (subslice 16 18 b) :: u16) = len"
    using bounds by (simp add: b_def e subslice_def unat_fits)
  have parts: "le_word (subslice 0 8 b) = ino" "le_word (subslice 8 16 b) = off" "b ! 18 = ty"
    by (simp_all add: b_def e subslice_def nth_append)
  have pad: "replicate (len - (19 + length ?n)) (0 :: u8) = 0 # replicate (len - (20 + length ?n)) 0"
    using bounds(1) by (simp flip: replicate_Suc)
  have "subslice 19 len b = ?n @ replicate (len - (19 + length ?n)) 0"
    using bounds by (simp add: b_def e subslice_def)
  then have name: "until_nul (subslice 19 len b) = ?n"
    unfolding pad using until_nul_append [OF assms(2)] by simp
  have "drop len b = rest" "20 \<le> len" "len \<le> length b" "b \<noteq> []"
    using bounds len_e by (auto simp: b_def)
  then show ?thesis
    unfolding b_def [symmetric] by (subst read_dirents.simps) (simp add: Let_def r parts name)
qed

section \<open>Packing\<close>

lemma pack_entries_split:
  "pack_entries n es acc = (out, left) \<Longrightarrow>
     \<exists>ds. es = ds @ left \<and> out = acc @ concat ds \<and> (length acc \<le> n \<longrightarrow> length out \<le> n)"
proof (induction es arbitrary: acc)
  case (Cons e es)
  show ?case
  proof (cases "length acc + length e > n")
    case True
    with Cons.prems have "out = acc" "left = e # es" by auto
    then show ?thesis by (intro exI [of _ "[]"]) simp
  next
    case False
    with Cons.prems have "pack_entries n es (acc @ e) = (out, left)" by simp
    from Cons.IH [OF this] obtain ds where "es = ds @ left" "out = (acc @ e) @ concat ds"
      "length (acc @ e) \<le> n \<longrightarrow> length out \<le> n" by blast
    with False show ?thesis by (intro exI [of _ "e # ds"]) simp
  qed
qed simp

text \<open>Successive calls on one cache, with the buffer sizes the child gives.\<close>

fun deliver :: "nat list \<Rightarrow> bytes list \<Rightarrow> bytes list" where
  "deliver [] es = []"
| "deliver (n # ns) es = (let (out, left) = pack_entries n es [] in out # deliver ns left)"

lemma deliver_fits: "list_all2 (\<lambda>n out. length out \<le> n) ns (deliver ns es)"
proof (induction ns arbitrary: es)
  case (Cons n ns)
  obtain out left where p: "pack_entries n es [] = (out, left)" by (cases "pack_entries n es []")
  from pack_entries_split [OF this] Cons.IH [of left] p show ?case by auto
qed simp

lemma pack_progress:
  assumes "pack_entries n (e # es) [] = (out, left)" "length e \<le> n"
  obtains ds where "e # es = ds @ left" "out = concat ds" "ds \<noteq> []"
proof -
  from assms have "pack_entries n es e = (out, left)" by simp
  from pack_entries_split [OF this] obtain ds where "es = ds @ left" "out = e @ concat ds" by blast
  then show thesis using that [of "e # ds"] by simp
qed

lemma deliver_take:
  "\<exists>k. concat (deliver ns es) = concat (take k es) \<and>
     ((\<forall>n\<in>set ns. m \<le> n) \<longrightarrow> (\<forall>e\<in>set es. length e \<le> m) \<longrightarrow> min (length ns) (length es) \<le> k)"
proof (induction ns arbitrary: es)
  case Nil
  then show ?case by (intro exI [of _ 0]) simp
next
  case (Cons n ns)
  obtain out left where p: "pack_entries n es [] = (out, left)" by (cases "pack_entries n es []")
  from pack_entries_split [OF this] obtain ds where ds: "es = ds @ left" "out = concat ds" by auto
  from Cons.IH [of left] obtain k where k: "concat (deliver ns left) = concat (take k left)"
    "(\<forall>n\<in>set ns. m \<le> n) \<longrightarrow> (\<forall>e\<in>set left. length e \<le> m) \<longrightarrow> min (length ns) (length left) \<le> k"
    by blast
  have "ds \<noteq> []" if "es \<noteq> []" "m \<le> n" "\<forall>e\<in>set es. length e \<le> m"
  proof -
    from that(1) obtain e es' where e: "es = e # es'" by (meson neq_Nil_conv)
    with that have "length e \<le> n" by simp
    from pack_progress [OF p [unfolded e] this] obtain ds' where "e # es' = ds' @ left" "ds' \<noteq> []" by blast
    with ds(1) e show ?thesis by auto
  qed
  then have "min (length (n # ns)) (length es) \<le> length ds + k"
    if "\<forall>n\<in>set (n # ns). m \<le> n" "\<forall>e\<in>set es. length e \<le> m"
    using that k(2) ds(1)
    by (cases "es = []") (auto simp: Suc_le_eq min_def add_strict_increasing split: if_splits)
  moreover have "concat (deliver (n # ns) es) = concat (take (length ds + k) es)"
    using p k(1) ds by simp
  ultimately show ?case by blast
qed

type_synonym dir_record = "u64 \<times> u64 \<times> u8 \<times> string"

definition listable :: "dir_record \<Rightarrow> bool" where
  "listable r = (case r of (_, _, _, name) \<Rightarrow>
     length name \<le> NAME_MAX \<and> 0 \<notin> set (bytes_of_string name))"

definition encode_records :: "dir_record list \<Rightarrow> bytes list" where
  "encode_records = List.map_filter (\<lambda>(ino, off, ty, name). build_dirent64 ino off ty name)"

definition seen :: "dir_record \<Rightarrow> u64 \<times> u64 \<times> u8 \<times> bytes" where
  "seen r = (case r of (ino, off, ty, name) \<Rightarrow> (ino, off, ty, bytes_of_string name))"

lemma length_bytes_of_string [simp]: "length (bytes_of_string s) = length s"
  by (simp add: bytes_of_string_def)

lemma encode_records_Cons:
  assumes "listable r"
  obtains e where "encode_records (r # rs) = e # encode_records rs" "length e \<le> 280"
    "\<And>rest. read_dirents (e @ rest) = map_option (Cons (seen r)) (read_dirents rest)"
proof -
  obtain ino off ty name where r: "r = (ino, off, ty, name)" by (cases r)
  with assms have name: "length name \<le> 255" "0 \<notin> set (bytes_of_string name)" by (simp_all add: listable_def)
  then obtain e where e: "build_dirent64 ino off ty name = Some e" by (auto simp: build_dirent64_def Let_def)
  have "reclen_of (length name) \<le> 280" using name(1) unfolding reclen_eq by presburger
  moreover have "length e = reclen_of (length name)"
    using e reclen_bounds(1) [of "length name"] by (auto simp: build_dirent64_def Let_def split: if_splits)
  ultimately show thesis
    using that [of e] e r read_dirents_build [OF e name(2)]
    by (simp add: encode_records_def List.map_filter_def seen_def)
qed

lemma read_encoded:
  "list_all listable rs \<Longrightarrow> read_dirents (concat (take k (encode_records rs))) = Some (take k (map seen rs))
     \<and> length (encode_records rs) = length rs \<and> (\<forall>e\<in>set (encode_records rs). length e \<le> 280)"
proof (induction rs arbitrary: k)
  case Nil
  then show ?case by (simp add: encode_records_def List.map_filter_def read_dirents.simps)
next
  case (Cons r rs)
  then have "listable r" "list_all listable rs" by simp_all
  from encode_records_Cons [OF this(1), of rs] obtain e where
    e: "encode_records (r # rs) = e # encode_records rs" "length e \<le> 280"
    "\<And>rest. read_dirents (e @ rest) = map_option (Cons (seen r)) (read_dirents rest)" by blast
  show ?case
    using Cons.IH [OF \<open>list_all listable rs\<close>] e by (cases k) (auto simp: read_dirents.simps [of "[]"])
qed

text \<open>C36: However the child sizes its buffers, the successive answers to \<open>getdents64\<close> read back as the
  entries of the listing, in order, none twice and none skipped; no answer exceeds its buffer, and with
  buffers of at least 280 bytes every call delivers at least one entry until all are delivered.\<close>

theorem getdents_delivers_in_order:
  assumes "list_all listable rs"
  shows "\<exists>k. read_dirents (concat (deliver ns (encode_records rs))) = Some (take k (map seen rs)) \<and>
      ((\<forall>n\<in>set ns. 280 \<le> n) \<longrightarrow> min (length ns) (length rs) \<le> k) \<and>
      list_all2 (\<lambda>n out. length out \<le> n) ns (deliver ns (encode_records rs))"
proof -
  from deliver_take [of ns "encode_records rs" 280] obtain k where
    k: "concat (deliver ns (encode_records rs)) = concat (take k (encode_records rs))"
    "(\<forall>n\<in>set ns. 280 \<le> n) \<longrightarrow> (\<forall>e\<in>set (encode_records rs). length e \<le> 280) \<longrightarrow>
       min (length ns) (length (encode_records rs)) \<le> k" by blast
  with read_encoded [OF assms, of k] deliver_fits [of ns "encode_records rs"] show ?thesis by auto
qed

theorem getdents_delivers_in_order_witness:
  "\<exists>k. read_dirents (concat (deliver [300, 300] (encode_records [(1, 1, DT_REG, ''a''), (2, 2, DT_DIR, ''b'')])))
      = Some (take k (map seen [(1, 1, DT_REG, ''a''), (2, 2, DT_DIR, ''b'')])) \<and> 2 \<le> k"
proof -
  have "list_all listable [(1, 1, DT_REG, ''a''), (2, 2, DT_DIR, ''b'')]"
    by (simp add: listable_def bytes_of_string_def)
  from getdents_delivers_in_order [OF this, of "[300, 300]"] show ?thesis by auto
qed

end
