(* ===== verification/CowBranch.thy ===== *)
theory CowBranch
  imports Paths Dirents
begin

text \<open>
  The copy-on-write branch (\<open>cow/seccomp.rs\<close>): writes go to an upper directory, deletions are a set of
  relative paths, and a commit replays both on the work directory. Operations are programs of
  file-system requests; a changed branch is returned beside the result, errors included. The crates
  \<open>pathdiff\<close> and \<open>walkdir\<close> are parameters: the function \<open>diff_paths\<close>, and the list of entries a walk
  yields. The order in which the hash set of deletions is visited is an argument too.
\<close>

unbundle bit_operations_syntax

section \<open>Types\<close>

abbreviation (input) O_WRONLY :: "'a::numeral" where "O_WRONLY \<equiv> 1"
abbreviation (input) O_CREAT :: "'a::numeral" where "O_CREAT \<equiv> 0x40"
abbreviation (input) O_EXCL :: "'a::numeral" where "O_EXCL \<equiv> 0x80"
abbreviation (input) O_DIRECTORY :: "'a::numeral" where "O_DIRECTORY \<equiv> 0x10000"
abbreviation (input) ENOTDIR :: int where "ENOTDIR \<equiv> 20"
abbreviation (input) EISDIR :: int where "EISDIR \<equiv> 21"

definition WRITE_FLAGS :: u64 where
  "WRITE_FLAGS = 0x1 OR 0x2 OR 0x40 OR 0x200 OR 0x400"

text \<open>\<open>BranchError\<close>; the text of an \<open>Operation\<close> is its context and the I/O error.\<close>

datatype branch_error = Operation string int | Conflict string | QuotaExceeded | Exists

datatype CowCopyPlan = Ready string | CopyNeedsCopy string string u64

datatype CowOpenPlan = Skip | Resolved string | OpenNeedsCopy string string u64 string | UpperReady string

record SeccompCowBranch =
  workdir :: string
  workdir_str :: string
  upper :: string
  storage_dir :: string
  deleted :: "string set"
  has_changes :: bool
  finished :: bool
  max_disk_bytes :: u64
  disk_used :: u64

section \<open>The standard library's file system\<close>

definition fs_test :: "fs_req \<Rightarrow> bool prog" where
  "fs_test q = pbind (syscall (KFs q)) (\<lambda>x. Done (case x of Inl _ \<Rightarrow> False | Inr (v, _) \<Rightarrow> v \<noteq> 0))"

definition fs_try :: "fs_req \<Rightarrow> (int + unit) prog" where
  "fs_try q = pbind (syscall (KFs q)) (\<lambda>x. Done (case x of Inl e \<Rightarrow> Inl e | Inr _ \<Rightarrow> Inr ()))"

definition fs_ok :: "fs_req \<Rightarrow> bool prog" where
  "fs_ok q = pbind (fs_try q) (\<lambda>r. Done (\<not> isl r))"

text \<open>\<open>p.exists() || p.is_symlink()\<close>\<close>

definition present :: "string \<Rightarrow> bool prog" where
  "present p = pbind (fs_test (FsExists p)) (\<lambda>e. if e then Done True else fs_test (FsIsSymlink p))"

text \<open>Length and mode of \<open>p.metadata()\<close>.\<close>

definition metadata :: "string \<Rightarrow> (int + u64 \<times> u32) prog" where
  "metadata p = pbind (syscall (KFs (FsMetadata p))) (\<lambda>x. Done (case x of
     Inl e \<Rightarrow> Inl e | Inr (len, out) \<Rightarrow> Inr (word_of_int len, le_word (take 4 out))))"

definition copy_permissions :: "string \<Rightarrow> string \<Rightarrow> unit prog" where
  "copy_permissions lower upper_file = pbind (metadata lower) (\<lambda>m. case m of
     Inl _ \<Rightarrow> Done ()
   | Inr (_, mode) \<Rightarrow> pbind (fs_try (FsSetPermissions upper_file mode)) (\<lambda>_. Done ()))"

text \<open>\<open>if let Some(parent) = p.parent() { let _ = fs::create_dir_all(parent) }\<close>\<close>

definition make_parent :: "string \<Rightarrow> (int + unit) prog" where
  "make_parent p = (case path_parent p of None \<Rightarrow> Done (Inr ()) | Some q \<Rightarrow> fs_try (FsCreateDirAll q))"

text \<open>\<open>dir_size\<close>. Every level adds a separator and a name to the path, and the kernel takes no path of
  \<open>PATH_MAX\<close> bytes, so \<open>PATH_MAX\<close> levels are enough.\<close>

abbreviation (input) PATH_MAX :: nat where "PATH_MAX \<equiv> 4096"

primrec entries_size :: "(string \<Rightarrow> u64 prog) \<Rightarrow> string \<Rightarrow> string list \<Rightarrow> u64 \<Rightarrow> u64 prog" where
  "entries_size sz dir [] acc = Done acc"
| "entries_size sz dir (name # names) acc =
     (let path = path_push dir name in
      pbind (fs_test (FsIsDir path)) (\<lambda>d.
        if d then pbind (sz path) (\<lambda>s. entries_size sz dir names (acc + s))
        else pbind (syscall (KFs (FsSymlinkMetadata path))) (\<lambda>x. case x of
          Inl _ \<Rightarrow> entries_size sz dir names acc
        | Inr (len, _) \<Rightarrow> entries_size sz dir names (acc + word_of_int len))))"

primrec dir_size :: "nat \<Rightarrow> string \<Rightarrow> u64 prog" where
  "dir_size 0 dir = Done 0"
| "dir_size (Suc k) dir = pbind (syscall (KReadDir dir)) (\<lambda>x. case x of
     Inl _ \<Rightarrow> Done 0
   | Inr (_, out) \<Rightarrow> entries_size (dir_size k) dir (dir_names out) 0)"

section \<open>Creation and queries\<close>

text \<open>\<open>SeccompCowBranch::create\<close>; \<open>storage_base\<close> and \<open>branch_id\<close> are the given or temporary directory
  and the fresh UUID.\<close>

definition create_branch ::
  "string \<Rightarrow> string \<Rightarrow> string \<Rightarrow> u64 \<Rightarrow> (branch_error + SeccompCowBranch) prog" where
  "create_branch storage_base branch_id dir max_bytes =
     (let branch_dir = path_push storage_base branch_id;
          upper_dir = path_push branch_dir ''upper''
      in pbind (fs_try (FsCreateDirAll upper_dir)) (\<lambda>r. case r of
           Inl e \<Rightarrow> Done (Inl (Operation ''create upper'' e))
         | Inr _ \<Rightarrow> pbind (syscall (KCanonicalize dir)) (\<lambda>x. Done (case x of
             Inl e \<Rightarrow> Inl (Operation ''canonicalize workdir'' e)
           | Inr (_, real) \<Rightarrow> Inr \<lparr>workdir = string_of_bytes real,
               workdir_str = to_string_lossy (string_of_bytes real), upper = upper_dir,
               storage_dir = branch_dir, deleted = {}, has_changes = False, finished = False,
               max_disk_bytes = max_bytes, disk_used = 0\<rparr>))))"

definition cow_matches :: "SeccompCowBranch \<Rightarrow> string \<Rightarrow> bool" where
  "cow_matches b path \<longleftrightarrow> path_starts_with path (workdir_str b) \<and> \<not> path_starts_with path (storage_dir b)"

type_synonym diff = "string \<Rightarrow> string \<Rightarrow> string option"

definition safe_rel :: "diff \<Rightarrow> SeccompCowBranch \<Rightarrow> string \<Rightarrow> string option" where
  "safe_rel diff_paths b path = Option.bind (diff_paths path (workdir b)) (\<lambda>rel.
     let rel_str = to_string_lossy rel in
     if rel_str = ''..'' \<or> prefix ''../'' rel_str then None else Some rel_str)"

definition is_deleted :: "SeccompCowBranch \<Rightarrow> string \<Rightarrow> bool" where
  "is_deleted b rel \<longleftrightarrow> rel \<in> deleted b"

definition mark_deleted :: "string \<Rightarrow> SeccompCowBranch \<Rightarrow> SeccompCowBranch" where
  "mark_deleted rel b = b\<lparr>deleted := insert rel (deleted b), has_changes := True\<rparr>"

definition undelete :: "string \<Rightarrow> SeccompCowBranch \<Rightarrow> SeccompCowBranch" where
  "undelete rel b = b\<lparr>deleted := deleted b - {rel}, has_changes := True\<rparr>"

definition needs_read_intercept :: "diff \<Rightarrow> SeccompCowBranch \<Rightarrow> string \<Rightarrow> bool prog" where
  "needs_read_intercept diff_paths b path = (case safe_rel diff_paths b path of
     None \<Rightarrow> Done False
   | Some rel \<Rightarrow> if is_deleted b rel then Done True else fs_test (FsExists (path_push (upper b) rel)))"

section \<open>Quota\<close>

text \<open>\<open>check_quota\<close>; the sum wraps in a release build.\<close>

definition check_quota :: "u64 \<Rightarrow> SeccompCowBranch \<Rightarrow> branch_error + unit" where
  "check_quota additional b =
     (if 0 < max_disk_bytes b then
        if additional = 0 then
          (if max_disk_bytes b \<le> disk_used b then Inl QuotaExceeded else Inr ())
        else if max_disk_bytes b < disk_used b + additional then Inl QuotaExceeded
        else Inr ()
      else Inr ())"

definition add_used :: "u64 \<Rightarrow> SeccompCowBranch \<Rightarrow> SeccompCowBranch" where
  "add_used n b = b\<lparr>disk_used := disk_used b + n\<rparr>"

definition recalc_disk_used :: "SeccompCowBranch \<Rightarrow> SeccompCowBranch prog" where
  "recalc_disk_used b = pbind (dir_size PATH_MAX (upper b)) (\<lambda>n. Done (b\<lparr>disk_used := n\<rparr>))"

definition rollback_copy :: "u64 \<Rightarrow> SeccompCowBranch \<Rightarrow> SeccompCowBranch" where
  "rollback_copy file_size b = b\<lparr>disk_used := saturating_sub (disk_used b) file_size\<rparr>"

section \<open>Copying to the upper directory\<close>

type_synonym ('e, 'a) updating = "(('e + 'a) \<times> SeccompCowBranch) prog"

text \<open>A program whose error ends the operation, leaving the branch as it is.\<close>

definition or_fail :: "('x + 'y) prog \<Rightarrow> ('x \<Rightarrow> 'e) \<Rightarrow> SeccompCowBranch \<Rightarrow> ('y \<Rightarrow> ('e, 'a) updating) \<Rightarrow>
    ('e, 'a) updating" where
  "or_fail p err b f = pbind p (\<lambda>r. case r of Inl e \<Rightarrow> Done (Inl (err e), b) | Inr a \<Rightarrow> f a)"

definition within_quota :: "u64 \<Rightarrow> SeccompCowBranch \<Rightarrow> (branch_error, 'a) updating \<Rightarrow> (branch_error, 'a) updating"
  where "within_quota n b p = (case check_quota n b of Inl e \<Rightarrow> Done (Inl e, b) | Inr _ \<Rightarrow> p)"

text \<open>The three cases of \<open>prepare_copy\<close> for a file of the lower directory.\<close>

definition copy_symlink :: "string \<Rightarrow> string \<Rightarrow> SeccompCowBranch \<Rightarrow> (branch_error, CowCopyPlan) updating" where
  "copy_symlink upper_file lower_file b = within_quota 256 b (
     or_fail (syscall (KReadlink lower_file)) (Operation ''readlink'') b (\<lambda>(_, target).
     or_fail (fs_try (FsSymlink (string_of_bytes target) upper_file)) (Operation ''symlink'') b (\<lambda>_.
       Done (Inr (Ready upper_file), add_used 256 b))))"

definition copy_dir :: "string \<Rightarrow> string \<Rightarrow> SeccompCowBranch \<Rightarrow> (branch_error, CowCopyPlan) updating" where
  "copy_dir upper_file lower_file b = within_quota 4096 b (
     or_fail (fs_try (FsCreateDirAll upper_file)) (Operation ''create dir'') b (\<lambda>_.
     pbind (copy_permissions lower_file upper_file) (\<lambda>_.
       Done (Inr (Ready upper_file), add_used 4096 b))))"

definition reserve_file :: "string \<Rightarrow> string \<Rightarrow> SeccompCowBranch \<Rightarrow> (branch_error, CowCopyPlan) updating" where
  "reserve_file upper_file lower_file b =
     or_fail (metadata lower_file) (Operation ''metadata'') b (\<lambda>(file_size, _).
       within_quota file_size b (
         Done (Inr (CopyNeedsCopy upper_file lower_file file_size), add_used file_size b)))"

definition plan_copy :: "string \<Rightarrow> string \<Rightarrow> SeccompCowBranch \<Rightarrow> (branch_error, CowCopyPlan) updating" where
  "plan_copy upper_file lower_file b =
     pbind (fs_test (FsIsSymlink lower_file)) (\<lambda>l. if l then copy_symlink upper_file lower_file b else
     pbind (fs_test (FsIsDir lower_file)) (\<lambda>d. if d then copy_dir upper_file lower_file b else
     pbind (fs_test (FsExists lower_file)) (\<lambda>e. if e then reserve_file upper_file lower_file b else
     within_quota 0 b (Done (Inr (Ready upper_file), b)))))"

definition prepare_copy :: "string \<Rightarrow> SeccompCowBranch \<Rightarrow> (branch_error, CowCopyPlan) updating" where
  "prepare_copy rel b =
     (let b = undelete rel b; upper_file = path_push (upper b) rel; lower_file = path_push (workdir b) rel in
      pbind (present upper_file) (\<lambda>p.
        if p then Done (Inr (Ready upper_file), b)
        else or_fail (make_parent upper_file) (Operation ''create parent'') b (\<lambda>_.
          plan_copy upper_file lower_file b)))"

definition execute_copy :: "string \<Rightarrow> string \<Rightarrow> (int + unit) prog" where
  "execute_copy upper_file lower_file = pbind (fs_try (FsCopy lower_file upper_file)) (\<lambda>r. case r of
     Inr _ \<Rightarrow> pbind (copy_permissions lower_file upper_file) (\<lambda>_. Done (Inr ()))
   | Inl e \<Rightarrow> if e = EACCES \<or> e = EPERM then fs_try (FsCreateFile upper_file) else Done (Inl e))"

definition ensure_cow_copy :: "string \<Rightarrow> SeccompCowBranch \<Rightarrow> (branch_error, string) updating" where
  "ensure_cow_copy rel b = pbind (prepare_copy rel b) (\<lambda>(r, b). case r of
     Inl e \<Rightarrow> Done (Inl e, b)
   | Inr (Ready up) \<Rightarrow> Done (Inr up, b)
   | Inr (CopyNeedsCopy up low file_size) \<Rightarrow> pbind (execute_copy up low) (\<lambda>c. case c of
       Inr _ \<Rightarrow> Done (Inr up, b)
     | Inl e \<Rightarrow> Done (Inl (Operation ''copy'' e), rollback_copy file_size b)))"

definition resolve_read :: "SeccompCowBranch \<Rightarrow> string \<Rightarrow> string prog" where
  "resolve_read b rel = (let upper_file = path_push (upper b) rel in
     pbind (present upper_file) (\<lambda>p. Done (if p then upper_file else path_push (workdir b) rel)))"

section \<open>Opening\<close>

text \<open>Resync before a write under a quota.\<close>

definition resync :: "bool \<Rightarrow> SeccompCowBranch \<Rightarrow> ((branch_error + unit) \<times> SeccompCowBranch) prog" where
  "resync is_write b =
     (if is_write \<and> 0 < max_disk_bytes b
      then pbind (recalc_disk_used b) (\<lambda>b. Done (check_quota 0 b, b))
      else Done (Inr (), b))"

text \<open>The part \<open>handle_open\<close> and \<open>prepare_open\<close> share: which copy to make, or which file to read.\<close>

definition exists_anywhere :: "string \<Rightarrow> SeccompCowBranch \<Rightarrow> bool prog" where
  "exists_anywhere rel b = pbind (present (path_push (upper b) rel)) (\<lambda>u.
     if u then Done True else present (path_push (workdir b) rel))"

definition readable :: "string \<Rightarrow> SeccompCowBranch \<Rightarrow> string option prog" where
  "readable rel b = pbind (resolve_read b rel) (\<lambda>r. pbind (present r) (\<lambda>p. Done (if p then Some r else None)))"

definition open_flags :: "u64 \<Rightarrow> u64 \<Rightarrow> bool" where
  "open_flags flags f \<longleftrightarrow> flags AND f \<noteq> 0"

definition open_rel ::
  "(string \<Rightarrow> SeccompCowBranch \<Rightarrow> (branch_error, 'a) updating) \<Rightarrow> 'a \<Rightarrow> (string \<Rightarrow> 'a) \<Rightarrow> string \<Rightarrow> u64
     \<Rightarrow> SeccompCowBranch \<Rightarrow> (branch_error, 'a) updating" where
  "open_rel copy skip found rel flags b =
     (let is_write = open_flags flags WRITE_FLAGS in
      pbind (resync is_write b) (\<lambda>(r, b). case r of
        Inl e \<Rightarrow> Done (Inl e, b)
      | Inr _ \<Rightarrow>
          if is_deleted b rel then
            (if open_flags flags O_CREAT then copy rel b else Done (Inr skip, b))
          else if open_flags flags O_CREAT \<and> open_flags flags O_EXCL then
            pbind (exists_anywhere rel b) (\<lambda>x. if x then Done (Inl Exists, b) else copy rel b)
          else if is_write then copy rel b
          else pbind (readable rel b) (\<lambda>p. case p of
            Some p \<Rightarrow> Done (Inr (found p), b) | None \<Rightarrow> Done (Inr skip, b))))"

definition ensure_some :: "string \<Rightarrow> SeccompCowBranch \<Rightarrow> (branch_error, string option) updating" where
  "ensure_some rel b = pbind (ensure_cow_copy rel b) (\<lambda>(r, b). Done (map_sum id Some r, b))"

definition handle_open ::
  "diff \<Rightarrow> string \<Rightarrow> u64 \<Rightarrow> SeccompCowBranch \<Rightarrow> (branch_error, string option) updating" where
  "handle_open diff_paths path flags b =
     (if open_flags flags O_DIRECTORY then Done (Inr None, b)
      else case safe_rel diff_paths b path of
        None \<Rightarrow> Done (Inr None, b)
      | Some rel \<Rightarrow> open_rel ensure_some None Some rel flags b)"

definition prepare_cow_copy :: "string \<Rightarrow> SeccompCowBranch \<Rightarrow> (branch_error, CowOpenPlan) updating" where
  "prepare_cow_copy rel b = pbind (prepare_copy rel b) (\<lambda>(r, b). Done (case r of
     Inl e \<Rightarrow> Inl e
   | Inr (Ready up) \<Rightarrow> Inr (UpperReady up)
   | Inr (CopyNeedsCopy up low file_size) \<Rightarrow> Inr (OpenNeedsCopy up low file_size rel), b))"

definition prepare_open ::
  "diff \<Rightarrow> string \<Rightarrow> u64 \<Rightarrow> SeccompCowBranch \<Rightarrow> (branch_error, CowOpenPlan) updating" where
  "prepare_open diff_paths path flags b = (case safe_rel diff_paths b path of
     None \<Rightarrow> Done (Inr Skip, b)
   | Some rel \<Rightarrow>
       if open_flags flags O_DIRECTORY then
         let upper_dir = path_push (upper b) rel; lower_dir = path_push (workdir b) rel in
         pbind (fs_test (FsIsDir upper_dir)) (\<lambda>u.
           if u then pbind (fs_test (FsIsDir lower_dir)) (\<lambda>l.
             Done (Inr (if l then Skip else Resolved upper_dir), b))
           else Done (Inr Skip, b))
       else open_rel prepare_cow_copy Skip Resolved rel flags b)"

section \<open>The other system calls\<close>

definition with_rel :: "diff \<Rightarrow> SeccompCowBranch \<Rightarrow> string \<Rightarrow> 'a \<Rightarrow> (string \<Rightarrow> ('e, 'a) updating) \<Rightarrow> ('e, 'a) updating"
  where "with_rel diff_paths b path other f = (case safe_rel diff_paths b path of
     None \<Rightarrow> Done (Inr other, b) | Some rel \<Rightarrow> f rel)"

definition with_copy ::
  "string \<Rightarrow> SeccompCowBranch \<Rightarrow> (string \<Rightarrow> SeccompCowBranch \<Rightarrow> (branch_error, 'a) updating) \<Rightarrow> (branch_error, 'a) updating"
  where "with_copy rel b f = pbind (ensure_cow_copy rel b) (\<lambda>(r, b). case r of
     Inl e \<Rightarrow> Done (Inl e, b) | Inr up \<Rightarrow> f up b)"

text \<open>The type check of \<open>handle_unlink\<close>: the upper file if present, else the lower one.\<close>

definition unlink_mismatch :: "bool \<Rightarrow> string \<Rightarrow> string \<Rightarrow> int option prog" where
  "unlink_mismatch dir upper_file lower_file =
     (let check = (\<lambda>p. pbind (fs_test (FsIsDir p)) (\<lambda>d. Done
            (if dir \<and> \<not> d then Some ENOTDIR else if \<not> dir \<and> d then Some EISDIR else None))) in
      pbind (present upper_file) (\<lambda>u. if u then check upper_file else
      pbind (present lower_file) (\<lambda>l. if l then check lower_file else Done None)))"

definition handle_unlink ::
  "diff \<Rightarrow> string \<Rightarrow> bool \<Rightarrow> SeccompCowBranch \<Rightarrow> (int, bool) updating" where
  "handle_unlink diff_paths path dir b = with_rel diff_paths b path False (\<lambda>rel.
     let upper_file = path_push (upper b) rel; lower_file = path_push (workdir b) rel in
     pbind (unlink_mismatch dir upper_file lower_file) (\<lambda>m. case m of
       Some errno \<Rightarrow> Done (Inl errno, b)
     | None \<Rightarrow>
         pbind (present upper_file) (\<lambda>u.
         pbind (if u then
                  pbind (fs_try (if dir then FsRemoveDirAll upper_file else FsRemoveFile upper_file))
                    (\<lambda>_. recalc_disk_used b)
                else Done b) (\<lambda>b.
         pbind (present lower_file) (\<lambda>l.
           Done (Inr True, if l then mark_deleted rel b else b\<lparr>has_changes := True\<rparr>))))))"

definition handle_mkdir :: "diff \<Rightarrow> string \<Rightarrow> SeccompCowBranch \<Rightarrow> (branch_error, bool) updating" where
  "handle_mkdir diff_paths path b = with_rel diff_paths b path False (\<lambda>rel.
     within_quota 4096 b (
       let b = undelete rel b in
       pbind (fs_ok (FsCreateDirAll (path_push (upper b) rel))) (\<lambda>ok.
         Done (Inr ok, if ok then add_used 4096 b else b))))"

definition handle_rename :: "diff \<Rightarrow> string \<Rightarrow> string \<Rightarrow> SeccompCowBranch \<Rightarrow> (branch_error, bool) updating" where
  "handle_rename diff_paths old_path new_path b =
     with_rel diff_paths b old_path False (\<lambda>old_rel. with_rel diff_paths b new_path False (\<lambda>new_rel.
     with_copy old_rel b (\<lambda>old_upper b.
       let new_upper = path_push (upper b) new_rel in
       pbind (make_parent new_upper) (\<lambda>_.
       pbind (fs_ok (FsRename old_upper new_upper)) (\<lambda>ok.
         if \<not> ok then Done (Inr False, b)
         else pbind (present (path_push (workdir b) old_rel)) (\<lambda>l.
           Done (Inr True, if l then mark_deleted old_rel b else b)))))))"

definition handle_stat :: "diff \<Rightarrow> SeccompCowBranch \<Rightarrow> string \<Rightarrow> string option prog" where
  "handle_stat diff_paths b path = (case safe_rel diff_paths b path of
     None \<Rightarrow> Done None
   | Some rel \<Rightarrow> if is_deleted b rel then Done None else readable rel b)"

text \<open>\<open>target.split('/').any(|c| c == "..")\<close>\<close>

definition escaping_target :: "string \<Rightarrow> bool" where
  "escaping_target target \<longleftrightarrow> is_absolute target \<or> ''..'' \<in> set (split_on CHR ''/'' target)"

definition handle_symlink :: "diff \<Rightarrow> string \<Rightarrow> string \<Rightarrow> SeccompCowBranch \<Rightarrow> (branch_error, bool) updating" where
  "handle_symlink diff_paths target linkpath b = with_rel diff_paths b linkpath False (\<lambda>rel.
     if escaping_target target then Done (Inr False, b)
     else within_quota 256 b (
       let b = undelete rel b; upper_link = path_push (upper b) rel in
       pbind (make_parent upper_link) (\<lambda>_.
       pbind (fs_ok (FsSymlink target upper_link)) (\<lambda>ok.
         Done (Inr ok, if ok then add_used 256 b else b)))))"

definition handle_link :: "diff \<Rightarrow> string \<Rightarrow> string \<Rightarrow> SeccompCowBranch \<Rightarrow> (branch_error, bool) updating" where
  "handle_link diff_paths old_path new_path b =
     with_rel diff_paths b old_path False (\<lambda>old_rel. with_rel diff_paths b new_path False (\<lambda>new_rel.
     with_copy old_rel b (\<lambda>old_upper b.
       let new_upper = path_push (upper b) new_rel in
       pbind (make_parent new_upper) (\<lambda>_.
       pbind (fs_ok (FsHardLink old_upper new_upper)) (\<lambda>ok. Done (Inr ok, b))))))"

definition handle_chmod :: "diff \<Rightarrow> string \<Rightarrow> u32 \<Rightarrow> SeccompCowBranch \<Rightarrow> (branch_error, bool) updating" where
  "handle_chmod diff_paths path mode b = with_rel diff_paths b path False (\<lambda>rel.
     with_copy rel b (\<lambda>up b. pbind (fs_ok (FsSetPermissions up mode)) (\<lambda>ok. Done (Inr ok, b))))"

text \<open>Paths without NUL bytes, as all paths read from the child are.\<close>

definition handle_chown ::
  "diff \<Rightarrow> string \<Rightarrow> u32 \<Rightarrow> u32 \<Rightarrow> SeccompCowBranch \<Rightarrow> (branch_error, bool) updating" where
  "handle_chown diff_paths path uid gid b = with_rel diff_paths b path False (\<lambda>rel.
     with_copy rel b (\<lambda>up b. pbind (fs_try (FsChown up uid gid)) (\<lambda>_. Done (Inr True, b))))"

text \<open>\<open>File::set_len\<close> refuses a length beyond \<open>i64\<close> before any system call.\<close>

definition set_len :: "int \<Rightarrow> u64 \<Rightarrow> bool prog" where
  "set_len fd len = (if 0x8000000000000000 \<le> len then Done False else fs_ok (FsSetLen fd len))"

definition handle_truncate ::
  "diff \<Rightarrow> string \<Rightarrow> u64 \<Rightarrow> SeccompCowBranch \<Rightarrow> (branch_error, bool) updating" where
  "handle_truncate diff_paths path new_len b = with_rel diff_paths b path False (\<lambda>rel.
     with_copy rel b (\<lambda>up b.
       pbind (metadata up) (\<lambda>m.
       let old_len = (case m of Inl _ \<Rightarrow> 0 | Inr (len, _) \<Rightarrow> len) in
       (if old_len < new_len then within_quota (new_len - old_len) b else id) (
         pbind (syscall (KFs (FsOpen up 0x80001 0x1B6))) (\<lambda>x. case x of
           Inl _ \<Rightarrow> Done (Inr False, b)
         | Inr (fd, _) \<Rightarrow> pbind (set_len fd new_len) (\<lambda>ok.
             Done (Inr ok,
               if \<not> ok then b
               else if old_len < new_len then add_used (new_len - old_len) b
               else rollback_copy (old_len - new_len) b)))))))"

definition handle_utimensat :: "diff \<Rightarrow> string \<Rightarrow> SeccompCowBranch \<Rightarrow> (branch_error, string option) updating" where
  "handle_utimensat diff_paths path b = with_rel diff_paths b path None (\<lambda>rel. ensure_some rel b)"

definition handle_readlink :: "diff \<Rightarrow> SeccompCowBranch \<Rightarrow> string \<Rightarrow> string option prog" where
  "handle_readlink diff_paths b path = (case safe_rel diff_paths b path of
     None \<Rightarrow> Done None
   | Some rel \<Rightarrow>
       if is_deleted b rel then Done None
       else
         let up = path_push (upper b) rel; low = path_push (workdir b) rel;
             link = (\<lambda>p. pbind (syscall (KReadlink p)) (\<lambda>x. Done (case x of
               Inl _ \<Rightarrow> None | Inr (_, target) \<Rightarrow> Some (to_string_lossy (string_of_bytes target)))))
         in pbind (fs_test (FsIsSymlink up)) (\<lambda>u. if u then link up else
            pbind (fs_test (FsIsSymlink low)) (\<lambda>l. if l then link low else Done None)))"

section \<open>Changes, listing, commit\<close>

text \<open>What a walk of the upper directory yields: the path below it, and whether it is a directory
  (not followed).\<close>

datatype walk_item = WalkError int | WalkEntry string bool

datatype ChangeKind = Added | Modified | Deleted

primrec walk_changes ::
  "SeccompCowBranch \<Rightarrow> walk_item list \<Rightarrow> (ChangeKind \<times> string) list \<Rightarrow> (branch_error + (ChangeKind \<times> string) list) prog"
where
  "walk_changes b [] acc = Done (Inr acc)"
| "walk_changes b (it # its) acc = (case it of
     WalkError e \<Rightarrow> Done (Inl (Operation ''walk'' e))
   | WalkEntry rel dir \<Rightarrow>
       if dir then walk_changes b its acc
       else pbind (fs_test (FsExists (path_push (workdir b) rel))) (\<lambda>l.
         walk_changes b its (acc @ [(if l then Modified else Added, rel)])))"

definition changes ::
  "walk_item list \<Rightarrow> string list \<Rightarrow> SeccompCowBranch \<Rightarrow> (branch_error + (ChangeKind \<times> string) list) prog" where
  "changes walk order b = pbind (walk_changes b walk []) (\<lambda>r. Done (case r of
     Inl e \<Rightarrow> Inl e | Inr cs \<Rightarrow> Inr (cs @ map (Pair Deleted) order)))"

text \<open>A \<open>BTreeSet<String>\<close> holds its elements once, in the order of their bytes.\<close>

fun insert_name :: "string \<Rightarrow> string list \<Rightarrow> string list" where
  "insert_name n [] = [n]"
| "insert_name n (m # ms) =
     (if n = m then m # ms else if bytes_less n m then n # m # ms else m # insert_name n ms)"

definition listing :: "string \<Rightarrow> string list prog" where
  "listing dir = pbind (syscall (KReadDir dir)) (\<lambda>x. Done (case x of
     Inl _ \<Rightarrow> [] | Inr (_, out) \<Rightarrow> map to_string_lossy (dir_names out)))"

definition child_rel :: "string \<Rightarrow> string \<Rightarrow> string" where
  "child_rel rel name = (if rel = ''.'' \<or> rel = [] then name else rel @ CHR ''/'' # name)"

definition list_merged_dir :: "SeccompCowBranch \<Rightarrow> string \<Rightarrow> string list prog" where
  "list_merged_dir b rel =
     pbind (listing (path_push (upper b) rel)) (\<lambda>us.
     pbind (listing (path_push (workdir b) rel)) (\<lambda>ls.
       Done (fold insert_name (us @ filter (\<lambda>n. \<not> is_deleted b (child_rel rel n)) ls) [])))"

definition cleanup :: "SeccompCowBranch \<Rightarrow> unit prog" where
  "cleanup b = pbind (fs_try (FsRemoveDirAll (storage_dir b))) (\<lambda>_. Done ())"

text \<open>\<open>commit\<close>: first the deletions, then the entries of the walk, then the directories written to.\<close>

definition apply_deletion :: "string \<Rightarrow> unit prog" where
  "apply_deletion dest = pbind (fs_test (FsIsDir dest)) (\<lambda>d.
     if d then pbind (fs_try (FsRemoveDirAll dest)) (\<lambda>_. Done ())
     else pbind (present dest) (\<lambda>p.
       if p then pbind (fs_try (FsRemoveFile dest)) (\<lambda>_. Done ()) else Done ()))"

primrec apply_deletions :: "SeccompCowBranch \<Rightarrow> string list \<Rightarrow> unit prog" where
  "apply_deletions b [] = Done ()"
| "apply_deletions b (rel # rels) =
     pbind (apply_deletion (path_push (workdir b) rel)) (\<lambda>_. apply_deletions b rels)"

definition copy_entry :: "SeccompCowBranch \<Rightarrow> string \<Rightarrow> bool \<Rightarrow> (branch_error + unit) prog" where
  "copy_entry b rel dir = (let dest = path_push (workdir b) rel in
     if dir then pbind (fs_try (FsCreateDirAll dest)) (\<lambda>r. Done (map_sum (Operation ''mkdir'') id r))
     else pbind (make_parent dest) (\<lambda>_.
       pbind (fs_try (FsCopy (path_push (upper b) rel) dest)) (\<lambda>r. Done (map_sum (Operation ''copy'') id r))))"

text \<open>The set of directories to sync is kept in the order of insertion; \<open>parent().unwrap()\<close> cannot fail
  below the work directory.\<close>

primrec copy_entries ::
  "SeccompCowBranch \<Rightarrow> walk_item list \<Rightarrow> string list \<Rightarrow> (branch_error + string list) prog" where
  "copy_entries b [] synced = Done (Inr synced)"
| "copy_entries b (it # its) synced = (case it of
     WalkError e \<Rightarrow> Done (Inl (Operation ''walk'' e))
   | WalkEntry rel dir \<Rightarrow> pbind (copy_entry b rel dir) (\<lambda>r. case r of
       Inl e \<Rightarrow> Done (Inl e)
     | Inr _ \<Rightarrow> copy_entries b its
         (if dir then synced
          else case path_parent (path_push (workdir b) rel) of
            None \<Rightarrow> synced | Some p \<Rightarrow> List.insert p synced)))"

primrec sync_dirs :: "string list \<Rightarrow> unit prog" where
  "sync_dirs [] = Done ()"
| "sync_dirs (d # ds) = pbind (syscall (KFs (FsOpen d 0x80000 0x1B6))) (\<lambda>x. case x of
     Inl _ \<Rightarrow> sync_dirs ds
   | Inr (fd, _) \<Rightarrow> pbind (fs_try (FsSyncAll fd)) (\<lambda>_. sync_dirs ds))"

definition commit ::
  "string list \<Rightarrow> walk_item list \<Rightarrow> SeccompCowBranch \<Rightarrow> (branch_error, unit) updating" where
  "commit order walk b =
     (if finished b then Done (Inr (), b)
      else pbind (apply_deletions b order) (\<lambda>_.
        pbind (copy_entries b walk []) (\<lambda>r. case r of
          Inl e \<Rightarrow> Done (Inl e, b)
        | Inr synced \<Rightarrow> pbind (sync_dirs synced) (\<lambda>_. pbind (cleanup b) (\<lambda>_.
            Done (Inr (), b\<lparr>finished := True\<rparr>))))))"

definition abort :: "SeccompCowBranch \<Rightarrow> (branch_error, unit) updating" where
  "abort b = (if finished b then Done (Inr (), b)
     else pbind (cleanup b) (\<lambda>_. Done (Inr (), b\<lparr>finished := True\<rparr>)))"

section \<open>Lossy text keeps the segments of a path\<close>

lemma utf8_chunk_append:
  assumes "between 0 0x7F c" "a \<noteq> []"
  shows "utf8_chunk (a @ c # b) = utf8_chunk a"
proof -
  have cont: "\<not> between 0x80 0xBF c" "\<not> between 0xA0 0xBF c" "\<not> between 0x80 0x9F c"
    "\<not> between 0x90 0xBF c" "\<not> between 0x80 0x8F c" "\<not> between 0xA0 0x9F c" "\<not> between 0x90 0x8F c"
    using assms by (auto simp: between_def)
  have zero: "\<not> between 0x80 0xBF (CHR 0x00)" "\<not> between 0xA0 0xBF (CHR 0x00)"
    "\<not> between 0x80 0x9F (CHR 0x00)" "\<not> between 0x90 0xBF (CHR 0x00)" "\<not> between 0x80 0x8F (CHR 0x00)"
    "\<not> between 0xA0 0x9F (CHR 0x00)" "\<not> between 0x90 0x8F (CHR 0x00)"
    by (simp_all add: between_def)
  consider x where "a = [x]" | x y where "a = [x, y]" | x y z where "a = [x, y, z]"
    | x y z w r where "a = x # y # z # w # r"
    using assms(2) by (metis neq_Nil_conv)
  then show ?thesis
    by cases (simp_all add: utf8_chunk_def Let_def cont zero at_byte_def nth_Cons')
qed

lemma utf8_chunk_le: "a \<noteq> [] \<Longrightarrow> fst (utf8_chunk a) \<le> length a"
proof -
  assume "a \<noteq> []"
  then consider x where "a = [x]" | x y where "a = [x, y]" | x y z where "a = [x, y, z]"
    | x y z w r where "a = x # y # z # w # r"
    by (metis neq_Nil_conv)
  then show ?thesis
    by cases (simp_all add: utf8_chunk_def Let_def at_byte_def between_def)
qed

lemma lossy_Nil [simp]: "to_string_lossy [] = []"
  by (simp add: to_string_lossy.simps)

lemma lossy_step:
  "s \<noteq> [] \<Longrightarrow> to_string_lossy s =
     (if snd (utf8_chunk s) then take (fst (utf8_chunk s)) s else REPLACEMENT)
       @ to_string_lossy (drop (fst (utf8_chunk s)) s)"
  by (subst to_string_lossy.simps) (simp add: split_def Let_def)

lemma lossy_ascii: "between 0 0x7F c \<Longrightarrow> to_string_lossy (c # b) = c # to_string_lossy b"
  by (simp add: lossy_step utf8_chunk_def Let_def)

lemma lossy_append:
  assumes "between 0 0x7F c"
  shows "to_string_lossy (a @ c # b) = to_string_lossy a @ c # to_string_lossy b"
proof (induction "length a" arbitrary: a rule: less_induct)
  case less
  show ?case
  proof (cases "a = []")
    case True
    then show ?thesis by (simp add: lossy_ascii [OF assms])
  next
    case False
    let ?n = "fst (utf8_chunk a)"
    have n: "0 < ?n" "?n \<le> length a" by (rule utf8_chunk_pos, rule utf8_chunk_le [OF False])
    then have "to_string_lossy (drop ?n a @ c # b) = to_string_lossy (drop ?n a) @ c # to_string_lossy b"
      using less False by simp
    with n False show ?thesis
      using lossy_step [of "a @ c # b"] lossy_step [of a] utf8_chunk_append [OF assms False] by simp
  qed
qed

lemma lossy_plain: "CHR ''/'' \<notin> set s \<Longrightarrow> CHR ''/'' \<notin> set (to_string_lossy s)"
proof (induction "length s" arbitrary: s rule: less_induct)
  case less
  show ?case
  proof (cases "s = []")
    case False
    let ?n = "fst (utf8_chunk s)"
    have "length (drop ?n s) < length s" using utf8_chunk_pos [of s] False by simp
    moreover have "CHR ''/'' \<notin> set (drop ?n s)" "CHR ''/'' \<notin> set (take ?n s)"
      using less.prems by (auto dest: in_set_takeD in_set_dropD)
    ultimately show ?thesis
      using less.hyps [of "drop ?n s"] lossy_step [OF False] by (simp add: REPLACEMENT_def)
  qed simp
qed

lemma lossy_segments:
  "split_on CHR ''/'' (to_string_lossy s) = map to_string_lossy (split_on CHR ''/'' s)"
proof (induction "length s" arbitrary: s rule: less_induct)
  case less
  have slash: "between 0 0x7F (CHR ''/'')" by (simp add: between_def)
  show ?case
  proof (cases "CHR ''/'' \<in> set s")
    case True
    then obtain a b where s: "s = a @ CHR ''/'' # b" by (meson split_list)
    with less show ?thesis by (simp add: lossy_append [OF slash] split_on_append)
  next
    case False
    then have "CHR ''/'' \<notin> set (to_string_lossy s)" by (rule lossy_plain)
    with False show ?thesis by (simp add: split_on_plain)
  qed
qed

lemma lossy_ascii_result:
  "\<forall>c\<in>set (to_string_lossy s). (of_char c :: nat) < 128 \<Longrightarrow> to_string_lossy s = s"
proof (induction "length s" arbitrary: s rule: less_induct)
  case less
  show ?case
  proof (cases "s = []")
    case False
    let ?n = "fst (utf8_chunk s)"
    have shorter: "length (drop ?n s) < length s" using utf8_chunk_pos [of s] False by simp
    have ok: "snd (utf8_chunk s)"
    proof (rule ccontr)
      assume "\<not> snd (utf8_chunk s)"
      then have "CHR 0xEF \<in> set (to_string_lossy s)"
        using lossy_step [OF False] by (simp add: REPLACEMENT_def)
      with less.prems show False by fastforce
    qed
    then have eq: "to_string_lossy s = take ?n s @ to_string_lossy (drop ?n s)"
      using lossy_step [OF False] by simp
    with less.prems have "\<forall>c\<in>set (to_string_lossy (drop ?n s)). (of_char c :: nat) < 128"
      by (metis Un_iff set_append)
    with less.hyps [OF shorter] eq show ?thesis by simp
  qed simp
qed

lemma lossy_plain_segment: "plain_segment s \<Longrightarrow> plain_segment (to_string_lossy s)"
proof -
  assume s: "plain_segment s"
  have "to_string_lossy s \<noteq> []"
    using s lossy_step [of s] utf8_chunk_pos [of s] by (auto simp: plain_segment_def REPLACEMENT_def)
  moreover have "to_string_lossy s \<noteq> ''.''" "to_string_lossy s \<noteq> ''..''"
    using s lossy_ascii_result [of s] by (auto simp: plain_segment_def)
  moreover have "CHR ''/'' \<notin> set (to_string_lossy s)"
    using s by (intro lossy_plain) (simp add: plain_segment_def)
  ultimately show ?thesis by (simp add: plain_segment_def)
qed

lemma lossy_render:
  assumes "list_all plain_segment ps"
  shows "to_string_lossy (render ''/'' ps) = render ''/'' (map to_string_lossy ps)"
proof -
  have slash: "between 0 0x7F (CHR ''/'')" by (simp add: between_def)
  have "to_string_lossy (join_with ''/'' ps) = join_with ''/'' (map to_string_lossy ps)"
    by (induction "''/''" ps rule: join_with.induct) (simp_all add: lossy_append [OF slash])
  then show ?thesis by (simp add: render_def lossy_ascii [OF slash])
qed

section \<open>Staying inside the branch\<close>

text \<open>No component of the text is \<open>..\<close>.\<close>

definition no_parent :: "string \<Rightarrow> bool" where
  "no_parent s \<longleftrightarrow> ''..'' \<notin> set (split_on CHR ''/'' s)"

definition rel_ok :: "string \<Rightarrow> bool" where
  "rel_ok rel \<longleftrightarrow> \<not> is_absolute rel \<and> no_parent rel"

text \<open>The path is the directory \<open>d\<close> or, by its text, below it.\<close>

definition inside :: "string \<Rightarrow> string \<Rightarrow> bool" where
  "inside d p \<longleftrightarrow> p = d \<or> (\<exists>rest. p = d @ CHR ''/'' # rest \<and> no_parent rest)"

definition branch_ok :: "SeccompCowBranch \<Rightarrow> bool" where
  "branch_ok b \<longleftrightarrow> storage_dir b \<noteq> [] \<and> last (storage_dir b) \<noteq> CHR ''/'' \<and>
     upper b = storage_dir b @ ''/upper'' \<and>
     (\<exists>ws. list_all plain_segment ws \<and> workdir b = render ''/'' ws)"

lemma no_parent_append [simp]: "no_parent (a @ CHR ''/'' # b) \<longleftrightarrow> no_parent a \<and> no_parent b"
  by (simp add: no_parent_def split_on_append)

lemma no_parent_Nil [simp]: "no_parent []"
  by (simp add: no_parent_def)

lemma no_parent_slashes: "no_parent (a @ replicate k (CHR ''/'')) \<longleftrightarrow> no_parent a"
proof (induction k)
  case (Suc k)
  have "a @ replicate (Suc k) (CHR ''/'') = (a @ replicate k (CHR ''/'')) @ CHR ''/'' # []"
    by (simp add: replicate_append_same)
  with Suc show ?case by (simp only: no_parent_append no_parent_Nil simp_thms)
qed simp

lemma path_push_upper:
  assumes "branch_ok b" "\<not> is_absolute rel"
  shows "path_push (upper b) rel = storage_dir b @ CHR ''/'' # ''upper/'' @ rel"
  using assms by (simp add: branch_ok_def path_push_def)

lemma inside_upper: "branch_ok b \<Longrightarrow> rel_ok rel \<Longrightarrow> inside (storage_dir b) (path_push (upper b) rel)"
proof -
  assume b: "branch_ok b" "rel_ok rel"
  have "no_parent (''upper'' @ CHR ''/'' # rel)"
    using b unfolding no_parent_append by (simp add: rel_ok_def) (simp add: no_parent_def)
  with b path_push_upper [of b rel] show ?thesis by (simp add: inside_def rel_ok_def)
qed

lemma trim_snoc [simp]:
  "x \<noteq> [] \<Longrightarrow> trim_slashes (x @ [CHR ''/'']) = trim_slashes x"
  "c \<noteq> CHR ''/'' \<Longrightarrow> trim_slashes (x @ [c]) = x @ [c]"
  by (simp_all add: trim_slashes_def)

text \<open>A directory given without a trailing separator.\<close>

definition dir_text :: "string \<Rightarrow> bool" where
  "dir_text d \<longleftrightarrow> d \<noteq> [] \<and> last d \<noteq> CHR ''/''"

lemma trim_dir: "dir_text d \<Longrightarrow> trim_slashes d = d"
  by (cases d rule: rev_cases) (simp_all add: dir_text_def)

lemma inside_trim:
  assumes "dir_text d" "inside d p"
  shows "inside d (trim_slashes p)"
proof -
  have "inside d (trim_slashes (d @ CHR ''/'' # rest))" if "no_parent rest" for rest
    using that
  proof (induction rest rule: rev_induct)
    case Nil
    have "trim_slashes (d @ [CHR ''/'']) = d"
      using assms(1) trim_dir [OF assms(1)] by (simp add: dir_text_def)
    then show ?case by (simp add: inside_def)
  next
    case (snoc c r)
    show ?case
    proof (cases "c = CHR ''/''")
      case True
      have "no_parent r" using snoc.prems no_parent_slashes [of r 1] True by simp
      moreover have "trim_slashes ((d @ CHR ''/'' # r) @ [CHR ''/'']) = trim_slashes (d @ CHR ''/'' # r)"
        by (rule trim_snoc) simp
      ultimately show ?thesis using snoc.IH True by simp
    next
      case False
      then have "trim_slashes ((d @ CHR ''/'' # r) @ [c]) = (d @ CHR ''/'' # r) @ [c]" by (rule trim_snoc)
      with snoc.prems show ?thesis by (auto simp: inside_def)
    qed
  qed
  then show ?thesis using assms trim_dir [OF assms(1)] by (auto simp: inside_def)
qed

lemma inside_pop:
  assumes "dir_text d" "inside d q" "q \<noteq> d" "last q \<noteq> CHR ''/''"
  shows "inside d (path_pop q)"
proof -
  obtain rest where q: "q = d @ CHR ''/'' # rest" "no_parent rest"
    using assms(2,3) by (auto simp: inside_def)
  have ne: "d \<noteq> []" using assms(1) by (simp add: dir_text_def)
  then have root: "q \<noteq> ''/''" by (cases d) (auto simp: q)
  show ?thesis
  proof (cases "CHR ''/'' \<in> set rest")
    case False
    then have "rsplit_once CHR ''/'' q = Some (d, rest)" unfolding q(1) by (rule rsplit_once_append)
    with root ne show ?thesis by (simp add: path_pop_def inside_def)
  next
    case True
    then obtain a c where r: "rest = a @ CHR ''/'' # c" "CHR ''/'' \<notin> set c"
      by (meson split_list_last)
    have "rsplit_once CHR ''/'' ((d @ CHR ''/'' # a) @ CHR ''/'' # c) = Some (d @ CHR ''/'' # a, c)"
      by (rule rsplit_once_append [OF r(2)])
    then have "path_pop q = d @ CHR ''/'' # a"
      using root by (simp add: path_pop_def q(1) r(1))
    with q(2) r(1) show ?thesis by (auto simp: inside_def)
  qed
qed

lemma trim_last: "trim_slashes p = ''/'' \<or> trim_slashes p = [] \<or> last (trim_slashes p) \<noteq> CHR ''/''"
proof (induction p rule: rev_induct)
  case (snoc c p)
  show ?case
  proof (cases "c = CHR ''/'' \<and> p = []")
    case True
    then show ?thesis by (simp add: trim_slashes_def)
  next
    case False
    then show ?thesis using snoc by (cases "c = CHR ''/''") simp_all
  qed
qed (simp add: trim_slashes_def)

lemma inside_parent:
  assumes "dir_text d" "u = d @ ''/upper''" "inside u p" "path_parent p = Some q"
  shows "inside d q"
proof -
  let ?t = "trim_slashes p"
  have "dir_text u" using assms(2) by (simp add: dir_text_def)
  then have "inside u ?t" by (rule inside_trim) (rule assms(3))
  then consider "?t = u" | rest where "?t = u @ CHR ''/'' # rest" "no_parent rest"
    by (auto simp: inside_def)
  then have t: "inside d ?t \<and> ?t \<noteq> d \<and> ?t \<noteq> [] \<and> ?t \<noteq> ''/''"
  proof cases
    case 1
    then show ?thesis using assms(1,2) by (auto simp: inside_def no_parent_def dir_text_def)
  next
    case 2
    have "?t = d @ CHR ''/'' # (''upper'' @ CHR ''/'' # rest)" using 2(1) assms(2) by simp
    moreover have "no_parent (''upper'' @ CHR ''/'' # rest)"
      unfolding no_parent_append using 2(2) by (simp add: no_parent_def)
    ultimately show ?thesis using assms(1) by (auto simp: inside_def dir_text_def)
  qed
  with trim_last [of p] have "inside d (path_pop ?t)" by (intro inside_pop [OF assms(1)]) auto
  then have "inside d (trim_slashes (path_pop ?t))" by (rule inside_trim [OF assms(1)])
  with t assms(4) show ?thesis by (simp add: path_parent_def Let_def)
qed

text \<open>What is used of \<open>pathdiff\<close>: between absolute paths without \<open>.\<close> and \<open>..\<close> it climbs from the base to
  the longest common directory and descends from there; from an absolute base there is no way to a
  relative path.\<close>

definition diff_law :: "diff \<Rightarrow> bool" where
  "diff_law diff_paths \<longleftrightarrow>
     (\<forall>ps bs. list_all plain_segment ps \<and> list_all plain_segment bs \<longrightarrow>
       (let k = length (longest_common_prefix ps bs) in
        diff_paths (render ''/'' ps) (render ''/'' bs) =
          Some (join_with ''/'' (replicate (length bs - k) ''..'' @ drop k ps)))) \<and>
     (\<forall>p base. \<not> is_absolute p \<and> is_absolute base \<longrightarrow> diff_paths p base = None)"

text \<open>The text of a path that has been normalised: relative, or absolute with plain segments only.\<close>

definition normal_path :: "string \<Rightarrow> bool" where
  "normal_path p \<longleftrightarrow> \<not> is_absolute p \<or> (\<exists>ps. list_all plain_segment ps \<and> p = render ''/'' ps)"

lemma diff_of_relative:
  assumes "diff_law diff_paths" "branch_ok b" "\<not> is_absolute p"
  shows "safe_rel diff_paths b p = None"
proof -
  have "is_absolute (workdir b)" using assms(2) by (auto simp: branch_ok_def render_def is_absolute_def)
  then show ?thesis using assms(1,3) by (simp add: diff_law_def safe_rel_def)
qed

lemma no_parent_join:
  assumes "list_all plain_segment ps"
  shows "rel_ok (join_with ''/'' ps)"
proof (cases "ps = []")
  case False
  have "split_on CHR ''/'' (join_with ''/'' ps) = ps"
    by (rule split_on_join [OF False]) (use assms in \<open>auto simp: list_all_iff plain_segment_def\<close>)
  moreover have "\<not> is_absolute (join_with ''/'' ps)"
    using assms False
    by (cases "(''/'', ps)" rule: join_with.cases) (auto simp: is_absolute_def plain_segment_def dest: hd_in_set)
  ultimately show ?thesis
    using assms by (auto simp: rel_ok_def no_parent_def list_all_iff plain_segment_def)
qed (simp add: rel_ok_def is_absolute_def)

lemma safe_rel_ok:
  assumes "diff_law diff_paths" "branch_ok b" "normal_path path" "safe_rel diff_paths b path = Some rel"
  shows "rel_ok rel"
proof -
  have slash: "between 0 0x7F (CHR ''/'')" by (simp add: between_def)
  obtain ps ws where ps: "list_all plain_segment ps" "path = render ''/'' ps"
    and ws: "list_all plain_segment ws" "workdir b = render ''/'' ws"
    using assms diff_of_relative [OF assms(1,2), of path] by (auto simp: normal_path_def branch_ok_def)
  let ?k = "length (longest_common_prefix ps ws)"
  let ?d = "join_with ''/'' (replicate (length ws - ?k) ''..'' @ drop ?k ps)"
  have d: "diff_paths path (workdir b) = Some ?d"
    using assms(1) ps ws unfolding diff_law_def by (simp add: Let_def)
  have dots: "to_string_lossy ''..'' = ''..''" by (rule lossy_valid) code_simp
  show ?thesis
  proof (cases "length ws - ?k")
    case 0
    have plain: "list_all plain_segment (map to_string_lossy (drop ?k ps))"
      using ps(1) by (auto simp: list_all_iff dest: in_set_dropD intro: lossy_plain_segment)
    have "to_string_lossy (join_with ''/'' (drop ?k ps)) = join_with ''/'' (map to_string_lossy (drop ?k ps))"
      using lossy_render [of "drop ?k ps"] ps(1)
      by (simp add: render_def lossy_ascii [OF slash] list_all_iff) (meson in_set_dropD)
    with no_parent_join [OF plain] assms(4) d 0 show ?thesis
      by (auto simp: safe_rel_def Let_def split: if_splits)
  next
    case (Suc m)
    then have "\<exists>t. ?d = ''..'' \<or> ?d = ''..'' @ CHR ''/'' # t"
      by (cases "replicate m ''..'' @ drop ?k ps") auto
    then have "to_string_lossy ?d = ''..'' \<or> prefix ''../'' (to_string_lossy ?d)"
      using dots lossy_append [OF slash, of "''..''"] by auto
    with assms(4) d show ?thesis by (auto simp: safe_rel_def Let_def)
  qed
qed

section \<open>Requests of the operations\<close>

primrec meets :: "(sysreq \<Rightarrow> bool) \<Rightarrow> ('a \<Rightarrow> bool) \<Rightarrow> 'a prog \<Rightarrow> bool" where
  "meets R Q (Done a) = Q a"
| "meets R Q (Call r k) = (R r \<and> (\<forall>x. meets R Q (k x)))"

lemma meets_pbind [simp]: "meets R Q (pbind p f) = meets R (\<lambda>a. meets R Q (f a)) p"
  by (induction p) auto

lemma meets_mono: "meets R Q p \<Longrightarrow> (\<And>a. Q a \<Longrightarrow> Q' a) \<Longrightarrow> meets R Q' p"
  by (induction p) auto

lemma meets_safe: "meets R Q p \<Longrightarrow> safe (\<lambda>h. R) (\<lambda>h. Q) h p"
  by (induction p arbitrary: h) auto

text \<open>The paths a request creates, changes or removes; an empty path cannot be opened.\<close>

primrec fs_changes :: "fs_req \<Rightarrow> string list" where
  "fs_changes (FsExists p) = []"
| "fs_changes (FsIsSymlink p) = []"
| "fs_changes (FsIsDir p) = []"
| "fs_changes (FsMetadata p) = []"
| "fs_changes (FsSymlinkMetadata p) = []"
| "fs_changes (FsCreateDirAll p) = [p]"
| "fs_changes (FsCreateFile p) = [p]"
| "fs_changes (FsCopy a p) = [p]"
| "fs_changes (FsSetPermissions p m) = [p]"
| "fs_changes (FsSymlink t p) = [p]"
| "fs_changes (FsRename a p) = [a, p]"
| "fs_changes (FsHardLink a p) = [a, p]"
| "fs_changes (FsRemoveFile p) = [p]"
| "fs_changes (FsRemoveDirAll p) = [p]"
| "fs_changes (FsChown p u g) = [p]"
| "fs_changes (FsOpen p fl m) = (if fl AND 0x643 = 0 \<or> p = [] then [] else [p])"
| "fs_changes (FsSetLen fd n) = []"
| "fs_changes (FsSyncAll fd) = []"
| "fs_changes (FsUtimensat p t fl) = [p]"
| "fs_changes (FsFstatat p fl) = []"
| "fs_changes (FsStatx p fl m) = []"
| "fs_changes (FsStatfs p) = []"
| "fs_changes (FsMkdir p m) = [p]"
| "fs_changes (FsRmdir p) = [p]"
| "fs_changes (FsTruncate p n) = [p]"
| "fs_changes (FsLinkat a p fl) = [a, p]"
| "fs_changes (FsOpenat2 fd p fl m) = []"

definition isolated :: "string \<Rightarrow> sysreq \<Rightarrow> bool" where
  "isolated d r = (case r of KFs q \<Rightarrow> list_all (inside d) (fs_changes q)
     | KReadDir _ \<Rightarrow> True | KReadlink _ \<Rightarrow> True | KCanonicalize _ \<Rightarrow> True | _ \<Rightarrow> harmless r)"

lemma isolated_simps [simp]:
  "isolated d (KFs q) = list_all (inside d) (fs_changes q)"
  "isolated d (KReadDir p)" "isolated d (KReadlink p)" "isolated d (KCanonicalize p)"
  by (simp_all add: isolated_def)

definition same_dirs :: "SeccompCowBranch \<Rightarrow> SeccompCowBranch \<Rightarrow> bool" where
  "same_dirs b b' \<longleftrightarrow> workdir b' = workdir b \<and> workdir_str b' = workdir_str b \<and> upper b' = upper b
     \<and> storage_dir b' = storage_dir b \<and> max_disk_bytes b' = max_disk_bytes b"

lemma same_dirs_refl [simp]: "same_dirs b b"
  by (simp add: same_dirs_def)

lemma meets_fs [simp]:
  "meets R Q (fs_test q) \<longleftrightarrow> R (KFs q) \<and> Q True \<and> Q False"
  "meets R Q'' (fs_try q) \<longleftrightarrow> R (KFs q) \<and> Q'' (Inr ()) \<and> (\<forall>e. Q'' (Inl e))"
proof -
  have "(\<forall>x :: sysres. Q (case x of Inl _ \<Rightarrow> False | Inr (v, _) \<Rightarrow> v \<noteq> 0)) \<longleftrightarrow> Q True \<and> Q False"
    (is "?l \<longleftrightarrow> ?r")
  proof
    assume ?l
    from spec [OF this, of "Inr (1, [])"] spec [OF this, of "Inl 0"] show ?r by simp
  next
    assume ?r
    then show ?l by (metis (full_types))
  qed
  then show "meets R Q (fs_test q) \<longleftrightarrow> R (KFs q) \<and> Q True \<and> Q False"
    by (simp add: fs_test_def)
  show "meets R Q'' (fs_try q) \<longleftrightarrow> R (KFs q) \<and> Q'' (Inr ()) \<and> (\<forall>e. Q'' (Inl e))"
    by (auto simp: fs_try_def split: sum.splits)
qed

lemma meets_fs_ok [simp]: "meets R Q (fs_ok q) \<longleftrightarrow> R (KFs q) \<and> Q True \<and> Q False"
  by (simp add: fs_ok_def)

lemma meets_present [simp]:
  "meets R Q (present p) \<longleftrightarrow> R (KFs (FsExists p)) \<and> R (KFs (FsIsSymlink p)) \<and> Q True \<and> Q False"
  by (auto simp: present_def)

section \<open>The operations stay inside\<close>

definition isolates :: "SeccompCowBranch \<Rightarrow> ('a \<Rightarrow> bool) \<Rightarrow> ('e, 'a) updating \<Rightarrow> bool" where
  "isolates b Q p \<longleftrightarrow> meets (isolated (storage_dir b))
     (\<lambda>(r, b'). same_dirs b b' \<and> (\<forall>a. r = Inr a \<longrightarrow> Q a)) p"

named_theorems stays_inside

lemma make_parent_inside:
  assumes "branch_ok b" "rel_ok rel"
  shows "meets (isolated (storage_dir b)) (\<lambda>_. True) (make_parent (path_push (upper b) rel))"
proof -
  have "dir_text (storage_dir b)" "upper b = storage_dir b @ ''/upper''"
    using assms by (simp_all add: branch_ok_def dir_text_def)
  moreover have "inside (upper b) (path_push (upper b) rel)"
    using path_push_upper [OF assms(1), of rel] assms by (auto simp: inside_def branch_ok_def rel_ok_def)
  ultimately show ?thesis
    using inside_parent by (auto simp: make_parent_def split: option.split)
qed

lemma plan_copy_inside:
  assumes "branch_ok b" "rel_ok rel" "up = path_push (upper b) rel" "same_dirs b b'"
  shows "isolates b (\<lambda>plan. plan = Ready up \<or> (\<exists>low sz. plan = CopyNeedsCopy up low sz)) (plan_copy up low b')"
  using inside_upper [OF assms(1,2)] assms(3,4)
  by (auto simp: isolates_def plan_copy_def copy_symlink_def copy_dir_def reserve_file_def within_quota_def
      or_fail_def copy_permissions_def metadata_def same_dirs_def add_used_def split: sum.splits prod.splits)

lemma prepare_copy_inside:
  assumes "branch_ok b" "rel_ok rel" "up = path_push (upper b) rel"
  shows "isolates b (\<lambda>plan. plan = Ready up \<or> (\<exists>low sz. plan = CopyNeedsCopy up low sz)) (prepare_copy rel b)"
proof -
  have "same_dirs b (undelete rel b)" by (simp add: same_dirs_def undelete_def)
  with plan_copy_inside [OF assms this] make_parent_inside [OF assms(1,2)] assms show ?thesis
    unfolding isolates_def prepare_copy_def Let_def or_fail_def
    by (auto simp: undelete_def elim!: meets_mono split: sum.splits)
qed

lemma same_dirs_ok: "same_dirs b b' \<Longrightarrow> branch_ok b \<Longrightarrow> branch_ok b'"
  by (simp add: same_dirs_def branch_ok_def)

lemma same_dirs_upper: "same_dirs b b' \<Longrightarrow> upper b' = upper b"
  by (simp add: same_dirs_def)

lemma same_dirs_trans: "same_dirs b b' \<Longrightarrow> same_dirs b' b'' \<Longrightarrow> same_dirs b b''"
  by (simp add: same_dirs_def)

lemma isolates_from: "same_dirs b b' \<Longrightarrow> isolates b' Q p \<Longrightarrow> isolates b Q p"
  unfolding isolates_def by (simp add: same_dirs_def)

lemma isolates_mono: "isolates b Q p \<Longrightarrow> (\<And>a. Q a \<Longrightarrow> Q' a) \<Longrightarrow> isolates b Q' p"
  unfolding isolates_def by (erule meets_mono) auto

lemma execute_copy_inside:
  "inside d up \<Longrightarrow> meets (isolated d) (\<lambda>_. True) (execute_copy up low)"
  by (auto simp: execute_copy_def copy_permissions_def metadata_def split: sum.splits)

lemma ensure_cow_copy_inside:
  assumes "branch_ok b" "rel_ok rel"
  shows "isolates b (\<lambda>up. up = path_push (upper b) rel) (ensure_cow_copy rel b)"
proof -
  let ?up = "path_push (upper b) rel"
  have copy: "meets (isolated (storage_dir b)) (\<lambda>c. (\<exists>e. c = Inl e) \<longrightarrow> same_dirs b (rollback_copy sz b'))
      (execute_copy ?up low)" if "same_dirs b b'" for low sz b'
    by (rule meets_mono [OF execute_copy_inside [OF inside_upper [OF assms]]])
      (use that in \<open>simp add: rollback_copy_def same_dirs_def\<close>)
  have "meets (isolated (storage_dir b)) (\<lambda>(r, b'). same_dirs b b' \<and> (\<forall>a. r = Inr a \<longrightarrow> a = ?up))
      (case r of Inl e \<Rightarrow> Done (Inl e, b') | Inr (Ready up) \<Rightarrow> Done (Inr up, b')
       | Inr (CopyNeedsCopy up low sz) \<Rightarrow> pbind (execute_copy up low) (\<lambda>c. case c of
           Inr _ \<Rightarrow> Done (Inr up, b') | Inl e \<Rightarrow> Done (Inl (Operation ''copy'' e), rollback_copy sz b')))"
    if "same_dirs b b'" "\<forall>plan. r = Inr plan \<longrightarrow> plan = Ready ?up \<or> (\<exists>low sz. plan = CopyNeedsCopy ?up low sz)"
    for r b'
    using that by (auto split: sum.split intro!: meets_mono [OF copy [OF that(1)]])
  then show ?thesis
    using prepare_copy_inside [OF assms refl] unfolding isolates_def ensure_cow_copy_def
    by (auto elim!: meets_mono)
qed

lemma with_rel_inside:
  assumes "diff_law diff_paths" "branch_ok b" "normal_path path" "Q other"
    and "\<And>rel. rel_ok rel \<Longrightarrow> isolates b Q (f rel)"
  shows "isolates b Q (with_rel diff_paths b path other f)"
  using assms(4,5) safe_rel_ok [OF assms(1,2,3)]
  by (auto simp: with_rel_def isolates_def split: option.split)

lemma with_copy_inside:
  assumes "branch_ok b" "rel_ok rel"
    and "\<And>b'. same_dirs b b' \<Longrightarrow> isolates b Q (f (path_push (upper b) rel) b')"
  shows "isolates b Q (with_copy rel b f)"
  using ensure_cow_copy_inside [OF assms(1,2)] assms(3) unfolding isolates_def with_copy_def
  by (auto elim!: meets_mono split: sum.split)

lemma within_quota_inside: "isolates b Q p \<Longrightarrow> same_dirs b b' \<Longrightarrow> isolates b Q (within_quota n b' p)"
  by (auto simp: isolates_def within_quota_def split: sum.split)

lemma entries_size_inside:
  "(\<And>p. meets (isolated d) (\<lambda>_. True) (sz p)) \<Longrightarrow>
     meets (isolated d) (\<lambda>_. True) (entries_size sz dir names acc)"
  by (induction names arbitrary: acc) (auto simp: Let_def elim!: meets_mono split: sum.splits)

lemma dir_size_inside: "meets (isolated d) (\<lambda>_. True) (dir_size k dir)"
  by (induction k arbitrary: dir) (auto intro: entries_size_inside split: sum.splits)

lemma recalc_inside: "meets (isolated d) (\<lambda>b'. same_dirs b b') (recalc_disk_used b)"
  using dir_size_inside [of d PATH_MAX "upper b"]
  by (auto simp: recalc_disk_used_def same_dirs_def elim!: meets_mono)

section \<open>Every operation\<close>

lemma handle_unlink_inside:
  assumes "diff_law diff_paths" "branch_ok b" "normal_path path"
  shows "isolates b (\<lambda>_. True) (handle_unlink diff_paths path dir b)"
  unfolding handle_unlink_def
proof (rule with_rel_inside [where Q = "\<lambda>_. True", OF assms], goal_cases)
  case (2 rel)
  have "isolates b (\<lambda>_. True) (pbind (present low) (\<lambda>l.
      Done (Inr True, if l then mark_deleted rel b' else b'\<lparr>has_changes := True\<rparr>)))"
    if "same_dirs b b'" for b' low
    using that by (simp add: isolates_def same_dirs_def mark_deleted_def)
  with 2 inside_upper [OF assms(2) 2] meets_mono [OF recalc_inside] show ?case
    unfolding isolates_def unlink_mismatch_def Let_def
    by (auto split: option.split)
qed simp

lemma undelete_dirs [simp]: "same_dirs b (undelete rel b') \<longleftrightarrow> same_dirs b b'"
  and mark_deleted_dirs [simp]: "same_dirs b (mark_deleted rel b') \<longleftrightarrow> same_dirs b b'"
  and add_used_dirs [simp]: "same_dirs b (add_used n b') \<longleftrightarrow> same_dirs b b'"
  and rollback_dirs [simp]: "same_dirs b (rollback_copy n b') \<longleftrightarrow> same_dirs b b'"
  by (simp_all add: same_dirs_def undelete_def mark_deleted_def add_used_def rollback_copy_def)

lemma upper_kept [simp]: "upper (undelete rel b) = upper b"
  by (simp add: undelete_def)

lemma handle_mkdir_inside:
  assumes "diff_law diff_paths" "branch_ok b" "normal_path path"
  shows "isolates b (\<lambda>_. True) (handle_mkdir diff_paths path b)"
  unfolding handle_mkdir_def
proof (rule with_rel_inside [where Q = "\<lambda>_. True", OF assms], goal_cases)
  case (2 rel)
  show ?case
    by (rule within_quota_inside) (use inside_upper [OF assms(2) 2] in \<open>simp_all add: isolates_def Let_def\<close>)
qed simp

lemma handle_symlink_inside:
  assumes "diff_law diff_paths" "branch_ok b" "normal_path path"
  shows "isolates b (\<lambda>_. True) (handle_symlink diff_paths target path b)"
  unfolding handle_symlink_def
proof (rule with_rel_inside [where Q = "\<lambda>_. True", OF assms], goal_cases)
  case (2 rel)
  have "isolates b (\<lambda>_. True) (within_quota 256 b (let b' = undelete rel b; up = path_push (upper b') rel in
      pbind (make_parent up) (\<lambda>_. pbind (fs_ok (FsSymlink target up)) (\<lambda>ok.
        Done (Inr ok, if ok then add_used 256 b' else b')))) :: (branch_error, bool) updating)"
    by (rule within_quota_inside)
      (use inside_upper [OF assms(2) 2] in
        \<open>auto simp: isolates_def Let_def intro!: meets_mono [OF make_parent_inside [OF assms(2) 2]]\<close>)
  then show ?case by (simp add: isolates_def)
qed simp

text \<open>Renaming and linking: both names are in the upper directory.\<close>

lemma moved_inside:
  assumes "branch_ok b" "rel_ok rel" "same_dirs b b'"
    and "\<And>ok. isolates b Q (f ok)" "isolated (storage_dir b) (KFs q)"
  shows "isolates b Q (pbind (make_parent (path_push (upper b') rel)) (\<lambda>_. pbind (fs_ok q) f))"
  using make_parent_inside [OF assms(1,2)] assms(3,4,5) unfolding isolates_def
  by (auto simp: same_dirs_upper elim!: meets_mono)

lemma handle_rename_inside:
  assumes "diff_law diff_paths" "branch_ok b" "normal_path old" "normal_path new"
  shows "isolates b (\<lambda>_. True) (handle_rename diff_paths old new b)"
  unfolding handle_rename_def
proof (rule with_rel_inside [where Q = "\<lambda>_. True", OF assms(1,2,3)], simp, goal_cases)
  case (1 rel)
  show ?case
  proof (rule with_rel_inside [where Q = "\<lambda>_. True", OF assms(1,2,4)], simp, goal_cases)
    case (1 rel')
    show ?case
      by (rule with_copy_inside [OF assms(2) \<open>rel_ok rel\<close>], unfold Let_def,
          rule moved_inside [OF assms(2) 1])
        (use inside_upper [OF assms(2)] 1 \<open>rel_ok rel\<close> in \<open>auto simp: isolates_def same_dirs_upper\<close>)
  qed
qed

lemma handle_link_inside:
  assumes "diff_law diff_paths" "branch_ok b" "normal_path old" "normal_path new"
  shows "isolates b (\<lambda>_. True) (handle_link diff_paths old new b)"
  unfolding handle_link_def
proof (rule with_rel_inside [where Q = "\<lambda>_. True", OF assms(1,2,3)], simp, goal_cases)
  case (1 rel)
  show ?case
  proof (rule with_rel_inside [where Q = "\<lambda>_. True", OF assms(1,2,4)], simp, goal_cases)
    case (1 rel')
    show ?case
      by (rule with_copy_inside [OF assms(2) \<open>rel_ok rel\<close>], unfold Let_def,
          rule moved_inside [OF assms(2) 1])
        (use inside_upper [OF assms(2)] 1 \<open>rel_ok rel\<close> in \<open>auto simp: isolates_def same_dirs_upper\<close>)
  qed
qed

text \<open>Changing a copied file.\<close>

lemma copied_inside:
  assumes "diff_law diff_paths" "branch_ok b" "normal_path path" "Q other"
    and "\<And>up b'. inside (storage_dir b) up \<Longrightarrow> same_dirs b b' \<Longrightarrow> isolates b Q (f up b')"
  shows "isolates b Q (with_rel diff_paths b path other (\<lambda>rel. with_copy rel b f))"
proof (rule with_rel_inside [OF assms(1-3), where Q = Q, OF assms(4)])
  fix rel assume "rel_ok rel"
  then show "isolates b Q (with_copy rel b f)"
    by (intro with_copy_inside [OF assms(2)] assms(5) inside_upper [OF assms(2)])
qed

lemma handle_chmod_inside:
  assumes "diff_law diff_paths" "branch_ok b" "normal_path path"
  shows "isolates b (\<lambda>_. True) (handle_chmod diff_paths path mode b)"
    and "isolates b (\<lambda>_. True) (handle_chown diff_paths path uid gid b)"
  unfolding handle_chmod_def handle_chown_def
  by (rule copied_inside [OF assms], simp, simp add: isolates_def)+

lemma handle_truncate_inside:
  assumes "diff_law diff_paths" "branch_ok b" "normal_path path"
  shows "isolates b (\<lambda>_. True) (handle_truncate diff_paths path len b)"
  unfolding handle_truncate_def
  by (rule copied_inside [OF assms], simp)
    (auto simp: isolates_def metadata_def set_len_def within_quota_def Let_def split: sum.splits prod.splits)

lemma map_sum_Inr [simp]: "map_sum f g r = Inr y \<longleftrightarrow> (\<exists>a. r = Inr a \<and> y = g a)"
  by (cases r) auto

lemma ensure_some_inside:
  assumes "branch_ok b" "rel_ok rel"
  shows "isolates b (\<lambda>p. \<forall>up. p = Some up \<longrightarrow> inside (storage_dir b) up) (ensure_some rel b)"
  using ensure_cow_copy_inside [OF assms] inside_upper [OF assms] unfolding isolates_def ensure_some_def
  by (auto elim!: meets_mono)

lemma handle_utimensat_inside:
  assumes "diff_law diff_paths" "branch_ok b" "normal_path path"
  shows "isolates b (\<lambda>p. \<forall>up. p = Some up \<longrightarrow> inside (storage_dir b) up) (handle_utimensat diff_paths path b)"
  unfolding handle_utimensat_def
  by (rule with_rel_inside [OF assms], simp) (rule ensure_some_inside [OF assms(2)])

text \<open>Opening. A plan that leads to writing names an upper file; only a file that is opened for reading
  may be a lower one.\<close>

lemma resync_inside: "meets (isolated d) (\<lambda>(r, b'). same_dirs b b') (resync w b)"
  using recalc_inside [of d b] by (auto simp: resync_def elim!: meets_mono)

lemma readable_inside: "meets (isolated d) (\<lambda>_. True) (readable rel b)"
  by (simp add: readable_def resolve_read_def Let_def)

lemma exists_anywhere_inside: "meets (isolated d) (\<lambda>_. True) (exists_anywhere rel b)"
  by (simp add: exists_anywhere_def)

lemma open_rel_inside:
  assumes "\<And>b'. same_dirs b b' \<Longrightarrow> isolates b Q (copy rel b')" "Q skip"
    and "\<And>p. \<not> open_flags flags WRITE_FLAGS \<Longrightarrow> Q (found p)"
  shows "isolates b Q (open_rel copy skip found rel flags b)"
proof -
  have copies: "isolates b Q (pbind (exists_anywhere rel b') (\<lambda>x. if x then Done (Inl Exists, b') else copy rel b'))"
    if "same_dirs b b'" for b'
    using exists_anywhere_inside [of "storage_dir b" rel b'] assms(1) [OF that] that
    by (auto simp: isolates_def elim!: meets_mono)
  have reads: "isolates b Q (pbind (readable rel b') (\<lambda>p. case p of
        Some p \<Rightarrow> Done (Inr (found p), b') | None \<Rightarrow> Done (Inr skip, b')))"
    if "same_dirs b b'" "\<not> open_flags flags WRITE_FLAGS" for b'
    using readable_inside [of "storage_dir b" rel b'] assms(2,3) that
    by (auto simp: isolates_def elim!: meets_mono split: option.split)
  have rest: "meets (isolated (storage_dir b)) (\<lambda>(r, b'). same_dirs b b' \<and> (\<forall>a. r = Inr a \<longrightarrow> Q a))
      (case r of Inl e \<Rightarrow> Done (Inl e, b') | Inr u \<Rightarrow>
          if is_deleted b' rel then (if open_flags flags O_CREAT then copy rel b' else Done (Inr skip, b'))
          else if open_flags flags O_CREAT \<and> open_flags flags O_EXCL then
            pbind (exists_anywhere rel b') (\<lambda>x. if x then Done (Inl Exists, b') else copy rel b')
          else if open_flags flags WRITE_FLAGS then copy rel b'
          else pbind (readable rel b') (\<lambda>p. case p of
            Some p \<Rightarrow> Done (Inr (found p), b') | None \<Rightarrow> Done (Inr skip, b')))"
    if "same_dirs b b'" for r b'
    using copies [OF that] reads [OF that] assms(1) [OF that] assms(2) that
    by (auto simp: isolates_def split: sum.split)
  show ?thesis
    unfolding isolates_def open_rel_def Let_def meets_pbind
    by (rule meets_mono [OF resync_inside]) (use rest in auto)
qed

definition plan_inside :: "string \<Rightarrow> u64 \<Rightarrow> CowOpenPlan \<Rightarrow> bool" where
  "plan_inside d flags plan = (case plan of
     Skip \<Rightarrow> True
   | Resolved p \<Rightarrow> inside d p \<or> \<not> open_flags flags WRITE_FLAGS
   | OpenNeedsCopy up low sz rel \<Rightarrow> inside d up
   | UpperReady up \<Rightarrow> inside d up)"

lemma prepare_cow_copy_inside:
  assumes "branch_ok b" "rel_ok rel"
  shows "isolates b (plan_inside (storage_dir b) flags) (prepare_cow_copy rel b)"
  using prepare_copy_inside [OF assms refl] inside_upper [OF assms] unfolding isolates_def prepare_cow_copy_def
  by (auto simp: plan_inside_def elim!: meets_mono split: sum.splits)

lemma prepare_open_inside:
  assumes "diff_law diff_paths" "branch_ok b" "normal_path path"
  shows "isolates b (plan_inside (storage_dir b) flags) (prepare_open diff_paths path flags b)"
proof -
  have "isolates b (plan_inside (storage_dir b) flags) (open_rel prepare_cow_copy Skip Resolved rel flags b)"
    if "rel_ok rel" for rel
  proof (rule open_rel_inside)
    fix b' assume same: "same_dirs b b'"
    have "isolates b' (plan_inside (storage_dir b') flags) (prepare_cow_copy rel b')"
      by (rule prepare_cow_copy_inside [OF same_dirs_ok [OF same assms(2)] that])
    then have "isolates b (plan_inside (storage_dir b') flags) (prepare_cow_copy rel b')"
      by (rule isolates_from [OF same])
    then show "isolates b (plan_inside (storage_dir b) flags) (prepare_cow_copy rel b')"
      using same by (simp add: same_dirs_def)
  qed (simp_all add: plan_inside_def)
  moreover have "isolates b (plan_inside (storage_dir b) flags)
      (let up = path_push (upper b) rel; low = path_push (workdir b) rel in
         pbind (fs_test (FsIsDir up)) (\<lambda>u.
           if u then pbind (fs_test (FsIsDir low)) (\<lambda>l. Done (Inr (if l then Skip else Resolved up), b))
           else Done (Inr Skip, b)) :: (branch_error, CowOpenPlan) updating)" if "rel_ok rel" for rel
    using inside_upper [OF assms(2) that] by (simp add: isolates_def plan_inside_def Let_def)
  ultimately show ?thesis
    using safe_rel_ok [OF assms]
    by (auto simp: prepare_open_def isolates_def plan_inside_def split: option.split)
qed

section \<open>One-phase and two-phase opening\<close>

text \<open>What the caller does with a plan: the copy, and the rollback of its reservation.\<close>

definition finish_plan ::
  "(branch_error + CowOpenPlan) \<times> SeccompCowBranch \<Rightarrow> (branch_error, string option) updating" where
  "finish_plan rb = (case fst rb of
     Inl e \<Rightarrow> Done (Inl e, snd rb)
   | Inr Skip \<Rightarrow> Done (Inr None, snd rb)
   | Inr (Resolved p) \<Rightarrow> Done (Inr (Some p), snd rb)
   | Inr (UpperReady up) \<Rightarrow> Done (Inr (Some up), snd rb)
   | Inr (OpenNeedsCopy up low file_size rel) \<Rightarrow> pbind (execute_copy up low) (\<lambda>c. case c of
       Inr _ \<Rightarrow> Done (Inr (Some up), snd rb)
     | Inl e \<Rightarrow> Done (Inl (Operation ''copy'' e), rollback_copy file_size (snd rb))))"

lemma pbind_cong: "(\<And>a. f a = g a) \<Longrightarrow> pbind p f = pbind p g"
  by (induction p) auto

lemma finish_copy: "pbind (prepare_cow_copy rel b) finish_plan = ensure_some rel b"
  unfolding prepare_cow_copy_def ensure_some_def ensure_cow_copy_def pbind_assoc
proof (rule pbind_cong)
  fix rb :: "(branch_error + CowCopyPlan) \<times> SeccompCowBranch"
  obtain r b' where rb: "rb = (r, b')" by (cases rb)
  consider e where "r = Inl e" | up where "r = Inr (Ready up)"
    | up low sz where "r = Inr (CopyNeedsCopy up low sz)"
    by (metis CowCopyPlan.exhaust sum.exhaust)
  then show "pbind (case rb of (r, b) \<Rightarrow> Done (case r of
         Inl e \<Rightarrow> Inl e | Inr (Ready up) \<Rightarrow> Inr (UpperReady up)
       | Inr (CopyNeedsCopy up low file_size) \<Rightarrow> Inr (OpenNeedsCopy up low file_size rel), b)) finish_plan
    = pbind (case rb of (r, b) \<Rightarrow> (case r of
         Inl e \<Rightarrow> Done (Inl e, b) | Inr (Ready up) \<Rightarrow> Done (Inr up, b)
       | Inr (CopyNeedsCopy up low file_size) \<Rightarrow> pbind (execute_copy up low) (\<lambda>c. case c of
           Inr _ \<Rightarrow> Done (Inr up, b)
         | Inl e \<Rightarrow> Done (Inl (Operation ''copy'' e), rollback_copy file_size b))))
        (\<lambda>(r, b). Done (map_sum id Some r, b))"
    by cases (auto simp: rb finish_plan_def pbind_assoc intro!: pbind_cong split: sum.split)
qed


definition example_branch :: SeccompCowBranch where
  "example_branch = \<lparr>workdir = ''/w'', workdir_str = ''/w'', upper = ''/s/b/upper'', storage_dir = ''/s/b'',
     deleted = {}, has_changes = False, finished = False, max_disk_bytes = 0, disk_used = 0\<rparr>"

definition example_diff :: diff where
  "example_diff path base =
     (let ps = normal_pieces path; bs = normal_pieces base; k = length (longest_common_prefix ps bs) in
      if is_absolute path then Some (join_with ''/'' (replicate (length bs - k) ''..'' @ drop k ps)) else None)"

lemma normal_pieces_render: "list_all plain_segment ps \<Longrightarrow> normal_pieces (render ''/'' ps) = ps"
  using split_render [of ps] by (simp add: render_def)

lemma example_diff_law: "diff_law example_diff"
  by (simp add: diff_law_def example_diff_def normal_pieces_render Let_def)
    (simp add: is_absolute_def render_def)

lemma example_branch_ok: "branch_ok example_branch"
proof -
  have "list_all plain_segment [''w''] \<and> ''/w'' = render ''/'' [''w'']"
    by (simp add: plain_segment_def render_def)
  then show ?thesis unfolding branch_ok_def by (intro conjI exI [of _ "[''w'']"]) (simp_all add: example_branch_def)
qed


section \<open>The account of the quota\<close>

lemma meets_result: "meets R Q p \<Longrightarrow> Q (result K p)"
  using safe_result [OF meets_safe] .

text \<open>A copy is planned only if the bytes it reserves fit under the quota; the account grows by
  exactly the size of the file to copy, and an error leaves it as it was.\<close>

theorem reservation_within_quota:
  "case result K (prepare_copy rel b) of
     (Inl e, b') \<Rightarrow> disk_used b' = disk_used b
   | (Inr (CopyNeedsCopy up low n), b') \<Rightarrow> disk_used b' = disk_used b + n \<and>
       (max_disk_bytes b = 0 \<or> disk_used b' \<le> max_disk_bytes b)
   | (Inr (Ready up), b') \<Rightarrow> disk_used b' = disk_used b \<or>
       max_disk_bytes b = 0 \<or> disk_used b' \<le> max_disk_bytes b"
  (is "?Q (result K (prepare_copy rel b))")
proof -
  have "meets (\<lambda>_. True) ?Q (plan_copy up low b')"
    if "disk_used b' = disk_used b" "max_disk_bytes b' = max_disk_bytes b" for up low b'
    using that
    by (auto simp: plan_copy_def copy_symlink_def copy_dir_def reserve_file_def within_quota_def
        check_quota_def or_fail_def copy_permissions_def metadata_def add_used_def word_gt_0
        split: sum.splits prod.splits if_splits)
  then have "meets (\<lambda>_. True) ?Q (prepare_copy rel b)"
    unfolding prepare_copy_def Let_def or_fail_def
    by (auto simp: undelete_def make_parent_def split: sum.splits option.split)
  then show ?thesis by (rule meets_result)
qed

end
