(* ===== verification/CowHandlers.thy ===== *)
theory CowHandlers
  imports CowBranch Dirents PathDenial
begin

text \<open>
  The copy-on-write system call handlers (\<open>cow/dispatch.rs\<close>). A handler resolves the path argument of a
  call as the child sees it, asks the branch (\<open>CowBranch\<close>), and answers, injects a descriptor, or leaves
  the call to the kernel. Its state is the branch, if there is one, and the process index, which holds
  the virtual working directories and the cached directory listings. Notifications are handled one
  after another, so the lock may be taken to be held throughout; the phases are kept as they are.
\<close>

unbundle bit_operations_syntax

section \<open>Paths of the child\<close>

definition state_of :: "process_index \<Rightarrow> u32 \<Rightarrow> PerProcessState option" where
  "state_of ix pid =
     (if unat pid < 0x80000000 then map_option snd (entry_for ix (int (unat pid))) else None)"

definition current_virtual_cwd :: "process_index \<Rightarrow> u32 \<Rightarrow> string option" where
  "current_virtual_cwd ix pid = Option.bind (state_of ix pid) virtual_cwd"

text \<open>\<open>read_path\<close> has the loop of \<open>read_child_cstr\<close>, with a bound of 4096.\<close>

definition read_path :: "seccomp_notif \<Rightarrow> u64 \<Rightarrow> string option prog" where
  "read_path n addr =
     (if addr = 0 then Done None
      else read_cstr_loop 4097 (notif_id n) (notif_pid n) addr 4096 [])"

primrec cow_normalize_component :: "string \<Rightarrow> component \<Rightarrow> string" where
  "cow_normalize_component acc RootDir = path_push acc ''/''"
| "cow_normalize_component acc CurDir = acc"
| "cow_normalize_component acc ParentDir = path_pop acc"
| "cow_normalize_component acc (Normal part) = path_push acc part"

definition cow_normalize_path :: "string \<Rightarrow> string" where
  "cow_normalize_path path = foldl cow_normalize_component [] (path_components path)"

definition resolve_at_path_with_virtual ::
  "seccomp_notif \<Rightarrow> u64 \<Rightarrow> string \<Rightarrow> string option \<Rightarrow> string prog" where
  "resolve_at_path_with_virtual n dirfd path cwd =
     (if is_absolute path then Done (to_string_lossy (cow_normalize_path path))
      else let below = (\<lambda>base. to_string_lossy (cow_normalize_path (path_push base path)));
               follow = (\<lambda>link. pbind (syscall (KReadlink (proc_dir (notif_pid n) @ link))) (\<lambda>x. Done (case x of
                 Inl _ \<Rightarrow> path | Inr (_, base) \<Rightarrow> below (string_of_bytes base))))
           in if as_i32 dirfd = AT_FDCWD then
                (case cwd of Some c \<Rightarrow> Done (below c) | None \<Rightarrow> follow ''/cwd'')
              else follow (''/fd/'' @ show_int (sint dirfd)))"

text \<open>\<open>Path::strip_prefix\<close>\<close>

definition path_strip_prefix :: "string \<Rightarrow> string \<Rightarrow> string option" where
  "path_strip_prefix p base =
     (let b = path_components base; c = path_components p in
      if prefix b c then Some (foldl path_push [] (map component_text (drop (length b) c))) else None)"

definition map_cow_upper_path :: "SeccompCowBranch \<Rightarrow> string \<Rightarrow> string" where
  "map_cow_upper_path b path = to_string_lossy (cow_normalize_path (case path_strip_prefix path (upper b) of
     Some rel \<Rightarrow> path_push (workdir b) rel | None \<Rightarrow> path))"

abbreviation (input) O_CLOEXEC :: "'a::numeral" where "O_CLOEXEC \<equiv> 0x80000"

text \<open>\<open>CString::new(p.to_str().unwrap_or(""))\<close>; a NUL byte leaves the call to the kernel.\<close>

definition with_c_path :: "string \<Rightarrow> (string \<Rightarrow> notif_action prog) \<Rightarrow> notif_action prog" where
  "with_c_path p f = (let c = (if utf8_valid p then p else []) in
     if CHR 0x00 \<in> set c then Done Continue else f c)"

section \<open>Reading the child\<close>

text \<open>Whatever allows the harmless requests allows reading the child.\<close>

lemma read_mem_meets:
  assumes "\<And>r. harmless r \<Longrightarrow> R r"
  shows "meets R (\<lambda>_. True) (read_child_mem i p a len)"
  by (auto simp: assms read_child_mem_def read_child_mem_vm_def id_valid_def split: sum.splits prod.splits)

lemma read_cstr_meets:
  assumes "\<And>r. harmless r \<Longrightarrow> R r"
  shows "meets R (\<lambda>_. True) (read_cstr_loop k i p cur m acc)"
  by (induction k arbitrary: cur acc)
    (auto simp: Let_def split: sum.splits intro!: meets_mono [OF read_mem_meets [OF assms]])

lemma read_path_meets:
  assumes "\<And>r. harmless r \<Longrightarrow> R r"
  shows "meets R (\<lambda>_. True) (read_path n a)"
  by (simp add: read_path_def read_cstr_meets [OF assms])

section \<open>openat\<close>

type_synonym cow_state = "SeccompCowBranch option"

text \<open>The relative path, the directory, the flags and the mode of \<open>open\<close> and \<open>openat\<close>.\<close>

definition open_args :: "seccomp_notif \<Rightarrow> u64 \<times> u64 \<times> u64 \<times> u64" where
  "open_args n = (if notif_nr n = SYS_open then (arg n 0, cwd_arg, arg n 1, arg n 2)
     else (arg n 1, arg n 0, arg n 2, arg n 3))"

text \<open>The virtual working directory counts only for a relative path without a directory.\<close>

definition cwd_for :: "process_index \<Rightarrow> u32 \<Rightarrow> u64 \<Rightarrow> string \<Rightarrow> string option" where
  "cwd_for ix pid dirfd path =
     (if as_i32 dirfd = AT_FDCWD \<and> \<not> is_absolute path then current_virtual_cwd ix pid else None)"

text \<open>Phase 1: the plan; an action instead of a plan ends the handler.\<close>

definition plan_open ::
  "diff \<Rightarrow> string \<Rightarrow> u64 \<Rightarrow> SeccompCowBranch \<Rightarrow> ((notif_action + CowOpenPlan) \<times> SeccompCowBranch) prog" where
  "plan_open diff_paths resolved_path flags b =
     (let path = map_cow_upper_path b resolved_path in
      if \<not> cow_matches b path then Done (Inl Continue, b)
      else pbind (if open_flags flags WRITE_FLAGS then Done True else needs_read_intercept diff_paths b path) (\<lambda>i.
        if \<not> i then Done (Inl Continue, b)
        else pbind (prepare_open diff_paths path flags b) (\<lambda>(r, b). Done (case r of
          Inr plan \<Rightarrow> Inr plan
        | Inl QuotaExceeded \<Rightarrow> Inl (Errno ENOSPC)
        | Inl Exists \<Rightarrow> Inl (Errno EEXIST)
        | Inl _ \<Rightarrow> Inl Continue, b))))"

text \<open>Phase 2: the copy, with its rollback; the path to open.\<close>

definition run_plan :: "CowOpenPlan \<Rightarrow> SeccompCowBranch \<Rightarrow> (string option \<times> SeccompCowBranch) prog" where
  "run_plan plan b = (case plan of
     Skip \<Rightarrow> Done (None, b)
   | Resolved p \<Rightarrow> Done (Some p, b)
   | UpperReady up \<Rightarrow> Done (Some up, b)
   | OpenNeedsCopy up low file_size rel \<Rightarrow> pbind (execute_copy up low) (\<lambda>c. Done (case c of
       Inr _ \<Rightarrow> (Some up, b) | Inl _ \<Rightarrow> (None, rollback_copy file_size b))))"

text \<open>Phase 3: open without \<open>O_EXCL\<close> and inject.\<close>

definition open_and_inject :: "string \<Rightarrow> u64 \<Rightarrow> u64 \<Rightarrow> notif_action prog" where
  "open_and_inject real_path flags mode = with_c_path real_path (\<lambda>c.
     pbind (syscall (KFs (FsOpen c (as_i32 (flags AND NOT O_EXCL)) (as_u32 (mode AND 0xFFF))))) (\<lambda>x.
       Done (case x of
         Inl _ \<Rightarrow> Continue
       | Inr (fd, _) \<Rightarrow> InjectFdSend fd (if open_flags flags O_CLOEXEC then O_CLOEXEC else 0))))"

definition handle_cow_open ::
  "diff \<Rightarrow> seccomp_notif \<Rightarrow> process_index \<Rightarrow> cow_state \<Rightarrow> (notif_action \<times> cow_state) prog" where
  "handle_cow_open diff_paths n ix st =
     (let (path_ptr, dirfd, flags, mode) = open_args n in
      pbind (read_path n path_ptr) (\<lambda>p. case p of
        None \<Rightarrow> Done (Continue, st)
      | Some rel_path \<Rightarrow>
          pbind (resolve_at_path_with_virtual n dirfd rel_path (cwd_for ix (notif_pid n) dirfd rel_path)) (\<lambda>path.
          case st of
            None \<Rightarrow> Done (Continue, st)
          | Some b \<Rightarrow> pbind (plan_open diff_paths path flags b) (\<lambda>(r, b). case r of
              Inl action \<Rightarrow> Done (action, Some b)
            | Inr plan \<Rightarrow> pbind (run_plan plan b) (\<lambda>(p, b). case p of
                None \<Rightarrow> Done (Continue, Some b)
              | Some real_path \<Rightarrow>
                  pbind (open_and_inject real_path flags mode) (\<lambda>a. Done (a, Some b)))))))"

section \<open>Write operations\<close>

datatype CowWriteOp =
    Unlink string bool
  | Mkdir string
  | Rename string string
  | Symlink string string
  | Link string string
  | Chmod string u32
  | Chown string u32 u32
  | Truncate string u64

fun remap_upper_paths :: "SeccompCowBranch \<Rightarrow> CowWriteOp \<Rightarrow> CowWriteOp" where
  "remap_upper_paths b (Unlink p d) = Unlink (map_cow_upper_path b p) d"
| "remap_upper_paths b (Mkdir p) = Mkdir (map_cow_upper_path b p)"
| "remap_upper_paths b (Chmod p m) = Chmod (map_cow_upper_path b p) m"
| "remap_upper_paths b (Chown p u g) = Chown (map_cow_upper_path b p) u g"
| "remap_upper_paths b (Truncate p l) = Truncate (map_cow_upper_path b p) l"
| "remap_upper_paths b (Rename p q) = Rename (map_cow_upper_path b p) (map_cow_upper_path b q)"
| "remap_upper_paths b (Link p q) = Link (map_cow_upper_path b p) (map_cow_upper_path b q)"
| "remap_upper_paths b (Symlink t l) = Symlink t (map_cow_upper_path b l)"

definition read_resolved ::
  "seccomp_notif \<Rightarrow> nat \<Rightarrow> nat option \<Rightarrow> string option \<Rightarrow> string option prog" where
  "read_resolved n path_arg dirfd_arg cwd = pbind (read_path n (arg n path_arg)) (\<lambda>p. case p of
     None \<Rightarrow> Done None
   | Some raw \<Rightarrow> pbind (resolve_at_path_with_virtual n
         (case dirfd_arg of Some i \<Rightarrow> arg n i | None \<Rightarrow> cwd_arg) raw cwd) (\<lambda>r. Done (Some r)))"

text \<open>The two shapes of \<open>parse_cow_write\<close>: one path, or two.\<close>

definition one_path ::
  "seccomp_notif \<Rightarrow> nat \<Rightarrow> nat option \<Rightarrow> string option \<Rightarrow> (string \<Rightarrow> CowWriteOp) \<Rightarrow> CowWriteOp option prog" where
  "one_path n path_arg dirfd_arg cwd f =
     pbind (read_resolved n path_arg dirfd_arg cwd) (\<lambda>p. Done (map_option f p))"

definition two_paths ::
  "string option prog \<Rightarrow> string option prog \<Rightarrow> (string \<Rightarrow> string \<Rightarrow> CowWriteOp) \<Rightarrow> CowWriteOp option prog" where
  "two_paths p q f = pbind p (\<lambda>x. case x of
     None \<Rightarrow> Done None
   | Some a \<Rightarrow> pbind q (\<lambda>y. Done (map_option (f a) y)))"

definition parse_cow_write :: "seccomp_notif \<Rightarrow> string option \<Rightarrow> CowWriteOp option prog" where
  "parse_cow_write n cwd =
     (let nr = notif_nr n;
          at = (\<lambda>p d. read_resolved n p (Some d) cwd); legacy = (\<lambda>p. read_resolved n p None cwd);
          bits = (\<lambda>i. as_u32 (arg n i AND 0xFFF)) in
      if nr = SYS_unlinkat then one_path n 1 (Some 0) cwd (\<lambda>p. Unlink p (open_flags (arg n 2) 0x200))
      else if nr = SYS_mkdirat then one_path n 1 (Some 0) cwd Mkdir
      else if nr = SYS_renameat2 then two_paths (at 1 0) (at 3 2) Rename
      else if nr = SYS_symlinkat then two_paths (read_path n (arg n 0)) (at 2 1) Symlink
      else if nr = SYS_linkat then two_paths (at 1 0) (at 3 2) Link
      else if nr = SYS_fchmodat then one_path n 1 (Some 0) cwd (\<lambda>p. Chmod p (bits 2))
      else if nr = SYS_fchownat then
        one_path n 1 (Some 0) cwd (\<lambda>p. Chown p (as_u32 (arg n 2)) (as_u32 (arg n 3)))
      else if nr = SYS_unlink then one_path n 0 None cwd (\<lambda>p. Unlink p False)
      else if nr = SYS_rmdir then one_path n 0 None cwd (\<lambda>p. Unlink p True)
      else if nr = SYS_mkdir then one_path n 0 None cwd Mkdir
      else if nr = SYS_rename then two_paths (legacy 0) (legacy 1) Rename
      else if nr = SYS_symlink then two_paths (read_path n (arg n 0)) (legacy 1) Symlink
      else if nr = SYS_link then two_paths (legacy 0) (legacy 1) Link
      else if nr = SYS_chmod then one_path n 0 None cwd (\<lambda>p. Chmod p (bits 1))
      else if nr = SYS_chown \<or> nr = SYS_lchown then
        one_path n 0 None cwd (\<lambda>p. Chown p (as_u32 (arg n 1)) (as_u32 (arg n 2)))
      else if nr = SYS_truncate then one_path n 0 None cwd (\<lambda>p. Truncate p (arg n 1))
      else Done None)"

definition cow_result :: "branch_error + bool \<Rightarrow> notif_action" where
  "cow_result r = (case r of Inr True \<Rightarrow> ReturnValue 0 | Inl QuotaExceeded \<Rightarrow> Errno ENOSPC | _ \<Rightarrow> Continue)"

definition unlink_result :: "int + bool \<Rightarrow> notif_action" where
  "unlink_result r = (case r of Inr True \<Rightarrow> ReturnValue 0 | Inl errno \<Rightarrow> Errno errno | _ \<Rightarrow> Continue)"

definition cow_copy_rel :: "diff \<Rightarrow> CowWriteOp \<Rightarrow> SeccompCowBranch \<Rightarrow> string option" where
  "cow_copy_rel diff_paths op b =
     (let rel = (\<lambda>m c. if cow_matches b m then safe_rel diff_paths b c else None) in
      case op of
        Chmod p _ \<Rightarrow> rel p p | Chown p _ _ \<Rightarrow> rel p p | Truncate p _ \<Rightarrow> rel p p
      | Rename old _ \<Rightarrow> rel old old | Link old new \<Rightarrow> rel new old | _ \<Rightarrow> None)"

definition execute_deferred_copy ::
  "string \<Rightarrow> string \<Rightarrow> u64 \<Rightarrow> SeccompCowBranch \<Rightarrow> (string option \<times> SeccompCowBranch) prog" where
  "execute_deferred_copy up low file_size b = pbind (execute_copy up low) (\<lambda>c. Done (case c of
     Inr _ \<Rightarrow> (Some up, b) | Inl _ \<Rightarrow> (None, rollback_copy file_size b)))"

text \<open>Phases 1 and 2: the copy beforehand, when one is needed; an action ends the handler.\<close>

definition pre_copy ::
  "diff \<Rightarrow> CowWriteOp \<Rightarrow> SeccompCowBranch \<Rightarrow> (notif_action option \<times> SeccompCowBranch) prog" where
  "pre_copy diff_paths op b = (case cow_copy_rel diff_paths op b of
     None \<Rightarrow> Done (None, b)
   | Some rel \<Rightarrow> pbind (prepare_copy rel b) (\<lambda>(r, b). case r of
       Inl QuotaExceeded \<Rightarrow> Done (Some (Errno ENOSPC), b)
     | Inl _ \<Rightarrow> Done (Some Continue, b)
     | Inr (Ready up) \<Rightarrow> Done (None, b)
     | Inr (CopyNeedsCopy up low file_size) \<Rightarrow> pbind (execute_deferred_copy up low file_size b) (\<lambda>(p, b).
         Done (case p of None \<Rightarrow> Some Continue | Some _ \<Rightarrow> None, b))))"

text \<open>Phase 3.\<close>

fun matched_path :: "CowWriteOp \<Rightarrow> string" where
  "matched_path (Unlink p _) = p" | "matched_path (Mkdir p) = p" | "matched_path (Rename old new) = old"
| "matched_path (Symlink target linkpath) = linkpath" | "matched_path (Link old new) = new"
| "matched_path (Chmod p _) = p" | "matched_path (Chown p _ _) = p" | "matched_path (Truncate p _) = p"

fun perform_op :: "diff \<Rightarrow> CowWriteOp \<Rightarrow> SeccompCowBranch \<Rightarrow> (notif_action \<times> SeccompCowBranch) prog" where
  "perform_op diff_paths (Unlink p d) b = pbind (handle_unlink diff_paths p d b) (\<lambda>(r, b). Done (unlink_result r, b))"
| "perform_op diff_paths (Mkdir p) b = pbind (handle_mkdir diff_paths p b) (\<lambda>(r, b). Done (cow_result r, b))"
| "perform_op diff_paths (Rename p q) b = pbind (handle_rename diff_paths p q b) (\<lambda>(r, b). Done (cow_result r, b))"
| "perform_op diff_paths (Symlink t l) b = pbind (handle_symlink diff_paths t l b) (\<lambda>(r, b). Done (cow_result r, b))"
| "perform_op diff_paths (Link p q) b = pbind (handle_link diff_paths p q b) (\<lambda>(r, b). Done (cow_result r, b))"
| "perform_op diff_paths (Chmod p m) b = pbind (handle_chmod diff_paths p m b) (\<lambda>(r, b). Done (cow_result r, b))"
| "perform_op diff_paths (Chown p u g) b = pbind (handle_chown diff_paths p u g b) (\<lambda>(r, b). Done (cow_result r, b))"
| "perform_op diff_paths (Truncate p l) b = pbind (handle_truncate diff_paths p l b) (\<lambda>(r, b). Done (cow_result r, b))"

definition run_write_op ::
  "diff \<Rightarrow> CowWriteOp \<Rightarrow> SeccompCowBranch \<Rightarrow> (notif_action \<times> SeccompCowBranch) prog" where
  "run_write_op diff_paths op b = pbind (pre_copy diff_paths op b) (\<lambda>(a, b). case a of
     Some action \<Rightarrow> Done (action, b)
   | None \<Rightarrow> if \<not> cow_matches b (matched_path op) then Done (Continue, b) else perform_op diff_paths op b)"

definition handle_cow_write ::
  "diff \<Rightarrow> seccomp_notif \<Rightarrow> process_index \<Rightarrow> cow_state \<Rightarrow> (notif_action \<times> cow_state) prog" where
  "handle_cow_write diff_paths n ix st =
     pbind (parse_cow_write n (current_virtual_cwd ix (notif_pid n))) (\<lambda>op. case op of
       None \<Rightarrow> Done (Continue, st)
     | Some op \<Rightarrow> (case st of
         None \<Rightarrow> Done (Continue, st)
       | Some b \<Rightarrow> pbind (run_write_op diff_paths (remap_upper_paths b op) b) (\<lambda>(a, b). Done (a, Some b))))"

end
