(* ===== verification/CowQueries.thy ===== *)
theory CowQueries
  imports CowHandlers
begin

text \<open>
  The rest of \<open>cow/dispatch.rs\<close>: the calls that look at the merged tree (\<open>access\<close>, \<open>stat\<close>, \<open>statx\<close>,
  \<open>readlink\<close>, \<open>getdents\<close>), \<open>utimensat\<close>, \<open>execve\<close>, and the working directory. A handler answers with an
  action and, where it changes it, the process index; only \<open>utimensat\<close> changes the branch.
\<close>

unbundle bit_operations_syntax

section \<open>Shared steps\<close>

definition with_path ::
  "seccomp_notif \<Rightarrow> u64 \<Rightarrow> u64 \<Rightarrow> string option \<Rightarrow> 'a \<Rightarrow> (string \<Rightarrow> 'a prog) \<Rightarrow> 'a prog" where
  "with_path n dirfd path_ptr cwd other f = pbind (read_path n path_ptr) (\<lambda>p. case p of
     None \<Rightarrow> Done other
   | Some path \<Rightarrow> pbind (resolve_at_path_with_virtual n dirfd path cwd) f)"

text \<open>The branch and the path, when the branch has the path.\<close>

definition with_branch ::
  "cow_state \<Rightarrow> string \<Rightarrow> 'a \<Rightarrow> (SeccompCowBranch \<Rightarrow> string \<Rightarrow> 'a prog) \<Rightarrow> 'a prog" where
  "with_branch st full other f = (case st of
     None \<Rightarrow> Done other
   | Some b \<Rightarrow> let path = map_cow_upper_path b full in
       if cow_matches b path then f b path else Done other)"

text \<open>Queries concern the branch only once it has changes.\<close>

definition with_changes ::
  "cow_state \<Rightarrow> string \<Rightarrow> (SeccompCowBranch \<Rightarrow> string \<Rightarrow> notif_action prog) \<Rightarrow> notif_action prog" where
  "with_changes st full f = with_branch st full Continue (\<lambda>b path.
     if has_changes b then f b path else Done Continue)"

definition answer_bytes :: "seccomp_notif \<Rightarrow> u64 \<Rightarrow> bytes \<Rightarrow> int \<Rightarrow> notif_action prog" where
  "answer_bytes n addr out v = pbind (write_child_mem (notif_id n) (notif_pid n) addr out) (\<lambda>r.
     Done (case r of Inl _ \<Rightarrow> Continue | Inr _ \<Rightarrow> ReturnValue v))"

section \<open>access, stat, statx, readlink\<close>

abbreviation (input) W_OK :: "'a::numeral" where "W_OK \<equiv> 2"
abbreviation (input) AT_EMPTY_PATH :: "'a::numeral" where "AT_EMPTY_PATH \<equiv> 0x1000"

definition handle_cow_access ::
  "diff \<Rightarrow> seccomp_notif \<Rightarrow> process_index \<Rightarrow> cow_state \<Rightarrow> notif_action prog" where
  "handle_cow_access diff_paths n ix st =
     (let (dirfd, path_ptr, mode) =
          (if notif_nr n = SYS_access then (cwd_arg, arg n 0, arg n 1) else (arg n 0, arg n 1, arg n 2))
      in with_path n dirfd path_ptr (current_virtual_cwd ix (notif_pid n)) Continue (\<lambda>full.
        if mode AND W_OK = 0 then Done Continue
        else with_branch st full Continue (\<lambda>b path.
          pbind (fs_test (FsExists path)) (\<lambda>e.
            if e then Done (ReturnValue 0)
            else pbind (handle_stat diff_paths b path) (\<lambda>p.
              Done (if p \<noteq> None then ReturnValue 0 else Continue))))))"

definition stat_resolved :: "seccomp_notif \<Rightarrow> string \<Rightarrow> notif_action prog" where
  "stat_resolved n real_path =
     (if notif_nr n = SYS_faccessat \<or> notif_nr n = SYS_faccessat2 then
        pbind (present real_path) (\<lambda>p. Done (if p then ReturnValue 0 else Errno ENOENT))
      else with_c_path real_path (\<lambda>c.
        pbind (syscall (KFs (FsFstatat c (as_i32 (arg n 3 AND 0xFFFFFFFF))))) (\<lambda>x. case x of
          Inl errno \<Rightarrow> Done (Errno errno)
        | Inr (_, statbuf) \<Rightarrow> answer_bytes n (arg n 2) statbuf 0)))"

definition handle_cow_stat ::
  "diff \<Rightarrow> seccomp_notif \<Rightarrow> process_index \<Rightarrow> cow_state \<Rightarrow> notif_action prog" where
  "handle_cow_stat diff_paths n ix st =
     with_path n (arg n 0) (arg n 1) (current_virtual_cwd ix (notif_pid n)) Continue (\<lambda>full.
     with_changes st full (\<lambda>b path.
     pbind (handle_stat diff_paths b path) (\<lambda>p. case p of
       None \<Rightarrow> Done (Errno ENOENT) | Some real_path \<Rightarrow> stat_resolved n real_path)))"

text \<open>The buffer for \<open>struct statx\<close> has 256 bytes whatever the kernel fills.\<close>

definition statx_resolved :: "seccomp_notif \<Rightarrow> string \<Rightarrow> notif_action prog" where
  "statx_resolved n real_path = with_c_path real_path (\<lambda>c.
     pbind (syscall (KFs (FsStatx c (as_i32 (arg n 2)) (as_u32 (arg n 3))))) (\<lambda>x. case x of
       Inl errno \<Rightarrow> Done (Errno errno)
     | Inr (_, out) \<Rightarrow> answer_bytes n (arg n 4) (take 256 (out @ replicate 256 0)) 0))"

definition handle_cow_statx ::
  "diff \<Rightarrow> seccomp_notif \<Rightarrow> process_index \<Rightarrow> cow_state \<Rightarrow> notif_action prog" where
  "handle_cow_statx diff_paths n ix st =
     (if open_flags (arg n 2) AT_EMPTY_PATH then Done Continue
      else pbind (read_path n (arg n 1)) (\<lambda>p. case p of
        None \<Rightarrow> Done Continue
      | Some raw \<Rightarrow>
          if raw = [] then Done Continue
          else pbind (resolve_at_path_with_virtual n (arg n 0) raw (current_virtual_cwd ix (notif_pid n)))
            (\<lambda>full. with_changes st full (\<lambda>b path.
              pbind (handle_stat diff_paths b path) (\<lambda>r. case r of
                None \<Rightarrow> Done (Errno ENOENT) | Some real_path \<Rightarrow> statx_resolved n real_path)))))"

definition handle_cow_readlink ::
  "diff \<Rightarrow> seccomp_notif \<Rightarrow> process_index \<Rightarrow> cow_state \<Rightarrow> notif_action prog" where
  "handle_cow_readlink diff_paths n ix st =
     with_path n (arg n 0) (arg n 1) (current_virtual_cwd ix (notif_pid n)) Continue (\<lambda>full.
     with_changes st full (\<lambda>b path.
     pbind (handle_readlink diff_paths b path) (\<lambda>t. case t of
       None \<Rightarrow> Done (Errno ENOENT)
     | Some target \<Rightarrow>
         let out = take (unat (arg n 3 AND 0xFFFFFFFF)) (bytes_of_string target)
         in answer_bytes n (arg n 2) out (int (length out)))))"

section \<open>utimensat\<close>

definition handle_cow_utimensat ::
  "diff \<Rightarrow> seccomp_notif \<Rightarrow> process_index \<Rightarrow> cow_state \<Rightarrow> (notif_action \<times> cow_state) prog" where
  "handle_cow_utimensat diff_paths n ix st =
     (let times_ptr = arg n 2; touch = (\<lambda>up times. with_c_path up (\<lambda>c.
            pbind (fs_ok (FsUtimensat c times (as_i32 (arg n 3)))) (\<lambda>ok.
              Done (if ok then ReturnValue 0 else Errno EIO)))) in
      with_path n (arg n 0) (arg n 1) (current_virtual_cwd ix (notif_pid n)) (Continue, st) (\<lambda>full.
      with_branch st full (Continue, st) (\<lambda>b path.
      pbind (handle_utimensat diff_paths path b) (\<lambda>(r, b). case r of
        Inl QuotaExceeded \<Rightarrow> Done (Errno ENOSPC, Some b)
      | Inl _ \<Rightarrow> Done (Continue, Some b)
      | Inr None \<Rightarrow> Done (Continue, Some b)
      | Inr (Some up) \<Rightarrow>
          if times_ptr = 0 then pbind (touch up None) (\<lambda>a. Done (a, Some b))
          else pbind (read_child_mem (notif_id n) (notif_pid n) times_ptr 32) (\<lambda>m. case m of
            Inl _ \<Rightarrow> Done (Errno EFAULT, Some b)
          | Inr data \<Rightarrow> pbind (touch up (Some (take 32 (data @ replicate 32 0)))) (\<lambda>a. Done (a, Some b)))))))"

section \<open>execve\<close>

abbreviation (input) ERANGE :: int where "ERANGE \<equiv> 34"

text \<open>The opened file goes to the child as a new descriptor, and the supervisor's own is closed.\<close>

definition add_fd :: "seccomp_notif \<Rightarrow> int \<Rightarrow> u32 \<Rightarrow> int option prog" where
  "add_fd n src_fd newfd_flags =
     pbind (syscall (KNotifAddfd (notif_id n) 0 src_fd 0 newfd_flags)) (\<lambda>x.
     pbind (syscall (KIo (IoClose src_fd))) (\<lambda>_. Done (case x of Inl _ \<Rightarrow> None | Inr (fd, _) \<Rightarrow> Some fd)))"

definition fd_path :: "int \<Rightarrow> bytes" where
  "fd_path fd = bytes_of_string (''/proc/self/fd/'' @ show_int fd) @ [0]"

definition exec_upper :: "seccomp_notif \<Rightarrow> u64 \<Rightarrow> string \<Rightarrow> notif_action prog" where
  "exec_upper n path_ptr upper_path = with_c_path upper_path (\<lambda>c.
     pbind (syscall (KFs (FsOpen c O_CLOEXEC 0))) (\<lambda>x. case x of
       Inl _ \<Rightarrow> Done (Errno ENOENT)
     | Inr (src_fd, _) \<Rightarrow> pbind (add_fd n src_fd 0) (\<lambda>fd. case fd of
         None \<Rightarrow> Done (Errno EIO)
       | Some child_fd \<Rightarrow>
           pbind (write_child_mem (notif_id n) (notif_pid n) path_ptr (fd_path child_fd)) (\<lambda>r.
             Done (case r of Inl _ \<Rightarrow> Errno EFAULT | Inr _ \<Rightarrow> Continue)))))"

definition handle_cow_exec ::
  "diff \<Rightarrow> seccomp_notif \<Rightarrow> process_index \<Rightarrow> cow_state \<Rightarrow> notif_action prog" where
  "handle_cow_exec diff_paths n ix st =
     (let (dirfd, path_ptr) =
          (if notif_nr n = SYS_execveat then (arg n 0, arg n 1) else (cwd_arg, arg n 0))
      in pbind (read_path n path_ptr) (\<lambda>p. case p of
        None \<Rightarrow> Done Continue
      | Some raw \<Rightarrow>
          pbind (resolve_at_path_with_virtual n dirfd raw (cwd_for ix (notif_pid n) dirfd raw)) (\<lambda>full.
          with_changes st full (\<lambda>b path.
          pbind (handle_stat diff_paths b path) (\<lambda>r. case r of
            None \<Rightarrow> Done (Errno ENOENT)
          | Some real \<Rightarrow>
              if path_starts_with real (upper b) then exec_upper n path_ptr real else Done Continue)))))"

section \<open>getdents64\<close>

text \<open>The directory of a descriptor, relative to the branch.\<close>

definition listed_rel :: "diff \<Rightarrow> SeccompCowBranch \<Rightarrow> string \<Rightarrow> string option" where
  "listed_rel diff_paths b target =
     (if cow_matches b target then
        Some (case safe_rel diff_paths b target of Some rel \<Rightarrow> rel | None \<Rightarrow> ''.'')
      else map_option (\<lambda>rel. let r = to_string_lossy rel in if r = [] then ''.'' else r)
        (path_strip_prefix target (upper b)))"

definition merged_entry :: "SeccompCowBranch \<Rightarrow> string \<Rightarrow> u64 \<Rightarrow> string \<Rightarrow> bytes option prog" where
  "merged_entry b rel d_off name =
     (let upper_p = path_push (path_push (upper b) rel) name;
          lower_p = path_push (path_push (workdir b) rel) name
      in pbind (present upper_p) (\<lambda>u. let p = (if u then upper_p else lower_p) in
         pbind (fs_test (FsIsDir p)) (\<lambda>d.
         pbind (if d then Done DT_DIR
                else pbind (fs_test (FsIsSymlink p)) (\<lambda>l. Done (if l then DT_LNK else DT_REG))) (\<lambda>d_type.
         pbind (inode_of p) (\<lambda>d_ino. Done (build_dirent64 d_ino d_off d_type name))))))"

primrec merged_entries ::
  "SeccompCowBranch \<Rightarrow> string \<Rightarrow> u64 \<Rightarrow> string list \<Rightarrow> bytes list prog" where
  "merged_entries b rel d_off [] = Done []"
| "merged_entries b rel d_off (name # names) =
     pbind (merged_entry b rel (d_off + 1) name) (\<lambda>e.
     pbind (merged_entries b rel (d_off + 1) names) (\<lambda>es.
       Done (case e of Some rec \<Rightarrow> rec # es | None \<Rightarrow> es)))"

definition set_state ::
  "process_index \<Rightarrow> u32 \<Rightarrow> (PerProcessState \<Rightarrow> PerProcessState) \<Rightarrow> process_index" where
  "set_state ix pid f = (if state_of ix pid = None then ix else update_state (int (unat pid)) f ix)"

definition set_cache ::
  "u32 \<Rightarrow> (string \<times> bytes list) option \<Rightarrow> u32 \<Rightarrow> process_index \<Rightarrow> process_index" where
  "set_cache pid entry fd ix =
     set_state ix pid (\<lambda>s. s\<lparr>cow_dir_cache := (cow_dir_cache s)(fd := entry)\<rparr>)"

definition serve_entries ::
  "seccomp_notif \<Rightarrow> u32 \<Rightarrow> string \<Rightarrow> process_index \<Rightarrow> bytes list \<Rightarrow> (notif_action \<times> process_index) prog" where
  "serve_entries n fd target ix entries =
     (let (out, left) = pack_entries (unat (arg n 2 AND 0xFFFFFFFF)) entries [];
          ix' = set_cache (notif_pid n) (Some (target, left)) fd ix
      in if out = [] then Done (ReturnValue 0, ix')
         else pbind (answer_bytes n (arg n 1) out (int (length out))) (\<lambda>a. Done (a, ix')))"

definition handle_cow_getdents ::
  "diff \<Rightarrow> seccomp_notif \<Rightarrow> process_index \<Rightarrow> cow_state \<Rightarrow> (notif_action \<times> process_index) prog" where
  "handle_cow_getdents diff_paths n ix st =
     (let pid = notif_pid n; fd = as_u32 (arg n 0 AND 0xFFFFFFFF) in
      pbind (syscall (KReadlink (proc_dir pid @ ''/fd/'' @ show_nat (unat fd)))) (\<lambda>x. case x of
        Inl _ \<Rightarrow> Done (Continue, ix)
      | Inr (_, link) \<Rightarrow>
          let target = to_string_lossy (string_of_bytes link) in
          (case st of
             None \<Rightarrow> Done (Continue, ix)
           | Some b \<Rightarrow>
               if \<not> has_changes b then Done (Continue, ix)
               else (case (listed_rel diff_paths b target, state_of ix pid) of
                 (Some rel, Some s) \<Rightarrow>
                   let build = pbind (list_merged_dir b rel) (\<lambda>merged.
                         pbind (merged_entries b rel 0 merged) (serve_entries n fd target ix))
                   in (case cow_dir_cache s fd of
                         None \<Rightarrow> build
                       | Some (cached_target, entries) \<Rightarrow>
                           if cached_target \<noteq> target then build
                           else if entries = [] then Done (ReturnValue 0, set_cache pid None fd ix)
                           else serve_entries n fd target ix entries)
               | _ \<Rightarrow> Done (Continue, ix)))))"

section \<open>chdir and getcwd\<close>

definition enter_upper ::
  "seccomp_notif \<Rightarrow> nat \<Rightarrow> string \<Rightarrow> notif_action option prog" where
  "enter_upper n orig_path_buf_len upper_path =
     (let c = (if utf8_valid upper_path then upper_path else []) in
      if CHR 0x00 \<in> set c then Done (Some Continue)
      else pbind (syscall (KFs (FsOpen c 0x90000 0))) (\<lambda>x. case x of
        Inl _ \<Rightarrow> Done (Some (Errno ENOENT))
      | Inr (src_fd, _) \<Rightarrow> pbind (add_fd n src_fd O_CLOEXEC) (\<lambda>fd. case fd of
          None \<Rightarrow> Done (Some (Errno EIO))
        | Some child_fd \<Rightarrow>
            if orig_path_buf_len < length (fd_path child_fd) then Done (Some (Errno ENOENT))
            else pbind (write_child_mem (notif_id n) (notif_pid n) (arg n 0) (fd_path child_fd)) (\<lambda>r.
              Done (case r of Inl _ \<Rightarrow> Some (Errno EFAULT) | Inr _ \<Rightarrow> None)))))"

definition handle_cow_chdir ::
  "diff \<Rightarrow> seccomp_notif \<Rightarrow> process_index \<Rightarrow> cow_state \<Rightarrow> (notif_action \<times> process_index) prog" where
  "handle_cow_chdir diff_paths n ix st =
     pbind (read_path n (arg n 0)) (\<lambda>p. case p of
       None \<Rightarrow> Done (Continue, ix)
     | Some raw \<Rightarrow>
         pbind (resolve_at_path_with_virtual n cwd_arg raw (current_virtual_cwd ix (notif_pid n))) (\<lambda>full.
         with_branch st full (Continue, ix) (\<lambda>b abs_path. case safe_rel diff_paths b abs_path of
           None \<Rightarrow> Done (Continue, ix)
         | Some rel \<Rightarrow>
             let upper_path = path_push (upper b) rel in
             pbind (fs_test (FsIsDir abs_path)) (\<lambda>real.
             if real then Done (Continue, ix)
             else pbind (fs_test (FsIsDir upper_path)) (\<lambda>up.
             if \<not> up then Done (Continue, ix)
             else pbind (enter_upper n (length raw + 1) upper_path) (\<lambda>r. Done (case r of
               Some a \<Rightarrow> (a, ix)
             | None \<Rightarrow> (Continue,
                 set_state ix (notif_pid n) (\<lambda>s. s\<lparr>virtual_cwd := Some abs_path\<rparr>)))))))))"

definition virtual_cwd_for ::
  "seccomp_notif \<Rightarrow> process_index \<Rightarrow> cow_state \<Rightarrow> string option prog" where
  "virtual_cwd_for n ix st = (case current_virtual_cwd ix (notif_pid n) of
     Some cwd \<Rightarrow> Done (Some cwd)
   | None \<Rightarrow> (case st of
       None \<Rightarrow> Done None
     | Some b \<Rightarrow> pbind (syscall (KReadlink (proc_dir (notif_pid n) @ ''/cwd''))) (\<lambda>x. Done (case x of
         Inl _ \<Rightarrow> None
       | Inr (_, cwd) \<Rightarrow> map_option (\<lambda>rel. to_string_lossy (path_push (workdir b) rel))
           (path_strip_prefix (string_of_bytes cwd) (upper b))))))"

definition handle_cow_getcwd :: "seccomp_notif \<Rightarrow> process_index \<Rightarrow> cow_state \<Rightarrow> notif_action prog" where
  "handle_cow_getcwd n ix st = pbind (virtual_cwd_for n ix st) (\<lambda>v. case v of
     None \<Rightarrow> Done Continue
   | Some cwd \<Rightarrow>
       let out = bytes_of_string cwd @ [0] in
       if length out > unat (arg n 1 AND 0xFFFFFFFF) then Done (Errno ERANGE)
       else answer_bytes n (arg n 0) out (int (length out)))"

end
