(* ===== verification/CowIsolation.thy ===== *)
theory CowIsolation
  imports CowQueries
begin

text \<open>
  What the copy-on-write layer promises: until a commit, no system call of the child changes the file
  system outside the storage directory of the branch, whatever the child's memory and the kernel
  answer, and the branch keeps its directories.
\<close>

unbundle bit_operations_syntax

section \<open>Paths are normalised\<close>

lemma cow_normalize_text:
  "cow_normalize_path s = render (if is_absolute s then ''/'' else []) (resolved s)"
proof -
  have eq: "foldl cow_normalize_component acc (map component_of ps)
      = foldl normalize_component acc (map component_of ps)" for acc ps
    by (induction ps arbitrary: acc) (simp_all add: component_of_def)
  have "path_push [] ''/'' = ''/''" by (simp add: path_push_def is_absolute_def)
  then have "cow_normalize_path s
      = foldl normalize_component (if is_absolute s then ''/'' else []) (path_components s)"
    by (simp add: cow_normalize_path_def path_components_def eq)
  then show ?thesis by (simp add: normalized_text)
qed

lemma lossy_join:
  "list_all plain_segment ps \<Longrightarrow>
     to_string_lossy (join_with ''/'' ps) = join_with ''/'' (map to_string_lossy ps)"
  using lossy_render [of ps] lossy_ascii [of "CHR ''/''"] by (simp add: render_def between_def)

lemma map_cow_normal: "normal_path (map_cow_upper_path b p)"
proof -
  have "normal_path (to_string_lossy (cow_normalize_path s))" for s
  proof -
    let ?ps = "map to_string_lossy (resolved s)"
    have plain: "list_all plain_segment ?ps"
      using resolved_plain [of s] by (auto simp: list_all_iff intro: lossy_plain_segment)
    show ?thesis
    proof (cases "is_absolute s")
      case True
      then have "to_string_lossy (cow_normalize_path s) = render ''/'' ?ps"
        by (simp add: cow_normalize_text lossy_render [OF resolved_plain])
      with plain show ?thesis by (auto simp: normal_path_def)
    next
      case False
      then have "to_string_lossy (cow_normalize_path s) = join_with ''/'' ?ps"
        by (simp add: cow_normalize_text render_def lossy_join [OF resolved_plain])
      with no_parent_join [OF plain] show ?thesis by (simp add: normal_path_def rel_ok_def)
    qed
  qed
  then show ?thesis by (simp add: map_cow_upper_path_def)
qed

section \<open>Reading the child changes nothing\<close>

lemma isolated_harmless: "harmless r \<Longrightarrow> isolated d r"
  by (cases r) (simp_all add: isolated_def)

lemma read_path_isolated: "meets (isolated d) (\<lambda>_. True) (read_path n a)"
  by (rule read_path_meets) (rule isolated_harmless)

lemma resolve_isolated: "meets (isolated d) (\<lambda>_. True) (resolve_at_path_with_virtual n dirfd path cwd)"
  by (auto simp: resolve_at_path_with_virtual_def Let_def split: option.split)

lemma read_resolved_isolated: "meets (isolated d) (\<lambda>_. True) (read_resolved n p dd cwd)"
  unfolding read_resolved_def meets_pbind
  by (rule meets_mono [OF read_path_isolated])
    (auto split: option.split intro!: meets_mono [OF resolve_isolated])

lemma one_path_isolated: "meets (isolated d) (\<lambda>_. True) (one_path n p dd cwd f)"
  unfolding one_path_def meets_pbind by (rule meets_mono [OF read_resolved_isolated]) simp

lemma two_paths_isolated:
  assumes "meets (isolated d) (\<lambda>_. True) p" "meets (isolated d) (\<lambda>_. True) q"
  shows "meets (isolated d) (\<lambda>_. True) (two_paths p q f)"
  unfolding two_paths_def meets_pbind
  by (rule meets_mono [OF assms(1)]) (auto split: option.split intro!: meets_mono [OF assms(2)])

lemma parse_isolated: "meets (isolated d) (\<lambda>_. True) (parse_cow_write n cwd)"
  unfolding parse_cow_write_def Let_def
  by (intro allI impI conjI one_path_isolated two_paths_isolated read_path_isolated read_resolved_isolated
      if_split [where P = "meets _ _", THEN iffD2]) simp

section \<open>Write operations\<close>

lemma same_dirs_storage: "same_dirs b b' \<Longrightarrow> storage_dir b' = storage_dir b"
  by (simp add: same_dirs_def)

definition keeping :: "SeccompCowBranch \<Rightarrow> ('a \<times> SeccompCowBranch) prog \<Rightarrow> bool" where
  "keeping b p \<longleftrightarrow> meets (isolated (storage_dir b)) (\<lambda>(a, b'). same_dirs b b') p"

lemma keeping_Done [simp]: "keeping b (Done (a, b')) \<longleftrightarrow> same_dirs b b'"
  by (simp add: keeping_def)

lemma keeping_isolates: "isolates b Q p \<Longrightarrow> (\<And>r b'. same_dirs b b' \<Longrightarrow> keeping b (f (r, b'))) \<Longrightarrow>
    keeping b (pbind p f)"
  unfolding isolates_def keeping_def meets_pbind by (erule meets_mono) auto

lemma keeping_from: "same_dirs b b' \<Longrightarrow> keeping b' p \<Longrightarrow> keeping b p"
  using same_dirs_trans [of b b'] unfolding keeping_def by (auto simp: same_dirs_storage elim: meets_mono)

fun op_normal :: "CowWriteOp \<Rightarrow> bool" where
  "op_normal (Rename p q) = (normal_path p \<and> normal_path q)"
| "op_normal (Link p q) = (normal_path p \<and> normal_path q)"
| "op_normal op = normal_path (matched_path op)"

lemma remap_normal: "op_normal (remap_upper_paths b op)"
  by (cases op) (simp_all add: map_cow_normal)

lemma perform_keeping:
  assumes "diff_law diff_paths" "branch_ok b" "op_normal op"
  shows "keeping b (perform_op diff_paths op b)"
  using assms(3)
  by (cases op)
    (auto intro: keeping_isolates [OF handle_unlink_inside [OF assms(1,2)]]
      keeping_isolates [OF handle_mkdir_inside [OF assms(1,2)]]
      keeping_isolates [OF handle_rename_inside [OF assms(1,2)]]
      keeping_isolates [OF handle_symlink_inside [OF assms(1,2)]]
      keeping_isolates [OF handle_link_inside [OF assms(1,2)]]
      keeping_isolates [OF handle_chmod_inside(1) [OF assms(1,2)]]
      keeping_isolates [OF handle_chmod_inside(2) [OF assms(1,2)]]
      keeping_isolates [OF handle_truncate_inside [OF assms(1,2)]])

lemma copy_rel_ok:
  assumes "diff_law diff_paths" "branch_ok b" "op_normal op" "cow_copy_rel diff_paths op b = Some rel"
  shows "rel_ok rel"
  using assms(3,4) safe_rel_ok [OF assms(1,2)]
  by (cases op) (auto simp: cow_copy_rel_def Let_def split: if_splits)

lemma deferred_copy_keeping:
  assumes "inside (storage_dir b) up" "same_dirs b b'" "\<And>p b'. same_dirs b b' \<Longrightarrow> keeping b (f (p, b'))"
  shows "keeping b (pbind (execute_deferred_copy up low sz b') f)"
  using execute_copy_inside [OF assms(1), of low] assms(2,3)
  unfolding keeping_def execute_deferred_copy_def
  by (auto elim!: meets_mono split: sum.split)

lemma pre_copy_keeping:
  assumes "diff_law diff_paths" "branch_ok b" "op_normal op"
  shows "keeping b (pre_copy diff_paths op b)"
proof (cases "cow_copy_rel diff_paths op b")
  case (Some rel)
  then have rel: "rel_ok rel" by (rule copy_rel_ok [OF assms])
  have "keeping b (case r of
       Inl QuotaExceeded \<Rightarrow> Done (Some (Errno ENOSPC), b')
     | Inl _ \<Rightarrow> Done (Some Continue, b')
     | Inr (Ready up) \<Rightarrow> Done (None, b')
     | Inr (CopyNeedsCopy up low file_size) \<Rightarrow> pbind (execute_deferred_copy up low file_size b') (\<lambda>(p, b).
         Done (case p of None \<Rightarrow> Some Continue | Some _ \<Rightarrow> None, b)))"
    if "same_dirs b b'" "\<forall>a. r = Inr a \<longrightarrow> a = Ready up \<or> (\<exists>low sz. a = CopyNeedsCopy up low sz)"
      "inside (storage_dir b) up" for r b' up
  proof -
    note plan = that(2)
    consider e where "r = Inl e" | "r = Inr (Ready up)" | low sz where "r = Inr (CopyNeedsCopy up low sz)"
      using plan by (cases r) blast+
    then show ?thesis
      using that by cases (auto split: branch_error.split intro!: deferred_copy_keeping [OF that(3,1)])
  qed
  then show ?thesis
    using prepare_copy_inside [OF assms(2) rel refl] inside_upper [OF assms(2) rel] Some
    unfolding isolates_def keeping_def pre_copy_def
    by (auto elim!: meets_mono)
qed (simp add: pre_copy_def)

lemma run_write_keeping:
  assumes "diff_law diff_paths" "branch_ok b" "op_normal op"
  shows "keeping b (run_write_op diff_paths op b)"
proof -
  have "keeping b (case a of Some action \<Rightarrow> Done (action, b') | None \<Rightarrow>
      if \<not> cow_matches b' (matched_path op) then Done (Continue, b') else perform_op diff_paths op b')"
    if "same_dirs b b'" for a b'
    using that keeping_from [OF that perform_keeping [OF assms(1) same_dirs_ok [OF that assms(2)] assms(3)]]
    by (auto split: option.split)
  with pre_copy_keeping [OF assms] show ?thesis
    unfolding keeping_def run_write_op_def by (auto elim!: meets_mono)
qed

text \<open>The result of a handler: the branch is there, with the same directories.\<close>

definition keeps_branch :: "SeccompCowBranch \<Rightarrow> 'a \<times> cow_state \<Rightarrow> bool" where
  "keeps_branch b r \<longleftrightarrow> (\<exists>b'. snd r = Some b' \<and> same_dirs b b')"

lemma cow_write_isolated:
  assumes "diff_law diff_paths" "branch_ok b"
  shows "meets (isolated (storage_dir b)) (keeps_branch b) (handle_cow_write diff_paths n ix (Some b))"
  unfolding handle_cow_write_def meets_pbind
  by (rule meets_mono [OF parse_isolated])
    (auto simp: keeps_branch_def split: option.split
      intro!: meets_mono [OF run_write_keeping [OF assms remap_normal, unfolded keeping_def]])

section \<open>Opening\<close>

lemma plain_open_flags:
  assumes "\<not> open_flags flags WRITE_FLAGS"
  shows "as_i32 (flags AND NOT O_EXCL) AND 0x643 = 0"
proof (rule bit_eqI)
  fix i
  have none: "flags AND 0x643 = 0" using assms by (simp add: open_flags_def WRITE_FLAGS_def)
  have clear: "\<not> bit flags k" if "bit (0x643 :: u64) k" for k
    using that arg_cong [OF none, of "\<lambda>w. bit w k"] by (simp add: bit_and_iff)
  have "(0x643 :: int) = 2 ^ 0 OR 2 ^ 1 OR 2 ^ 6 OR 2 ^ 9 OR 2 ^ 10" by simp
  then have "bit (0x643 :: int) i \<longleftrightarrow> i \<in> {0, 1, 6, 9, 10}"
    by (simp only: bit_or_iff bit_exp_iff) auto
  moreover have "\<not> bit flags k" if "k \<in> {0, 1, 6, 9, 10}" for k
    using that by (intro clear) auto
  moreover have "bit (as_i32 w) i \<Longrightarrow> bit w (min i 31)" for w
    by (auto simp: as_i32_def bit_sint_iff bit_ucast_iff min_def not_le less_Suc_eq)
  ultimately show "bit (as_i32 (flags AND NOT O_EXCL) AND 0x643) i = bit 0 i"
    by (fastforce simp: bit_and_iff min_def)
qed

lemma needs_read_isolated: "meets (isolated d) (\<lambda>_. True) (needs_read_intercept diff_paths b path)"
  by (auto simp: needs_read_intercept_def split: option.split)

lemma plan_open_keeping:
  assumes "diff_law diff_paths" "branch_ok b"
  shows "meets (isolated (storage_dir b))
     (\<lambda>(r, b'). same_dirs b b' \<and> (\<forall>plan. r = Inr plan \<longrightarrow> plan_inside (storage_dir b) flags plan))
     (plan_open diff_paths path flags b)"
proof -
  have plan: "meets (isolated (storage_dir b))
     (\<lambda>(r, b'). same_dirs b b' \<and> (\<forall>plan. r = Inr plan \<longrightarrow> plan_inside (storage_dir b) flags plan))
     (pbind (prepare_open diff_paths (map_cow_upper_path b path) flags b) (\<lambda>(r, b). Done (case r of
          Inr plan \<Rightarrow> Inr plan
        | Inl QuotaExceeded \<Rightarrow> Inl (Errno ENOSPC)
        | Inl Exists \<Rightarrow> Inl (Errno EEXIST)
        | Inl _ \<Rightarrow> Inl Continue, b)))"
    unfolding meets_pbind
    by (rule meets_mono [OF prepare_open_inside [OF assms map_cow_normal, where flags = flags, unfolded isolates_def]])
      (auto split: sum.splits branch_error.splits)
  show ?thesis
    unfolding plan_open_def Let_def
    using plan meets_mono [OF needs_read_isolated] by (auto simp: )
qed

lemma run_plan_keeping:
  assumes "plan_inside (storage_dir b) flags plan" "same_dirs b b'"
  shows "meets (isolated (storage_dir b))
     (\<lambda>(p, b''). same_dirs b b'' \<and> (\<forall>real. p = Some real \<longrightarrow> inside (storage_dir b) real \<or> \<not> open_flags flags WRITE_FLAGS))
     (run_plan plan b')"
proof (cases plan)
  case (OpenNeedsCopy up low sz rel)
  with assms show ?thesis
    using execute_copy_inside [of "storage_dir b" up low]
    by (auto simp: run_plan_def plan_inside_def elim!: meets_mono split: sum.splits)
qed (use assms in \<open>auto simp: run_plan_def plan_inside_def\<close>)

lemma open_and_inject_isolated:
  assumes "inside d real \<or> \<not> open_flags flags WRITE_FLAGS"
  shows "meets (isolated d) (\<lambda>_. True) (open_and_inject real flags mode)"
  using assms plain_open_flags [of flags]
  by (auto simp: open_and_inject_def with_c_path_def Let_def)

lemma cow_open_isolated:
  assumes "diff_law diff_paths" "branch_ok b"
  shows "meets (isolated (storage_dir b)) (keeps_branch b) (handle_cow_open diff_paths n ix (Some b))"
proof -
  obtain path_ptr dirfd flags mode where args: "open_args n = (path_ptr, dirfd, flags, mode)"
    by (metis prod_cases4)
  have opens: "meets (isolated (storage_dir b)) (keeps_branch b) (case p of
        None \<Rightarrow> Done (Continue, Some b')
      | Some real \<Rightarrow> pbind (open_and_inject real flags mode) (\<lambda>a. Done (a, Some b')))"
    if "same_dirs b b'" "\<forall>real. p = Some real \<longrightarrow> inside (storage_dir b) real \<or> \<not> open_flags flags WRITE_FLAGS" for p b'
    using that meets_mono [OF open_and_inject_isolated]
    by (auto simp: keeps_branch_def split: option.split)
  have runs: "meets (isolated (storage_dir b)) (keeps_branch b) (case r of
        Inl action \<Rightarrow> Done (action, Some b')
      | Inr plan \<Rightarrow> pbind (run_plan plan b') (\<lambda>(p, b). case p of
          None \<Rightarrow> Done (Continue, Some b)
        | Some real \<Rightarrow> pbind (open_and_inject real flags mode) (\<lambda>a. Done (a, Some b))))"
    if "same_dirs b b'" "\<forall>plan. r = Inr plan \<longrightarrow> plan_inside (storage_dir b) flags plan" for r b'
    using that meets_mono [OF run_plan_keeping [OF _ that(1)]] opens
    by (auto simp: keeps_branch_def split: sum.split)
  show ?thesis
    unfolding handle_cow_open_def args Let_def prod.case meets_pbind
  proof (rule meets_mono [OF read_path_isolated], goal_cases)
    case (1 p)
    show ?case
      using meets_mono [OF resolve_isolated] meets_mono [OF plan_open_keeping [OF assms]] runs
      by (auto simp: keeps_branch_def split: option.split)
  qed
qed

section \<open>Every sequence of calls\<close>

definition handle_cow_call ::
  "diff \<Rightarrow> seccomp_notif \<Rightarrow> process_index \<Rightarrow> cow_state \<Rightarrow> (notif_action \<times> cow_state) prog" where
  "handle_cow_call diff_paths n ix st =
     (if notif_nr n = SYS_openat \<or> notif_nr n = SYS_open then handle_cow_open diff_paths n ix st
      else handle_cow_write diff_paths n ix st)"

primrec cow_session ::
  "diff \<Rightarrow> (seccomp_notif \<times> process_index) list \<Rightarrow> cow_state \<Rightarrow> (notif_action list \<times> cow_state) prog" where
  "cow_session diff_paths [] st = Done ([], st)"
| "cow_session diff_paths (c # cs) st =
     pbind (handle_cow_call diff_paths (fst c) (snd c) st) (\<lambda>(a, st).
     pbind (cow_session diff_paths cs st) (\<lambda>(as, st). Done (a # as, st)))"

lemma cow_call_isolated:
  assumes "diff_law diff_paths" "branch_ok b"
  shows "meets (isolated (storage_dir b)) (keeps_branch b) (handle_cow_call diff_paths n ix (Some b))"
  unfolding handle_cow_call_def using cow_open_isolated [OF assms] cow_write_isolated [OF assms] by simp

lemma cow_session_isolated:
  assumes "diff_law diff_paths" "branch_ok b"
  shows "meets (isolated (storage_dir b)) (keeps_branch b) (cow_session diff_paths cs (Some b))"
  using assms(2)
proof (induction cs arbitrary: b)
  case (Cons c cs)
  have "meets (isolated (storage_dir b)) (keeps_branch b)
      (pbind (cow_session diff_paths cs st) (\<lambda>(as, st). Done (a # as, st)))"
    if "keeps_branch b (a, st)" for a :: notif_action and st
  proof -
    from that obtain b' where b': "st = Some b'" "same_dirs b b'" unfolding keeps_branch_def by force
    have "meets (isolated (storage_dir b')) (keeps_branch b') (cow_session diff_paths cs st)"
      using Cons.IH [OF same_dirs_ok [OF b'(2) Cons.prems]] b'(1) by simp
    then show ?thesis
      using b'(2) same_dirs_trans [OF b'(2)]
      by (auto simp: keeps_branch_def same_dirs_storage elim!: meets_mono)
  qed
  then show ?case
    by (auto intro!: meets_mono [OF cow_call_isolated [OF assms(1) Cons.prems]])
qed (simp add: keeps_branch_def)


definition unlink_notif :: seccomp_notif where
  "unlink_notif = \<lparr>notif_id = 1, notif_pid = 7, notif_flags = 0,
     notif_data = \<lparr>nr_of = SYS_unlink, arch_of = 0, ip_of = 0, args_of = [0x1000, 0, 0, 0, 0, 0]\<rparr>\<rparr>"


end
