(* ===== verification/CowCommit.thy ===== *)
theory CowCommit
  imports CowBranch
begin

text \<open>
  The end of a branch and its listings: a commit removes the storage directory only after everything
  in it has been copied, and a merged listing has exactly the visible names.
\<close>

section \<open>Commit\<close>

text \<open>The entries of a walk have reached the work directory.\<close>

definition entry_done :: "SeccompCowBranch \<Rightarrow> history \<Rightarrow> walk_item \<Rightarrow> bool" where
  "entry_done b h it = (case it of
     WalkError e \<Rightarrow> False
   | WalkEntry rel dir \<Rightarrow> \<exists>v. ((if dir then KFs (FsCreateDirAll (path_push (workdir b) rel))
       else KFs (FsCopy (path_push (upper b) rel) (path_push (workdir b) rel))), Inr v) \<in> set h)"

definition removes_storage :: "SeccompCowBranch \<Rightarrow> sysreq \<Rightarrow> bool" where
  "removes_storage b r \<longleftrightarrow> r = KFs (FsRemoveDirAll (storage_dir b))"

text \<open>The storage directory goes only when every entry has been copied.\<close>

definition copied_first :: "SeccompCowBranch \<Rightarrow> walk_item list \<Rightarrow> history \<Rightarrow> sysreq \<Rightarrow> bool" where
  "copied_first b walk h r \<longleftrightarrow> (removes_storage b r \<longrightarrow> list_all (entry_done b h) walk)"

lemma entry_done_mono: "entry_done b h it \<Longrightarrow> set h \<subseteq> set h' \<Longrightarrow> entry_done b h' it"
  unfolding entry_done_def by (auto split: walk_item.splits) blast+

lemma copied_first_simps [simp]:
  "copied_first b walk h (KFs (FsCopy x y))" "copied_first b walk h (KFs (FsCreateDirAll x))"
  "copied_first b walk h (KFs (FsIsDir x))" "copied_first b walk h (KFs (FsExists x))"
  "copied_first b walk h (KFs (FsIsSymlink x))" "copied_first b walk h (KFs (FsRemoveFile x))"
  "copied_first b walk h (KFs (FsOpen x fl m))" "copied_first b walk h (KFs (FsSyncAll fd))"
  "x \<noteq> storage_dir b \<Longrightarrow> copied_first b walk h (KFs (FsRemoveDirAll x))"
  by (simp_all add: copied_first_def removes_storage_def)

definition grows :: "history \<Rightarrow> history \<Rightarrow> bool" where
  "grows h h' \<longleftrightarrow> set h \<subseteq> set h'"

lemma grows_simps [simp]: "grows h h" "grows h (h @ t)" "grows (h @ [e]) h' \<Longrightarrow> grows h h'"
  by (auto simp: grows_def)

lemma grows_trans: "grows h h' \<Longrightarrow> grows h' h'' \<Longrightarrow> grows h h''"
  by (auto simp: grows_def)

lemma all_done_mono: "list_all (entry_done b h) its \<Longrightarrow> grows h h' \<Longrightarrow> list_all (entry_done b h') its"
  unfolding grows_def by (auto simp: list_all_iff intro: entry_done_mono)

lemma safe_deletions:
  assumes "\<forall>rel\<in>set order. path_push (workdir b) rel \<noteq> storage_dir b"
  shows "safe (copied_first b walk) (\<lambda>h' _. True) h (apply_deletions b order)"
  using assms
proof (induction order arbitrary: h)
  case (Cons rel order)
  then show ?case
    by (simp add: apply_deletion_def fs_test_def fs_try_def present_def)
qed simp

lemma copy_entry_done:
  "safe (copied_first b walk) (\<lambda>h' r. grows h h' \<and> (r = Inr () \<longrightarrow> entry_done b h' (WalkEntry rel dir))) h
     (copy_entry b rel dir)"
  by (auto simp: copy_entry_def Let_def fs_try_def make_parent_def entry_done_def split: sum.split option.split)

lemma copy_entries_done:
  "safe (copied_first b walk)
     (\<lambda>h' r. grows h h' \<and> (\<forall>dirs. r = Inr dirs \<longrightarrow> list_all (entry_done b h') its)) h (copy_entries b its synced)"
proof (induction its arbitrary: h synced)
  case (Cons it its)
  show ?case
  proof (cases it)
    case (WalkEntry rel dir)
    have rest: "safe (copied_first b walk)
       (\<lambda>h'' r. grows h h'' \<and> (\<forall>dirs. r = Inr dirs \<longrightarrow> entry_done b h'' it \<and> list_all (entry_done b h'') its)) h'
       (copy_entries b its synced')" if "grows h h'" "entry_done b h' it" for h' synced'
      by (rule safe_mono [OF Cons.IH])
        (use that entry_done_mono grows_trans in \<open>unfold grows_def, blast\<close>)
    have "safe (copied_first b walk)
       (\<lambda>h' r. grows h h' \<and> (\<forall>dirs. r = Inr dirs \<longrightarrow> list_all (entry_done b h') (it # its))) h
       (pbind (copy_entry b rel dir) (\<lambda>r. case r of Inl e \<Rightarrow> Done (Inl e) | Inr _ \<Rightarrow> copy_entries b its (f r)))" for f
      unfolding safe_pbind
    proof (rule safe_mono [OF copy_entry_done], goal_cases)
      case (1 h' r)
      then show ?case using rest [of h' "f r"] WalkEntry by (cases r) auto
    qed
    from this [of "\<lambda>_. if dir then synced else case path_parent (path_push (workdir b) rel) of
        None \<Rightarrow> synced | Some p \<Rightarrow> List.insert p synced"]
    show ?thesis by (simp only: WalkEntry copy_entries.simps walk_item.case)
  qed simp
qed simp

lemma safe_sync:
  "safe (copied_first b walk) (\<lambda>h' _. grows h h') h (sync_dirs ds)"
proof (induction ds arbitrary: h)
  case (Cons d ds)
  have "safe (copied_first b walk) (\<lambda>h' _. grows h h') h' (sync_dirs ds)" if "grows h h'" for h'
    by (rule safe_mono [OF Cons.IH]) (use that grows_trans in blast)
  then show ?case by (auto simp: fs_try_def split: sum.split)
qed simp



section \<open>The merged listing\<close>

lemma insert_name_set [simp]: "set (insert_name n ms) = insert n (set ms)"
  by (induction ms) auto

lemma insert_name_sorted: "sorted_wrt bytes_less ms \<Longrightarrow> sorted_wrt bytes_less (insert_name n ms)"
proof (induction ms)
  case (Cons m ms)
  then show ?case
    using bytes_less_total [of n m] by (auto intro: bytes_less_trans)
qed simp

lemma fold_insert_name:
  "sorted_wrt bytes_less ms \<Longrightarrow>
     sorted_wrt bytes_less (fold insert_name ns ms) \<and> set (fold insert_name ns ms) = set ns \<union> set ms"
  by (induction ns arbitrary: ms) (simp_all add: insert_name_sorted)

text \<open>The merged listing has the names of the upper directory and those of the lower one that are not
  deleted, and no others, each once and in the order of their bytes.\<close>

theorem merged_listing_exact:
  "sorted_wrt bytes_less (eval M (list_merged_dir b rel)) \<and>
     set (eval M (list_merged_dir b rel)) =
       set (eval M (listing (path_push (upper b) rel))) \<union>
       {n \<in> set (eval M (listing (path_push (workdir b) rel))). child_rel rel n \<notin> deleted b}"
proof -
  let ?us = "eval M (listing (path_push (upper b) rel))"
  let ?ls = "filter (\<lambda>n. \<not> is_deleted b (child_rel rel n)) (eval M (listing (path_push (workdir b) rel)))"
  have "eval M (list_merged_dir b rel) = fold insert_name (?us @ ?ls) []"
    by (simp add: list_merged_dir_def)
  with fold_insert_name [of "[]" "?us @ ?ls"] show ?thesis by (auto simp: is_deleted_def)
qed

end
