(* ===== verification/CowView.thy ===== *)
theory CowView
  imports CowQueries
begin

text \<open>
  Where the merged view departs from that of a file system. Deletions are a set beside the upper
  directory; an operation that puts a file at a deleted name, or looks one up there, has to consult it,
  and not all do. The virtual working directory is set on entering a directory of the branch and never
  cleared.
\<close>

section \<open>A deleted file\<close>

lemma open_flags_or: "\<not> open_flags flags (f OR g) \<longleftrightarrow> \<not> open_flags flags f \<and> \<not> open_flags flags g"
  for f g :: u64
  by (simp add: open_flags_def bit.conj_disj_distrib) (metis or_eq_0_iff)

lemma not_write_not_create: "\<not> open_flags flags WRITE_FLAGS \<Longrightarrow> \<not> open_flags flags O_CREAT"
  unfolding WRITE_FLAGS_def open_flags_or by simp

text \<open>A file that was deleted is gone for \<open>stat\<close>, which answers \<open>ENOENT\<close>, but a call that opens it for
  reading is left to the kernel, which opens the file of the work directory.\<close>

theorem deleted_file_still_opens:
  assumes "open_args n = (path_ptr, cwd_arg, flags, mode)" "eval M (read_path n path_ptr) = Some p" "is_absolute p"
    and "path = map_cow_upper_path b (to_string_lossy (cow_normalize_path p))" "cow_matches b path"
    and "safe_rel diff_paths b path = Some rel" "rel \<in> deleted b"
    and "\<not> open_flags flags WRITE_FLAGS" "\<not> open_flags flags O_DIRECTORY"
  shows "eval M (handle_cow_open diff_paths n ix (Some b)) = (Continue, Some b) \<and>
    eval M (handle_stat diff_paths b path) = None"
  using assms not_write_not_create [OF assms(8)]
  by (simp add: handle_cow_open_def Let_def resolve_at_path_with_virtual_def plan_open_def
      needs_read_intercept_def is_deleted_def prepare_open_def open_rel_def resync_def run_plan_def
      handle_stat_def)

lemma eval_read_path:
  assumes "addr \<noteq> 0" "M (KIdValid (notif_id n)) = Inr z" "\<And>len. M (KReadVm (notif_pid n) addr len) = Inr (y, bs)"
    and "0 \<in> set (take (4096 - unat addr mod 4096) bs)" "length bs + unat addr mod 4096 \<le> 4096"
  shows "eval M (read_path n addr) = from_utf8 (until_nul bs)"
proof -
  have "eval M (read_child_mem (notif_id n) (notif_pid n) addr (4096 - unat addr mod 4096)) = Inr bs"
    using eval_read_child_mem [OF assms(2,3)] assms(5) by simp
  moreover have "0 \<in> set bs" using assms(4) by (meson in_set_takeD)
  moreover have "(4097 :: nat) = Suc 4096" by simp
  ultimately show ?thesis using assms(1) by (simp only: read_path_def read_cstr_loop.simps) (simp add: Let_def)
qed

definition read_notif :: seccomp_notif where
  "read_notif = \<lparr>notif_id = 1, notif_pid = 7, notif_flags = 0,
     notif_data = \<lparr>nr_of = SYS_open, arch_of = AUDIT_ARCH, ip_of = 0, args_of = [0x7000, 0, 0, 0, 0, 0]\<rparr>\<rparr>"

definition deleted_branch :: SeccompCowBranch where
  "deleted_branch = example_branch\<lparr>deleted := {''f''}, has_changes := True\<rparr>"

lemma read_notif_path:
  "eval (memory_at (bytes_of_string ''/w/f'' @ [0])) (read_path read_notif 0x7000) = Some ''/w/f''"
proof -
  have "eval (memory_at (bytes_of_string ''/w/f'' @ [0])) (read_path read_notif 0x7000)
      = from_utf8 (until_nul (bytes_of_string ''/w/f'' @ [0]))"
    by (rule eval_read_path) (simp_all add: memory_at_def bytes_of_string_def)
  also have "\<dots> = Some ''/w/f''" by code_simp
  finally show ?thesis .
qed

theorem deleted_file_still_opens_witness:
  "eval (memory_at (bytes_of_string ''/w/f'' @ [0])) (handle_cow_open example_diff read_notif [] (Some deleted_branch))
     = (Continue, Some deleted_branch)"
proof -
  let ?path = "map_cow_upper_path deleted_branch (to_string_lossy (cow_normalize_path ''/w/f''))"
  have "?path = ''/w/f''" by code_simp
  then have "cow_matches deleted_branch ?path" "safe_rel example_diff deleted_branch ?path = Some ''f''"
    by (simp_all, code_simp+)
  moreover have "open_args read_notif = (0x7000, cwd_arg, 0, 0)" by code_simp
  ultimately show ?thesis
    using deleted_file_still_opens [OF _ read_notif_path, where b = deleted_branch and diff_paths = example_diff]
    by (simp add: is_absolute_def deleted_branch_def open_flags_def)
qed

section \<open>Renaming over a deleted name\<close>

lemma meets_true [simp]: "meets (\<lambda>_. True) (\<lambda>_. True) p"
  by (induction p) auto

definition hidden :: "string \<Rightarrow> SeccompCowBranch \<Rightarrow> SeccompCowBranch \<Rightarrow> bool" where
  "hidden rel b b' \<longleftrightarrow> rel \<in> deleted b' \<and> workdir b' = workdir b"

lemma copy_keeps_deleted:
  assumes "x \<noteq> rel" "x \<in> deleted b"
  shows "meets (\<lambda>_. True) (\<lambda>(r, b'). hidden x b b') (ensure_cow_copy rel b)"
proof -
  have plan: "meets (\<lambda>_. True) (\<lambda>(r, b'). hidden x b b') (plan_copy up low b')"
    if "hidden x b b'" for up low b'
    using that unfolding hidden_def
    by (auto simp: plan_copy_def copy_symlink_def copy_dir_def reserve_file_def within_quota_def or_fail_def
        copy_permissions_def metadata_def add_used_def split: sum.splits prod.splits)
  have prep: "meets (\<lambda>_. True) (\<lambda>(r, b'). hidden x b b') (prepare_copy rel b)"
    using assms plan unfolding hidden_def prepare_copy_def Let_def or_fail_def
    by (auto simp: undelete_def make_parent_def split: sum.split option.split)
  have "meets (\<lambda>_. True) (\<lambda>(r, b'). hidden x b b') (case r of Inl e \<Rightarrow> Done (Inl e, b')
       | Inr (Ready up) \<Rightarrow> Done (Inr up, b')
       | Inr (CopyNeedsCopy up low sz) \<Rightarrow> pbind (execute_copy up low) (\<lambda>c. case c of
           Inr _ \<Rightarrow> Done (Inr up, b') | Inl e \<Rightarrow> Done (Inl (Operation ''copy'' e), rollback_copy sz b')))"
    if "hidden x b b'" for r b'
    using that unfolding hidden_def
    by (auto simp: rollback_copy_def split: sum.split CowCopyPlan.split intro!: meets_mono [OF meets_true])
  then show ?thesis
    unfolding ensure_cow_copy_def meets_pbind by (auto intro!: meets_mono [OF prep])
qed

text \<open>A file renamed to a name that was deleted before stays invisible there: whatever the file system
  answers, the name is still marked deleted afterwards, and \<open>stat\<close> does not find it.\<close>

theorem renamed_over_deleted_is_hidden:
  assumes "safe_rel diff_paths b new_path = Some rel" "rel \<in> deleted b" "safe_rel diff_paths b old_path \<noteq> Some rel"
    and "result K (handle_rename diff_paths old_path new_path b) = (r, b')"
  shows "rel \<in> deleted b' \<and> result K' (handle_stat diff_paths b' new_path) = None"
proof -
  have "meets (\<lambda>_. True) (\<lambda>(r, b'). hidden rel b b') (handle_rename diff_paths old_path new_path b)"
  proof (cases "safe_rel diff_paths b old_path")
    case None
    then show ?thesis using assms(2) by (simp add: handle_rename_def with_rel_def hidden_def)
  next
    case (Some old)
    then have "rel \<noteq> old" using assms(3) by simp
    then show ?thesis
      using Some assms(1)
      by (auto simp: hidden_def handle_rename_def with_rel_def with_copy_def Let_def mark_deleted_def make_parent_def
          intro!: meets_mono [OF copy_keeps_deleted [OF _ assms(2), unfolded hidden_def]] split: sum.split option.split)
  qed
  then have "hidden rel b b'" using meets_result [of "\<lambda>_. True" _ _ K] assms(4) by fastforce
  then have "rel \<in> deleted b'" "safe_rel diff_paths b' new_path = Some rel"
    using assms(1) by (simp_all add: safe_rel_def hidden_def)
  then show ?thesis by (simp add: handle_stat_def is_deleted_def result_def)
qed

theorem renamed_over_deleted_is_hidden_witness:
  "''f'' \<in> deleted (snd (result (stateless (\<lambda>_. Inr (0, []))) (handle_rename example_diff ''/w/a'' ''/w/f'' deleted_branch)))"
proof -
  have "safe_rel example_diff deleted_branch ''/w/f'' = Some ''f''"
    "safe_rel example_diff deleted_branch ''/w/a'' \<noteq> Some ''f''" by code_simp+
  from renamed_over_deleted_is_hidden [OF this(1) _ this(2) surjective_pairing] show ?thesis
    by (simp add: deleted_branch_def)
qed

section \<open>The working directory\<close>

lemma state_of_set:
  "state_of (set_state ix pid f) pid = map_option f (state_of ix pid)"
  by (auto simp: set_state_def state_of_def entry_for_def update_state_def map_of_map_entry option.map_comp comp_def
      split: option.splits)

text \<open>Once a process has entered a directory of the branch, no later \<open>chdir\<close> clears its virtual working
  directory, and \<open>getcwd\<close> answers from it without asking the kernel.\<close>

theorem virtual_cwd_sticks:
  assumes "current_virtual_cwd ix (notif_pid n) = Some cwd"
  shows "current_virtual_cwd (snd (result K (handle_cow_chdir diff_paths n ix st))) (notif_pid n) \<noteq> None \<and>
     always (\<lambda>h r. \<forall>f. r \<noteq> KReadlink f) K (handle_cow_getcwd n ix st)"
proof -
  define ok where "ok = (\<lambda>r :: notif_action \<times> process_index. current_virtual_cwd (snd r) (notif_pid n) \<noteq> None)"
  have same: "ok (a, ix)" for a using assms by (simp add: ok_def)
  have set: "ok (a, set_state ix (notif_pid n) (\<lambda>s. s\<lparr>virtual_cwd := Some c\<rparr>))" for a c
    using assms by (cases "state_of ix (notif_pid n)") (simp_all add: ok_def current_virtual_cwd_def state_of_set)
  have "meets (\<lambda>_. True) ok (handle_cow_chdir diff_paths n ix st)"
    unfolding handle_cow_chdir_def with_branch_def Let_def
    by (auto simp: same set intro!: meets_mono [OF meets_true] split: option.split)
  then have "ok (result K (handle_cow_chdir diff_paths n ix st))" by (rule meets_result)
  moreover have "safe (\<lambda>h r. \<forall>f. r \<noteq> KReadlink f) (\<lambda>_ _. True) [] (handle_cow_getcwd n ix st)"
    using assms
    by (simp add: handle_cow_getcwd_def virtual_cwd_for_def answer_bytes_def write_child_mem_def
        write_child_mem_vm_def id_valid_def Let_def split: sum.split)
  ultimately show ?thesis by (auto simp: ok_def dest: safe_always)
qed

definition entered_index :: process_index where
  "entered_index = [(7, \<lparr>entry_key = \<lparr>key_pid = 7, key_start_time = 5\<rparr>,
     entry_state = PerProcessState_default\<lparr>virtual_cwd := Some ''/w/d''\<rparr>\<rparr>)]"

theorem virtual_cwd_sticks_witness:
  "current_virtual_cwd (snd (result (stateless (\<lambda>_. Inr (0, [])))
     (handle_cow_chdir example_diff read_notif entered_index (Some example_branch)))) 7 \<noteq> None"
proof -
  have "current_virtual_cwd entered_index (notif_pid read_notif) = Some ''/w/d''"
    by (simp add: current_virtual_cwd_def state_of_def entry_for_def entered_index_def read_notif_def)
  from virtual_cwd_sticks [OF this] show ?thesis by (simp add: read_notif_def)
qed

end
