(* ===== verification/Procfs.thy ===== *)
theory Procfs
  imports Resource NetHandlers Events Dirents "HOL-Library.Multiset"
begin

text \<open>
  What the child sees of \<open>/proc\<close>, \<open>/etc/hostname\<close>, \<open>/etc/hosts\<close>, \<open>uname\<close> and the processor mask
  (\<open>procfs.rs\<close>), and its directory listings: sorted, or without the processes of others. Numbers of type
  \<open>f64\<close> are of an arbitrary type, with the rendering \<open>{:.2}\<close> as a parameter.
\<close>

unbundle bit_operations_syntax

section \<open>Sensitive paths\<close>

definition SENSITIVE_PATHS :: "string list" where
  "SENSITIVE_PATHS =
     [''/proc/kcore'', ''/proc/kmsg'', ''/proc/kallsyms'', ''/proc/keys'', ''/proc/key-users'',
      ''/proc/sysrq-trigger'', ''/sys/class/net'', ''/sys/firmware'', ''/sys/kernel/security'']"

definition is_sensitive_proc :: "string \<Rightarrow> bool" where
  "is_sensitive_proc path = list_ex (\<lambda>s. path = s \<or> prefix (s @ ''/'') path) SENSITIVE_PATHS"

definition extract_proc_pid :: "string \<Rightarrow> int option" where
  "extract_proc_pid path = Option.bind (strip_prefix ''/proc/'' path) (\<lambda>rest.
     parse_i32 (hd (split_on CHR ''/'' rest)))"

section \<open>Generated contents\<close>

abbreviation (input) newline :: string where "newline \<equiv> [CHR 0x0A]"
abbreviation (input) tab :: string where "tab \<equiv> [CHR 0x09]"

definition cpu_entry :: "nat \<Rightarrow> string" where
  "cpu_entry i = (if 0 < i then newline else []) @ ''processor'' @ tab @ '': '' @ show_nat i @ newline
     @ ''model name'' @ tab @ '': Virtual CPU'' @ newline
     @ ''cpu MHz'' @ tab @ tab @ '': 2400.000'' @ newline"

definition generate_cpuinfo :: "u32 \<Rightarrow> bytes" where
  "generate_cpuinfo num_cpus = bytes_of_string (concat (map cpu_entry [0..<unat num_cpus]))"

definition generate_uptime :: "('f::{linorder, zero} \<Rightarrow> string) \<Rightarrow> 'f \<Rightarrow> bytes" where
  "generate_uptime show_f64 elapsed_secs =
     bytes_of_string (show_f64 (max elapsed_secs 0) @ '' 0.00'' @ newline)"

record 'f LoadAvg =
  avg_1 :: 'f
  avg_5 :: 'f
  avg_15 :: 'f

definition LoadAvg_new :: "'f::zero LoadAvg" where
  "LoadAvg_new = \<lparr>avg_1 = 0, avg_5 = 0, avg_15 = 0\<rparr>"

text \<open>The decay factors are arguments; \<open>r\<close> is \<open>running as f64\<close>.\<close>

definition LoadAvg_sample ::
  "'f \<Rightarrow> 'f \<Rightarrow> 'f \<Rightarrow> 'f \<Rightarrow> 'f LoadAvg \<Rightarrow> ('f::{plus, minus, times, one}) LoadAvg" where
  "LoadAvg_sample exp_1 exp_5 exp_15 r l =
     \<lparr>avg_1 = avg_1 l * exp_1 + r * (1 - exp_1),
      avg_5 = avg_5 l * exp_5 + r * (1 - exp_5),
      avg_15 = avg_15 l * exp_15 + r * (1 - exp_15)\<rparr>"

definition generate_loadavg :: "('f \<Rightarrow> string) \<Rightarrow> 'f LoadAvg \<Rightarrow> u32 \<Rightarrow> u32 \<Rightarrow> int \<Rightarrow> bytes" where
  "generate_loadavg show_f64 load running total_count last_pid = bytes_of_string
     (show_f64 (avg_1 load) @ '' '' @ show_f64 (avg_5 load) @ '' '' @ show_f64 (avg_15 load) @ '' ''
      @ show_nat (unat (min (max running 1) total_count)) @ ''/'' @ show_nat (unat total_count) @ '' ''
      @ show_int (max last_pid 0) @ newline)"

definition meminfo_kb :: "u64 \<Rightarrow> u64 \<Rightarrow> u64 \<times> u64" where
  "meminfo_kb total_bytes used_bytes =
     (let total_kb = total_bytes div 1024; used_kb = min used_bytes total_bytes div 1024
      in (total_kb, saturating_sub total_kb used_kb))"

definition generate_meminfo :: "u64 \<Rightarrow> u64 \<Rightarrow> bytes" where
  "generate_meminfo total_bytes used_bytes =
     (let (total_kb, free_kb) = meminfo_kb total_bytes used_bytes;
          row = (\<lambda>name kb. name @ show_nat (unat kb) @ '' kB'' @ newline)
      in bytes_of_string (row ''MemTotal:       '' total_kb @ row ''MemFree:        '' free_kb
           @ row ''MemAvailable:   '' free_kb))"

definition fstype_names :: "(int \<times> string) list" where
  "fstype_names =
     [(0xEF53, ''ext4''), (0x9123683E, ''btrfs''), (0x58465342, ''xfs''), (0x01021994, ''tmpfs''),
      (0x6969, ''nfs''), (0x5346544E, ''ntfs''), (0x65735546, ''fuse''), (0x28cd3d45, ''cramfs''),
      (0x3153464A, ''jfs''), (0x52654973, ''reiserfs''), (0xF2F52010, ''f2fs''), (0x4244, ''hfs''),
      (0x482B, ''hfsplus''), (0x1021997, ''v9fs''), (0xFF534D42, ''cifs''), (0x73717368, ''squashfs''),
      (0x62656572, ''sysfs''), (0x9FA0, ''proc''), (0x61756673, ''aufs''), (0x794C7630, ''overlayfs''),
      (0x01161970, ''gfs2''), (0x5A4F4653, ''zonefs''), (0xCAFE001, ''bcachefs'')]"

definition detect_fstype :: "string \<Rightarrow> string prog" where
  "detect_fstype path =
     (if CHR 0x00 \<in> set path then Done ''unknown''
      else pbind (syscall (KFs (FsStatfs path))) (\<lambda>x. Done (case x of
        Inl _ \<Rightarrow> ''unknown''
      | Inr (f_type, _) \<Rightarrow> (case map_of fstype_names f_type of Some s \<Rightarrow> s | None \<Rightarrow> ''unknown''))))"

primrec mount_lines :: "(string \<times> string) list \<Rightarrow> string \<Rightarrow> string prog" where
  "mount_lines [] buf = Done buf"
| "mount_lines (m # ms) buf = pbind (detect_fstype (snd m)) (\<lambda>fstype.
     mount_lines ms (buf @ ''sandlock '' @ to_string_lossy (fst m) @ '' '' @ fstype
       @ '' rw,relatime 0 0'' @ newline))"

definition generate_proc_mounts :: "string option \<Rightarrow> (string \<times> string) list \<Rightarrow> bytes prog" where
  "generate_proc_mounts chroot_root chroot_mounts =
     pbind (case chroot_root of
         Some root \<Rightarrow> pbind (detect_fstype root) (\<lambda>fstype.
           mount_lines chroot_mounts (''sandlock / '' @ fstype @ '' rw,relatime 0 0'' @ newline))
       | None \<Rightarrow> mount_lines chroot_mounts (''rootfs / rootfs rw 0 0'' @ newline)) (\<lambda>buf.
     Done (bytes_of_string buf))"

primrec mountinfo_lines :: "(string \<times> string) list \<Rightarrow> u32 \<Rightarrow> string \<Rightarrow> string prog" where
  "mountinfo_lines [] mount_id buf = Done buf"
| "mountinfo_lines (m # ms) mount_id buf = pbind (detect_fstype (snd m)) (\<lambda>fstype.
     mountinfo_lines ms (mount_id + 1) (buf @ show_nat (unat mount_id) @ '' 20 8:1 / ''
       @ to_string_lossy (fst m) @ '' rw,relatime - '' @ fstype @ '' sandlock rw'' @ newline))"

definition generate_proc_mountinfo :: "string option \<Rightarrow> (string \<times> string) list \<Rightarrow> bytes prog" where
  "generate_proc_mountinfo chroot_root chroot_mounts =
     pbind (case chroot_root of
         Some root \<Rightarrow> pbind (detect_fstype root) (\<lambda>fstype. mountinfo_lines chroot_mounts 21
           (''20 1 8:1 / / rw,relatime - '' @ fstype @ '' sandlock rw'' @ newline))
       | None \<Rightarrow> mountinfo_lines chroot_mounts 21 (''20 1 0:1 / / rw - rootfs rootfs rw'' @ newline)) (\<lambda>buf.
     Done (bytes_of_string buf))"

definition generate_proc_net_dev :: bytes where
  "generate_proc_net_dev = bytes_of_string
     (''Inter-|   Receive                                                |  Transmit'' @ newline
      @ '' face |bytes    packets errs drop fifo frame compressed multicast|bytes    packets errs drop fifo colls carrier compressed'' @ newline
      @ ''    lo:       0       0    0    0    0     0          0         0        0       0    0    0    0     0       0          0'' @ newline)"

definition generate_proc_net_if_inet6 :: bytes where
  "generate_proc_net_if_inet6 =
     bytes_of_string (''00000000000000000000000000000001 01 80 10 80       lo'' @ newline)"

text \<open>\<open>str::lines()\<close>: no last empty line, and no carriage return before a line feed.\<close>

definition str_lines :: "string \<Rightarrow> string list" where
  "str_lines s = (let ps = split_on CHR 0x0A s in
     map (\<lambda>l. if l \<noteq> [] \<and> last l = CHR 0x0D then butlast l else l) (butlast ps)
       @ (if last ps = [] then [] else [last ps]))"

definition parse_proc_net_tcp_port :: "string \<Rightarrow> u16 option" where
  "parse_proc_net_tcp_port line =
     (let fields = split_whitespace line in
      if length fields < 2 then None
      else Option.bind (rsplit_once CHR '':'' (fields ! 1)) (\<lambda>(_, port_hex).
        map_option word_of_nat (parse_uint 65535 16 port_hex)))"

definition own_line :: "u16 set \<Rightarrow> string \<Rightarrow> bool" where
  "own_line ports line \<longleftrightarrow> (case parse_proc_net_tcp_port line of
     Some p \<Rightarrow> p \<in> ports | None \<Rightarrow> False)"

definition generate_proc_net_tcp :: "u16 set \<Rightarrow> bool \<Rightarrow> bytes prog" where
  "generate_proc_net_tcp ports is_v6 =
     pbind (syscall (KReadFile (if is_v6 then ''/proc/net/tcp6'' else ''/proc/net/tcp''))) (\<lambda>x. Done (case x of
       Inl _ \<Rightarrow> []
     | Inr (_, out) \<Rightarrow> (case from_utf8 out of
         None \<Rightarrow> []
       | Some content \<Rightarrow> (case str_lines content of
           [] \<Rightarrow> []
         | header # rows \<Rightarrow> bytes_of_string
             (concat (map (\<lambda>l. l @ newline) (header # filter (own_line ports) rows)))))))"

section \<open>openat\<close>

definition inject_memfd :: "bytes \<Rightarrow> notif_action prog" where
  "inject_memfd content =
     pbind (syscall (KIo (IoMemfdCreate ''sandlock'' 3))) (\<lambda>x. case x of
       Inl _ \<Rightarrow> Done Continue
     | Inr (memfd, _) \<Rightarrow> pbind (syscall (KIo (IoWriteAll memfd content))) (\<lambda>w. case w of
         Inl _ \<Rightarrow> Done Continue
       | Inr _ \<Rightarrow> pbind (syscall (KIo (IoRewind memfd))) (\<lambda>s. case s of
           Inl _ \<Rightarrow> Done Continue
         | Inr _ \<Rightarrow> pbind (syscall (KIo (IoFcntl memfd 1033 15))) (\<lambda>_.
             Done (InjectFdSend memfd 0x80000)))))"

definition procfs_read_path :: "seccomp_notif \<Rightarrow> u64 \<Rightarrow> string option prog" where
  "procfs_read_path n addr = read_child_cstr (notif_id n) (notif_pid n) addr 4096"

text \<open>The contents for a path, in the order of the tests; \<open>elapsed\<close> is the time since the start.\<close>

definition proc_content ::
  "('f::{linorder, zero} \<Rightarrow> string) \<Rightarrow> 'f LoadAvg \<Rightarrow> 'f \<Rightarrow> process_index \<Rightarrow> resource_state \<Rightarrow> 'y network_state_scheme
     \<Rightarrow> notif_policy \<Rightarrow> string \<Rightarrow> bytes option prog" where
  "proc_content show_f64 load elapsed ix rs ns policy path =
     (let some = (\<lambda>p. pbind p (\<lambda>c. Done (Some c))) in
      if path = ''/proc/cpuinfo'' \<and> np_num_cpus policy \<noteq> None then
        Done (map_option generate_cpuinfo (np_num_cpus policy))
      else if path = ''/proc/meminfo'' \<and> 0 < np_max_memory_bytes policy then
        Done (Some (generate_meminfo (np_max_memory_bytes policy) (mem_used rs)))
      else if path = ''/proc/uptime'' \<and> np_has_time_start policy then
        Done (Some (generate_uptime show_f64 elapsed))
      else if path = ''/proc/loadavg'' then
        Done (Some (generate_loadavg show_f64 load (proc_count rs) (word_of_nat (index_len ix))
          (case max_pid ix of Some p \<Rightarrow> p | None \<Rightarrow> 0)))
      else if path = ''/proc/net/dev'' then Done (Some generate_proc_net_dev)
      else if path = ''/proc/net/if_inet6'' then Done (Some generate_proc_net_if_inet6)
      else if np_port_remap policy \<and> (path = ''/proc/net/tcp'' \<or> path = ''/proc/net/tcp6'') then
        some (generate_proc_net_tcp (bound_ports (ns_port_map ns)) (path = ''/proc/net/tcp6''))
      else if path = ''/proc/mounts'' \<or> path = ''/proc/self/mounts'' then
        some (generate_proc_mounts (np_chroot_root policy) (np_chroot_mounts policy))
      else if path = ''/proc/self/mountinfo'' then
        some (generate_proc_mountinfo (np_chroot_root policy) (np_chroot_mounts policy))
      else Done None)"

definition foreign_pid :: "process_index \<Rightarrow> string \<Rightarrow> bool" where
  "foreign_pid ix path \<longleftrightarrow> (case extract_proc_pid path of
     Some pid \<Rightarrow> \<not> contains ix pid | None \<Rightarrow> False)"

definition handle_proc_open ::
  "('f::{linorder, zero} \<Rightarrow> string) \<Rightarrow> 'f LoadAvg \<Rightarrow> 'f \<Rightarrow> seccomp_notif \<Rightarrow> process_index \<Rightarrow> resource_state
     \<Rightarrow> 'y network_state_scheme \<Rightarrow> notif_policy \<Rightarrow> notif_action prog" where
  "handle_proc_open show_f64 load elapsed n ix rs ns policy =
     pbind (procfs_read_path n (arg n 1)) (\<lambda>p. case p of
       None \<Rightarrow> Done Continue
     | Some path \<Rightarrow>
         if is_sensitive_proc path then Done (Errno EACCES)
         else if foreign_pid ix path then Done (Errno EACCES)
         else pbind (proc_content show_f64 load elapsed ix rs ns policy path) (\<lambda>c. case c of
           Some content \<Rightarrow> inject_memfd content | None \<Rightarrow> Done Continue))"

definition handle_hostname_open :: "seccomp_notif \<Rightarrow> string \<Rightarrow> notif_action option prog" where
  "handle_hostname_open n hostname = pbind (procfs_read_path n (arg n 1)) (\<lambda>p. case p of
     None \<Rightarrow> Done None
   | Some path \<Rightarrow>
       if path \<noteq> ''/etc/hostname'' then Done None
       else pbind (inject_memfd (bytes_of_string (hostname @ newline))) (\<lambda>a. Done (Some a)))"

definition handle_etc_hosts_open :: "seccomp_notif \<Rightarrow> string \<Rightarrow> notif_action option prog" where
  "handle_etc_hosts_open n etc_hosts_content = pbind (procfs_read_path n (arg n 1)) (\<lambda>p. case p of
     None \<Rightarrow> Done None
   | Some path \<Rightarrow>
       if path \<noteq> ''/etc/hosts'' then Done None
       else pbind (inject_memfd (bytes_of_string etc_hosts_content)) (\<lambda>a. Done (Some a)))"

section \<open>The processor mask and uname\<close>

text \<open>The loop over the processors; \<open>vec![0u8; cpusetsize]\<close> panics beyond \<open>isize::MAX\<close>.\<close>

primrec set_cpus :: "nat \<Rightarrow> bytes \<Rightarrow> bytes" where
  "set_cpus 0 cpus = cpus"
| "set_cpus (Suc i) cpus = (let m = set_cpus i cpus; byte_idx = i div 8; bit_idx = i mod 8 in
     if byte_idx < length m then m[byte_idx := m ! byte_idx OR push_bit bit_idx 1] else m)"

definition handle_sched_getaffinity :: "seccomp_notif \<Rightarrow> u32 \<Rightarrow> notif_action outcome prog" where
  "handle_sched_getaffinity n num_cpus =
     (let cpusetsize = unat (arg n 1); mask_addr = arg n 2 in
      if mask_addr = 0 \<or> cpusetsize = 0 then Done (Finished Continue)
      else if 0x7FFFFFFFFFFFFFFF < cpusetsize then Done Panicked
      else pbind (write_child_mem (notif_id n) (notif_pid n) mask_addr
            (set_cpus (unat num_cpus) (replicate cpusetsize 0))) (\<lambda>r. Done (Finished (case r of
        Inr _ \<Rightarrow> ReturnValue (int cpusetsize) | Inl _ \<Rightarrow> Continue))))"

text \<open>\<open>struct utsname\<close>: six fields of 65 bytes, the second of them the node name.\<close>

abbreviation (input) UTS_FIELD :: nat where "UTS_FIELD \<equiv> 65"

definition patch_nodename :: "string \<Rightarrow> bytes \<Rightarrow> bytes" where
  "patch_nodename hostname uts =
     (let name = take (UTS_FIELD - 1) (bytes_of_string hostname) in
      take UTS_FIELD uts @ name @ [0] @ drop (UTS_FIELD + length name + 1) uts)"

definition handle_uname :: "seccomp_notif \<Rightarrow> string \<Rightarrow> notif_action prog" where
  "handle_uname n hostname =
     (if arg n 0 = 0 then Done Continue
      else pbind (syscall (KIo IoUname)) (\<lambda>x. case x of
        Inl _ \<Rightarrow> Done Continue
      | Inr (_, uts) \<Rightarrow>
          pbind (write_child_mem (notif_id n) (notif_pid n) (arg n 0)
            (patch_nodename hostname (take 390 (uts @ replicate 390 0)))) (\<lambda>r. Done (case r of
          Inr _ \<Rightarrow> ReturnValue 0 | Inl _ \<Rightarrow> Continue))))"

section \<open>Directory listings\<close>

type_synonym dir_key = "u32 \<times> string"

text \<open>\<open>processes.entry_for(pid as i32)\<close>\<close>

definition pid_of :: "seccomp_notif \<Rightarrow> int" where "pid_of n = sint (notif_pid n)"

definition keep_entries :: "int \<Rightarrow> dir_key \<Rightarrow> bytes list option \<Rightarrow> process_index \<Rightarrow> process_index" where
  "keep_entries pid key entries ix =
     update_state pid (\<lambda>s. s\<lparr>procfs_dir_cache := (procfs_dir_cache s)(key := entries)\<rparr>) ix"

text \<open>The end of both handlers: an empty cache is the end of the directory, otherwise what fits is packed.\<close>

definition serve_cached ::
  "seccomp_notif \<Rightarrow> dir_key \<Rightarrow> process_index \<Rightarrow> bytes list \<Rightarrow> (notif_action \<times> process_index) prog" where
  "serve_cached n key ix entries =
     (if entries = [] then Done (ReturnValue 0, keep_entries (pid_of n) key None ix)
      else
        let (out, left) = pack_entries (unat (arg n 2 AND 0xFFFFFFFF)) entries [];
            ix' = keep_entries (pid_of n) key (Some left) ix
        in if out = [] then Done (ReturnValue 0, ix')
           else pbind (write_child_mem (notif_id n) (notif_pid n) (arg n 1) out) (\<lambda>r. Done (case r of
             Inl _ \<Rightarrow> Continue | Inr _ \<Rightarrow> ReturnValue (int (length out)), ix')))"

text \<open>The type and inode of a directory entry, without following it.\<close>

definition dirent_type :: "string \<Rightarrow> u8 prog" where
  "dirent_type path = pbind (syscall (KFs (FsSymlinkMetadata path))) (\<lambda>x. Done (case x of
     Inl _ \<Rightarrow> DT_REG
   | Inr (_, out) \<Rightarrow> (let fmt = (le_word (take 4 out) :: u32) AND 0xF000 in
       if fmt = 0x4000 then DT_DIR else if fmt = 0xA000 then DT_LNK else DT_REG)))"

primrec dir_records :: "string \<Rightarrow> string list \<Rightarrow> (string \<times> u8 \<times> u64) list prog" where
  "dir_records dir [] = Done []"
| "dir_records dir (name # names) =
     pbind (dirent_type (path_push dir name)) (\<lambda>d_type.
     pbind (inode_of (path_push dir name)) (\<lambda>d_ino.
     pbind (dir_records dir names) (\<lambda>rs. Done ((to_string_lossy name, d_type, d_ino) # rs))))"

text \<open>\<open>sort_by(|a, b| a.0.cmp(&b.0))\<close>, which is stable.\<close>

fun insert_record :: "string \<times> 'a \<Rightarrow> (string \<times> 'a) list \<Rightarrow> (string \<times> 'a) list" where
  "insert_record r [] = [r]"
| "insert_record r (s # ss) = (if bytes_less (fst s) (fst r) then s # insert_record r ss else r # s # ss)"

definition sort_records :: "(string \<times> 'a) list \<Rightarrow> (string \<times> 'a) list" where
  "sort_records rs = foldr insert_record rs []"

text \<open>The records with their offsets, counted from one.\<close>

definition numbered :: "(string \<times> u8 \<times> u64) list \<Rightarrow> dir_record list" where
  "numbered rs = map (\<lambda>(i, name, d_type, d_ino). (d_ino, word_of_nat (i + 1), d_type, name)) (enumerate 0 rs)"

definition dot_records :: "string \<Rightarrow> (string \<times> u8 \<times> u64) list prog" where
  "dot_records dir = pbind (inode_of dir) (\<lambda>dot_ino.
     pbind (case path_parent dir of
         None \<Rightarrow> Done dot_ino
       | Some p \<Rightarrow> pbind (syscall (KFs (FsSymlinkMetadata p))) (\<lambda>x. Done (case x of
           Inl _ \<Rightarrow> dot_ino | Inr (_, out) \<Rightarrow> le_word (take 8 (drop 4 out))))) (\<lambda>dotdot_ino.
     Done [(''.'', DT_DIR, dot_ino), (''..'', DT_DIR, dotdot_ino)]))"

definition sorted_entries :: "string \<Rightarrow> bytes list option prog" where
  "sorted_entries dir = pbind (syscall (KReadDir dir)) (\<lambda>x. case x of
     Inl _ \<Rightarrow> Done None
   | Inr (_, out) \<Rightarrow> pbind (dot_records dir) (\<lambda>dots. pbind (dir_records dir (dir_names out)) (\<lambda>rs.
       Done (Some (encode_records (numbered (sort_records (dots @ rs))))))))"

definition handle_sorted_getdents ::
  "seccomp_notif \<Rightarrow> process_index \<Rightarrow> (notif_action \<times> process_index) prog" where
  "handle_sorted_getdents n ix =
     (let fd = as_u32 (arg n 0 AND 0xFFFFFFFF) in
      pbind (syscall (KReadlink (proc_dir (notif_pid n) @ ''/fd/'' @ show_nat (unat fd)))) (\<lambda>x. case x of
        Inl _ \<Rightarrow> Done (Continue, ix)
      | Inr (_, link) \<Rightarrow>
          let dir_path = string_of_bytes link; key = (fd, to_string_lossy dir_path) in
          (case entry_for ix (pid_of n) of
             None \<Rightarrow> Done (Continue, ix)
           | Some (_, s) \<Rightarrow> (case procfs_dir_cache s key of
               Some entries \<Rightarrow> serve_cached n key ix entries
             | None \<Rightarrow> pbind (sorted_entries dir_path) (\<lambda>es. case es of
                 None \<Rightarrow> Done (Continue, ix)
               | Some entries \<Rightarrow> serve_cached n key ix entries)))))"

section \<open>Listing /proc\<close>

definition visible_name :: "int list \<Rightarrow> string \<Rightarrow> bool" where
  "visible_name sandbox_pids name \<longleftrightarrow> (case parse_i32 (to_string_lossy name) of
     Some pid \<Rightarrow> pid \<in> set sandbox_pids | None \<Rightarrow> True)"

definition build_filtered_dirents :: "int list \<Rightarrow> bytes list prog" where
  "build_filtered_dirents sandbox_pids = pbind (syscall (KReadDir ''/proc'')) (\<lambda>x. case x of
     Inl _ \<Rightarrow> Done []
   | Inr (_, out) \<Rightarrow> pbind (dir_records ''/proc'' (filter (visible_name sandbox_pids) (dir_names out)))
       (\<lambda>rs. Done (encode_records (numbered rs))))"

definition procfs_handle_getdents ::
  "seccomp_notif \<Rightarrow> process_index \<Rightarrow> (notif_action \<times> process_index) prog" where
  "procfs_handle_getdents n ix =
     (let fd = as_u32 (arg n 0 AND 0xFFFFFFFF) in
      pbind (syscall (KReadlink (proc_dir (notif_pid n) @ ''/fd/'' @ show_nat (unat fd)))) (\<lambda>x. case x of
        Inl _ \<Rightarrow> Done (Continue, ix)
      | Inr (_, link) \<Rightarrow>
          if string_of_bytes link \<noteq> ''/proc'' then Done (Continue, ix)
          else (case entry_for ix (pid_of n) of
             None \<Rightarrow> Done (Continue, ix)
           | Some (_, s) \<Rightarrow> (case procfs_dir_cache s (fd, ''/proc'') of
               Some entries \<Rightarrow> serve_cached n (fd, ''/proc'') ix entries
             | None \<Rightarrow> pbind (build_filtered_dirents (pids_snapshot ix)) (serve_cached n (fd, ''/proc'') ix)))))"

section \<open>What is refused\<close>

lemma inject_memfd_answers: "eval M (inject_memfd c) = Continue \<or> (\<exists>fd. eval M (inject_memfd c) = InjectFdSend fd 0x80000)"
  by (auto simp: inject_memfd_def split: sum.split)


section \<open>Sorted listings\<close>

lemma mset_sort_records: "mset (sort_records rs) = mset rs"
proof -
  have "mset (insert_record r ss) = add_mset r (mset ss)" for r :: "string \<times> 'a" and ss :: "(string \<times> 'a) list"
    by (induction ss) auto
  then show ?thesis by (induction rs) (simp_all add: sort_records_def)
qed

definition name_le :: "string \<Rightarrow> string \<Rightarrow> bool" where
  "name_le a b \<longleftrightarrow> \<not> bytes_less b a"

lemma name_le_trans: "name_le a b \<Longrightarrow> name_le b c \<Longrightarrow> name_le a c"
  unfolding name_le_def using bytes_less_trans bytes_less_total by metis

lemma sorted_sort_records: "sorted_wrt name_le (map fst (sort_records rs))"
proof -
  have "sorted_wrt name_le (map fst (insert_record r ss))" if "sorted_wrt name_le (map fst ss)" for r :: "string \<times> 'a" and ss
    using that
  proof (induction ss)
    case (Cons s ss)
    have set: "fst ` set (insert_record r ss) \<subseteq> insert (fst r) (fst ` set ss)" by (induction ss) auto
    show ?case
    proof (cases "bytes_less (fst s) (fst r)")
      case True
      then have "name_le (fst s) (fst r)" unfolding name_le_def using bytes_less_trans bytes_less_irrefl by blast
      with True Cons set show ?thesis by fastforce
    next
      case False
      then have "name_le (fst r) (fst s)" by (simp add: name_le_def)
      with False Cons.prems show ?thesis by (auto intro: name_le_trans)
    qed
  qed simp
  then show ?thesis by (induction rs) (simp_all add: sort_records_def)
qed

lemma names_of_records: "map fst (eval M (dir_records dir names)) = map to_string_lossy names"
  by (induction names) simp_all

lemma names_of_dots: "map fst (eval M (dot_records dir)) = [''.'', ''..'']"
  by (simp add: dot_records_def)

lemma map_numbered:
  "map (\<lambda>(_, _, _, name). name) (numbered rs) = map fst rs"
  "map (\<lambda>(_, off, _, _). off) (numbered rs) = map (\<lambda>i. word_of_nat (i + 1)) [0..<length rs]"
proof -
  have "map (\<lambda>(i, name, d_type, d_ino). name) (enumerate k rs) = map fst rs"
    "map (\<lambda>(i, name, d_type, d_ino). word_of_nat (i + 1) :: u64) (enumerate k rs)
       = map (\<lambda>i. word_of_nat (i + 1)) [k..<k + length rs]" for k
    by (induction rs arbitrary: k) (auto simp: upt_rec)
  note this [of 0]
  then show "map (\<lambda>(_, _, _, name). name) (numbered rs) = map fst rs"
    "map (\<lambda>(_, off, _, _). off) (numbered rs) = map (\<lambda>i. word_of_nat (i + 1)) [0..<length rs]"
    by (simp_all add: numbered_def comp_def split_def)
qed

lemma length_numbered [simp]: "length (numbered rs) = length rs"
  by (simp add: numbered_def)

text \<open>With deterministic directories the listing of a directory has the two dot entries and every name
  of the directory, none twice, in the order of their bytes and numbered from one, whatever order the
  file system has; and there is a listing exactly if the directory can be read.\<close>

theorem sorted_listing_exact:
  "case M (KReadDir dir) of
     Inl _ \<Rightarrow> eval M (sorted_entries dir) = None
   | Inr (_, out) \<Rightarrow> \<exists>rs. eval M (sorted_entries dir) = Some (encode_records rs) \<and>
       (let names = map (\<lambda>(_, _, _, name). name) rs in
        sorted_wrt name_le names \<and>
        mset names = mset ([''.'', ''..''] @ map to_string_lossy (dir_names out)) \<and>
        map (\<lambda>(_, off, _, _). off) rs = map (\<lambda>i. word_of_nat (i + 1)) [0..<length rs])"
proof (cases "M (KReadDir dir)")
  case (Inl e)
  then show ?thesis by (simp add: sorted_entries_def)
next
  case (Inr r)
  obtain v out where r: "r = (v, out)" by (cases r)
  define rs where "rs = eval M (dot_records dir) @ eval M (dir_records dir (dir_names out))"
  have names: "map fst rs = [''.'', ''..''] @ map to_string_lossy (dir_names out)"
    by (simp add: rs_def names_of_dots names_of_records)
  have "mset (map fst (sort_records rs)) = mset (map fst rs)"
    by (simp only: mset_map mset_sort_records)
  with names have perm: "mset (map fst (sort_records rs))
      = mset ([''.'', ''..''] @ map to_string_lossy (dir_names out))" by simp
  have "eval M (sorted_entries dir) = Some (encode_records (numbered (sort_records rs)))"
    using Inr r by (simp add: sorted_entries_def rs_def)
  then show ?thesis
    using Inr r perm sorted_sort_records [of rs]
    by (auto simp: map_numbered Let_def simp del: mset_map intro!: exI [of _ "numbered (sort_records rs)"])
qed

section \<open>The node name\<close>

text \<open>The node name the child reads, up to its end, is the virtual host name cut to 64 bytes, and the
  other fields are those of the kernel; but behind its end the bytes of the real name remain.\<close>

theorem uname_shows_virtual_name:
  assumes "length uts = 6 * UTS_FIELD" "0 \<notin> set (bytes_of_string hostname)"
  shows "let out = patch_nodename hostname uts; k = min 64 (length hostname) in
    until_nul (subslice 65 130 out) = take 64 (bytes_of_string hostname) \<and>
    subslice 0 65 out = subslice 0 65 uts \<and> subslice 130 390 out = subslice 130 390 uts \<and>
    subslice (66 + k) 130 out = subslice (66 + k) 130 uts"
proof -
  define k where "k = min 64 (length hostname)"
  define out where "out = patch_nodename hostname uts"
  define nm where "nm = take 64 (bytes_of_string hostname)"
  have nm: "length nm = k" "k \<le> 64" "0 \<notin> set nm"
    using assms(2) by (auto simp: nm_def k_def dest: in_set_takeD)
  have "out = take 65 uts @ nm @ 0 # drop (66 + k) uts"
    using nm by (simp add: out_def patch_nodename_def Let_def nm_def [symmetric])
  moreover have fits: "65 - k = Suc (64 - k)" using nm(2) by simp
  ultimately have "subslice 65 130 out = nm @ 0 # take (64 - k) (drop (66 + k) uts)"
    "subslice 0 65 out = take 65 uts" "subslice 130 390 out = drop 130 uts"
    "subslice (66 + k) 130 out = take (64 - k) (drop (66 + k) uts)"
    using nm assms(1) by (simp_all add: subslice_def fits)
  with nm(3) assms(1) show ?thesis
    unfolding Let_def k_def [symmetric] out_def [symmetric]
    by (simp add: until_nul_append nm_def subslice_def)
qed

theorem uname_shows_virtual_name_witness:
  "until_nul (subslice 65 130 (patch_nodename ''sb'' (replicate 390 0x61))) = bytes_of_string ''sb''"
proof -
  have "take 64 (bytes_of_string ''sb'') = bytes_of_string ''sb''" "0 \<notin> set (bytes_of_string ''sb'')"
    by (simp_all add: bytes_of_string_def)
  with uname_shows_virtual_name [of "replicate 390 0x61" "''sb''"] show ?thesis by (simp add: Let_def)
qed

end
