(* ===== verification/Vdso.thy ===== *)
theory Vdso
  imports CowBranch Procfs
begin

text \<open>
  Rewriting the clock functions of the child's vDSO (\<open>vdso.rs\<close>, x86-64). The machine code written there is
  a list of bytes; a small machine for the instructions it uses says what a call does. The parser of ELF
  symbols is a parameter (the \<open>goblin\<close> crate).
\<close>

unbundle bit_operations_syntax

section \<open>The code that is written\<close>

definition simple_stub :: "u32 \<Rightarrow> bytes" where
  "simple_stub syscall_nr = [0xB8] @ le_bytes 4 syscall_nr @ [0x0F, 0x05] @ [0xC3]"

definition offset_stub_clock_gettime :: "u64 \<Rightarrow> bytes" where
  "offset_stub_clock_gettime offset_secs =
     [0x57] @ [0x56] @ [0xB8, 0xE4, 0x00, 0x00, 0x00] @ [0x0F, 0x05] @ [0x5E] @ [0x5F]
     @ [0x83, 0xFF, 0x00] @ [0x74] @ [3 + 2]
     @ [0x83, 0xFF, 0x05] @ [0x75] @ [10 + 3]
     @ [0x48, 0xB9] @ le_bytes 8 offset_secs @ [0x48, 0x01, 0x0E] @ [0xC3]"

definition offset_stub_gettimeofday :: "u64 \<Rightarrow> bytes" where
  "offset_stub_gettimeofday offset_secs =
     [0x57, 0x56] @ [0xB8, 0x60, 0x00, 0x00, 0x00] @ [0x0F, 0x05] @ [0x5E, 0x5F]
     @ [0x48, 0xB9] @ le_bytes 8 offset_secs @ [0x48, 0x01, 0x0E] @ [0xC3]"

definition vdso_targets :: "(string \<times> string \<times> u32) list" where
  "vdso_targets =
     [(''clock_gettime'', ''__vdso_clock_gettime'', 228),
      (''gettimeofday'', ''__vdso_gettimeofday'', 96),
      (''time'', ''__vdso_time'', 201)]"

section \<open>Finding and patching\<close>

datatype vdso_error = NoRange | ReadMemory | OpenMemory | SeekTo string | WriteStub string

definition parse_hex :: "string \<Rightarrow> u64 option" where
  "parse_hex s = map_option word_of_nat (parse_uint 18446744073709551615 16 s)"

text \<open>The first line that ends with \<open>[vdso]\<close> and has a range; a line that is not text, or a bound that is
  not hexadecimal, is an error.\<close>

primrec vdso_range_in :: "string list \<Rightarrow> (u64 \<times> u64) option" where
  "vdso_range_in [] = None"
| "vdso_range_in (line # rest) =
     (if \<not> utf8_valid line then None
      else if \<not> suffix ''[vdso]'' line then vdso_range_in rest
      else let range = takeWhile (\<lambda>c. c \<noteq> CHR '' '') line;
               start = takeWhile (\<lambda>c. c \<noteq> CHR ''-'') range
           in if start = range then vdso_range_in rest
              else case (parse_hex start, parse_hex (drop (length start + 1) range)) of
                (Some a, Some b) \<Rightarrow> Some (a, b - a) | _ \<Rightarrow> None)"

definition find_vdso_range :: "int \<Rightarrow> (u64 \<times> u64) option prog" where
  "find_vdso_range pid = pbind (syscall (KReadFile (''/proc/'' @ show_int pid @ ''/maps''))) (\<lambda>x. Done (case x of
     Inl _ \<Rightarrow> None | Inr (_, content) \<Rightarrow> vdso_range_in (str_lines (string_of_bytes content))))"

definition find_vdso_base :: "int \<Rightarrow> u64 option prog" where
  "find_vdso_base pid = pbind (find_vdso_range pid) (\<lambda>r. Done (map_option fst r))"

definition proc_mem :: "int \<Rightarrow> string" where
  "proc_mem pid = ''/proc/'' @ show_int pid @ ''/mem''"

definition read_proc_mem :: "int \<Rightarrow> u64 \<Rightarrow> nat \<Rightarrow> bytes option prog" where
  "read_proc_mem pid addr len =
     pbind (syscall (KFs (FsOpen (proc_mem pid) 0x80000 0x1B6))) (\<lambda>x. case x of
       Inl _ \<Rightarrow> Done None
     | Inr (fd, _) \<Rightarrow> pbind (syscall (KIo (IoSeek fd addr))) (\<lambda>s. case s of
         Inl _ \<Rightarrow> pbind (syscall (KIo (IoClose fd))) (\<lambda>_. Done None)
       | Inr _ \<Rightarrow> pbind (syscall (KIo (IoReadExact fd len))) (\<lambda>r.
           pbind (syscall (KIo (IoClose fd))) (\<lambda>_. Done (case r of
             Inl _ \<Rightarrow> None | Inr (_, out) \<Rightarrow> Some (take len (out @ replicate len 0)))))))"

text \<open>\<open>parse_vdso_symbols\<close>: the dynamic symbols with a value and a name; of two with one name the last
  counts.\<close>

definition parse_vdso_symbols :: "(bytes \<Rightarrow> (string \<times> u64) list option) \<Rightarrow> bytes \<Rightarrow> (string \<rightharpoonup> u64)" where
  "parse_vdso_symbols elf vdso_bytes = (case elf vdso_bytes of
     None \<Rightarrow> Map.empty
   | Some syms \<Rightarrow> map_of (rev (filter (\<lambda>(name, st_value). st_value \<noteq> 0 \<and> name \<noteq> []) syms)))"

definition stub_for :: "u64 option \<Rightarrow> string \<Rightarrow> u32 \<Rightarrow> bytes" where
  "stub_for time_offset_secs name syscall_nr = (case time_offset_secs of
     Some off \<Rightarrow>
       if name = ''clock_gettime'' then offset_stub_clock_gettime off
       else if name = ''gettimeofday'' then offset_stub_gettimeofday off
       else simple_stub syscall_nr
   | None \<Rightarrow> simple_stub syscall_nr)"

text \<open>One function is overwritten in place.\<close>

definition write_stub :: "int \<Rightarrow> string \<Rightarrow> u64 \<Rightarrow> bytes \<Rightarrow> (vdso_error + unit) prog" where
  "write_stub mem_fd name entry_addr stub = pbind (syscall (KIo (IoSeek mem_fd entry_addr))) (\<lambda>s. case s of
     Inl _ \<Rightarrow> Done (Inl (SeekTo name))
   | Inr _ \<Rightarrow> pbind (syscall (KIo (IoWriteAll mem_fd stub))) (\<lambda>w. Done (case w of
       Inl _ \<Rightarrow> Inl (WriteStub name) | Inr _ \<Rightarrow> Inr ())))"

primrec patch_targets ::
  "int \<Rightarrow> u64 \<Rightarrow> (string \<rightharpoonup> u64) \<Rightarrow> u64 option \<Rightarrow> (string \<times> string \<times> u32) list \<Rightarrow> (vdso_error + unit) prog" where
  "patch_targets mem_fd base symbols off [] = Done (Inr ())"
| "patch_targets mem_fd base symbols off (t # ts) = (case t of (name, alt_name, nr) \<Rightarrow>
     (case (case symbols name of Some v \<Rightarrow> Some v | None \<Rightarrow> symbols alt_name) of
        None \<Rightarrow> patch_targets mem_fd base symbols off ts
      | Some v \<Rightarrow> pbind (write_stub mem_fd name (base + v) (stub_for off name nr)) (\<lambda>r. case r of
          Inl e \<Rightarrow> Done (Inl e)
        | Inr _ \<Rightarrow> patch_targets mem_fd base symbols off ts)))"

definition vdso_patch ::
  "(bytes \<Rightarrow> (string \<times> u64) list option) \<Rightarrow> int \<Rightarrow> u64 option \<Rightarrow> (vdso_error + unit) prog" where
  "vdso_patch elf pid time_offset_secs = pbind (find_vdso_range pid) (\<lambda>r. case r of
     None \<Rightarrow> Done (Inl NoRange)
   | Some (base, mapping_size) \<Rightarrow>
       pbind (read_proc_mem pid base (min (unat mapping_size) 0x4000)) (\<lambda>b. case b of
         None \<Rightarrow> Done (Inl ReadMemory)
       | Some vdso_bytes \<Rightarrow>
           pbind (syscall (KFs (FsOpen (proc_mem pid) 0x80001 0x1B6))) (\<lambda>x. case x of
             Inl _ \<Rightarrow> Done (Inl OpenMemory)
           | Inr (mem_fd, _) \<Rightarrow>
               pbind (patch_targets mem_fd base (parse_vdso_symbols elf vdso_bytes) time_offset_secs vdso_targets)
                 (\<lambda>r. pbind (syscall (KIo (IoClose mem_fd))) (\<lambda>_. Done r)))))"

section \<open>A machine for the stubs\<close>

text \<open>The instructions of x86-64 the stubs consist of. Memory holds quadwords; an access to an address that
  is not there faults. A system call takes its number and the first two arguments from the registers,
  gives its result and the memory it leaves, and destroys \<open>rcx\<close>, as the calling convention says.\<close>

record x86 =
  rax :: u64
  rcx :: u64
  rdi :: u64
  rsi :: u64
  zf :: bool
  stk :: "u64 list"
  memory :: "u64 \<rightharpoonup> u64"

type_synonym os = "u64 \<Rightarrow> u64 \<Rightarrow> u64 \<Rightarrow> (u64 \<rightharpoonup> u64) \<Rightarrow> u64 \<times> (u64 \<rightharpoonup> u64)"

datatype x86_outcome = Next nat x86 | Returned x86 | Faults

definition jump_target :: "nat \<Rightarrow> u8 \<Rightarrow> nat" where
  "jump_target pc rel = nat (int pc + sint rel)"

definition x86_step :: "os \<Rightarrow> u64 \<Rightarrow> bytes \<Rightarrow> nat \<Rightarrow> x86 \<Rightarrow> x86_outcome" where
  "x86_step sys clobber code pc s =
     (case drop pc code of
        [] \<Rightarrow> Faults
      | op # r \<Rightarrow>
          if op = 0x57 then Next (pc + 1) (s\<lparr>stk := rdi s # stk s\<rparr>)
          else if op = 0x56 then Next (pc + 1) (s\<lparr>stk := rsi s # stk s\<rparr>)
          else if op = 0x5E then (case stk s of [] \<Rightarrow> Faults | w # ws \<Rightarrow> Next (pc + 1) (s\<lparr>rsi := w, stk := ws\<rparr>))
          else if op = 0x5F then (case stk s of [] \<Rightarrow> Faults | w # ws \<Rightarrow> Next (pc + 1) (s\<lparr>rdi := w, stk := ws\<rparr>))
          else if op = 0xB8 then Next (pc + 5) (s\<lparr>rax := ucast (le_word (take 4 r) :: u32)\<rparr>)
          else if op = 0x0F \<and> take 1 r = [0x05] then
            (let (v, m) = sys (rax s) (rdi s) (rsi s) (memory s)
             in Next (pc + 2) (s\<lparr>rax := v, rcx := clobber, memory := m\<rparr>))
          else if op = 0x83 \<and> take 1 r = [0xFF] then
            Next (pc + 3) (s\<lparr>zf := (ucast (rdi s) :: u32) = scast (hd (drop 1 r))\<rparr>)
          else if op = 0x74 then Next (if zf s then jump_target (pc + 2) (hd r) else pc + 2) s
          else if op = 0x75 then Next (if zf s then pc + 2 else jump_target (pc + 2) (hd r)) s
          else if op = 0x48 \<and> take 1 r = [0xB9] then Next (pc + 10) (s\<lparr>rcx := le_word (take 8 (drop 1 r))\<rparr>)
          else if op = 0x48 \<and> take 2 r = [0x01, 0x0E] then (case memory s (rsi s) of
              None \<Rightarrow> Faults
            | Some w \<Rightarrow> Next (pc + 3) (s\<lparr>memory := (memory s)(rsi s \<mapsto> w + rcx s)\<rparr>))
          else if op = 0xC3 then Returned s
          else Faults)"

primrec x86_run :: "os \<Rightarrow> u64 \<Rightarrow> bytes \<Rightarrow> nat \<Rightarrow> nat \<Rightarrow> x86 \<Rightarrow> x86_outcome" where
  "x86_run sys clobber code 0 pc s = Next pc s"
| "x86_run sys clobber code (Suc k) pc s = (case x86_step sys clobber code pc s of
     Next pc' s' \<Rightarrow> x86_run sys clobber code k pc' s' | other \<Rightarrow> other)"

text \<open>A call of a stub; thirteen instructions are the longest way through one.\<close>

definition call_stub :: "os \<Rightarrow> u64 \<Rightarrow> bytes \<Rightarrow> x86 \<Rightarrow> x86_outcome" where
  "call_stub sys clobber code s = x86_run sys clobber code 13 0 s"

section \<open>What the stubs do\<close>

lemma run_numeral:
  "x86_run sys clobber code (numeral k) pc s = (case x86_step sys clobber code pc s of
     Next pc' s' \<Rightarrow> x86_run sys clobber code (pred_numeral k) pc' s' | other \<Rightarrow> other)"
  by (simp add: numeral_eq_Suc)

lemmas x86_exec = call_stub_def run_numeral x86_step_def jump_target_def

lemma eight_bytes:
  obtains b1 b2 b3 b4 b5 b6 b7 b8 where "le_bytes 8 (w :: u64) = [b1, b2, b3, b4, b5, b6, b7, b8]"
    "(le_word [b1, b2, b3, b4, b5, b6, b7, b8] :: u64) = w"
  using le_word_bytes(3) [of w] length_le_bytes [of 8 w]
  by (auto simp: numeral_eq_Suc length_Suc_conv simp del: le_bytes.simps length_le_bytes)

lemma four_bytes:
  obtains b1 b2 b3 b4 where "le_bytes 4 (w :: u32) = [b1, b2, b3, b4]" "(le_word [b1, b2, b3, b4] :: u32) = w"
  using le_word_bytes(2) [of w] length_le_bytes [of 4 w]
  by (auto simp: numeral_eq_Suc length_Suc_conv simp del: le_bytes.simps length_le_bytes)

text \<open>C40: Calling the stub for \<open>clock_gettime\<close> makes system call 228 with the arguments of the call and gives
  its result, registers and stack as they were; the seconds are shifted by the offset for the clocks
  \<open>CLOCK_REALTIME\<close> and \<open>CLOCK_REALTIME_COARSE\<close>, and the memory is as the kernel left it for any other.\<close>

theorem clock_gettime_stub_shifts:
  assumes "sys 228 (rdi s) (rsi s) (memory s) = (v, m)" "m (rsi s) = Some t"
  shows "case call_stub sys clobber (offset_stub_clock_gettime off) s of
     Returned s' \<Rightarrow> rax s' = v \<and> rdi s' = rdi s \<and> rsi s' = rsi s \<and> stk s' = stk s \<and>
       memory s' = (if (ucast (rdi s) :: u32) \<in> {0, 5} then m(rsi s \<mapsto> t + off) else m)
   | _ \<Rightarrow> False"
proof (rule eight_bytes [of off])
  fix b1 b2 b3 b4 b5 b6 b7 b8
  assume off: "le_bytes 8 off = [b1, b2, b3, b4, b5, b6, b7, b8]"
    "le_word [b1, b2, b3, b4, b5, b6, b7, b8] = off"
  show ?thesis
    using assms off(2) unfolding offset_stub_clock_gettime_def off(1) by (simp add: x86_exec)
qed

definition example_os :: os where
  "example_os nr a b m = (0, m(b \<mapsto> 1000, b + 8 \<mapsto> 7))"

theorem clock_gettime_stub_shifts_witness:
  "case call_stub example_os 0 (offset_stub_clock_gettime 60)
       \<lparr>rax = 1, rcx = 2, rdi = 0, rsi = 0x5000, zf = False, stk = [], memory = Map.empty\<rparr> of
     Returned s' \<Rightarrow> memory s' 0x5000 = Some 1060 \<and> memory s' 0x5008 = Some 7
   | _ \<Rightarrow> False"
  using clock_gettime_stub_shifts [where sys = example_os and clobber = 0 and v = 0 and t = 1000 and off = 60
      and s = "\<lparr>rax = 1, rcx = 2, rdi = 0, rsi = 0x5000, zf = False, stk = [], memory = Map.empty\<rparr>"
      and m = "[0x5000 \<mapsto> 1000, 0x5008 \<mapsto> 7]"]
  by (simp add: example_os_def split: x86_outcome.splits)

text \<open>The other two stubs: a plain one is the system call itself, and the one for \<open>gettimeofday\<close> adds the
  offset where \<open>rsi\<close> points, which is the second argument of the call: the time zone, a null pointer in
  every common use, and not the time.\<close>

theorem simple_stub_is_the_call:
  assumes "sys (ucast nr) (rdi s) (rsi s) (memory s) = (v, m)"
  shows "call_stub sys clobber (simple_stub nr) s = Returned (s\<lparr>rax := v, rcx := clobber, memory := m\<rparr>)"
proof (rule four_bytes [of nr])
  fix b1 b2 b3 b4
  assume nr: "le_bytes 4 nr = [b1, b2, b3, b4]" "le_word [b1, b2, b3, b4] = nr"
  show ?thesis
    using assms nr(2) unfolding simple_stub_def nr(1) by (simp add: x86_exec)
qed

theorem gettimeofday_stub_uses_second_argument:
  assumes "sys 96 (rdi s) (rsi s) (memory s) = (v, m)"
  shows "call_stub sys clobber (offset_stub_gettimeofday off) s =
     (case m (rsi s) of None \<Rightarrow> Faults
      | Some w \<Rightarrow> Returned (s\<lparr>rax := v, rcx := off, memory := m(rsi s \<mapsto> w + off)\<rparr>))"
proof (rule eight_bytes [of off])
  fix b1 b2 b3 b4 b5 b6 b7 b8
  assume off: "le_bytes 8 off = [b1, b2, b3, b4, b5, b6, b7, b8]"
    "le_word [b1, b2, b3, b4, b5, b6, b7, b8] = off"
  show ?thesis
    using assms off(2) unfolding offset_stub_gettimeofday_def off(1)
    by (simp add: x86_exec split: option.split)
qed

lemma null_zone_faults:
  assumes "sys 96 (rdi s) 0 (memory s) = (v, m)" "m 0 = None" "rsi s = 0"
  shows "call_stub sys clobber (offset_stub_gettimeofday off) s = Faults"
  using assms gettimeofday_stub_uses_second_argument [of sys s v m clobber off] by simp

lemma shifted_time_is_the_plain_call: "stub_for (Some off) ''time'' 201 = simple_stub 201"
  by (simp add: stub_for_def)

end
