(* ===== verification/ChrootPaths.thy ===== *)
theory ChrootPaths
  imports CowHandlers
begin

text \<open>
  Paths below a chroot: the policy of \<open>chroot/dispatch.rs\<close> (readable, writable and denied prefixes, mounts)
  and the resolution of \<open>chroot/resolve.rs\<close>. The kernel resolves a path below a root by \<open>openat2\<close> with
  \<open>RESOLVE_IN_ROOT\<close>, and the path of the descriptor is read back. A virtual path is what the child sees,
  a host path what the supervisor uses; the lemmas relate the two.
\<close>

section \<open>The policy\<close>

record ChrootCtx =
  root :: string
  readable_paths :: "string list"
  writable_paths :: "string list"
  denied_paths :: "string list"
  mounts :: "(string \<times> string) list"

definition chroot_is_denied :: "ChrootCtx \<Rightarrow> string \<Rightarrow> bool" where
  "chroot_is_denied ctx v \<longleftrightarrow> list_ex (path_starts_with v) (denied_paths ctx)"

definition is_mounted :: "ChrootCtx \<Rightarrow> string \<Rightarrow> bool" where
  "is_mounted ctx v \<longleftrightarrow> list_ex (\<lambda>(vp, _). path_starts_with v vp) (mounts ctx)"

definition can_read :: "ChrootCtx \<Rightarrow> string \<Rightarrow> bool" where
  "can_read ctx v =
     (if chroot_is_denied ctx v then False
      else if is_mounted ctx v then True
      else readable_paths ctx = []
        \<or> list_ex (\<lambda>p. path_starts_with v p \<or> path_starts_with p v) (readable_paths ctx)
        \<or> list_ex (\<lambda>p. path_starts_with v p \<or> path_starts_with p v) (writable_paths ctx))"

definition can_write :: "ChrootCtx \<Rightarrow> string \<Rightarrow> bool" where
  "can_write ctx v =
     (if chroot_is_denied ctx v then False
      else if is_mounted ctx v then True
      else list_ex (path_starts_with v) (writable_paths ctx))"

text \<open>The loop over the mounts keeps the first of the longest matching prefixes.\<close>

definition better_mount :: "string \<Rightarrow> (string \<times> string) option \<Rightarrow> string \<times> string \<Rightarrow> (string \<times> string) option" where
  "better_mount v best m =
     (if path_starts_with v (fst m) \<and>
         (case best of None \<Rightarrow> True | Some b \<Rightarrow> length (fst b) < length (fst m))
      then Some m else best)"

definition sub_path :: "string \<Rightarrow> string" where
  "sub_path sub = (if sub = [] then ''/'' else CHR ''/'' # to_string_lossy sub)"

definition mount_target :: "ChrootCtx \<Rightarrow> string \<Rightarrow> (string \<times> string) option" where
  "mount_target ctx v = Option.bind (foldl (better_mount v) None (mounts ctx)) (\<lambda>(mount_vp, mount_hp).
     map_option (\<lambda>sub. (mount_hp, sub_path sub)) (path_strip_prefix v mount_vp))"

definition better_host :: "string \<Rightarrow> (string \<times> string) option \<Rightarrow> string \<times> string \<Rightarrow> (string \<times> string) option" where
  "better_host h best m =
     (if path_starts_with h (snd m) \<and>
         (case best of None \<Rightarrow> True | Some b \<Rightarrow> length (snd b) < length (snd m))
      then Some m else best)"

definition host_to_virtual :: "ChrootCtx \<Rightarrow> string \<Rightarrow> string option" where
  "host_to_virtual ctx host_path = (case foldl (better_host host_path) None (mounts ctx) of
     Some (mount_vp, mount_hp) \<Rightarrow> map_option (path_push mount_vp) (path_strip_prefix host_path mount_hp)
   | None \<Rightarrow> to_virtual_path (root ctx) host_path)"

section \<open>chroot/resolve.rs\<close>

abbreviation (input) O_PATH :: "'a::numeral" where "O_PATH \<equiv> 0x200000"

text \<open>\<open>path.to_str().unwrap_or("")\<close>\<close>

definition str_or_empty :: "string \<Rightarrow> string" where
  "str_or_empty p = (if utf8_valid p then p else [])"

text \<open>The path that is opened below the descriptor of the root.\<close>

definition below_root :: "string \<Rightarrow> string" where
  "below_root path = (let rel = (case strip_prefix ''/'' path of Some r \<Rightarrow> r | None \<Rightarrow> path)
     in if rel = [] then ''.'' else rel)"

definition openat2_in_root :: "string \<Rightarrow> string \<Rightarrow> int \<Rightarrow> u32 \<Rightarrow> (int + int) prog" where
  "openat2_in_root chroot_root path flags mode =
     (let c_root = str_or_empty chroot_root in
      if CHR 0x00 \<in> set c_root then Done (Inl EINVAL)
      else pbind (syscall (KFs (FsOpen c_root 0x90000 0))) (\<lambda>x. case x of
        Inl e \<Rightarrow> Done (Inl e)
      | Inr (root_fd, _) \<Rightarrow>
          if CHR 0x00 \<in> set (below_root path) then
            pbind (syscall (KIo (IoClose root_fd))) (\<lambda>_. Done (Inl EINVAL))
          else pbind (syscall (KFs (FsOpenat2 root_fd (below_root path) flags mode))) (\<lambda>y.
            pbind (syscall (KIo (IoClose root_fd))) (\<lambda>_. Done (case y of
              Inl e \<Rightarrow> Inl e | Inr (fd, _) \<Rightarrow> Inr fd)))))"

text \<open>The path of an open descriptor of the supervisor, which is closed.\<close>

definition path_of_fd :: "int \<Rightarrow> string option prog" where
  "path_of_fd fd = pbind (syscall (KReadlink (''/proc/self/fd/'' @ show_int fd))) (\<lambda>x.
     pbind (syscall (KIo (IoClose fd))) (\<lambda>_. Done (case x of
       Inl _ \<Rightarrow> None | Inr (_, link) \<Rightarrow> Some (string_of_bytes link))))"

definition resolve_existing_in_root :: "string \<Rightarrow> string \<Rightarrow> (string \<times> string) option prog" where
  "resolve_existing_in_root chroot_root child_path =
     pbind (openat2_in_root chroot_root child_path 0x280000 0) (\<lambda>r. case r of
       Inl _ \<Rightarrow> Done None
     | Inr fd \<Rightarrow> pbind (path_of_fd fd) (\<lambda>h. Done (Option.bind h (\<lambda>host_path.
         map_option (Pair host_path) (to_virtual_path chroot_root host_path)))))"

text \<open>\<open>Path::file_name\<close>\<close>

definition path_file_name :: "string \<Rightarrow> string option" where
  "path_file_name p = (case rev (path_components p) of Normal s # _ \<Rightarrow> Some s | _ \<Rightarrow> None)"

definition resolve_parent_in_root :: "string \<Rightarrow> string \<Rightarrow> (string \<times> string) option prog" where
  "resolve_parent_in_root chroot_root child_path =
     (let confined = confine child_path;
          parent = (case path_parent confined of Some p \<Rightarrow> p | None \<Rightarrow> ''/'')
      in case path_file_name confined of
        None \<Rightarrow> Done None
      | Some file_name \<Rightarrow>
          if \<not> utf8_valid parent then Done None
          else pbind (openat2_in_root chroot_root parent 0x290000 0) (\<lambda>r. case r of
            Inl _ \<Rightarrow> Done None
          | Inr fd \<Rightarrow> pbind (path_of_fd fd) (\<lambda>h. Done (Option.bind h (\<lambda>parent_host.
              map_option (\<lambda>parent_virtual. (path_push parent_host file_name, path_push parent_virtual file_name))
                (to_virtual_path chroot_root parent_host))))))"

definition resolve_in_root :: "string \<Rightarrow> string \<Rightarrow> (string \<times> string) option prog" where
  "resolve_in_root chroot_root child_path =
     pbind (resolve_existing_in_root chroot_root child_path) (\<lambda>r. case r of
       Some hv \<Rightarrow> Done (Some hv)
     | None \<Rightarrow> resolve_parent_in_root chroot_root child_path)"

section \<open>Resolution for the child\<close>

text \<open>The two lookups below a mount; the virtual path is the one asked for.\<close>

definition in_mount ::
  "(string \<Rightarrow> string \<Rightarrow> (string \<times> string) option prog) \<Rightarrow> ChrootCtx \<Rightarrow> string \<Rightarrow> (string \<times> string) option prog" where
  "in_mount resolve ctx virtual_path = (let confined = confine virtual_path in
     case mount_target ctx confined of
       None \<Rightarrow> Done None
     | Some (target, sub) \<Rightarrow> pbind (resolve target sub) (\<lambda>r.
         Done (map_option (\<lambda>(host_path, _). (host_path, confined)) r)))"

definition resolve_mount :: "ChrootCtx \<Rightarrow> string \<Rightarrow> (string \<times> string) option prog" where
  "resolve_mount = in_mount resolve_in_root"

definition resolve_mount_existing :: "ChrootCtx \<Rightarrow> string \<Rightarrow> (string \<times> string) option prog" where
  "resolve_mount_existing = in_mount resolve_existing_in_root"

text \<open>The loop of \<open>read_path\<close> is the one of the copy-on-write handlers.\<close>

abbreviation chroot_read_path :: "seccomp_notif \<Rightarrow> u64 \<Rightarrow> string option prog" where
  "chroot_read_path \<equiv> read_path"

text \<open>The directory a relative path starts from: of the process, or of a descriptor.\<close>

definition read_base :: "seccomp_notif \<Rightarrow> u64 \<Rightarrow> string option prog" where
  "read_base n dirfd = pbind (syscall (KReadlink (proc_dir (notif_pid n) @
       (if as_i32 dirfd = AT_FDCWD then ''/cwd'' else ''/fd/'' @ show_int (sint dirfd))))) (\<lambda>x.
     Done (case x of Inl _ \<Rightarrow> None | Inr (_, base) \<Rightarrow> Some (string_of_bytes base)))"

definition build_virtual_path :: "ChrootCtx \<Rightarrow> seccomp_notif \<Rightarrow> u64 \<Rightarrow> string \<Rightarrow> string option prog" where
  "build_virtual_path ctx n dirfd path =
     (if is_absolute path then Done (Some path)
      else pbind (read_base n dirfd) (\<lambda>b. Done (Option.bind b (\<lambda>base_host.
        map_option (\<lambda>base_virtual. to_string_lossy (path_push base_virtual path))
          (host_to_virtual ctx base_host)))))"

definition resolve_chroot_path ::
  "ChrootCtx \<Rightarrow> seccomp_notif \<Rightarrow> u64 \<Rightarrow> string \<Rightarrow> (string \<times> string) option prog" where
  "resolve_chroot_path ctx n dirfd path =
     pbind (build_virtual_path ctx n dirfd path) (\<lambda>f. case f of
       None \<Rightarrow> Done None
     | Some full_path \<Rightarrow> pbind (resolve_mount ctx full_path) (\<lambda>r. case r of
         Some hv \<Rightarrow> Done (Some hv)
       | None \<Rightarrow> resolve_in_root (root ctx) full_path))"

definition resolve_chroot_path_existing ::
  "ChrootCtx \<Rightarrow> seccomp_notif \<Rightarrow> u64 \<Rightarrow> string \<Rightarrow> (string \<times> string) option prog" where
  "resolve_chroot_path_existing ctx n dirfd path =
     pbind (build_virtual_path ctx n dirfd path) (\<lambda>f. case f of
       None \<Rightarrow> Done None
     | Some full_path \<Rightarrow> pbind (resolve_mount_existing ctx full_path) (\<lambda>r. case r of
         Some hv \<Rightarrow> Done (Some hv)
       | None \<Rightarrow> resolve_existing_in_root (root ctx) full_path))"

text \<open>The path argument, its host path and its virtual path, or the answer to the call.\<close>

type_synonym resolution = "notif_action + string \<times> string \<times> string"

text \<open>Both functions: read the path, resolve it, and answer with the given error if that fails.\<close>

definition resolve_at ::
  "(string \<Rightarrow> (string \<times> string) option prog) \<Rightarrow> int \<Rightarrow> seccomp_notif \<Rightarrow> u64 \<Rightarrow> resolution prog" where
  "resolve_at resolve err n path_ptr = pbind (chroot_read_path n path_ptr) (\<lambda>p. case p of
     None \<Rightarrow> Done (Inl Continue)
   | Some path \<Rightarrow> pbind (resolve path) (\<lambda>r. Done (case r of
       None \<Rightarrow> Inl (Errno err) | Some (host_path, virtual_path) \<Rightarrow> Inr (path, host_path, virtual_path))))"

definition read_and_resolve :: "ChrootCtx \<Rightarrow> seccomp_notif \<Rightarrow> nat \<Rightarrow> nat \<Rightarrow> resolution prog" where
  "read_and_resolve ctx n dirfd_idx path_idx =
     resolve_at (resolve_chroot_path ctx n (arg n dirfd_idx)) EACCES n (arg n path_idx)"

definition read_and_resolve_existing :: "ChrootCtx \<Rightarrow> seccomp_notif \<Rightarrow> nat \<Rightarrow> nat \<Rightarrow> resolution prog" where
  "read_and_resolve_existing ctx n dirfd_idx path_idx =
     resolve_at (resolve_chroot_path_existing ctx n (arg n dirfd_idx)) ENOENT n (arg n path_idx)"

text \<open>\<open>path_cstr\<close>: a NUL byte is answered with the given error.\<close>

definition path_cstr :: "string \<Rightarrow> int \<Rightarrow> notif_action + string" where
  "path_cstr path err =
     (if CHR 0x00 \<in> set (str_or_empty path) then Inl (Errno err) else Inr (str_or_empty path))"

definition with_cstr :: "string \<Rightarrow> int \<Rightarrow> (string \<Rightarrow> notif_action prog) \<Rightarrow> notif_action prog" where
  "with_cstr path err f = (case path_cstr path err of Inl a \<Rightarrow> Done a | Inr c \<Rightarrow> f c)"

definition exec_on_host :: "(string \<Rightarrow> fs_req) \<Rightarrow> string \<Rightarrow> notif_action prog" where
  "exec_on_host f host = with_cstr host EINVAL (\<lambda>c. pbind (fs_try (f c)) (\<lambda>r. Done (case r of
     Inl e \<Rightarrow> Errno e | Inr _ \<Rightarrow> ReturnValue 0)))"

text \<open>\<open>cow_resolve\<close>: the path to look at when a branch is active.\<close>

definition cow_resolve :: "diff \<Rightarrow> cow_state \<Rightarrow> string \<Rightarrow> (notif_action + string) prog" where
  "cow_resolve diff_paths st host_path = (case st of
     None \<Rightarrow> Done (Inr host_path)
   | Some b \<Rightarrow> let host_str = to_string_lossy host_path in
       if cow_matches b host_str then pbind (handle_stat diff_paths b host_str) (\<lambda>r. Done (case r of
         None \<Rightarrow> Inl (Errno ENOENT) | Some p \<Rightarrow> Inr p))
       else Done (Inr host_path))"

end
