(* ===== verification/ChrootHandlers.thy ===== *)
theory ChrootHandlers
  imports ChrootPaths CowQueries
begin

text \<open>
  The handlers of \<open>chroot/dispatch.rs\<close> that open, execute and change files, and those of the old calls
  they serve. Each resolves the path of the call below the root, checks the virtual path against the
  policy, lets the copy-on-write branch treat the host path if there is one, and otherwise makes the
  call itself. The state is the branch and the recorded path of the executable.
\<close>

unbundle bit_operations_syntax

section \<open>Opening\<close>

definition is_write :: "u64 \<Rightarrow> bool" where
  "is_write flags \<longleftrightarrow> open_flags flags 3"

definition open_permitted :: "ChrootCtx \<Rightarrow> u64 \<Rightarrow> string \<Rightarrow> bool" where
  "open_permitted ctx flags v = (if is_write flags then can_write ctx v else can_read ctx v)"

definition inject_opened :: "u64 \<Rightarrow> int \<Rightarrow> notif_action" where
  "inject_opened flags fd = InjectFdSend fd (if open_flags flags O_CLOEXEC then O_CLOEXEC else 0)"

text \<open>The branch opens the file, or leaves it (\<open>None\<close>).\<close>

definition open_in_branch ::
  "diff \<Rightarrow> string \<Rightarrow> u64 \<Rightarrow> SeccompCowBranch \<Rightarrow> (notif_action option \<times> SeccompCowBranch) prog" where
  "open_in_branch diff_paths host_str flags b =
     pbind (handle_open diff_paths host_str flags b) (\<lambda>(r, b). case r of
       Inr (Some real_path) \<Rightarrow> pbind (with_cstr real_path EINVAL (\<lambda>c.
           pbind (syscall (KFs (FsOpen c (as_i32 flags) 0x1B6))) (\<lambda>x. Done (case x of
             Inl e \<Rightarrow> Errno e | Inr (fd, _) \<Rightarrow> inject_opened flags fd)))) (\<lambda>a. Done (Some a, b))
     | Inr None \<Rightarrow> Done (None, b)
     | Inl QuotaExceeded \<Rightarrow> Done (Some (Errno ENOSPC), b)
     | Inl Exists \<Rightarrow> Done (Some (Errno EEXIST), b)
     | Inl _ \<Rightarrow> Done (Some (Errno EIO), b))"

text \<open>The directory to open below, and the path there.\<close>

definition open_target :: "ChrootCtx \<Rightarrow> string \<Rightarrow> string \<Rightarrow> string \<times> string" where
  "open_target ctx v path = (case mount_target ctx v of
     Some (mt, sub) \<Rightarrow> (mt, sub) | None \<Rightarrow> (root ctx, path))"

definition open_below :: "ChrootCtx \<Rightarrow> u64 \<Rightarrow> string \<Rightarrow> notif_action prog" where
  "open_below ctx flags v =
     (let (dir, path) = open_target ctx v (to_string_lossy v);
          mode = (if is_write flags then 0x1B6 else 0)
      in pbind (openat2_in_root dir path (as_i32 flags) mode) (\<lambda>r. Done (case r of
           Inl errno \<Rightarrow> Errno errno | Inr fd \<Rightarrow> inject_opened flags fd)))"

definition handle_chroot_open ::
  "diff \<Rightarrow> ChrootCtx \<Rightarrow> seccomp_notif \<Rightarrow> cow_state \<Rightarrow> (notif_action \<times> cow_state) prog" where
  "handle_chroot_open diff_paths ctx n st =
     (let flags = arg n 2 in
      pbind (chroot_read_path n (arg n 1)) (\<lambda>p. case p of
        None \<Rightarrow> Done (Continue, st)
      | Some rel_path \<Rightarrow> pbind (resolve_chroot_path ctx n (arg n 0) rel_path) (\<lambda>r. case r of
          None \<Rightarrow> Done (Errno EACCES, st)
        | Some (host_path, v) \<Rightarrow>
            if \<not> open_permitted ctx flags v then Done (Errno EACCES, st)
            else
              let host_str = to_string_lossy host_path;
                  below = (\<lambda>st. pbind (open_below ctx flags v) (\<lambda>a. Done (a, st)))
              in case st of
                   None \<Rightarrow> below st
                 | Some b \<Rightarrow>
                     if cow_matches b host_str then
                       pbind (open_in_branch diff_paths host_str flags b) (\<lambda>(a, b). case a of
                         Some action \<Rightarrow> Done (action, Some b) | None \<Rightarrow> below (Some b))
                     else below st)))"

section \<open>execve\<close>

text \<open>\<open>read_exact\<close> fills the buffer or fails; what was read is as long as the buffer.\<close>

definition read_exact :: "int \<Rightarrow> nat \<Rightarrow> (int + bytes) prog" where
  "read_exact fd k = pbind (syscall (KIo (IoReadExact fd k))) (\<lambda>x. Done (case x of
     Inl e \<Rightarrow> Inl e | Inr (_, out) \<Rightarrow> Inr (take k (out @ replicate k 0))))"

definition read_exact_at :: "int \<Rightarrow> u64 \<Rightarrow> nat \<Rightarrow> (int + bytes) prog" where
  "read_exact_at fd pos k = pbind (syscall (KIo (IoSeek fd pos))) (\<lambda>x. case x of
     Inl e \<Rightarrow> Done (Inl e) | Inr _ \<Rightarrow> read_exact fd k)"

abbreviation (input) PT_INTERP :: u32 where "PT_INTERP \<equiv> 3"

text \<open>The loop over the program headers; the file offset wraps, as in a release build.\<close>

primrec scan_phdrs :: "nat \<Rightarrow> int \<Rightarrow> u64 \<Rightarrow> u64 \<Rightarrow> (string \<times> u64 \<times> nat) option prog" where
  "scan_phdrs 0 fd ph_offset e_phentsize = Done None"
| "scan_phdrs (Suc k) fd ph_offset e_phentsize =
     pbind (read_exact_at fd ph_offset 56) (\<lambda>r. case r of
       Inl _ \<Rightarrow> Done None
     | Inr phdr \<Rightarrow>
         if le_word (subslice 0 4 phdr) \<noteq> PT_INTERP then scan_phdrs k fd (ph_offset + e_phentsize) e_phentsize
         else
           let p_offset = le_word (subslice 8 16 phdr); p_filesz = unat (le_word (subslice 32 40 phdr) :: u64) in
           if p_filesz = 0 \<or> 256 < p_filesz then Done None
           else pbind (read_exact_at fd p_offset p_filesz) (\<lambda>s. Done (case s of
             Inl _ \<Rightarrow> None
           | Inr buf \<Rightarrow> Some (to_string_lossy (string_of_bytes (until_nul buf)), p_offset, p_filesz))))"

definition read_pt_interp :: "int \<Rightarrow> (string \<times> u64 \<times> nat) option prog" where
  "read_pt_interp fd = pbind (read_exact fd 64) (\<lambda>r. case r of
     Inl _ \<Rightarrow> Done None
   | Inr header \<Rightarrow>
       if subslice 0 4 header \<noteq> [0x7F, 0x45, 0x4C, 0x46] then Done None
       else scan_phdrs (unat (le_word (subslice 56 58 header) :: u16)) fd (le_word (subslice 32 40 header))
         (ucast (le_word (subslice 54 56 header) :: u16)))"

text \<open>The copying loop. A round that does not end it copies at least a byte, so the size is enough fuel.\<close>

primrec sendfile_all :: "nat \<Rightarrow> int \<Rightarrow> int \<Rightarrow> nat \<Rightarrow> nat \<Rightarrow> bool prog" where
  "sendfile_all 0 mfd src_fd off remaining = Done (remaining = 0)"
| "sendfile_all (Suc k) mfd src_fd off remaining =
     (if remaining = 0 then Done True
      else pbind (syscall (KIo (IoSendfile mfd src_fd (word_of_nat off) (word_of_nat remaining)))) (\<lambda>x. case x of
        Inl _ \<Rightarrow> Done False
      | Inr (sent, _) \<Rightarrow>
          if sent \<le> 0 then Done False
          else sendfile_all k mfd src_fd (off + nat sent) (remaining - nat sent)))"

definition close_fd :: "int \<Rightarrow> 'a \<Rightarrow> 'a prog" where
  "close_fd fd a = pbind (syscall (KIo (IoClose fd))) (\<lambda>_. Done a)"

definition memfd_with_patched_interp :: "int \<Rightarrow> string \<Rightarrow> u64 \<Rightarrow> nat \<Rightarrow> int option prog" where
  "memfd_with_patched_interp src_fd new_interp interp_offset interp_capacity =
     pbind (syscall (KIo (IoFstat src_fd))) (\<lambda>x. case x of
       Inl _ \<Rightarrow> Done None
     | Inr (st_size, _) \<Rightarrow>
         let size = unat (word_of_int st_size :: u64) in
         pbind (syscall (KIo (IoMemfdCreate ''sandlock-exec'' 0))) (\<lambda>y. case y of
           Inl _ \<Rightarrow> Done None
         | Inr (mfd, _) \<Rightarrow>
             pbind (fs_ok (FsSetLen mfd (word_of_nat size))) (\<lambda>ok.
             if \<not> ok then close_fd mfd None
             else pbind (sendfile_all size mfd src_fd 0 size) (\<lambda>copied_all.
             if \<not> copied_all then close_fd mfd None
             else if interp_capacity \<le> length new_interp then close_fd mfd None
             else
               let patch = bytes_of_string new_interp @ replicate (interp_capacity - length new_interp) 0 in
               pbind (syscall (KIo (IoSeek mfd interp_offset))) (\<lambda>s. case s of
                 Inl _ \<Rightarrow> close_fd mfd None
               | Inr _ \<Rightarrow> pbind (syscall (KIo (IoWriteAll mfd patch))) (\<lambda>w. case w of
                   Inl _ \<Rightarrow> close_fd mfd None
                 | Inr _ \<Rightarrow> Done (Some mfd)))))))"

text \<open>The file to execute: the opened one, or a copy whose interpreter is one of the root's. The
  interpreter's descriptor is injected first; \<open>Inl\<close> ends the handler.\<close>

definition exec_image :: "ChrootCtx \<Rightarrow> seccomp_notif \<Rightarrow> int \<Rightarrow> (notif_action + int) prog" where
  "exec_image ctx n src_fd = pbind (read_pt_interp src_fd) (\<lambda>i. case i of
     None \<Rightarrow> Done (Inr src_fd)
   | Some (interp_path, interp_offset, interp_cap) \<Rightarrow>
       pbind (openat2_in_root (root ctx) interp_path 0x80000 0) (\<lambda>r. case r of
         Inl _ \<Rightarrow> close_fd src_fd (Inl (Errno ENOENT))
       | Inr interp_src \<Rightarrow> pbind (add_fd n interp_src 0) (\<lambda>c. case c of
           None \<Rightarrow> close_fd src_fd (Inl (Errno EIO))
         | Some child_interp_fd \<Rightarrow>
             pbind (memfd_with_patched_interp src_fd (''/proc/self/fd/'' @ show_int child_interp_fd)
                 interp_offset interp_cap) (\<lambda>m. case m of
               Some memfd \<Rightarrow> close_fd src_fd (Inr memfd)
             | None \<Rightarrow> Done (Inr src_fd)))))"

text \<open>The descriptor replaces the path in the child's memory, and the kernel goes on with it.\<close>

definition inject_as_path :: "seccomp_notif \<Rightarrow> int \<Rightarrow> u32 \<Rightarrow> u64 \<Rightarrow> notif_action prog" where
  "inject_as_path n src_fd newfd_flags path_ptr = pbind (add_fd n src_fd newfd_flags) (\<lambda>c. case c of
     None \<Rightarrow> Done (Errno EIO)
   | Some child_fd \<Rightarrow>
       pbind (write_child_mem (notif_id n) (notif_pid n) path_ptr (fd_path child_fd)) (\<lambda>r.
         Done (case r of Inl _ \<Rightarrow> Errno EFAULT | Inr _ \<Rightarrow> Continue)))"

definition handle_chroot_exec ::
  "ChrootCtx \<Rightarrow> seccomp_notif \<Rightarrow> string option \<Rightarrow> (notif_action \<times> string option) prog" where
  "handle_chroot_exec ctx n exe =
     (let (dirfd, path_ptr) =
          (if notif_nr n = SYS_execveat then (arg n 0, arg n 1) else (cwd_arg, arg n 0))
      in pbind (chroot_read_path n path_ptr) (\<lambda>p. case p of
        None \<Rightarrow> Done (Continue, exe)
      | Some rel_path \<Rightarrow> pbind (build_virtual_path ctx n dirfd rel_path) (\<lambda>f. case f of
          None \<Rightarrow> Done (Errno EACCES, exe)
        | Some full_path \<Rightarrow>
            let v = confine full_path; (dir, path) = open_target ctx v (to_string_lossy v) in
            if \<not> can_read ctx v then Done (Errno EACCES, exe)
            else pbind (openat2_in_root dir path 0x80000 0) (\<lambda>r. case r of
              Inl _ \<Rightarrow> Done (Errno ENOENT, exe)
            | Inr src_fd \<Rightarrow> pbind (exec_image ctx n src_fd) (\<lambda>i. case i of
                Inl a \<Rightarrow> Done (a, exe)
              | Inr exec_fd \<Rightarrow> pbind (inject_as_path n exec_fd 0 path_ptr) (\<lambda>a. Done (a, Some v)))))))"

section \<open>Write operations\<close>

text \<open>What the branch answers, or that the call goes on to the host.\<close>

definition chroot_branch_result :: "branch_error + bool \<Rightarrow> notif_action option" where
  "chroot_branch_result r = (case r of
     Inr True \<Rightarrow> Some (ReturnValue 0) | Inl QuotaExceeded \<Rightarrow> Some (Errno ENOSPC) | _ \<Rightarrow> None)"

definition chroot_unlink_result :: "int + bool \<Rightarrow> notif_action option" where
  "chroot_unlink_result r = (case r of
     Inr True \<Rightarrow> Some (ReturnValue 0) | Inl errno \<Rightarrow> Some (Errno errno) | Inr False \<Rightarrow> None)"

definition on_branch ::
  "cow_state \<Rightarrow> string \<Rightarrow> (string \<Rightarrow> SeccompCowBranch \<Rightarrow> ('e, bool) updating) \<Rightarrow> ('e + bool \<Rightarrow> notif_action option)
     \<Rightarrow> notif_action prog \<Rightarrow> (notif_action \<times> cow_state) prog" where
  "on_branch st host op res on_host =
     (let s = to_string_lossy host; go_on = (\<lambda>st. pbind on_host (\<lambda>a. Done (a, st))) in
      case st of
        None \<Rightarrow> go_on st
      | Some b \<Rightarrow>
          if cow_matches b s then pbind (op s b) (\<lambda>(r, b). case res r of
            Some a \<Rightarrow> Done (a, Some b) | None \<Rightarrow> go_on (Some b))
          else go_on st)"

text \<open>The shape of the operations on one path.\<close>

definition write_one ::
  "ChrootCtx \<Rightarrow> resolution prog \<Rightarrow> cow_state \<Rightarrow> (string \<Rightarrow> SeccompCowBranch \<Rightarrow> ('e, bool) updating)
     \<Rightarrow> ('e + bool \<Rightarrow> notif_action option) \<Rightarrow> (string \<Rightarrow> fs_req) \<Rightarrow> (notif_action \<times> cow_state) prog" where
  "write_one ctx p st op res f = pbind p (\<lambda>r. case r of
     Inl a \<Rightarrow> Done (a, st)
   | Inr (_, host_path, v) \<Rightarrow>
       if \<not> can_write ctx v then Done (Errno EACCES, st)
       else on_branch st host_path op res (exec_on_host f host_path))"

definition read_two :: "seccomp_notif \<Rightarrow> nat \<Rightarrow> nat \<Rightarrow> (string \<times> string) option prog" where
  "read_two n i j = pbind (chroot_read_path n (arg n i)) (\<lambda>p. case p of
     None \<Rightarrow> Done None
   | Some a \<Rightarrow> pbind (chroot_read_path n (arg n j)) (\<lambda>q. Done (map_option (Pair a) q)))"

definition resolve_two ::
  "ChrootCtx \<Rightarrow> seccomp_notif \<Rightarrow> u64 \<Rightarrow> string \<Rightarrow> u64 \<Rightarrow> string \<Rightarrow> ((string \<times> string) \<times> string \<times> string) option prog" where
  "resolve_two ctx n fd1 p1 fd2 p2 = pbind (resolve_chroot_path ctx n fd1 p1) (\<lambda>a. case a of
     None \<Rightarrow> Done None
   | Some a \<Rightarrow> pbind (resolve_chroot_path ctx n fd2 p2) (\<lambda>b. Done (map_option (Pair a) b)))"

definition two_on_host :: "(string \<Rightarrow> string \<Rightarrow> fs_req) \<Rightarrow> string \<Rightarrow> string \<Rightarrow> notif_action prog" where
  "two_on_host f a b = with_cstr a EINVAL (\<lambda>c. with_cstr b EINVAL (\<lambda>d.
     pbind (fs_try (f c d)) (\<lambda>r. Done (case r of Inl e \<Rightarrow> Errno e | Inr _ \<Rightarrow> ReturnValue 0))))"

definition chroot_rename ::
  "diff \<Rightarrow> ChrootCtx \<Rightarrow> seccomp_notif \<Rightarrow> cow_state \<Rightarrow> (notif_action \<times> cow_state) prog" where
  "chroot_rename diff_paths ctx n st = pbind (read_two n 1 3) (\<lambda>p. case p of
     None \<Rightarrow> Done (Continue, st)
   | Some (old_path, new_path) \<Rightarrow>
       pbind (resolve_two ctx n (arg n 0) old_path (arg n 2) new_path) (\<lambda>r. case r of
         None \<Rightarrow> Done (Errno EACCES, st)
       | Some ((old_host, old_v), new_host, new_v) \<Rightarrow>
           if \<not> can_write ctx old_v \<or> \<not> can_write ctx new_v then Done (Errno EACCES, st)
           else on_branch st old_host (\<lambda>s. handle_rename diff_paths s (to_string_lossy new_host))
             chroot_branch_result (two_on_host FsRename old_host new_host)))"

definition chroot_symlink ::
  "diff \<Rightarrow> ChrootCtx \<Rightarrow> seccomp_notif \<Rightarrow> cow_state \<Rightarrow> (notif_action \<times> cow_state) prog" where
  "chroot_symlink diff_paths ctx n st = pbind (read_two n 0 2) (\<lambda>p. case p of
     None \<Rightarrow> Done (Continue, st)
   | Some (target, linkpath) \<Rightarrow> pbind (resolve_chroot_path ctx n (arg n 1) linkpath) (\<lambda>r. case r of
       None \<Rightarrow> Done (Errno EACCES, st)
     | Some (host_link, link_v) \<Rightarrow>
         if \<not> can_write ctx link_v then Done (Errno EACCES, st)
         else on_branch st host_link (handle_symlink diff_paths target) chroot_branch_result
           (two_on_host FsSymlink target host_link)))"

definition chroot_link ::
  "diff \<Rightarrow> ChrootCtx \<Rightarrow> seccomp_notif \<Rightarrow> cow_state \<Rightarrow> (notif_action \<times> cow_state) prog" where
  "chroot_link diff_paths ctx n st = pbind (read_two n 1 3) (\<lambda>p. case p of
     None \<Rightarrow> Done (Continue, st)
   | Some (old_path, new_path) \<Rightarrow>
       pbind (resolve_two ctx n (arg n 0) old_path (arg n 2) new_path) (\<lambda>r. case r of
         None \<Rightarrow> Done (Errno EACCES, st)
       | Some ((old_host, _), new_host, new_v) \<Rightarrow>
           if \<not> can_write ctx new_v then Done (Errno EACCES, st)
           else on_branch st new_host (handle_link diff_paths (to_string_lossy old_host)) chroot_branch_result
             (two_on_host (\<lambda>a b. FsLinkat a b (as_i32 (arg n 4))) old_host new_host)))"

definition handle_chroot_write ::
  "diff \<Rightarrow> ChrootCtx \<Rightarrow> seccomp_notif \<Rightarrow> cow_state \<Rightarrow> (notif_action \<times> cow_state) prog" where
  "handle_chroot_write diff_paths ctx n st =
     (let nr = notif_nr n; path = read_and_resolve ctx n 0 1 in
      if nr = SYS_unlinkat then
        let is_dir = open_flags (arg n 2) 0x200 in
        write_one ctx path st (\<lambda>s. handle_unlink diff_paths s is_dir) chroot_unlink_result
          (if is_dir then FsRmdir else FsRemoveFile)
      else if nr = SYS_mkdirat then
        write_one ctx path st (handle_mkdir diff_paths) chroot_branch_result (\<lambda>p. FsMkdir p (as_u32 (arg n 2)))
      else if nr = SYS_renameat2 then chroot_rename diff_paths ctx n st
      else if nr = SYS_symlinkat then chroot_symlink diff_paths ctx n st
      else if nr = SYS_linkat then chroot_link diff_paths ctx n st
      else if nr = SYS_fchmodat then
        let mode = as_u32 (arg n 2 AND 0xFFF) in
        write_one ctx path st (\<lambda>s. handle_chmod diff_paths s mode) chroot_branch_result
          (\<lambda>p. FsSetPermissions p mode)
      else if nr = SYS_fchownat then
        let uid = as_u32 (arg n 2); gid = as_u32 (arg n 3) in
        write_one ctx path st (\<lambda>s. handle_chown diff_paths s uid gid) chroot_branch_result
          (\<lambda>p. FsChown p uid gid)
      else if nr = SYS_truncate then
        write_one ctx (resolve_at (resolve_chroot_path ctx n cwd_arg) EACCES n (arg n 0)) st
          (\<lambda>s. handle_truncate diff_paths s (arg n 1)) chroot_branch_result
          (\<lambda>p. FsTruncate p (sint (arg n 1)))
      else Done (Continue, st))"

section \<open>The old calls\<close>

definition notif_with_args :: "seccomp_notif \<Rightarrow> u64 list \<Rightarrow> seccomp_notif" where
  "notif_with_args n args = n\<lparr>notif_data := (notif_data n)\<lparr>args_of := args\<rparr>\<rparr>"

definition with_nr :: "int \<Rightarrow> seccomp_notif \<Rightarrow> seccomp_notif" where
  "with_nr nr n = n\<lparr>notif_data := (notif_data n)\<lparr>nr_of := word_of_int nr\<rparr>\<rparr>"

definition handle_chroot_legacy_open ::
  "diff \<Rightarrow> ChrootCtx \<Rightarrow> seccomp_notif \<Rightarrow> cow_state \<Rightarrow> (notif_action \<times> cow_state) prog" where
  "handle_chroot_legacy_open diff_paths ctx n =
     handle_chroot_open diff_paths ctx (notif_with_args n [cwd_arg, arg n 0, arg n 1, arg n 2, 0, 0])"

definition handle_chroot_legacy_unlink ::
  "diff \<Rightarrow> ChrootCtx \<Rightarrow> seccomp_notif \<Rightarrow> cow_state \<Rightarrow> (notif_action \<times> cow_state) prog" where
  "handle_chroot_legacy_unlink diff_paths ctx n = handle_chroot_write diff_paths ctx
     (with_nr SYS_unlinkat (notif_with_args n [cwd_arg, arg n 0, 0, 0, 0, 0]))"

definition handle_chroot_legacy_rmdir ::
  "diff \<Rightarrow> ChrootCtx \<Rightarrow> seccomp_notif \<Rightarrow> cow_state \<Rightarrow> (notif_action \<times> cow_state) prog" where
  "handle_chroot_legacy_rmdir diff_paths ctx n = handle_chroot_write diff_paths ctx
     (with_nr SYS_unlinkat (notif_with_args n [cwd_arg, arg n 0, 0x200, 0, 0, 0]))"

definition handle_chroot_legacy_mkdir ::
  "diff \<Rightarrow> ChrootCtx \<Rightarrow> seccomp_notif \<Rightarrow> cow_state \<Rightarrow> (notif_action \<times> cow_state) prog" where
  "handle_chroot_legacy_mkdir diff_paths ctx n = handle_chroot_write diff_paths ctx
     (with_nr SYS_mkdirat (notif_with_args n [cwd_arg, arg n 0, arg n 1, 0, 0, 0]))"

definition handle_chroot_legacy_rename ::
  "diff \<Rightarrow> ChrootCtx \<Rightarrow> seccomp_notif \<Rightarrow> cow_state \<Rightarrow> (notif_action \<times> cow_state) prog" where
  "handle_chroot_legacy_rename diff_paths ctx n = handle_chroot_write diff_paths ctx
     (with_nr SYS_renameat2 (notif_with_args n [cwd_arg, arg n 0, cwd_arg, arg n 1, 0, 0]))"

definition handle_chroot_legacy_symlink ::
  "diff \<Rightarrow> ChrootCtx \<Rightarrow> seccomp_notif \<Rightarrow> cow_state \<Rightarrow> (notif_action \<times> cow_state) prog" where
  "handle_chroot_legacy_symlink diff_paths ctx n = handle_chroot_write diff_paths ctx
     (with_nr SYS_symlinkat (notif_with_args n [arg n 0, cwd_arg, arg n 1, 0, 0, 0]))"

definition handle_chroot_legacy_link ::
  "diff \<Rightarrow> ChrootCtx \<Rightarrow> seccomp_notif \<Rightarrow> cow_state \<Rightarrow> (notif_action \<times> cow_state) prog" where
  "handle_chroot_legacy_link diff_paths ctx n = handle_chroot_write diff_paths ctx
     (with_nr SYS_linkat (notif_with_args n [cwd_arg, arg n 0, cwd_arg, arg n 1, 0, 0]))"

definition handle_chroot_legacy_chmod ::
  "diff \<Rightarrow> ChrootCtx \<Rightarrow> seccomp_notif \<Rightarrow> cow_state \<Rightarrow> (notif_action \<times> cow_state) prog" where
  "handle_chroot_legacy_chmod diff_paths ctx n = handle_chroot_write diff_paths ctx
     (with_nr SYS_fchmodat (notif_with_args n [cwd_arg, arg n 0, arg n 1, 0, 0, 0]))"

definition handle_chroot_legacy_chown ::
  "diff \<Rightarrow> ChrootCtx \<Rightarrow> seccomp_notif \<Rightarrow> cow_state \<Rightarrow> bool \<Rightarrow> (notif_action \<times> cow_state) prog" where
  "handle_chroot_legacy_chown diff_paths ctx n st nofollow = handle_chroot_write diff_paths ctx
     (with_nr SYS_fchownat (notif_with_args n
       [cwd_arg, arg n 0, arg n 1, arg n 2, if nofollow then 0x100 else 0, 0])) st"

end
