(* ===== verification/ChrootQueries.thy ===== *)
theory ChrootQueries
  imports ChrootHandlers Dispatch
begin

text \<open>
  The rest of \<open>chroot/dispatch.rs\<close>: \<open>stat\<close>, \<open>access\<close>, \<open>statx\<close>, \<open>readlink\<close>, \<open>getdents\<close>, \<open>chdir\<close>,
  \<open>getcwd\<close>, \<open>statfs\<close>, \<open>utimensat\<close>, and the table that gives each registered chroot handler of
  \<open>Dispatch\<close> its function.
\<close>

unbundle bit_operations_syntax

section \<open>stat, access, statx\<close>

text \<open>\<open>struct stat\<close> of x86-64 from the fields of the metadata: device, inode, links, mode, owner, group,
  padding, device number, size, block size, blocks, times, and 24 reserved bytes.\<close>

definition pack_stat :: "int \<Rightarrow> bytes \<Rightarrow> bytes" where
  "pack_stat size_of m =
     (let f = (\<lambda>i k. take k (drop i (m @ replicate 108 0))) in
      f 12 8 @ f 4 8 @ f 20 8 @ f 0 4 @ f 28 4 @ f 32 4 @ replicate 4 0
      @ f 36 8 @ le_bytes 8 (word_of_int size_of :: u64) @ f 44 8 @ f 52 8 @ f 60 48 @ replicate 24 0)"

abbreviation (input) AT_SYMLINK_NOFOLLOW :: "'a::numeral" where "AT_SYMLINK_NOFOLLOW \<equiv> 0x100"

definition stat_and_write :: "seccomp_notif \<Rightarrow> string \<Rightarrow> notif_action prog" where
  "stat_and_write n path =
     pbind (syscall (KFs ((if open_flags (arg n 3) AT_SYMLINK_NOFOLLOW then FsSymlinkMetadata else FsMetadata) path)))
       (\<lambda>x. case x of
         Inl _ \<Rightarrow> Done (Errno ENOENT)
       | Inr (size_of, m) \<Rightarrow> answer_bytes n (arg n 2) (pack_stat size_of m) 0)"

definition handle_chroot_stat ::
  "diff \<Rightarrow> ChrootCtx \<Rightarrow> seccomp_notif \<Rightarrow> cow_state \<Rightarrow> notif_action prog" where
  "handle_chroot_stat diff_paths ctx n st =
     (if open_flags (arg n 3) AT_EMPTY_PATH then Done Continue
      else pbind (read_and_resolve_existing ctx n 0 1) (\<lambda>r. case r of
        Inl a \<Rightarrow> Done a
      | Inr (_, host_path, v) \<Rightarrow>
          if \<not> can_read ctx v then Done (Errno EACCES)
          else pbind (cow_resolve diff_paths st host_path) (\<lambda>c. case c of
            Inl a \<Rightarrow> Done a
          | Inr real_path \<Rightarrow>
              if notif_nr n = SYS_faccessat \<or> notif_nr n = SYS_faccessat2 then
                pbind (present real_path) (\<lambda>p. Done (if p then ReturnValue 0 else Errno ENOENT))
              else stat_and_write n real_path)))"

definition handle_chroot_statx ::
  "diff \<Rightarrow> ChrootCtx \<Rightarrow> seccomp_notif \<Rightarrow> cow_state \<Rightarrow> notif_action prog" where
  "handle_chroot_statx diff_paths ctx n st =
     (if open_flags (arg n 2) AT_EMPTY_PATH then Done Continue
      else pbind (chroot_read_path n (arg n 1)) (\<lambda>p. case p of
        None \<Rightarrow> Done Continue
      | Some path \<Rightarrow>
          if path = [] then Done Continue
          else pbind (resolve_chroot_path_existing ctx n (arg n 0) path) (\<lambda>r. case r of
            None \<Rightarrow> Done (Errno ENOENT)
          | Some (host_path, v) \<Rightarrow>
              if \<not> can_read ctx v then Done (Errno EACCES)
              else pbind (cow_resolve diff_paths st host_path) (\<lambda>c. case c of
                Inl a \<Rightarrow> Done a
              | Inr real_path \<Rightarrow> with_cstr real_path ENOENT (\<lambda>c.
                  pbind (syscall (KFs (FsStatx c (as_i32 (arg n 2)) (as_u32 (arg n 3))))) (\<lambda>x. case x of
                    Inl e \<Rightarrow> Done (Errno e)
                  | Inr (_, out) \<Rightarrow> answer_bytes n (arg n 4) (take 256 (out @ replicate 256 0)) 0))))))"

section \<open>readlink\<close>

definition write_target :: "seccomp_notif \<Rightarrow> string \<Rightarrow> notif_action prog" where
  "write_target n target = (let out = take (unat (arg n 3 AND 0xFFFFFFFF)) (bytes_of_string target)
     in answer_bytes n (arg n 2) out (int (length out)))"

definition readlink_exe :: "ChrootCtx \<Rightarrow> seccomp_notif \<Rightarrow> string option \<Rightarrow> notif_action prog" where
  "readlink_exe ctx n exe = (case exe of
     Some e \<Rightarrow> write_target n (to_string_lossy e)
   | None \<Rightarrow> pbind (syscall (KReadlink (proc_dir (notif_pid n) @ ''/exe''))) (\<lambda>x. case x of
       Inl _ \<Rightarrow> Done Continue
     | Inr (_, real) \<Rightarrow> let real_exe = string_of_bytes real in
         write_target n (to_string_lossy (case host_to_virtual ctx real_exe of
           Some v \<Rightarrow> v | None \<Rightarrow> real_exe))))"

text \<open>The host path of the link itself: the resolved parent, and the name.\<close>

definition link_host_path :: "ChrootCtx \<Rightarrow> string \<Rightarrow> (notif_action + string) prog" where
  "link_host_path ctx full_path =
     (let confined = confine full_path;
          parent = (case path_parent confined of Some p \<Rightarrow> p | None \<Rightarrow> ''/'')
      in case path_file_name confined of
        None \<Rightarrow> Done (Inl (Errno EINVAL))
      | Some file_name \<Rightarrow>
          let (dir, path) = open_target ctx parent (if utf8_valid parent then parent else ''/'')
          in pbind (resolve_in_root dir path) (\<lambda>r. Done (case r of
               None \<Rightarrow> Inl (Errno EACCES)
             | Some (parent_host, _) \<Rightarrow> Inr (path_push parent_host file_name))))"

definition read_host_link :: "ChrootCtx \<Rightarrow> seccomp_notif \<Rightarrow> string \<Rightarrow> notif_action prog" where
  "read_host_link ctx n host_path = pbind (syscall (KReadlink host_path)) (\<lambda>x. case x of
     Inl _ \<Rightarrow> Done (Errno ENOENT)
   | Inr (_, out) \<Rightarrow> let target = string_of_bytes out in
       write_target n (to_string_lossy (if is_absolute target then
         (case host_to_virtual ctx target of Some v \<Rightarrow> v | None \<Rightarrow> target) else target)))"

definition handle_chroot_readlink ::
  "diff \<Rightarrow> ChrootCtx \<Rightarrow> seccomp_notif \<Rightarrow> string option \<Rightarrow> cow_state \<Rightarrow> notif_action prog" where
  "handle_chroot_readlink diff_paths ctx n exe st =
     pbind (chroot_read_path n (arg n 1)) (\<lambda>p. case p of
       None \<Rightarrow> Done Continue
     | Some path \<Rightarrow>
         if path = ''/proc/self/root'' then write_target n ''/''
         else if path = ''/proc/self/exe'' then readlink_exe ctx n exe
         else pbind (build_virtual_path ctx n (arg n 0) path) (\<lambda>f. case f of
           None \<Rightarrow> Done (Errno EACCES)
         | Some full_path \<Rightarrow> pbind (link_host_path ctx full_path) (\<lambda>h. case h of
             Inl a \<Rightarrow> Done a
           | Inr host_path \<Rightarrow> (case st of
               None \<Rightarrow> read_host_link ctx n host_path
             | Some b \<Rightarrow> let host_str = to_string_lossy host_path in
                 if cow_matches b host_str then pbind (handle_readlink diff_paths b host_str) (\<lambda>t. case t of
                   None \<Rightarrow> Done (Errno ENOENT) | Some target \<Rightarrow> write_target n target)
                 else read_host_link ctx n host_path))))"

section \<open>Directories\<close>

definition handle_chroot_getdents :: "notif_action prog" where
  "handle_chroot_getdents = Done Continue"

definition handle_chroot_chdir :: "ChrootCtx \<Rightarrow> seccomp_notif \<Rightarrow> notif_action prog" where
  "handle_chroot_chdir ctx n =
     pbind (chroot_read_path n (arg n 0)) (\<lambda>p. case p of
       None \<Rightarrow> Done Continue
     | Some path \<Rightarrow> pbind (build_virtual_path ctx n cwd_arg path) (\<lambda>f. case f of
         None \<Rightarrow> Done (Errno EACCES)
       | Some full_path \<Rightarrow>
           let (dir, sub) = open_target ctx (confine full_path) full_path
           in pbind (openat2_in_root dir sub 0x90000 0) (\<lambda>r. case r of
                Inl errno \<Rightarrow> Done (Errno errno)
              | Inr src_fd \<Rightarrow> inject_as_path n src_fd O_CLOEXEC (arg n 0))))"

definition handle_chroot_getcwd :: "ChrootCtx \<Rightarrow> seccomp_notif \<Rightarrow> notif_action prog" where
  "handle_chroot_getcwd ctx n = pbind (syscall (KReadlink (proc_dir (notif_pid n) @ ''/cwd''))) (\<lambda>x. case x of
     Inl _ \<Rightarrow> Done Continue
   | Inr (_, cwd) \<Rightarrow>
       let v = (case host_to_virtual ctx (string_of_bytes cwd) of Some v \<Rightarrow> v | None \<Rightarrow> ''/'');
           out = bytes_of_string (to_string_lossy v) @ [0]
       in if unat (arg n 1 AND 0xFFFFFFFF) < length out then Done (Errno ERANGE)
          else answer_bytes n (arg n 0) out (int (length out)))"

text \<open>\<open>struct statfs\<close> has 120 bytes.\<close>

definition handle_chroot_statfs :: "ChrootCtx \<Rightarrow> seccomp_notif \<Rightarrow> notif_action prog" where
  "handle_chroot_statfs ctx n =
     pbind (resolve_at (resolve_chroot_path_existing ctx n cwd_arg) ENOENT n (arg n 0)) (\<lambda>r. case r of
       Inl a \<Rightarrow> Done a
     | Inr (_, host_path, _) \<Rightarrow> with_cstr host_path ENOENT (\<lambda>c.
         pbind (syscall (KFs (FsStatfs c))) (\<lambda>x. case x of
           Inl e \<Rightarrow> Done (Errno e)
         | Inr (_, out) \<Rightarrow> answer_bytes n (arg n 1) (take 120 (out @ replicate 120 0)) 0)))"

section \<open>utimensat\<close>

definition touch_path :: "string \<Rightarrow> bytes option \<Rightarrow> int \<Rightarrow> notif_action prog" where
  "touch_path real_path ts flags = with_cstr real_path ENOENT (\<lambda>c.
     pbind (fs_try (FsUtimensat c ts flags)) (\<lambda>r. Done (case r of Inl e \<Rightarrow> Errno e | Inr _ \<Rightarrow> ReturnValue 0)))"

definition handle_chroot_utimensat ::
  "diff \<Rightarrow> ChrootCtx \<Rightarrow> seccomp_notif \<Rightarrow> cow_state \<Rightarrow> notif_action prog" where
  "handle_chroot_utimensat diff_paths ctx n st =
     (if arg n 1 = 0 then Done Continue
      else pbind (read_and_resolve ctx n 0 1) (\<lambda>r. case r of
        Inl a \<Rightarrow> Done a
      | Inr (_, host_path, v) \<Rightarrow>
          if \<not> can_write ctx v then Done (Errno EACCES)
          else pbind (cow_resolve diff_paths st host_path) (\<lambda>c. case c of
            Inl a \<Rightarrow> Done a
          | Inr real_path \<Rightarrow>
              if arg n 2 = 0 then touch_path real_path None (as_i32 (arg n 3))
              else pbind (read_child_mem (notif_id n) (notif_pid n) (arg n 2) 32) (\<lambda>m. case m of
                Inl _ \<Rightarrow> Done (Errno EFAULT)
              | Inr data \<Rightarrow> touch_path real_path (Some (take 32 (data @ replicate 32 0))) (as_i32 (arg n 3))))))"

section \<open>The old calls\<close>

definition handle_chroot_legacy_stat ::
  "diff \<Rightarrow> ChrootCtx \<Rightarrow> seccomp_notif \<Rightarrow> cow_state \<Rightarrow> notif_action prog" where
  "handle_chroot_legacy_stat diff_paths ctx n =
     handle_chroot_stat diff_paths ctx (notif_with_args n [cwd_arg, arg n 0, arg n 1, 0, 0, 0])"

definition handle_chroot_legacy_lstat ::
  "diff \<Rightarrow> ChrootCtx \<Rightarrow> seccomp_notif \<Rightarrow> cow_state \<Rightarrow> notif_action prog" where
  "handle_chroot_legacy_lstat diff_paths ctx n =
     handle_chroot_stat diff_paths ctx (notif_with_args n [cwd_arg, arg n 0, arg n 1, AT_SYMLINK_NOFOLLOW, 0, 0])"

definition handle_chroot_legacy_access ::
  "diff \<Rightarrow> ChrootCtx \<Rightarrow> seccomp_notif \<Rightarrow> cow_state \<Rightarrow> notif_action prog" where
  "handle_chroot_legacy_access diff_paths ctx n = handle_chroot_stat diff_paths ctx
     (with_nr SYS_faccessat (notif_with_args n [cwd_arg, arg n 0, 0, 0, 0, 0]))"

definition handle_chroot_legacy_readlink ::
  "diff \<Rightarrow> ChrootCtx \<Rightarrow> seccomp_notif \<Rightarrow> string option \<Rightarrow> cow_state \<Rightarrow> notif_action prog" where
  "handle_chroot_legacy_readlink diff_paths ctx n =
     handle_chroot_readlink diff_paths ctx (notif_with_args n [cwd_arg, arg n 0, arg n 1, arg n 2, 0, 0])"

section \<open>The table\<close>

text \<open>The state the handlers share: the branch, and the recorded executable.\<close>

type_synonym chroot_state = "cow_state \<times> string option"

definition with_branch_state ::
  "string option \<Rightarrow> (notif_action \<times> cow_state) prog \<Rightarrow> (notif_action \<times> chroot_state) prog" where
  "with_branch_state exe p = pbind p (\<lambda>(a, st). Done (a, st, exe))"

definition query :: "chroot_state \<Rightarrow> notif_action prog \<Rightarrow> (notif_action \<times> chroot_state) prog" where
  "query s p = pbind p (\<lambda>a. Done (a, s))"

fun run_chroot ::
  "diff \<Rightarrow> ChrootCtx \<Rightarrow> chroot_handler \<Rightarrow> seccomp_notif \<Rightarrow> chroot_state \<Rightarrow> (notif_action \<times> chroot_state) prog" where
  "run_chroot d ctx Chroot_open n (st, exe) = with_branch_state exe (handle_chroot_open d ctx n st)"
| "run_chroot d ctx Chroot_legacy_open n (st, exe) = with_branch_state exe (handle_chroot_legacy_open d ctx n st)"
| "run_chroot d ctx Chroot_exec n (st, exe) = pbind (handle_chroot_exec ctx n exe) (\<lambda>(a, e). Done (a, st, e))"
| "run_chroot d ctx Chroot_write n (st, exe) = with_branch_state exe (handle_chroot_write d ctx n st)"
| "run_chroot d ctx Chroot_legacy_unlink n (st, exe) = with_branch_state exe (handle_chroot_legacy_unlink d ctx n st)"
| "run_chroot d ctx Chroot_legacy_rmdir n (st, exe) = with_branch_state exe (handle_chroot_legacy_rmdir d ctx n st)"
| "run_chroot d ctx Chroot_legacy_mkdir n (st, exe) = with_branch_state exe (handle_chroot_legacy_mkdir d ctx n st)"
| "run_chroot d ctx Chroot_legacy_rename n (st, exe) = with_branch_state exe (handle_chroot_legacy_rename d ctx n st)"
| "run_chroot d ctx Chroot_legacy_symlink n (st, exe) = with_branch_state exe (handle_chroot_legacy_symlink d ctx n st)"
| "run_chroot d ctx Chroot_legacy_link n (st, exe) = with_branch_state exe (handle_chroot_legacy_link d ctx n st)"
| "run_chroot d ctx Chroot_legacy_chmod n (st, exe) = with_branch_state exe (handle_chroot_legacy_chmod d ctx n st)"
| "run_chroot d ctx (Chroot_legacy_chown nofollow) n (st, exe) =
     with_branch_state exe (handle_chroot_legacy_chown d ctx n st nofollow)"
| "run_chroot d ctx Chroot_stat n (st, exe) = query (st, exe) (handle_chroot_stat d ctx n st)"
| "run_chroot d ctx Chroot_legacy_stat n (st, exe) = query (st, exe) (handle_chroot_legacy_stat d ctx n st)"
| "run_chroot d ctx Chroot_legacy_lstat n (st, exe) = query (st, exe) (handle_chroot_legacy_lstat d ctx n st)"
| "run_chroot d ctx Chroot_legacy_access n (st, exe) = query (st, exe) (handle_chroot_legacy_access d ctx n st)"
| "run_chroot d ctx Chroot_statx n (st, exe) = query (st, exe) (handle_chroot_statx d ctx n st)"
| "run_chroot d ctx Chroot_readlink n (st, exe) = query (st, exe) (handle_chroot_readlink d ctx n exe st)"
| "run_chroot d ctx Chroot_legacy_readlink n (st, exe) = query (st, exe) (handle_chroot_legacy_readlink d ctx n exe st)"
| "run_chroot d ctx Chroot_getdents n (st, exe) = query (st, exe) handle_chroot_getdents"
| "run_chroot d ctx Chroot_chdir n (st, exe) = query (st, exe) (handle_chroot_chdir ctx n)"
| "run_chroot d ctx Chroot_getcwd n (st, exe) = query (st, exe) (handle_chroot_getcwd ctx n)"
| "run_chroot d ctx Chroot_statfs n (st, exe) = query (st, exe) (handle_chroot_statfs ctx n)"
| "run_chroot d ctx Chroot_utimensat n (st, exe) = query (st, exe) (handle_chroot_utimensat d ctx n st)"

end
