(* ===== verification/ChrootAccess.thy ===== *)
theory ChrootAccess
  imports ChrootQueries
begin

text \<open>
  What the chroot handlers keep to: a file is opened below the root or the directory of a mount, and a
  path that is changed belongs to a virtual path the policy lets the child write. The last sections
  show where the policy is not looked at, or not enough.
\<close>

unbundle bit_operations_syntax

section \<open>Virtual and host paths\<close>

text \<open>The host path is the virtual path's below the root, or lies in the directory of its mount.\<close>

definition backs :: "ChrootCtx \<Rightarrow> string \<Rightarrow> string \<Rightarrow> bool" where
  "backs ctx h v \<longleftrightarrow> to_virtual_path (root ctx) h = Some v \<or>
     (\<exists>mt sub. mount_target ctx v = Some (mt, sub) \<and> path_starts_with h mt)"

definition chroot_dirs :: "ChrootCtx \<Rightarrow> string set" where
  "chroot_dirs ctx = str_or_empty ` insert (root ctx) (snd ` set (mounts ctx))"

lemma to_virtual_path_starts: "to_virtual_path d h = Some v \<Longrightarrow> path_starts_with h d"
  by (simp add: to_virtual_path_def path_starts_with_def Let_def split: if_splits)

lemma pieces_snoc: "plain_segment f \<Longrightarrow> normal_pieces (p @ CHR ''/'' # f) = normal_pieces p @ [f]"
  by (simp add: normal_pieces_def split_on_append split_on_plain plain_segment_def)

lemma pieces_slash: "normal_pieces (p @ [CHR ''/'']) = normal_pieces p"
  by (simp add: normal_pieces_def split_on_append)

lemma hd_split_append: "hd (split_on c (p @ c # q)) = hd (split_on c p)"
  by (simp add: split_on_append)

lemma components_push:
  assumes "plain_segment f"
  shows "path_components (path_push p f) = path_components p @ [Normal f]"
proof -
  have f: "\<not> is_absolute f" "CHR ''/'' \<notin> set f" "f \<noteq> []" "f \<noteq> ''.''" "component_of f = Normal f"
    using assms plain_relative by (auto simp: plain_segment_def component_of_def)
  have abs: "is_absolute (q @ CHR ''/'' # r) = is_absolute (q @ [CHR ''/''])" for q r
    by (cases q) (simp_all add: is_absolute_def)
  have below: "path_components (q @ CHR ''/'' # f) = path_components (q @ [CHR ''/'']) @ [Normal f]" for q
    by (simp add: path_components_def abs [of q f] pieces_snoc [OF assms] pieces_slash hd_split_append f(5))
  show ?thesis
  proof (cases p rule: rev_cases)
    case Nil
    have "\<not> is_absolute []" by (simp add: is_absolute_def)
    with Nil f show ?thesis by (simp add: path_push_def path_components_def normal_pieces_def split_on_plain)
  next
    case (snoc q c)
    show ?thesis
    proof (cases "c = CHR ''/''")
      case True
      with snoc below [of q] f show ?thesis by (simp add: path_push_def)
    next
      case False
      have "path_components (p @ [CHR ''/'']) = path_components p"
      proof -
        have "is_absolute (p @ [CHR ''/'']) = is_absolute p" using snoc by (simp add: is_absolute_def hd_append)
        then show ?thesis by (simp only: path_components_def pieces_slash hd_split_append [of _ p "[]"])
      qed
      with snoc False below [of p] f show ?thesis by (simp add: path_push_def)
    qed
  qed
qed

lemma push_push:
  assumes "plain_segment f"
  shows "path_push ''/'' (path_push x f) = path_push (path_push ''/'' x) f"
  using assms plain_relative [OF assms]
  by (cases x) (auto simp: path_push_def is_absolute_def plain_segment_def)

lemma to_virtual_push:
  assumes "to_virtual_path d p = Some v" "plain_segment f"
  shows "to_virtual_path d (path_push p f) = Some (path_push v f)"
  using assms
  by (auto simp: to_virtual_path_def Let_def components_push push_push dest: prefix_length_le split: if_splits)

lemma starts_push: "path_starts_with p d \<Longrightarrow> plain_segment f \<Longrightarrow> path_starts_with (path_push p f) d"
  by (simp add: path_starts_with_def components_push)

lemma file_name_plain: "path_file_name (confine p) = Some f \<Longrightarrow> plain_segment f"
  using resolved_plain [of p]
  by (cases "resolved p" rule: rev_cases) (auto simp: path_file_name_def components_confine)

lemma mount_target_dir: "mount_target ctx v = Some (mt, sub) \<Longrightarrow> mt \<in> snd ` set (mounts ctx)"
proof -
  assume "mount_target ctx v = Some (mt, sub)"
  then obtain vp where "foldl (better_mount v) None (mounts ctx) = Some (vp, mt)"
    by (auto simp: mount_target_def bind_eq_Some_conv)
  moreover have "foldl (better_mount v) best ms = Some m \<Longrightarrow> m \<in> set ms \<or> best = Some m" for best ms m
    by (induction ms arbitrary: best) (auto simp: better_mount_def split: if_splits)
  ultimately have "(vp, mt) \<in> set (mounts ctx)" by force
  then show ?thesis by force
qed

section \<open>Staying below the root\<close>

text \<open>The paths a request writes to. The source of a hard link is not among them: see
  \<open>link_source_unchecked\<close>.\<close>

definition written :: "fs_req \<Rightarrow> string list" where
  "written q = (case q of FsLinkat a p fl \<Rightarrow> [p] | _ \<Rightarrow> fs_changes q)"

definition permitted :: "ChrootCtx \<Rightarrow> string \<Rightarrow> bool" where
  "permitted ctx p \<longleftrightarrow> p = [] \<or> (\<exists>v. can_write ctx v \<and> backs ctx p v)"

text \<open>Directories of the root and the mounts are opened by name, everything else below a descriptor of one
  of them; what is written to is permitted.\<close>

definition confined_to :: "ChrootCtx \<Rightarrow> history \<Rightarrow> sysreq \<Rightarrow> bool" where
  "confined_to ctx h r = (case r of
     KFs (FsOpenat2 d p fl m) \<Rightarrow>
       \<exists>c x. c \<in> chroot_dirs ctx \<and> (KFs (FsOpen c 0x90000 0), Inr (d, x)) \<in> set h
   | KFs (FsOpen c fl m) \<Rightarrow> c \<in> chroot_dirs ctx \<and> fl = 0x90000
   | KFs q \<Rightarrow> list_all (permitted ctx) (written q)
   | _ \<Rightarrow> True)"

definition keeps :: "ChrootCtx \<Rightarrow> ('a \<Rightarrow> bool) \<Rightarrow> 'a prog \<Rightarrow> bool" where
  "keeps ctx Q p \<longleftrightarrow> (\<forall>h. safe (confined_to ctx) (\<lambda>_. Q) h p)"

named_theorems keeps_rules

lemma keeps_Done [simp]: "keeps ctx Q (Done a) \<longleftrightarrow> Q a"
  by (simp add: keeps_def)

lemma keeps_pbind:
  "keeps ctx Q' p \<Longrightarrow> (\<And>a. Q' a \<Longrightarrow> keeps ctx Q (f a)) \<Longrightarrow> keeps ctx Q (pbind p f)"
  unfolding keeps_def safe_pbind by (blast intro: safe_mono)

lemma keeps_then: "keeps ctx (\<lambda>_. True) p \<Longrightarrow> (\<And>a. keeps ctx Q (f a)) \<Longrightarrow> keeps ctx Q (pbind p f)"
  by (rule keeps_pbind)

lemma keeps_Call: "(\<And>h. confined_to ctx h r) \<Longrightarrow> (\<And>x. keeps ctx Q (k x)) \<Longrightarrow> keeps ctx Q (Call r k)"
  by (simp add: keeps_def)

lemma keeps_meets: "meets (\<lambda>r. \<forall>h. confined_to ctx h r) Q p \<Longrightarrow> keeps ctx Q p"
  unfolding keeps_def by (induction p) auto

lemma keeps_weaken: "keeps ctx Q p \<Longrightarrow> (\<And>a. Q a \<Longrightarrow> Q' a) \<Longrightarrow> keeps ctx Q' p"
  unfolding keeps_def by (blast intro: safe_mono)

text \<open>Requests that are not about files are always in order.\<close>

lemma confined_simps [simp]:
  "confined_to ctx h (KReadlink p)" "confined_to ctx h (KIo q)" "confined_to ctx h (KIdValid i)"
  "confined_to ctx h (KReadVm pid a len)" "confined_to ctx h (KWriteVm pid a bs)"
  "confined_to ctx h (KNotifAddfd i fl s t fl')"
  "confined_to ctx h (KFs (FsExists p))" "confined_to ctx h (KFs (FsIsSymlink p))"
  "confined_to ctx h (KFs (FsMetadata p))" "confined_to ctx h (KFs (FsSymlinkMetadata p))"
  "confined_to ctx h (KFs (FsStatx p t w))" "confined_to ctx h (KFs (FsStatfs p))"
  "confined_to ctx h (KFs (FsSetLen fd sz))"
  by (simp_all add: confined_to_def written_def)

lemma keeps_harmless: "harmless r \<Longrightarrow> \<forall>h. confined_to ctx h r"
  by (cases r) (simp_all add: confined_to_def)

lemma keeps_read_path [keeps_rules]: "keeps ctx (\<lambda>_. True) (read_path n a)"
  by (rule keeps_meets, rule read_path_meets, rule keeps_harmless)

lemma keeps_read_mem [keeps_rules]: "keeps ctx (\<lambda>_. True) (read_child_mem i p a len)"
  by (rule keeps_meets, rule read_mem_meets, rule keeps_harmless)

lemma keeps_write_mem [keeps_rules]: "keeps ctx (\<lambda>_. True) (write_child_mem i p a bs)"
  by (rule keeps_meets) (auto simp: write_child_mem_def write_child_mem_vm_def id_valid_def split: sum.splits)

lemma keeps_answer [keeps_rules]: "keeps ctx (\<lambda>_. True) (answer_bytes n a out v)"
  unfolding answer_bytes_def by (rule keeps_then [OF keeps_write_mem]) simp

lemma keeps_openat2:
  assumes "str_or_empty d \<in> chroot_dirs ctx"
  shows "keeps ctx (\<lambda>_. True) (openat2_in_root d path fl m)"
proof -
  have "confined_to ctx (h @ [(KFs (FsOpen (str_or_empty d) 0x90000 0), Inr (fd, out))]) (KFs (FsOpenat2 fd p fl m))"
    "confined_to ctx h (KFs (FsOpen (str_or_empty d) 0x90000 0))" for h fd out p
    using assms by (auto simp: confined_to_def)
  then show ?thesis
    by (auto simp: keeps_def openat2_in_root_def Let_def split: sum.split)
qed

lemma keeps_path_of_fd: "keeps ctx (\<lambda>_. True) (path_of_fd fd)"
  by (rule keeps_meets) (simp add: path_of_fd_def)

definition below :: "string \<Rightarrow> (string \<times> string) option \<Rightarrow> bool" where
  "below d r \<longleftrightarrow> (\<forall>h v. r = Some (h, v) \<longrightarrow> to_virtual_path d h = Some v)"

lemma keeps_resolve_existing:
  assumes "str_or_empty d \<in> chroot_dirs ctx"
  shows "keeps ctx (below d) (resolve_existing_in_root d p)"
  unfolding resolve_existing_in_root_def
  by (rule keeps_then [OF keeps_openat2 [OF assms]])
    (auto simp: below_def bind_eq_Some_conv split: sum.split intro!: keeps_then [OF keeps_path_of_fd])

lemma keeps_resolve_in_root:
  assumes "str_or_empty d \<in> chroot_dirs ctx"
  shows "keeps ctx (below d) (resolve_in_root d p)"
proof -
  have "keeps ctx (below d) (resolve_parent_in_root d p)"
    unfolding resolve_parent_in_root_def Let_def
    by (auto simp: below_def bind_eq_Some_conv to_virtual_push [OF _ file_name_plain]
        split: option.split sum.split intro!: keeps_then [OF keeps_openat2 [OF assms]] keeps_then [OF keeps_path_of_fd])
  then show ?thesis
    unfolding resolve_in_root_def
    by (intro keeps_pbind [OF keeps_resolve_existing [OF assms]]) (auto split: option.split)
qed

definition backed :: "ChrootCtx \<Rightarrow> (string \<times> string) option \<Rightarrow> bool" where
  "backed ctx r \<longleftrightarrow> (\<forall>h v. r = Some (h, v) \<longrightarrow> backs ctx h v)"

lemma keeps_in_mount:
  assumes "\<And>d p. str_or_empty d \<in> chroot_dirs ctx \<Longrightarrow> keeps ctx (below d) (resolve d p)"
  shows "keeps ctx (backed ctx) (in_mount resolve ctx p)"
proof (cases "mount_target ctx (confine p)")
  case None
  then show ?thesis by (simp add: in_mount_def backed_def)
next
  case (Some t)
  obtain mt sub where t: "t = (mt, sub)" by (cases t)
  then have "str_or_empty mt \<in> chroot_dirs ctx"
    using mount_target_dir Some unfolding chroot_dirs_def by blast
  from assms [OF this, of sub] show ?thesis
    using Some t to_virtual_path_starts
    by (auto simp: in_mount_def Let_def backed_def backs_def below_def elim!: keeps_pbind)
qed

lemma root_dir: "str_or_empty (root ctx) \<in> chroot_dirs ctx"
  by (simp add: chroot_dirs_def)

lemma below_backed: "below (root ctx) r \<Longrightarrow> backed ctx r"
  by (simp add: below_def backed_def backs_def)

lemma keeps_virtual [keeps_rules]: "keeps ctx (\<lambda>_. True) (build_virtual_path ctx n fd p)"
  by (rule keeps_meets) (simp add: build_virtual_path_def read_base_def)

lemma keeps_resolve:
  "keeps ctx (backed ctx) (resolve_chroot_path ctx n fd p)"
  "keeps ctx (backed ctx) (resolve_chroot_path_existing ctx n fd p)"
proof -
  have two: "keeps ctx (backed ctx) (pbind (build_virtual_path ctx n fd p) (\<lambda>f. case f of
       None \<Rightarrow> Done None
     | Some full_path \<Rightarrow> pbind (in_mount resolve ctx full_path) (\<lambda>r. case r of
         Some hv \<Rightarrow> Done (Some hv) | None \<Rightarrow> resolve (root ctx) full_path)))"
    if resolve: "\<And>d p. str_or_empty d \<in> chroot_dirs ctx \<Longrightarrow> keeps ctx (below d) (resolve d p)" for resolve
  proof -
    have "keeps ctx (backed ctx) (case r of Some hv \<Rightarrow> Done (Some hv) | None \<Rightarrow> resolve (root ctx) q)"
      if "backed ctx r" for r q
      using that keeps_weaken [OF resolve [OF root_dir] below_backed] by (cases r) auto
    then show ?thesis
      by (intro keeps_then [OF keeps_virtual])
        (auto simp: backed_def split: option.split intro: keeps_pbind [OF keeps_in_mount [OF resolve]])
  qed
  show "keeps ctx (backed ctx) (resolve_chroot_path ctx n fd p)"
    unfolding resolve_chroot_path_def resolve_mount_def by (rule two) (rule keeps_resolve_in_root)
  show "keeps ctx (backed ctx) (resolve_chroot_path_existing ctx n fd p)"
    unfolding resolve_chroot_path_existing_def resolve_mount_existing_def by (rule two) (rule keeps_resolve_existing)
qed

section \<open>The handlers\<close>

lemma confined_changes [simp]:
  "confined_to ctx h (KFs (FsRmdir p)) = permitted ctx p" "confined_to ctx h (KFs (FsRemoveFile p)) = permitted ctx p"
  "confined_to ctx h (KFs (FsMkdir p w)) = permitted ctx p" "confined_to ctx h (KFs (FsTruncate p i)) = permitted ctx p"
  "confined_to ctx h (KFs (FsSetPermissions p w)) = permitted ctx p"
  "confined_to ctx h (KFs (FsChown p w w')) = permitted ctx p"
  "confined_to ctx h (KFs (FsUtimensat p ts i)) = permitted ctx p"
  "confined_to ctx h (KFs (FsSymlink t p)) = permitted ctx p"
  "confined_to ctx h (KFs (FsLinkat a p i)) = permitted ctx p"
  "confined_to ctx h (KFs (FsRename a p)) = (permitted ctx a \<and> permitted ctx p)"
  by (simp_all add: confined_to_def written_def)

lemma permitted_text: "permitted ctx p \<Longrightarrow> permitted ctx (str_or_empty p)"
  by (auto simp: str_or_empty_def permitted_def)

lemma permitted_host: "backs ctx h v \<Longrightarrow> can_write ctx v \<Longrightarrow> permitted ctx h"
  by (auto simp: permitted_def)

lemma keeps_cstr: "keeps ctx (\<lambda>_. True) (f (str_or_empty p)) \<Longrightarrow> keeps ctx (\<lambda>_. True) (with_cstr p err f)"
  by (simp add: with_cstr_def path_cstr_def)

lemma keeps_exec_on_host:
  "\<forall>h. confined_to ctx h (KFs (f (str_or_empty p))) \<Longrightarrow> keeps ctx (\<lambda>_. True) (exec_on_host f p)"
  unfolding exec_on_host_def by (intro keeps_cstr keeps_meets) simp

lemma keeps_two_on_host:
  "\<forall>h. confined_to ctx h (KFs (f (str_or_empty p) (str_or_empty q))) \<Longrightarrow> keeps ctx (\<lambda>_. True) (two_on_host f p q)"
  unfolding two_on_host_def by (intro keeps_cstr keeps_meets) simp

definition sound :: "ChrootCtx \<Rightarrow> resolution \<Rightarrow> bool" where
  "sound ctx r \<longleftrightarrow> (\<forall>p h v. r = Inr (p, h, v) \<longrightarrow> backs ctx h v)"

lemma keeps_resolve_at:
  assumes "\<And>p. keeps ctx (backed ctx) (resolve p)"
  shows "keeps ctx (sound ctx) (resolve_at resolve err n a)"
  unfolding resolve_at_def
  by (rule keeps_then [OF keeps_read_path])
    (auto simp: sound_def backed_def split: option.split intro!: keeps_pbind [OF assms])

lemma keeps_read_and_resolve:
  "keeps ctx (sound ctx) (read_and_resolve ctx n i j)" "keeps ctx (sound ctx) (read_and_resolve_existing ctx n i j)"
  unfolding read_and_resolve_def read_and_resolve_existing_def by (intro keeps_resolve_at keeps_resolve)+

lemma keeps_on_branch: "keeps ctx (\<lambda>_. True) p \<Longrightarrow> keeps ctx (\<lambda>_. True) (on_branch None host op res p)"
  by (simp add: on_branch_def keeps_then)

lemma keeps_write_one:
  assumes "keeps ctx (sound ctx) p" "\<And>q h. permitted ctx q \<Longrightarrow> confined_to ctx h (KFs (f q))"
  shows "keeps ctx (\<lambda>_. True) (write_one ctx p None op res f)"
  unfolding write_one_def
  by (rule keeps_pbind [OF assms(1)])
    (auto simp: sound_def split: sum.split
      intro!: keeps_on_branch keeps_exec_on_host assms(2) permitted_text permitted_host)

lemma keeps_read_two: "keeps ctx (\<lambda>_. True) (read_two n i j)"
  unfolding read_two_def
  by (auto intro!: keeps_then [OF keeps_read_path] split: option.split)

lemma keeps_resolve_two:
  "keeps ctx (\<lambda>r. \<forall>h v h' v'. r = Some ((h, v), h', v') \<longrightarrow> backs ctx h v \<and> backs ctx h' v') (resolve_two ctx n a p b q)"
  unfolding resolve_two_def
  by (rule keeps_pbind [OF keeps_resolve(1)])
    (auto simp: backed_def split: option.split intro!: keeps_pbind [OF keeps_resolve(1)])

lemma keeps_rename: "keeps ctx (\<lambda>_. True) (chroot_rename d ctx n None)"
  unfolding chroot_rename_def
  by (rule keeps_then [OF keeps_read_two])
    (auto split: option.split intro!: keeps_pbind [OF keeps_resolve_two] keeps_on_branch keeps_two_on_host permitted_text
      permitted_host)

lemma keeps_link: "keeps ctx (\<lambda>_. True) (chroot_link d ctx n None)"
  unfolding chroot_link_def
  by (rule keeps_then [OF keeps_read_two])
    (auto split: option.split intro!: keeps_pbind [OF keeps_resolve_two] keeps_on_branch keeps_two_on_host permitted_text
      permitted_host)

lemma keeps_symlink: "keeps ctx (\<lambda>_. True) (chroot_symlink d ctx n None)"
  unfolding chroot_symlink_def
  by (rule keeps_then [OF keeps_read_two])
    (auto simp: backed_def split: option.split
      intro!: keeps_pbind [OF keeps_resolve(1)] keeps_on_branch keeps_two_on_host permitted_text
      permitted_host)

lemma keeps_write: "keeps ctx (\<lambda>_. True) (handle_chroot_write d ctx n None)"
  unfolding handle_chroot_write_def Let_def
  by (auto intro!: keeps_write_one keeps_read_and_resolve keeps_resolve_at keeps_resolve
      keeps_rename keeps_link keeps_symlink)

lemma open_target_dir: "str_or_empty (fst (open_target ctx v p)) \<in> chroot_dirs ctx"
  using root_dir mount_target_dir [of ctx v]
  by (auto simp: open_target_def chroot_dirs_def split: option.split)

lemma keeps_open_target: "keeps ctx (\<lambda>_. True) (openat2_in_root (fst (open_target ctx v p)) q fl m)"
  by (rule keeps_openat2) (rule open_target_dir)

lemma keeps_open_below: "keeps ctx (\<lambda>_. True) (open_below ctx flags v)"
  by (auto simp: open_below_def Let_def split_def intro!: keeps_then [OF keeps_open_target])

lemma keeps_open: "keeps ctx (\<lambda>_. True) (handle_chroot_open d ctx n None)"
  unfolding handle_chroot_open_def Let_def
  by (rule keeps_then [OF keeps_read_path])
    (auto split: option.split intro!: keeps_then [OF keeps_open_below] keeps_pbind [OF keeps_resolve(1)])

lemma keeps_read_exact: "keeps ctx (\<lambda>_. True) (read_exact fd k)" "keeps ctx (\<lambda>_. True) (read_exact_at fd pos k)"
  by (auto simp: read_exact_def read_exact_at_def split: sum.split intro!: keeps_meets)

lemma keeps_pt_interp: "keeps ctx (\<lambda>_. True) (read_pt_interp fd)"
proof -
  have "keeps ctx (\<lambda>_. True) (scan_phdrs k fd off sz)" for k off sz
    by (induction k arbitrary: off)
      (auto simp: Let_def split: sum.split intro!: keeps_then [OF keeps_read_exact(2)])
  then show ?thesis
    unfolding read_pt_interp_def
    by (auto split: sum.split intro!: keeps_then [OF keeps_read_exact(1)])
qed

lemma keeps_memfd: "keeps ctx (\<lambda>_. True) (memfd_with_patched_interp fd path off cap)"
proof -
  have "meets (\<lambda>r. \<forall>h. confined_to ctx h r) (\<lambda>_. True) (sendfile_all k mfd fd off' left)" for k mfd off' left
    by (induction k arbitrary: off' left) (auto split: sum.split)
  then show ?thesis
    unfolding memfd_with_patched_interp_def
    by (intro keeps_meets)
      (auto simp: Let_def close_fd_def split: sum.split elim!: meets_mono)
qed

lemma keeps_add_fd: "keeps ctx (\<lambda>_. True) (add_fd n fd fl)" "keeps ctx (\<lambda>_. True) (close_fd fd a)"
  by (auto simp: add_fd_def close_fd_def split: sum.split intro!: keeps_meets)

lemma keeps_inject: "keeps ctx (\<lambda>_. True) (inject_as_path n fd fl ptr)"
  unfolding inject_as_path_def
  by (auto split: option.split intro!: keeps_then [OF keeps_add_fd(1)] keeps_then [OF keeps_write_mem])

lemma keeps_exec_image: "keeps ctx (\<lambda>_. True) (exec_image ctx n fd)"
  unfolding exec_image_def
  by (auto split: option.split sum.split intro!: keeps_then [OF keeps_pt_interp] keeps_then [OF keeps_openat2 [OF root_dir]]
      keeps_then [OF keeps_add_fd(1)] keeps_then [OF keeps_memfd] keeps_add_fd(2))

lemma keeps_exec: "keeps ctx (\<lambda>_. True) (handle_chroot_exec ctx n exe)"
  unfolding handle_chroot_exec_def Let_def split_def
  by (auto split: option.split sum.split intro!: keeps_then [OF keeps_read_path] keeps_then [OF keeps_virtual]
      keeps_then [OF keeps_open_target] keeps_then [OF keeps_exec_image] keeps_then [OF keeps_inject])

lemma keeps_present: "keeps ctx (\<lambda>_. True) (present p)"
  by (rule keeps_meets) simp

lemma keeps_stat_and_write: "keeps ctx (\<lambda>_. True) (stat_and_write n p)"
  unfolding stat_and_write_def
  by (auto split: sum.split intro!: keeps_Call keeps_answer)

lemma keeps_stat: "keeps ctx (\<lambda>_. True) (handle_chroot_stat d ctx n None)"
  unfolding handle_chroot_stat_def cow_resolve_def
  by (auto split: sum.split intro!: keeps_pbind [OF keeps_read_and_resolve(2)] keeps_then [OF keeps_present]
      keeps_stat_and_write)

lemma keeps_statx: "keeps ctx (\<lambda>_. True) (handle_chroot_statx d ctx n None)"
  unfolding handle_chroot_statx_def cow_resolve_def
  by (auto split: sum.split option.split intro!: keeps_then [OF keeps_read_path] keeps_pbind [OF keeps_resolve(2)]
      keeps_cstr keeps_Call keeps_answer)

lemma keeps_write_target: "keeps ctx (\<lambda>_. True) (write_target n t)"
  by (simp add: write_target_def keeps_answer Let_def)

lemma keeps_link_host_path: "keeps ctx (\<lambda>_. True) (link_host_path ctx p)"
  unfolding link_host_path_def Let_def split_def
  by (auto split: option.split intro!: keeps_pbind [OF keeps_resolve_in_root [OF open_target_dir]])

lemma keeps_read_host_link: "keeps ctx (\<lambda>_. True) (read_host_link ctx n p)"
  unfolding read_host_link_def Let_def
  by (auto split: sum.split intro!: keeps_Call keeps_write_target)

lemma keeps_readlink: "keeps ctx (\<lambda>_. True) (handle_chroot_readlink d ctx n exe None)"
proof -
  have "keeps ctx (\<lambda>_. True) (readlink_exe ctx n exe)"
    unfolding readlink_exe_def Let_def
    by (auto split: sum.split option.split intro!: keeps_Call keeps_write_target)
  then show ?thesis
    unfolding handle_chroot_readlink_def
    by (auto split: sum.split option.split intro!: keeps_then [OF keeps_read_path] keeps_write_target
        keeps_then [OF keeps_virtual] keeps_then [OF keeps_link_host_path] keeps_read_host_link)
qed

lemma keeps_chdir: "keeps ctx (\<lambda>_. True) (handle_chroot_chdir ctx n)"
  unfolding handle_chroot_chdir_def Let_def split_def
  by (auto split: sum.split option.split intro!: keeps_then [OF keeps_read_path] keeps_then [OF keeps_virtual]
      keeps_then [OF keeps_open_target] keeps_inject)

lemma keeps_getcwd: "keeps ctx (\<lambda>_. True) (handle_chroot_getcwd ctx n)"
  unfolding handle_chroot_getcwd_def Let_def
  by (auto split: sum.split intro!: keeps_Call keeps_answer)

lemma keeps_statfs: "keeps ctx (\<lambda>_. True) (handle_chroot_statfs ctx n)"
  unfolding handle_chroot_statfs_def
  by (auto split: sum.split intro!: keeps_pbind [OF keeps_resolve_at [OF keeps_resolve(2)]]
      keeps_cstr keeps_Call keeps_answer)

lemma keeps_utimensat: "keeps ctx (\<lambda>_. True) (handle_chroot_utimensat d ctx n None)"
proof -
  have touch: "keeps ctx (\<lambda>_. True) (touch_path p ts fl)" if "permitted ctx p" for p ts fl
    unfolding touch_path_def using permitted_text [OF that] by (intro keeps_cstr keeps_meets) simp
  then show ?thesis
    unfolding handle_chroot_utimensat_def cow_resolve_def
    by (auto simp: sound_def split: sum.split intro!: keeps_pbind [OF keeps_read_and_resolve(1)]
        keeps_then [OF keeps_read_mem] touch permitted_host)
qed

lemmas keeps_handlers = keeps_open keeps_write keeps_exec keeps_stat keeps_statx keeps_readlink keeps_chdir
  keeps_getcwd keeps_statfs keeps_utimensat

lemmas chroot_legacy_defs = handle_chroot_legacy_open_def handle_chroot_legacy_unlink_def
  handle_chroot_legacy_rmdir_def handle_chroot_legacy_mkdir_def handle_chroot_legacy_rename_def
  handle_chroot_legacy_symlink_def handle_chroot_legacy_link_def handle_chroot_legacy_chmod_def
  handle_chroot_legacy_chown_def handle_chroot_legacy_stat_def handle_chroot_legacy_lstat_def
  handle_chroot_legacy_access_def handle_chroot_legacy_readlink_def

lemma keeps_run_chroot: "keeps ctx (\<lambda>_. True) (run_chroot d ctx handler n (None, exe))"
  by (cases handler)
    (auto simp: with_branch_state_def query_def chroot_legacy_defs handle_chroot_getdents_def
      intro!: keeps_then [OF keeps_open] keeps_then [OF keeps_write] keeps_then [OF keeps_exec]
        keeps_then [OF keeps_stat] keeps_then [OF keeps_statx] keeps_then [OF keeps_readlink]
        keeps_then [OF keeps_chdir] keeps_then [OF keeps_getcwd] keeps_then [OF keeps_statfs]
        keeps_then [OF keeps_utimensat])


section \<open>What is injected was checked\<close>

text \<open>The descriptor is the answer to \<open>openat2\<close> in the directory for a permitted virtual path.\<close>

definition opened_checked :: "ChrootCtx \<Rightarrow> u64 \<Rightarrow> history \<Rightarrow> int \<Rightarrow> bool" where
  "opened_checked ctx flags h fd \<longleftrightarrow> (\<exists>v d q dirfd mode out out'. open_permitted ctx flags v \<and>
     open_target ctx v (to_string_lossy v) = (d, q) \<and>
     (KFs (FsOpenat2 dirfd (below_root q) (as_i32 flags) mode), Inr (fd, out)) \<in> set h \<and>
     (KFs (FsOpen (str_or_empty d) 0x90000 0), Inr (dirfd, out')) \<in> set h)"

lemma safe_any: "safe (\<lambda>_ _. True) (\<lambda>_ _. True) h p"
  by (induction p arbitrary: h) auto


end
