(* ===== verification/ChrootGaps.thy ===== *)
theory ChrootGaps
  imports ChrootAccess CowView
begin

text \<open>
  Where the chroot handlers do less than they mean to: the check of an open looks at the access mode only,
  a name that does not resolve is used as it is, the source of a hard link is not checked, and a call the
  branch does not take is made in the work directory.
\<close>

unbundle bit_operations_syntax

section \<open>The requests of a run\<close>

primrec requests_of :: "(sysreq \<Rightarrow> sysres) \<Rightarrow> 'a prog \<Rightarrow> sysreq list" where
  "requests_of M (Done a) = []"
| "requests_of M (Call r k) = r # requests_of M (k (M r))"

lemma requests_pbind [simp]: "requests_of M (pbind p f) = requests_of M p @ requests_of M (f (eval M p))"
  by (induction p) auto

lemma trace_requests: "map fst (trace (stateless M) p) = requests_of M p"
proof -
  have "map fst (snd (run (stateless M) p h)) = map fst h @ requests_of M p" for h
    by (induction p arbitrary: h) (auto simp: stateless_def Let_def)
  then show ?thesis by (simp add: trace_def)
qed

text \<open>The calls a run makes on the file system.\<close>

definition makes :: "(sysreq \<Rightarrow> sysres) \<Rightarrow> 'a prog \<Rightarrow> fs_req \<Rightarrow> bool" where
  "makes M p q \<longleftrightarrow> KFs q \<in> fst ` set (trace (stateless M) p)"

lemma makes_iff: "makes M p q \<longleftrightarrow> KFs q \<in> set (requests_of M p)"
  by (metis makes_def trace_requests list.set_map)

section \<open>Flags of a reading open\<close>

text \<open>A path the child may read but not write is opened with all the flags of the child when the access
  mode is read-only, \<open>O_TRUNC\<close> and \<open>O_CREAT\<close> among them: the supervisor truncates the file.\<close>

theorem readonly_open_truncates:
  assumes "eval M (chroot_read_path n (arg n 1)) = Some p"
    and "eval M (resolve_chroot_path ctx n (arg n 0) p) = Some (h, v)"
    and "can_read ctx v" "\<not> can_write ctx v" "\<not> is_write (arg n 2)"
    and "open_target ctx v (to_string_lossy v) = (d, q)" "M (KFs (FsOpen (str_or_empty d) 0x90000 0)) = Inr (dirfd, x)"
    and "CHR 0x00 \<notin> set (str_or_empty d)" "CHR 0x00 \<notin> set (below_root q)"
  shows "makes M (handle_chroot_open D ctx n None) (FsOpenat2 dirfd (below_root q) (as_i32 (arg n 2)) 0)"
  using assms
  by (simp add: makes_iff handle_chroot_open_def open_permitted_def open_below_def openat2_in_root_def Let_def)

definition reading_ctx :: ChrootCtx where
  "reading_ctx = \<lparr>root = ''/r'', readable_paths = [''/etc''], writable_paths = [''/w''], denied_paths = [], mounts = []\<rparr>"

text \<open>A child with a path in its memory, and a root below which the path \<open>q\<close> opens as \<open>real\<close>.\<close>

definition chroot_host :: "string \<Rightarrow> string \<Rightarrow> string \<Rightarrow> sysreq \<Rightarrow> sysres" where
  "chroot_host p q real r = (case r of
     KIdValid i \<Rightarrow> Inr (0, [])
   | KReadVm pid a len \<Rightarrow> Inr (0, bytes_of_string p @ [0])
   | KReadlink f \<Rightarrow> Inr (0, bytes_of_string real)
   | KFs (FsOpen c fl m) \<Rightarrow> Inr (5, [])
   | KFs (FsOpenat2 d c fl m) \<Rightarrow> if c = q then Inr (6, []) else Inl 2
   | _ \<Rightarrow> Inr (0, []))"

definition call_notif :: "u32 \<Rightarrow> u64 list \<Rightarrow> seccomp_notif" where
  "call_notif nr args = \<lparr>notif_id = 1, notif_pid = 7, notif_flags = 0,
     notif_data = \<lparr>nr_of = nr, arch_of = AUDIT_ARCH, ip_of = 0, args_of = args\<rparr>\<rparr>"

lemma read_host_path:
  assumes "length p < 256"
  shows "eval (chroot_host p q real) (chroot_read_path (call_notif nr args) 0x7000) = from_utf8 (until_nul (bytes_of_string p @ [0]))"
  using assms
  by (intro eval_read_path) (simp_all add: chroot_host_def)

theorem readonly_open_truncates_witness:
  "makes (chroot_host ''/etc/f'' ''etc/f'' ''/r/etc/f'')
     (handle_chroot_open example_diff reading_ctx (call_notif SYS_openat [cwd_arg, 0x7000, 0x200, 0, 0, 0]) None)
     (FsOpenat2 5 ''etc/f'' 0x200 0)"
proof -
  let ?M = "chroot_host ''/etc/f'' ''etc/f'' ''/r/etc/f''"
  let ?n = "call_notif SYS_openat [cwd_arg, 0x7000, 0x200, 0, 0, 0]"
  have args: "arg ?n 0 = cwd_arg" "arg ?n 1 = 0x7000" "arg ?n 2 = 0x200" by code_simp+
  have utf8: "from_utf8 (until_nul (bytes_of_string ''/etc/f'' @ [0])) = Some ''/etc/f''" by code_simp
  have "eval ?M (chroot_read_path ?n (arg ?n 1)) = Some ''/etc/f''"
    unfolding args using read_host_path [of "''/etc/f''" "''etc/f''" "''/r/etc/f''" SYS_openat] utf8 by simp
  moreover have "eval ?M (resolve_chroot_path reading_ctx ?n cwd_arg ''/etc/f'') = Some (''/r/etc/f'', ''/etc/f'')"
    by code_simp
  moreover have "can_read reading_ctx ''/etc/f''" "\<not> can_write reading_ctx ''/etc/f''" "\<not> is_write 0x200" by code_simp+
  moreover have "open_target reading_ctx ''/etc/f'' (to_string_lossy ''/etc/f'') = (''/r'', ''/etc/f'')" by code_simp
  moreover have "?M (KFs (FsOpen (str_or_empty ''/r'') 0x90000 0)) = Inr (5, [])" by (simp add: chroot_host_def)
  moreover have "CHR 0x00 \<notin> set (str_or_empty ''/r'')" "CHR 0x00 \<notin> set (below_root ''/etc/f'')" by code_simp+
  ultimately have "makes ?M (handle_chroot_open example_diff reading_ctx ?n None)
      (FsOpenat2 5 (below_root ''/etc/f'') (as_i32 0x200) 0)"
    using readonly_open_truncates [of ?M ?n] unfolding args by blast
  moreover have "below_root ''/etc/f'' = ''etc/f''" "as_i32 0x200 = 0x200" by code_simp+
  ultimately show ?thesis by simp
qed

section \<open>Names that do not resolve\<close>

text \<open>A call that changes a file and whose path does not resolve below the root, such as a symbolic link
  that dangles there, is made on the name itself in the resolved parent; the kernel follows the link
  then from the root of the host.\<close>

theorem dangling_name_is_used:
  assumes "notif_nr n = SYS_truncate" "eval M (chroot_read_path n (arg n 0)) = Some p" "is_absolute p" "mounts ctx = []"
    and "eval M (resolve_existing_in_root (root ctx) p) = None"
    and "path_file_name (confine p) = Some f" "path_parent (confine p) = Some dir" "utf8_valid dir"
    and "eval M (openat2_in_root (root ctx) dir 0x290000 0) = Inr fd" "eval M (path_of_fd fd) = Some ph"
    and "to_virtual_path (root ctx) ph = Some pv" "can_write ctx (path_push pv f)"
    and "utf8_valid (path_push ph f)" "CHR 0x00 \<notin> set (path_push ph f)"
  shows "makes M (handle_chroot_write D ctx n None) (FsTruncate (path_push ph f) (sint (arg n 1)))"
  using assms
  by (simp add: makes_iff handle_chroot_write_def write_one_def resolve_at_def resolve_chroot_path_def
      build_virtual_path_def resolve_mount_def in_mount_def mount_target_def resolve_in_root_def
      resolve_parent_in_root_def on_branch_def exec_on_host_def with_cstr_def path_cstr_def str_or_empty_def
      fs_try_def Let_def)

definition writing_ctx :: ChrootCtx where
  "writing_ctx = reading_ctx\<lparr>readable_paths := []\<rparr>"

theorem dangling_name_is_used_witness:
  "makes (chroot_host ''/w/l'' ''w'' ''/r/w'')
     (handle_chroot_write example_diff writing_ctx (call_notif SYS_truncate [0x7000, 0, 0, 0, 0, 0]) None)
     (FsTruncate ''/r/w/l'' 0)"
proof -
  let ?M = "chroot_host ''/w/l'' ''w'' ''/r/w''"
  let ?n = "call_notif SYS_truncate [0x7000, 0, 0, 0, 0, 0]"
  have args: "arg ?n 0 = 0x7000" "arg ?n 1 = 0" "notif_nr ?n = SYS_truncate" by code_simp+
  have utf8: "from_utf8 (until_nul (bytes_of_string ''/w/l'' @ [0])) = Some ''/w/l''" by code_simp
  have "eval ?M (chroot_read_path ?n 0x7000) = Some ''/w/l''"
    using read_host_path [of "''/w/l''" "''w''" "''/r/w''" SYS_truncate] utf8 by simp
  moreover have "eval ?M (resolve_existing_in_root (root writing_ctx) ''/w/l'') = None"
    "path_file_name (confine ''/w/l'') = Some ''l''" "path_parent (confine ''/w/l'') = Some ''/w''" "utf8_valid ''/w''"
    "eval ?M (openat2_in_root (root writing_ctx) ''/w'' 0x290000 0) = Inr 6" "eval ?M (path_of_fd 6) = Some ''/r/w''"
    "to_virtual_path (root writing_ctx) ''/r/w'' = Some ''/w''" "can_write writing_ctx (path_push ''/w'' ''l'')"
    "utf8_valid (path_push ''/r/w'' ''l'')" "CHR 0x00 \<notin> set (path_push ''/r/w'' ''l'')"
    "path_push ''/r/w'' ''l'' = ''/r/w/l''" "is_absolute ''/w/l''"
    by code_simp+
  ultimately have "makes ?M (handle_chroot_write example_diff writing_ctx ?n None)
      (FsTruncate (path_push ''/r/w'' ''l'') (sint (arg ?n 1)))"
    by (intro dangling_name_is_used) (simp_all add: args writing_ctx_def reading_ctx_def)
  then show ?thesis unfolding args by (simp add: path_push_def is_absolute_def)
qed

section \<open>Hard links\<close>

text \<open>The source of a hard link may be denied: only the new name is checked, and through it the file can be
  read and written.\<close>

theorem link_source_unchecked:
  assumes "eval M (read_two n 1 3) = Some (p, q)"
    and "eval M (resolve_two ctx n (arg n 0) p (arg n 2) q) = Some ((old_host, old_v), new_host, new_v)"
    and "chroot_is_denied ctx old_v" "can_write ctx new_v" "notif_nr n = SYS_linkat"
    and "path_cstr old_host EINVAL = Inr old" "path_cstr new_host EINVAL = Inr new"
  shows "makes M (handle_chroot_write D ctx n None) (FsLinkat old new (as_i32 (arg n 4)))"
  using assms
  by (simp add: makes_iff handle_chroot_write_def chroot_link_def on_branch_def two_on_host_def with_cstr_def
      fs_try_def Let_def)

section \<open>Around the branch\<close>

text \<open>With a branch, a symbolic link to an absolute target is refused by the branch and then made in the
  work directory itself.\<close>

theorem absolute_symlink_bypasses_branch:
  assumes "eval M (read_two n 0 2) = Some (target, p)"
    and "eval M (resolve_chroot_path ctx n (arg n 1) p) = Some (host, v)" "can_write ctx v" "notif_nr n = SYS_symlinkat"
    and "cow_matches b (to_string_lossy host)" "is_absolute target"
    and "path_cstr target EINVAL = Inr t" "path_cstr host EINVAL = Inr l"
  shows "makes M (handle_chroot_write D ctx n (Some b)) (FsSymlink t l)"
  using assms
  by (cases "safe_rel D b (to_string_lossy host)")
    (simp_all add: makes_iff handle_chroot_write_def chroot_symlink_def on_branch_def two_on_host_def with_cstr_def
      handle_symlink_def with_rel_def escaping_target_def chroot_branch_result_def fs_try_def Let_def)

end
