(* ===== verification/Landlock.thy ===== *)
theory Landlock
  imports Context CowHandlers
begin

text \<open>
  \<open>landlock.rs\<close>: which rights are handled, which rules are added for a policy, in which order, and what
  becomes of errors. The ruleset itself lives in the kernel; \<open>ll_step\<close> reads off the requests what the
  process has asked for: the documented effect of the Landlock calls, with a rule filed under the name its
  descriptor was opened by.
\<close>

unbundle bit_operations_syntax

section \<open>Constants\<close>

definition LANDLOCK_ACCESS_FS_EXECUTE :: u64 where "LANDLOCK_ACCESS_FS_EXECUTE = push_bit 0 1"
definition LANDLOCK_ACCESS_FS_WRITE_FILE :: u64 where "LANDLOCK_ACCESS_FS_WRITE_FILE = push_bit 1 1"
definition LANDLOCK_ACCESS_FS_READ_FILE :: u64 where "LANDLOCK_ACCESS_FS_READ_FILE = push_bit 2 1"
definition LANDLOCK_ACCESS_FS_READ_DIR :: u64 where "LANDLOCK_ACCESS_FS_READ_DIR = push_bit 3 1"
definition LANDLOCK_ACCESS_FS_REMOVE_DIR :: u64 where "LANDLOCK_ACCESS_FS_REMOVE_DIR = push_bit 4 1"
definition LANDLOCK_ACCESS_FS_REMOVE_FILE :: u64 where "LANDLOCK_ACCESS_FS_REMOVE_FILE = push_bit 5 1"
definition LANDLOCK_ACCESS_FS_MAKE_CHAR :: u64 where "LANDLOCK_ACCESS_FS_MAKE_CHAR = push_bit 6 1"
definition LANDLOCK_ACCESS_FS_MAKE_DIR :: u64 where "LANDLOCK_ACCESS_FS_MAKE_DIR = push_bit 7 1"
definition LANDLOCK_ACCESS_FS_MAKE_REG :: u64 where "LANDLOCK_ACCESS_FS_MAKE_REG = push_bit 8 1"
definition LANDLOCK_ACCESS_FS_MAKE_SOCK :: u64 where "LANDLOCK_ACCESS_FS_MAKE_SOCK = push_bit 9 1"
definition LANDLOCK_ACCESS_FS_MAKE_FIFO :: u64 where "LANDLOCK_ACCESS_FS_MAKE_FIFO = push_bit 10 1"
definition LANDLOCK_ACCESS_FS_MAKE_BLOCK :: u64 where "LANDLOCK_ACCESS_FS_MAKE_BLOCK = push_bit 11 1"
definition LANDLOCK_ACCESS_FS_MAKE_SYM :: u64 where "LANDLOCK_ACCESS_FS_MAKE_SYM = push_bit 12 1"
definition LANDLOCK_ACCESS_FS_REFER :: u64 where "LANDLOCK_ACCESS_FS_REFER = push_bit 13 1"
definition LANDLOCK_ACCESS_FS_TRUNCATE :: u64 where "LANDLOCK_ACCESS_FS_TRUNCATE = push_bit 14 1"
definition LANDLOCK_ACCESS_FS_IOCTL_DEV :: u64 where "LANDLOCK_ACCESS_FS_IOCTL_DEV = push_bit 15 1"
definition LANDLOCK_ACCESS_NET_BIND_TCP :: u64 where "LANDLOCK_ACCESS_NET_BIND_TCP = push_bit 0 1"
definition LANDLOCK_ACCESS_NET_CONNECT_TCP :: u64 where "LANDLOCK_ACCESS_NET_CONNECT_TCP = push_bit 1 1"
definition LANDLOCK_SCOPE_ABSTRACT_UNIX_SOCKET :: u64 where "LANDLOCK_SCOPE_ABSTRACT_UNIX_SOCKET = push_bit 0 1"
definition LANDLOCK_SCOPE_SIGNAL :: u64 where "LANDLOCK_SCOPE_SIGNAL = push_bit 1 1"

lemmas access_bits = LANDLOCK_ACCESS_FS_EXECUTE_def LANDLOCK_ACCESS_FS_WRITE_FILE_def
  LANDLOCK_ACCESS_FS_READ_FILE_def LANDLOCK_ACCESS_FS_READ_DIR_def LANDLOCK_ACCESS_FS_REMOVE_DIR_def
  LANDLOCK_ACCESS_FS_REMOVE_FILE_def LANDLOCK_ACCESS_FS_MAKE_CHAR_def LANDLOCK_ACCESS_FS_MAKE_DIR_def
  LANDLOCK_ACCESS_FS_MAKE_REG_def LANDLOCK_ACCESS_FS_MAKE_SOCK_def LANDLOCK_ACCESS_FS_MAKE_FIFO_def
  LANDLOCK_ACCESS_FS_MAKE_BLOCK_def LANDLOCK_ACCESS_FS_MAKE_SYM_def LANDLOCK_ACCESS_FS_REFER_def
  LANDLOCK_ACCESS_FS_TRUNCATE_def LANDLOCK_ACCESS_FS_IOCTL_DEV_def

lemmas net_bits = LANDLOCK_ACCESS_NET_BIND_TCP_def LANDLOCK_ACCESS_NET_CONNECT_TCP_def

definition READ_ACCESS :: u64 where
  "READ_ACCESS = LANDLOCK_ACCESS_FS_EXECUTE OR LANDLOCK_ACCESS_FS_READ_FILE OR LANDLOCK_ACCESS_FS_READ_DIR"

definition ACCESS_FILE :: u64 where
  "ACCESS_FILE = LANDLOCK_ACCESS_FS_EXECUTE OR LANDLOCK_ACCESS_FS_WRITE_FILE OR LANDLOCK_ACCESS_FS_READ_FILE
     OR LANDLOCK_ACCESS_FS_TRUNCATE OR LANDLOCK_ACCESS_FS_IOCTL_DEV"

text \<open>The three rights that came with later versions of the interface.\<close>

definition later_access :: "u32 \<Rightarrow> u64 \<Rightarrow> u64" where
  "later_access abi m =
     (let m = (if abi \<ge> 2 then m OR LANDLOCK_ACCESS_FS_REFER else m);
          m = (if abi \<ge> 3 then m OR LANDLOCK_ACCESS_FS_TRUNCATE else m)
      in if abi \<ge> 5 then m OR LANDLOCK_ACCESS_FS_IOCTL_DEV else m)"

definition base_fs_access :: "u32 \<Rightarrow> u64" where
  "base_fs_access abi = later_access abi
     (LANDLOCK_ACCESS_FS_EXECUTE OR LANDLOCK_ACCESS_FS_WRITE_FILE OR LANDLOCK_ACCESS_FS_READ_FILE
      OR LANDLOCK_ACCESS_FS_READ_DIR OR LANDLOCK_ACCESS_FS_REMOVE_DIR OR LANDLOCK_ACCESS_FS_REMOVE_FILE
      OR LANDLOCK_ACCESS_FS_MAKE_CHAR OR LANDLOCK_ACCESS_FS_MAKE_DIR OR LANDLOCK_ACCESS_FS_MAKE_REG
      OR LANDLOCK_ACCESS_FS_MAKE_SOCK OR LANDLOCK_ACCESS_FS_MAKE_FIFO OR LANDLOCK_ACCESS_FS_MAKE_BLOCK
      OR LANDLOCK_ACCESS_FS_MAKE_SYM)"

definition write_access :: "u32 \<Rightarrow> u64" where
  "write_access abi = later_access abi
     (READ_ACCESS OR LANDLOCK_ACCESS_FS_WRITE_FILE OR LANDLOCK_ACCESS_FS_REMOVE_DIR
      OR LANDLOCK_ACCESS_FS_REMOVE_FILE OR LANDLOCK_ACCESS_FS_MAKE_CHAR OR LANDLOCK_ACCESS_FS_MAKE_DIR
      OR LANDLOCK_ACCESS_FS_MAKE_REG OR LANDLOCK_ACCESS_FS_MAKE_SOCK OR LANDLOCK_ACCESS_FS_MAKE_FIFO
      OR LANDLOCK_ACCESS_FS_MAKE_BLOCK OR LANDLOCK_ACCESS_FS_MAKE_SYM)"

definition MIN_ABI :: u32 where "MIN_ABI = 6"

section \<open>Errors\<close>

text \<open>\<open>ConfinementError\<close>; the messages of its variant \<open>Landlock\<close> as constructors.\<close>

datatype confinement_error =
    LandlockUnavailable int
  | InsufficientAbi u32 u32
  | AbiQueryFailed int
  | OpenPathFailed string int
  | AddPathRuleFailed string int
  | AddNetRuleFailed u16 int
  | CreateRulesetFailed int
  | RestrictSelfFailed int
  | NoNewPrivsFailed int

definition try_then :: "('e + unit) prog \<Rightarrow> ('e + 'a) prog \<Rightarrow> ('e + 'a) prog" where
  "try_then p q = pbind p (\<lambda>r. case r of Inl e \<Rightarrow> Done (Inl e) | Inr _ \<Rightarrow> q)"

section \<open>Rules\<close>

definition abi_version :: "(confinement_error + u32) prog" where
  "abi_version = pbind (syscall (KSelf SelfLandlockVersion)) (\<lambda>x. Done (case x of
     Inr (v, _) \<Rightarrow> Inr (word_of_int v)
   | Inl raw \<Rightarrow> if raw = 38 \<or> raw = 95 then Inl (LandlockUnavailable raw) else Inl (AbiQueryFailed raw)))"

definition mode_is_dir :: "int \<Rightarrow> bool" where
  "mode_is_dir mode = (mode AND 0xF000 = 0x4000)"

definition add_path_rule :: "int \<Rightarrow> string \<Rightarrow> u64 \<Rightarrow> (confinement_error + unit) prog" where
  "add_path_rule ruleset_fd path access =
     pbind (syscall (KFs (FsOpen path 0x280000 0x1B6))) (\<lambda>x. case x of
       Inl e \<Rightarrow> Done (Inl (OpenPathFailed path e))
     | Inr (fd, _) \<Rightarrow> pbind (syscall (KSelf (SelfFdMode fd))) (\<lambda>m.
         let allowed_access = (case m of
               Inr (mode, _) \<Rightarrow> if mode_is_dir mode then access else access AND ACCESS_FILE
             | Inl _ \<Rightarrow> access AND ACCESS_FILE)
         in pbind (syscall (KSelf (SelfLandlockPath ruleset_fd allowed_access fd))) (\<lambda>a.
              pbind (syscall (KIo (IoClose fd))) (\<lambda>_. Done (case a of
                Inl e \<Rightarrow> Inl (AddPathRuleFailed path e) | Inr _ \<Rightarrow> Inr ())))))"

definition add_net_rule :: "int \<Rightarrow> u16 \<Rightarrow> u64 \<Rightarrow> (confinement_error + unit) prog" where
  "add_net_rule ruleset_fd port access =
     pbind (syscall (KSelf (SelfLandlockPort ruleset_fd access (ucast port)))) (\<lambda>a. Done (case a of
       Inl e \<Rightarrow> Inl (AddNetRuleFailed port e) | Inr _ \<Rightarrow> Inr ()))"

text \<open>Where the rule for a configured path goes.\<close>

definition landlock_path :: "string option \<Rightarrow> string \<Rightarrow> string" where
  "landlock_path chroot_root path = (case chroot_root of
     None \<Rightarrow> path
   | Some root \<Rightarrow> path_push root (case path_strip_prefix path ''/'' of Some rel \<Rightarrow> rel | None \<Rightarrow> path))"

primrec add_path_rules ::
  "int \<Rightarrow> string option \<Rightarrow> u64 \<Rightarrow> string list \<Rightarrow> (confinement_error + unit) prog" where
  "add_path_rules fd chroot_root access [] = Done (Inr ())"
| "add_path_rules fd chroot_root access (path # paths) =
     pbind (if chroot_root = None then Done True else fs_test (FsExists (landlock_path chroot_root path))) (\<lambda>there.
       if there then try_then (add_path_rule fd (landlock_path chroot_root path) access)
         (add_path_rules fd chroot_root access paths)
       else add_path_rules fd chroot_root access paths)"

definition gpu_nodes :: "string list" where
  "gpu_nodes = [''/dev/nvidia0'', ''/dev/nvidia1'', ''/dev/nvidia2'', ''/dev/nvidia3'', ''/dev/nvidiactl'',
     ''/dev/nvidia-uvm'', ''/dev/nvidia-uvm-tools'', ''/dev/dri'']"

definition gpu_info :: "string list" where
  "gpu_info = [''/proc/driver/nvidia'', ''/sys/bus/pci/devices'', ''/sys/module/nvidia'']"

text \<open>The rules for GPU paths; their errors are ignored.\<close>

primrec add_optional_rules :: "int \<Rightarrow> u64 \<Rightarrow> string list \<Rightarrow> unit prog" where
  "add_optional_rules fd access [] = Done ()"
| "add_optional_rules fd access (path # paths) =
     pbind (add_path_rule fd path access) (\<lambda>_. add_optional_rules fd access paths)"

primrec add_net_rules :: "int \<Rightarrow> u64 \<Rightarrow> u16 list \<Rightarrow> (confinement_error + unit) prog" where
  "add_net_rules fd access [] = Done (Inr ())"
| "add_net_rules fd access (port # ports) =
     try_then (add_net_rule fd port access) (add_net_rules fd access ports)"

definition net_wildcard :: "sandbox \<Rightarrow> bool" where
  "net_wildcard policy = list_ex (\<lambda>r. na_protocol r = Tcp \<and> na_all_ports r) (sb_net_allow policy)"

definition handled_access_net :: "sandbox \<Rightarrow> bool \<Rightarrow> u64" where
  "handled_access_net policy handle_net =
     (if \<not> handle_net then 0
      else if net_wildcard policy then LANDLOCK_ACCESS_NET_BIND_TCP
      else LANDLOCK_ACCESS_NET_BIND_TCP OR LANDLOCK_ACCESS_NET_CONNECT_TCP)"

definition scoped_access :: u64 where
  "scoped_access = LANDLOCK_SCOPE_ABSTRACT_UNIX_SOCKET OR LANDLOCK_SCOPE_SIGNAL"

text \<open>The ports of the set \<open>connect_ports\<close>; the order in which the code runs through it is not fixed.\<close>

definition connect_ports :: "sandbox \<Rightarrow> u16 list" where
  "connect_ports policy = remdups
     (concat (map na_ports (filter (\<lambda>r. na_protocol r = Tcp) (sb_net_allow policy))) @ sb_http_ports policy)"

section \<open>Confinement\<close>

definition build_ruleset :: "sandbox \<Rightarrow> bool \<Rightarrow> u32 \<Rightarrow> int \<Rightarrow> (confinement_error + unit) prog" where
  "build_ruleset policy handle_net abi fd =
     try_then (add_path_rules fd (sb_chroot policy) (write_access abi) (sb_fs_writable policy)) (
     try_then (add_path_rules fd (sb_chroot policy) READ_ACCESS (sb_fs_readable policy)) (
     pbind (if sb_gpu_devices policy \<noteq> None
            then pbind (add_optional_rules fd (write_access abi) gpu_nodes)
                   (\<lambda>_. add_optional_rules fd READ_ACCESS gpu_info)
            else Done ()) (\<lambda>_.
     try_then (if handle_net then add_net_rules fd LANDLOCK_ACCESS_NET_BIND_TCP (sb_net_bind policy)
               else Done (Inr ())) (
     try_then (if handle_net \<and> \<not> net_wildcard policy
               then add_net_rules fd LANDLOCK_ACCESS_NET_CONNECT_TCP (connect_ports policy)
               else Done (Inr ())) (
     pbind (syscall (KSelf (SelfLandlockRestrict fd))) (\<lambda>x. Done (case x of
       Inl e \<Rightarrow> Inl (RestrictSelfFailed e) | Inr _ \<Rightarrow> Inr ())))))))"

definition confine_inner :: "sandbox \<Rightarrow> bool \<Rightarrow> (confinement_error + unit) prog" where
  "confine_inner policy handle_net = pbind abi_version (\<lambda>v. case v of
     Inl e \<Rightarrow> Done (Inl e)
   | Inr abi \<Rightarrow>
       if abi < MIN_ABI then Done (Inl (InsufficientAbi MIN_ABI abi))
       else pbind (syscall (KSelf (SelfLandlockCreate (base_fs_access abi) (handled_access_net policy handle_net)
                scoped_access))) (\<lambda>c. case c of
          Inl e \<Rightarrow> Done (Inl (CreateRulesetFailed e))
        | Inr (fd, _) \<Rightarrow> pbind (build_ruleset policy handle_net abi fd) (\<lambda>r.
            pbind (syscall (KIo (IoClose fd))) (\<lambda>_. Done r))))"

definition landlock_confine :: "sandbox \<Rightarrow> (confinement_error + unit) prog" where
  "landlock_confine policy = confine_inner policy True"

definition confine_filesystem :: "sandbox \<Rightarrow> (confinement_error + unit) prog" where
  "confine_filesystem policy = confine_inner policy False"

section \<open>What the requests amount to\<close>

text \<open>The ruleset a process has asked for: the rights it handles, rules for names and ports, and whether
  it is enforced. A rule counts for the name that gave its descriptor.\<close>

record landlock_state =
  ll_handled :: "(u64 \<times> u64 \<times> u64) option"
  ll_opened :: "(int \<times> string) option"
  ll_paths :: "(string \<times> u64) set"
  ll_ports :: "(u64 \<times> u64) set"
  ll_enforced :: bool

definition ll_init :: landlock_state where
  "ll_init = \<lparr>ll_handled = None, ll_opened = None, ll_paths = {}, ll_ports = {}, ll_enforced = False\<rparr>"

fun ll_step :: "landlock_state \<Rightarrow> sysreq \<times> sysres \<Rightarrow> landlock_state" where
  "ll_step s (KFs (FsOpen p fl m), Inr (fd, out)) = s\<lparr>ll_opened := Some (fd, p)\<rparr>"
| "ll_step s (KSelf (SelfLandlockCreate f n c), Inr v) =
     s\<lparr>ll_handled := Some (f, n, c), ll_paths := {}, ll_ports := {}\<rparr>"
| "ll_step s (KSelf (SelfLandlockPath rs access fd), Inr v) = (case ll_opened s of
     Some (fd', p) \<Rightarrow> if fd' = fd then s\<lparr>ll_paths := insert (p, access) (ll_paths s)\<rparr> else s | None \<Rightarrow> s)"
| "ll_step s (KSelf (SelfLandlockPort rs access port), Inr v) = s\<lparr>ll_ports := insert (port, access) (ll_ports s)\<rparr>"
| "ll_step s (KSelf (SelfLandlockRestrict rs), Inr v) = s\<lparr>ll_enforced := True\<rparr>"
| "ll_step s e = s"

definition landlock :: "history \<Rightarrow> landlock_state" where
  "landlock h = foldl ll_step ll_init h"

lemma landlock_simps [simp]: "landlock [] = ll_init" "landlock (h @ [e]) = ll_step (landlock h) e"
  by (simp_all add: landlock_def)

lemma landlock_snoc2 [simp]: "landlock (h @ [e, e']) = ll_step (ll_step (landlock h) e) e'"
  by (simp add: landlock_def)

text \<open>The same two calls decide what the process may do, for a relation \<open>below\<close> between names and the
  places a rule was filed under; a right that is not handled is never refused.\<close>

definition ll_fs_allowed :: "(string \<Rightarrow> string \<Rightarrow> bool) \<Rightarrow> landlock_state \<Rightarrow> string \<Rightarrow> u64 \<Rightarrow> bool" where
  "ll_fs_allowed below s path right = (case ll_handled s of
     None \<Rightarrow> True
   | Some (fs, _, _) \<Rightarrow> fs AND right = 0 \<or> (\<exists>(p, access) \<in> ll_paths s. below path p \<and> access AND right \<noteq> 0))"

definition ll_net_allowed :: "landlock_state \<Rightarrow> u64 \<Rightarrow> u16 \<Rightarrow> bool" where
  "ll_net_allowed s right port = (case ll_handled s of
     None \<Rightarrow> True
   | Some (_, net, _) \<Rightarrow> net AND right = 0 \<or> (\<exists>(p, access) \<in> ll_ports s. p = ucast port \<and> access AND right \<noteq> 0))"

section \<open>What a policy asks for\<close>

definition masks :: "u64 \<Rightarrow> u64 set" where
  "masks access = {access, access AND ACCESS_FILE}"

definition granted :: "sandbox \<Rightarrow> u32 \<Rightarrow> string \<times> u64 \<Rightarrow> bool" where
  "granted pol abi g = (case g of (p, m) \<Rightarrow>
     p \<in> landlock_path (sb_chroot pol) ` set (sb_fs_writable pol) \<and> m \<in> masks (write_access abi)
   \<or> p \<in> landlock_path (sb_chroot pol) ` set (sb_fs_readable pol) \<and> m \<in> masks READ_ACCESS
   \<or> sb_gpu_devices pol \<noteq> None \<and> p \<in> set gpu_nodes \<and> m \<in> masks (write_access abi)
   \<or> sb_gpu_devices pol \<noteq> None \<and> p \<in> set gpu_info \<and> m \<in> masks READ_ACCESS)"

text \<open>A path has its rule, or the policy has a chroot and the path was not found in it.\<close>

definition has_rule :: "string option \<Rightarrow> u64 \<Rightarrow> history \<Rightarrow> string \<Rightarrow> bool" where
  "has_rule chroot access h q \<longleftrightarrow> (\<exists>m \<in> masks access. (landlock_path chroot q, m) \<in> ll_paths (landlock h)) \<or>
     chroot \<noteq> None \<and> (\<exists>x. (KFs (FsExists (landlock_path chroot q)), x) \<in> set h \<and>
        (case x of Inl _ \<Rightarrow> True | Inr (v, _) \<Rightarrow> v = 0))"

definition port_rules :: "sandbox \<Rightarrow> bool \<Rightarrow> (u64 \<times> u64) set" where
  "port_rules pol handle_net = (if \<not> handle_net then {} else
     (\<lambda>p. (ucast p, LANDLOCK_ACCESS_NET_BIND_TCP)) ` set (sb_net_bind pol) \<union>
     (if net_wildcard pol then {} else
      (\<lambda>p. (ucast p, LANDLOCK_ACCESS_NET_CONNECT_TCP)) ` set (connect_ports pol)))"

text \<open>The process is confined as the policy says: everything the interface offers is handled, every rule
  comes from the policy, every configured path and port has its rule, and the ruleset is in force.\<close>

definition confined_as :: "sandbox \<Rightarrow> bool \<Rightarrow> history \<Rightarrow> bool" where
  "confined_as pol handle_net h \<longleftrightarrow> (\<exists>abi \<ge> MIN_ABI. let s = landlock h in
     ll_enforced s \<and>
     ll_handled s = Some (base_fs_access abi, handled_access_net pol handle_net, scoped_access) \<and>
     (\<forall>g \<in> ll_paths s. granted pol abi g) \<and>
     (\<forall>q \<in> set (sb_fs_writable pol). has_rule (sb_chroot pol) (write_access abi) h q) \<and>
     (\<forall>q \<in> set (sb_fs_readable pol). has_rule (sb_chroot pol) READ_ACCESS h q) \<and>
     ll_ports s = port_rules pol handle_net)"

section \<open>The rules are those of the policy\<close>

text \<open>What adding rules does to the ruleset: rules for names in \<open>A\<close> and for the ports \<open>B\<close>.\<close>

definition adds :: "(string \<times> u64) set \<Rightarrow> (u64 \<times> u64) set \<Rightarrow> history \<Rightarrow> history \<Rightarrow> bool" where
  "adds A B h h' \<longleftrightarrow> set h \<subseteq> set h' \<and> (let s = landlock h; s' = landlock h' in
     ll_handled s' = ll_handled s \<and> ll_enforced s' = ll_enforced s \<and>
     ll_paths s \<subseteq> ll_paths s' \<and> ll_paths s' \<subseteq> ll_paths s \<union> A \<and>
     ll_ports s \<subseteq> ll_ports s' \<and> ll_ports s' \<subseteq> ll_ports s \<union> B)"

abbreviation adding :: "(string \<times> u64) set \<Rightarrow> (u64 \<times> u64) set \<Rightarrow> (history \<Rightarrow> 'a \<Rightarrow> bool) \<Rightarrow> history \<Rightarrow> 'a prog \<Rightarrow> bool" where
  "adding A B Q h p \<equiv> safe (\<lambda>_ _. True) (\<lambda>h' r. adds A B h h' \<and> Q h' r) h p"

lemma adds_refl [simp]: "adds A B h h"
  by (simp add: adds_def)

lemma adds_trans: "adds A B h h' \<Longrightarrow> adds A B h' h'' \<Longrightarrow> adds A B h h''"
  unfolding adds_def Let_def by (intro conjI) (blast | simp)+

lemma adds_mono: "adds A B h h' \<Longrightarrow> A \<subseteq> A' \<Longrightarrow> B \<subseteq> B' \<Longrightarrow> adds A' B' h h'"
  unfolding adds_def Let_def by blast

lemma adding_pbind:
  assumes "adding A B R h p" "\<And>h' a. adds A B h h' \<Longrightarrow> R h' a \<Longrightarrow> adding A B Q h' (f a)"
  shows "adding A B Q h (pbind p f)"
  unfolding safe_pbind
  by (rule safe_mono [OF assms(1)], rule safe_mono [OF assms(2)]) (auto intro: adds_trans)

lemma adding_try_then:
  assumes "adding A B (\<lambda>h' r. case r of Inl e \<Rightarrow> Q h' (Inl e) | Inr _ \<Rightarrow> R h') h p"
    "\<And>h'. adds A B h h' \<Longrightarrow> R h' \<Longrightarrow> adding A B Q h' q"
  shows "adding A B Q h (try_then p q)"
  unfolding try_then_def
  by (rule adding_pbind [OF assms(1)]) (auto intro: assms(2) split: sum.splits)

lemma rule_request_adds:
  assumes "ll_opened (landlock h) = Some (fd, path)" "m \<in> masks access" "(path, m) \<in> A"
  shows "adding A B (\<lambda>h' r. r = Inr () \<longrightarrow> (\<exists>m \<in> masks access. (path, m) \<in> ll_paths (landlock h'))) h
    (pbind (syscall (KSelf (SelfLandlockPath rs m fd))) (\<lambda>a. pbind (syscall (KIo (IoClose fd))) (\<lambda>_. Done (case a of
       Inl e \<Rightarrow> Inl (AddPathRuleFailed path e) | Inr _ \<Rightarrow> Inr ()))))"
  using assms by (auto simp: adds_def Let_def split: sum.split)

lemma add_path_rule_adds:
  assumes A: "\<And>m. m \<in> masks access \<Longrightarrow> (path, m) \<in> A"
  shows "adding A B (\<lambda>h' r. r = Inr () \<longrightarrow> (\<exists>m \<in> masks access. (path, m) \<in> ll_paths (landlock h'))) h
    (add_path_rule fd path access)"
  unfolding add_path_rule_def
proof (rule adding_pbind [where R = "\<lambda>h x. case x of Inl _ \<Rightarrow> True
      | Inr (fd, _) \<Rightarrow> ll_opened (landlock h) = Some (fd, path)"], goal_cases)
  case 1
  show ?case by (auto simp: adds_def split: sum.split)
next
  case (2 h1 x)
  show ?case
  proof (cases x)
    case (Inr r)
    then obtain pfd out where x: "x = Inr (pfd, out)" by (cases r) simp
    have opened: "ll_opened (landlock h1) = Some (pfd, path)" using 2(2) x by simp
    show ?thesis
      unfolding x sum.case prod.case Let_def
    proof (rule adding_pbind [where R = "\<lambda>h _. ll_opened (landlock h) = Some (pfd, path)"], goal_cases)
      case 1
      show ?case using opened by (auto simp: adds_def)
    next
      case (2 h2 m)
      have m: "(case m of Inl _ \<Rightarrow> access AND ACCESS_FILE
         | Inr (mode, _) \<Rightarrow> if mode_is_dir mode then access else access AND ACCESS_FILE) \<in> masks access"
        by (auto simp: masks_def split: sum.split)
      show ?case by (rule rule_request_adds [OF 2(2) m A [OF m]])
    qed
  qed simp
qed

lemma has_rule_mono: "has_rule chroot access h q \<Longrightarrow> adds A B h h' \<Longrightarrow> has_rule chroot access h' q"
  unfolding has_rule_def adds_def Let_def by blast

lemma add_path_rules_adds:
  assumes "\<And>q m. q \<in> set ps \<Longrightarrow> m \<in> masks access \<Longrightarrow> (landlock_path chroot q, m) \<in> A"
  shows "adding A B (\<lambda>h' r. r = Inr () \<longrightarrow> (\<forall>q \<in> set ps. has_rule chroot access h' q)) h
    (add_path_rules fd chroot access ps)"
  using assms
proof (induction ps arbitrary: h)
  case (Cons q ps)
  have rest: "adding A B (\<lambda>h' r. r = Inr () \<longrightarrow> (\<forall>q \<in> set (q # ps). has_rule chroot access h' q)) h'
      (add_path_rules fd chroot access ps)" if "has_rule chroot access h' q" for h'
    by (rule safe_mono [OF Cons.IH]) (use Cons.prems has_rule_mono [OF that] in auto)
  have ruled: "adding A B (\<lambda>h' r. r = Inr () \<longrightarrow> (\<forall>q \<in> set (q # ps). has_rule chroot access h' q)) h'
      (try_then (add_path_rule fd (landlock_path chroot q) access) (add_path_rules fd chroot access ps))" for h'
  proof (rule adding_try_then [where R = "\<lambda>h. has_rule chroot access h q"])
    show "adding A B (\<lambda>h' r. case r of
         Inl e \<Rightarrow> Inl e = Inr () \<longrightarrow> (\<forall>q \<in> set (q # ps). has_rule chroot access h' q)
       | Inr _ \<Rightarrow> has_rule chroot access h' q) h' (add_path_rule fd (landlock_path chroot q) access)"
      by (rule safe_mono [OF add_path_rule_adds [where A = A and B = B]])
         (use Cons.prems in \<open>auto simp: has_rule_def split: sum.splits\<close>)
  qed (rule rest)
  have asked: "adding A B (\<lambda>h' there. \<not> there \<longrightarrow> has_rule chroot access h' q) h
     (if chroot = None then Done True else fs_test (FsExists (landlock_path chroot q)))"
    by (auto simp: fs_test_def adds_def has_rule_def split: sum.split prod.split)
  show ?case
    unfolding add_path_rules.simps
  proof (rule adding_pbind [OF asked], goal_cases)
    case (1 h' there)
    then show ?case using ruled [of h'] rest [of h'] by (cases there) (simp_all only: if_True if_False simp_thms)
  qed
qed simp

lemma add_optional_rules_adds:
  assumes "\<And>q m. q \<in> set ps \<Longrightarrow> m \<in> masks access \<Longrightarrow> (q, m) \<in> A"
  shows "adding A B (\<lambda>_ _. True) h (add_optional_rules fd access ps)"
  using assms
proof (induction ps arbitrary: h)
  case (Cons q ps)
  show ?case
    unfolding add_optional_rules.simps
    by (rule adding_pbind [OF add_path_rule_adds]) (use Cons in auto)
qed simp

lemma add_net_rules_adds:
  assumes "\<And>p. p \<in> set ps \<Longrightarrow> (ucast p, access) \<in> B"
  shows "adding A B (\<lambda>h' r. r = Inr () \<longrightarrow> (\<forall>p \<in> set ps. (ucast p, access) \<in> ll_ports (landlock h'))) h
    (add_net_rules fd access ps)"
  using assms
proof (induction ps arbitrary: h)
  case (Cons p ps)
  have rest: "adding A B (\<lambda>h' r. r = Inr () \<longrightarrow> (\<forall>p \<in> set (p # ps). (ucast p, access) \<in> ll_ports (landlock h'))) h'
      (add_net_rules fd access ps)" if "(ucast p, access) \<in> ll_ports (landlock h')" for h'
    by (rule safe_mono [OF Cons.IH]) (use Cons.prems that in \<open>auto simp: adds_def Let_def\<close>)
  show ?case
    unfolding add_net_rules.simps
  proof (rule adding_try_then [where R = "\<lambda>h. (ucast p, access) \<in> ll_ports (landlock h)"])
    show "adding A B (\<lambda>h' r. case r of
         Inl e \<Rightarrow> Inl e = Inr () \<longrightarrow> (\<forall>p \<in> set (p # ps). (ucast p, access) \<in> ll_ports (landlock h'))
       | Inr _ \<Rightarrow> (ucast p, access) \<in> ll_ports (landlock h')) h (add_net_rule fd p access)"
      using Cons.prems by (auto simp: add_net_rule_def adds_def Let_def split: sum.split)
  qed (rule rest)
qed simp
section \<open>Confinement as a whole\<close>

definition policy_grants :: "sandbox \<Rightarrow> u32 \<Rightarrow> (string \<times> u64) set" where
  "policy_grants pol abi = {g. granted pol abi g}"

abbreviation "all_ruled pol abi h \<equiv>
  (\<forall>q \<in> set (sb_fs_writable pol). has_rule (sb_chroot pol) (write_access abi) h q) \<and>
  (\<forall>q \<in> set (sb_fs_readable pol). has_rule (sb_chroot pol) READ_ACCESS h q)"

lemma ruled_mono: "\<forall>q \<in> qs. has_rule chroot access h q \<Longrightarrow> adds A B h h' \<Longrightarrow> \<forall>q \<in> qs. has_rule chroot access h' q"
  by (blast intro: has_rule_mono)

lemma ports_mono: "P \<subseteq> ll_ports (landlock h) \<Longrightarrow> adds A B h h' \<Longrightarrow> P \<subseteq> ll_ports (landlock h')"
  by (auto simp: adds_def Let_def)

text \<open>Everything before the last step of \<open>build_ruleset\<close>.\<close>

definition ready :: "sandbox \<Rightarrow> bool \<Rightarrow> u32 \<Rightarrow> history \<Rightarrow> bool" where
  "ready pol net abi h \<longleftrightarrow> all_ruled pol abi h \<and> port_rules pol net \<subseteq> ll_ports (landlock h)"

lemma bind_rules_adds:
  "adding A (port_rules pol net) (\<lambda>h' r. r = Inr () \<longrightarrow>
       (if net then (\<lambda>p. (ucast p, LANDLOCK_ACCESS_NET_BIND_TCP)) ` set (sb_net_bind pol) else {})
         \<subseteq> ll_ports (landlock h')) h
     (if net then add_net_rules fd LANDLOCK_ACCESS_NET_BIND_TCP (sb_net_bind pol) else Done (Inr ()))"
proof (cases net)
  case True
  show ?thesis
    unfolding if_P [OF True]
    by (rule safe_mono [OF add_net_rules_adds [where A = A and B = "port_rules pol net"]])
       (auto simp: port_rules_def True)
qed simp

lemma connect_rules_adds:
  "adding A (port_rules pol net) (\<lambda>h' r. r = Inr () \<longrightarrow>
       (if net \<and> \<not> net_wildcard pol
        then (\<lambda>p. (ucast p, LANDLOCK_ACCESS_NET_CONNECT_TCP)) ` set (connect_ports pol) else {})
         \<subseteq> ll_ports (landlock h')) h
     (if net \<and> \<not> net_wildcard pol then add_net_rules fd LANDLOCK_ACCESS_NET_CONNECT_TCP (connect_ports pol)
      else Done (Inr ()))"
proof (cases "net \<and> \<not> net_wildcard pol")
  case True
  show ?thesis
    unfolding if_P [OF True]
    by (rule safe_mono [OF add_net_rules_adds [where A = A and B = "port_rules pol net"]])
       (use True in \<open>auto simp: port_rules_def\<close>)
next
  case False
  show ?thesis unfolding if_not_P [OF False] by simp
qed

lemma gpu_rules_adds:
  "adding (policy_grants pol abi) B (\<lambda>_ _. True) h
     (if sb_gpu_devices pol \<noteq> None
      then pbind (add_optional_rules fd (write_access abi) gpu_nodes)
             (\<lambda>_. add_optional_rules fd READ_ACCESS gpu_info)
      else Done ())"
proof (cases "sb_gpu_devices pol \<noteq> None")
  case True
  show ?thesis
    unfolding if_P [OF True]
    by (rule adding_pbind [OF add_optional_rules_adds], rule_tac [2] add_optional_rules_adds)
       (use True in \<open>auto simp: policy_grants_def granted_def\<close>)
next
  case False
  show ?thesis unfolding if_not_P [OF False] by simp
qed

text \<open>Up to the last request the ruleset is not in force; then it is exactly that of the policy.\<close>

definition enforced_ready :: "sandbox \<Rightarrow> bool \<Rightarrow> u32 \<Rightarrow> history \<Rightarrow> history \<Rightarrow> (confinement_error + unit) \<Rightarrow> bool" where
  "enforced_ready pol net abi h h' r \<longleftrightarrow>
     (\<exists>h1 x. adds (policy_grants pol abi) (port_rules pol net) h h1 \<and>
        (r = Inr () \<longrightarrow> ready pol net abi h1 \<and> (\<exists>fd. h' = h1 @ [(KSelf (SelfLandlockRestrict fd), Inr x)])) \<and>
        (r \<noteq> Inr () \<longrightarrow> h' = h1 \<or> (\<exists>fd e. h' = h1 @ [(KSelf (SelfLandlockRestrict fd), Inl e)])))"

lemma fails_adding:
  assumes "adds A B h h1" "adding A B (\<lambda>h' r. r = Inr () \<longrightarrow> R h') h1 p" "A = policy_grants pol abi"
    "B = port_rules pol net"
    "\<And>h2. adds A B h h2 \<Longrightarrow> adds A B h1 h2 \<Longrightarrow> R h2 \<Longrightarrow>
       safe (\<lambda>_ _. True) (\<lambda>h' r. enforced_ready pol net abi h h' r) h2 q"
  shows "safe (\<lambda>_ _. True) (\<lambda>h' r. enforced_ready pol net abi h h' r) h1 (try_then p q)"
  unfolding try_then_def safe_pbind
proof (rule safe_mono [OF assms(2)], goal_cases)
  case (1 h2 r)
  have hh2: "adds A B h h2" using adds_trans [OF assms(1)] 1 by blast
  show ?case
  proof (cases r)
    case (Inl e)
    then show ?thesis using hh2 assms(3,4) by (auto simp: enforced_ready_def)
  next
    case (Inr u)
    then show ?thesis using assms(5) [OF hh2] 1 by simp
  qed
qed

lemma build_ruleset_ready:
  "safe (\<lambda>_ _. True) (\<lambda>h' r. enforced_ready pol net abi h h' r) h (build_ruleset pol net abi fd)"
  unfolding build_ruleset_def
proof (rule fails_adding [OF adds_refl add_path_rules_adds refl refl], goal_cases)
  case (1 q m)
  then show ?case by (auto simp: policy_grants_def granted_def)
next
  case (2 h1)
  show ?case
  proof (rule fails_adding [OF 2(1) add_path_rules_adds refl refl], goal_cases)
    case (1 q m)
    then show ?case by (auto simp: policy_grants_def granted_def)
  next
    case (2 h2)
    note ruled2 = ruled_mono [OF \<open>\<forall>q\<in>set (sb_fs_writable pol). _\<close> 2(2)] 2(3)
    show ?case
      unfolding safe_pbind [of _ _ _ "if sb_gpu_devices pol \<noteq> None then _ else _"]
    proof (rule safe_mono [OF gpu_rules_adds [where B = "port_rules pol net"]], goal_cases)
      case (1 h3 u)
      then have h3: "adds (policy_grants pol abi) (port_rules pol net) h h3"
        "adds (policy_grants pol abi) (port_rules pol net) h2 h3"
        using adds_trans [OF 2(1)] by blast+
      note ruled3 = ruled2 [THEN ruled_mono, OF h3(2)]
      show ?case
      proof (rule fails_adding [OF h3(1) bind_rules_adds refl refl], goal_cases)
        case (1 h4)
        note ruled4 = ruled3 [THEN ruled_mono, OF 1(2)]
        show ?case
        proof (rule fails_adding [OF 1(1) connect_rules_adds refl refl], goal_cases)
          case (1 h5)
          have "ready pol net abi h5"
            using ruled4 [THEN ruled_mono, OF 1(2)] 1(3) ports_mono [OF _ 1(2)] \<open>_ \<subseteq> ll_ports (landlock h4)\<close>
            by (auto simp: ready_def port_rules_def split: if_splits)
          then show ?case using 1(1) by (auto simp: enforced_ready_def split: sum.split)
        qed
      qed
    qed
  qed
qed

lemma enforced_confined:
  assumes handled: "ll_handled (landlock h) = Some (base_fs_access abi, handled_access_net pol net, scoped_access)"
    "ll_paths (landlock h) = {}" "ll_ports (landlock h) = {}" and abi: "\<not> abi < MIN_ABI"
    and adds: "adds (policy_grants pol abi) (port_rules pol net) h h1" and ready: "ready pol net abi h1"
  shows "confined_as pol net (h1 @ [(KSelf (SelfLandlockRestrict fd), Inr x), (KIo (IoClose fd'), y)])"
    (is "confined_as pol net ?h2")
proof -
  have l: "landlock ?h2 = (landlock h1)\<lparr>ll_enforced := True\<rparr>" by simp
  have "has_rule chroot access ?h2 q" if "has_rule chroot access h1 q" for chroot access q
    using that unfolding has_rule_def l by auto
  moreover have "ll_paths (landlock h1) \<subseteq> policy_grants pol abi" "ll_ports (landlock h1) = port_rules pol net"
    "ll_handled (landlock h1) = Some (base_fs_access abi, handled_access_net pol net, scoped_access)"
    using adds ready handled unfolding adds_def ready_def Let_def by auto
  ultimately show ?thesis
    unfolding confined_as_def l Let_def
    using ready abi by (intro exI [of _ abi]) (auto simp: ready_def policy_grants_def)
qed

lemma confine_inner_safe:
  assumes "\<not> ll_enforced (landlock h)"
  shows "safe (\<lambda>_ _. True) (\<lambda>h' r. set h \<subseteq> set h' \<and> (case r of
     Inr _ \<Rightarrow> confined_as pol net h' | Inl _ \<Rightarrow> \<not> ll_enforced (landlock h'))) h (confine_inner pol net)"
    (is "safe _ ?Q h _")
proof -
  have built: "safe (\<lambda>_ _. True) ?Q h1 (pbind (build_ruleset pol net abi fd) (\<lambda>r.
       pbind (syscall (KIo (IoClose fd))) (\<lambda>_. Done r)))"
    if "\<not> abi < MIN_ABI" and h1: "h1 = h @ [(KSelf SelfLandlockVersion, Inr v), (KSelf (SelfLandlockCreate
         (base_fs_access abi) (handled_access_net pol net) scoped_access), Inr c)]" for abi fd h1 v c
    unfolding safe_pbind [of _ _ _ "build_ruleset pol net abi fd"]
  proof (rule safe_mono [OF build_ruleset_ready], goal_cases)
    case (1 h3 r)
    then obtain h2 x where h2: "adds (policy_grants pol abi) (port_rules pol net) h1 h2"
      and ok: "r = Inr () \<Longrightarrow> ready pol net abi h2 \<and> (\<exists>fd. h3 = h2 @ [(KSelf (SelfLandlockRestrict fd), Inr x)])"
      and failed: "r \<noteq> Inr () \<Longrightarrow> h3 = h2 \<or> (\<exists>fd e. h3 = h2 @ [(KSelf (SelfLandlockRestrict fd), Inl e)])"
      unfolding enforced_ready_def by blast
    have created: "ll_handled (landlock h1) = Some (base_fs_access abi, handled_access_net pol net, scoped_access)"
      "ll_paths (landlock h1) = {}" "ll_ports (landlock h1) = {}" "\<not> ll_enforced (landlock h1)"
      using assms by (simp_all add: h1)
    have kept: "set h \<subseteq> set h2" "\<not> ll_enforced (landlock h2)"
      using h2 created(4) unfolding adds_def Let_def by (auto simp: h1)
    show ?case
    proof (cases r)
      case (Inl e)
      then show ?thesis using failed kept by auto
    next
      case (Inr u)
      then show ?thesis
        using ok kept enforced_confined [OF created(1-3) that(1) h2] by (cases x) auto
    qed
  qed
  show ?thesis
    unfolding confine_inner_def abi_version_def
    using assms built by (auto split: sum.split)
qed

lemma confine_inner_result:
  "case result K (confine_inner pol net) of
     Inr _ \<Rightarrow> confined_as pol net (trace K (confine_inner pol net))
   | Inl _ \<Rightarrow> \<not> ll_enforced (landlock (trace K (confine_inner pol net)))"
  by (rule safe_result, rule safe_mono [OF confine_inner_safe]) (auto simp: ll_init_def split: sum.splits)


section \<open>What is allowed in the end\<close>

lemma read_write_rights [simp]:
  "base_fs_access abi AND LANDLOCK_ACCESS_FS_WRITE_FILE \<noteq> 0" "base_fs_access abi AND LANDLOCK_ACCESS_FS_READ_FILE \<noteq> 0"
  "READ_ACCESS AND LANDLOCK_ACCESS_FS_WRITE_FILE = 0" "(READ_ACCESS AND ACCESS_FILE) AND LANDLOCK_ACCESS_FS_WRITE_FILE = 0"
  "READ_ACCESS AND LANDLOCK_ACCESS_FS_READ_FILE \<noteq> 0" "(READ_ACCESS AND ACCESS_FILE) AND LANDLOCK_ACCESS_FS_READ_FILE \<noteq> 0"
  "write_access abi AND LANDLOCK_ACCESS_FS_WRITE_FILE \<noteq> 0" "write_access abi AND LANDLOCK_ACCESS_FS_READ_FILE \<noteq> 0"
  "(write_access abi AND ACCESS_FILE) AND LANDLOCK_ACCESS_FS_WRITE_FILE \<noteq> 0"
  "(write_access abi AND ACCESS_FILE) AND LANDLOCK_ACCESS_FS_READ_FILE \<noteq> 0"
  by (auto simp: base_fs_access_def write_access_def later_access_def Let_def READ_ACCESS_def ACCESS_FILE_def access_bits)

lemma port_bits [simp]:
  "LANDLOCK_ACCESS_NET_BIND_TCP AND LANDLOCK_ACCESS_NET_CONNECT_TCP = 0"
  "(LANDLOCK_ACCESS_NET_BIND_TCP OR LANDLOCK_ACCESS_NET_CONNECT_TCP) AND LANDLOCK_ACCESS_NET_CONNECT_TCP \<noteq> 0"
  "LANDLOCK_ACCESS_NET_CONNECT_TCP \<noteq> 0"
  by (simp_all add: net_bits)

lemma ucast_u16_eq [simp]: "(ucast (p :: u16) :: u64) = ucast q \<longleftrightarrow> p = q"
proof -
  have "(ucast (ucast r :: u64) :: u16) = r" for r :: u16
    by (rule bit_word_eqI) (simp add: bit_simps)
  then show ?thesis by metis
qed

text \<open>C5: Once a process is confined, it may connect to a TCP port exactly when a TCP rule of the policy names
  the port or all ports, or the port is one of those of the HTTP proxy.\<close>

theorem landlock_connect_exact:
  assumes "confined_as pol True h"
  shows "ll_net_allowed (landlock h) LANDLOCK_ACCESS_NET_CONNECT_TCP port \<longleftrightarrow>
     (\<exists>r \<in> set (sb_net_allow pol). na_protocol r = Tcp \<and> (na_all_ports r \<or> port \<in> set (na_ports r)))
     \<or> port \<in> set (sb_http_ports pol)"
proof (cases "net_wildcard pol")
  case True
  then show ?thesis
    using assms by (auto simp: confined_as_def Let_def ll_net_allowed_def handled_access_net_def net_wildcard_def list_ex_iff)
next
  case False
  obtain abi where s: "ll_handled (landlock h) = Some (base_fs_access abi,
        LANDLOCK_ACCESS_NET_BIND_TCP OR LANDLOCK_ACCESS_NET_CONNECT_TCP, scoped_access)"
      "ll_ports (landlock h) = port_rules pol True"
    using assms False by (auto simp: confined_as_def Let_def handled_access_net_def)
  have "ll_net_allowed (landlock h) LANDLOCK_ACCESS_NET_CONNECT_TCP port \<longleftrightarrow> port \<in> set (connect_ports pol)"
    by (simp add: ll_net_allowed_def s port_rules_def False bex_Un)
  also have "\<dots> \<longleftrightarrow> (\<exists>r \<in> set (sb_net_allow pol). na_protocol r = Tcp \<and> port \<in> set (na_ports r))
      \<or> port \<in> set (sb_http_ports pol)"
    by (auto simp: connect_ports_def)
  finally show ?thesis
    using False by (auto simp: net_wildcard_def list_ex_iff)
qed

text \<open>C11: Once a process is confined without chroot and GPU access, it may write the files below the writable
  paths of the policy and no others, and read those below the writable and the readable ones; \<open>below\<close> is any
  relation between a name and the places rules were filed under.\<close>

theorem landlock_files_exact:
  assumes "confined_as pol net h" "sb_chroot pol = None" "sb_gpu_devices pol = None"
    "right = LANDLOCK_ACCESS_FS_WRITE_FILE \<or> right = LANDLOCK_ACCESS_FS_READ_FILE"
  shows "ll_fs_allowed below (landlock h) path right \<longleftrightarrow>
     (\<exists>q \<in> set (sb_fs_writable pol). below path q) \<or>
     right = LANDLOCK_ACCESS_FS_READ_FILE \<and> (\<exists>q \<in> set (sb_fs_readable pol). below path q)"
    (is "_ \<longleftrightarrow> ?allowed")
proof -
  obtain abi where handled: "ll_handled (landlock h) = Some (base_fs_access abi, handled_access_net pol net, scoped_access)"
    and granted: "\<And>g. g \<in> ll_paths (landlock h) \<Longrightarrow> granted pol abi g"
    and writable: "\<And>q. q \<in> set (sb_fs_writable pol) \<Longrightarrow> \<exists>m \<in> masks (write_access abi). (q, m) \<in> ll_paths (landlock h)"
    and readable: "\<And>q. q \<in> set (sb_fs_readable pol) \<Longrightarrow> \<exists>m \<in> masks READ_ACCESS. (q, m) \<in> ll_paths (landlock h)"
    using assms(1-3) by (auto simp: confined_as_def Let_def has_rule_def landlock_path_def)
  have allowed: "ll_fs_allowed below (landlock h) path right \<longleftrightarrow>
      (\<exists>(p, access) \<in> ll_paths (landlock h). below path p \<and> access AND right \<noteq> 0)"
    using assms(4) by (auto simp: ll_fs_allowed_def handled)
  have w: "m AND right \<noteq> 0" if "m \<in> masks (write_access abi)" for m
    using that assms(4) by (auto simp: masks_def)
  have r: "m AND right \<noteq> 0 \<longleftrightarrow> right = LANDLOCK_ACCESS_FS_READ_FILE" if "m \<in> masks READ_ACCESS" for m
    using that assms(4) by (auto simp: masks_def)
  show ?thesis
  proof
    assume "ll_fs_allowed below (landlock h) path right"
    then obtain p m where p: "(p, m) \<in> ll_paths (landlock h)" "below path p" "m AND right \<noteq> 0"
      using allowed by auto
    from granted [OF p(1)] p(2,3) r [of m] show ?allowed
      using assms(2,3) by (auto simp: granted_def landlock_path_def)
  next
    assume ?allowed
    then consider q where "q \<in> set (sb_fs_writable pol)" "below path q"
      | q where "q \<in> set (sb_fs_readable pol)" "below path q" "right = LANDLOCK_ACCESS_FS_READ_FILE"
      by blast
    then show "ll_fs_allowed below (landlock h) path right"
      unfolding allowed
    proof cases
      case 1
      with writable [of q] w show "\<exists>(p, access) \<in> ll_paths (landlock h). below path p \<and> access AND right \<noteq> 0"
        by fast
    next
      case 2
      with readable [of q] r show "\<exists>(p, access) \<in> ll_paths (landlock h). below path p \<and> access AND right \<noteq> 0"
        by fast
    qed
  qed
qed

section \<open>A confinement that succeeds\<close>

definition willing :: "sysreq \<Rightarrow> sysres" where
  "willing r = (case r of
     KSelf q \<Rightarrow> (case q of SelfLandlockVersion \<Rightarrow> Inr (6, []) | SelfFdMode fd \<Rightarrow> Inr (0x41ED, []) | _ \<Rightarrow> Inr (3, []))
   | _ \<Rightarrow> Inr (3, []))"

definition example_policy :: sandbox where
  "example_policy = minimal_sandbox
     \<lparr>sb_fs_writable := [''/work''], sb_fs_readable := [''/usr''],
      sb_net_allow := [\<lparr>na_protocol = Tcp, na_host = None, na_ports = [443], na_all_ports = False\<rparr>]\<rparr>"

lemma example_confines: "result (stateless willing) (landlock_confine example_policy) = Inr ()"
  by (simp add: result_stateless landlock_confine_def confine_inner_def abi_version_def build_ruleset_def
      example_policy_def minimal_sandbox_def try_then_def add_path_rule_def add_net_rule_def willing_def
      landlock_path_def Let_def MIN_ABI_def connect_ports_def net_wildcard_def)

lemma example_confined: "confined_as example_policy True (trace (stateless willing) (landlock_confine example_policy))"
  using confine_inner_result [of "stateless willing" example_policy True] example_confines
  by (simp add: landlock_confine_def)

theorem landlock_connect_exact_witness:
  "\<not> ll_net_allowed (landlock (trace (stateless willing) (landlock_confine example_policy)))
      LANDLOCK_ACCESS_NET_CONNECT_TCP 22"
  using landlock_connect_exact [OF example_confined, of 22] by (simp add: example_policy_def minimal_sandbox_def)

theorem landlock_files_exact_witness:
  "\<not> ll_fs_allowed (\<lambda>path p. prefix p path) (landlock (trace (stateless willing) (landlock_confine example_policy)))
      ''/usr/bin/env'' LANDLOCK_ACCESS_FS_WRITE_FILE"
  using landlock_files_exact [OF example_confined, of LANDLOCK_ACCESS_FS_WRITE_FILE "\<lambda>path p. prefix p path" "''/usr/bin/env''"]
  by (simp add: example_policy_def minimal_sandbox_def access_bits)

end
