(* ===== verification/Builder.thy ===== *)
theory Builder
  imports Landlock
begin

text \<open>
  The builder of \<open>sandbox.rs\<close>: one definition per method, \<open>build_unchecked\<close> and \<open>build\<close>, the conversion of a
  policy to a \<open>Confinement\<close>, and \<open>confine\<close> of \<open>lib.rs\<close>, which confines the calling process in place.
\<close>

unbundle bit_operations_syntax

section \<open>The methods of the builder\<close>

definition builder_fs_write :: "string \<Rightarrow> sandbox_builder \<Rightarrow> sandbox_builder" where
  "builder_fs_write path b = b\<lparr>b_fs_writable := b_fs_writable b @ [path]\<rparr>"

definition builder_fs_read :: "string \<Rightarrow> sandbox_builder \<Rightarrow> sandbox_builder" where
  "builder_fs_read path b = b\<lparr>b_fs_readable := b_fs_readable b @ [path]\<rparr>"

definition builder_fs_deny :: "string \<Rightarrow> sandbox_builder \<Rightarrow> sandbox_builder" where
  "builder_fs_deny path b = b\<lparr>b_fs_denied := b_fs_denied b @ [path]\<rparr>"

definition builder_extra_deny_syscalls :: "string list \<Rightarrow> sandbox_builder \<Rightarrow> sandbox_builder" where
  "builder_extra_deny_syscalls calls b = b\<lparr>b_extra_deny_syscalls := b_extra_deny_syscalls b @ calls\<rparr>"

definition builder_extra_allow_syscalls :: "string list \<Rightarrow> sandbox_builder \<Rightarrow> sandbox_builder" where
  "builder_extra_allow_syscalls names b = b\<lparr>b_extra_allow_syscalls := b_extra_allow_syscalls b @ names\<rparr>"

definition builder_net_allow :: "string \<Rightarrow> sandbox_builder \<Rightarrow> sandbox_builder" where
  "builder_net_allow spec b = b\<lparr>b_net_allow := b_net_allow b @ [spec]\<rparr>"

definition builder_net_bind_port :: "u16 \<Rightarrow> sandbox_builder \<Rightarrow> sandbox_builder" where
  "builder_net_bind_port port b = b\<lparr>b_net_bind := b_net_bind b @ [port]\<rparr>"

definition builder_http_allow :: "string \<Rightarrow> sandbox_builder \<Rightarrow> sandbox_builder" where
  "builder_http_allow rule b = b\<lparr>b_http_allow := b_http_allow b @ [rule]\<rparr>"

definition builder_http_deny :: "string \<Rightarrow> sandbox_builder \<Rightarrow> sandbox_builder" where
  "builder_http_deny rule b = b\<lparr>b_http_deny := b_http_deny b @ [rule]\<rparr>"

definition builder_http_port :: "u16 \<Rightarrow> sandbox_builder \<Rightarrow> sandbox_builder" where
  "builder_http_port port b = b\<lparr>b_http_ports := b_http_ports b @ [port]\<rparr>"

definition builder_http_ca :: "string \<Rightarrow> sandbox_builder \<Rightarrow> sandbox_builder" where
  "builder_http_ca path b = b\<lparr>b_http_ca := Some path\<rparr>"

definition builder_http_key :: "string \<Rightarrow> sandbox_builder \<Rightarrow> sandbox_builder" where
  "builder_http_key path b = b\<lparr>b_http_key := Some path\<rparr>"

definition builder_max_memory :: "u64 \<Rightarrow> sandbox_builder \<Rightarrow> sandbox_builder" where
  "builder_max_memory n b = b\<lparr>b_max_memory := Some n\<rparr>"

definition builder_max_processes :: "u32 \<Rightarrow> sandbox_builder \<Rightarrow> sandbox_builder" where
  "builder_max_processes n b = b\<lparr>b_max_processes := Some n\<rparr>"

definition builder_max_open_files :: "u32 \<Rightarrow> sandbox_builder \<Rightarrow> sandbox_builder" where
  "builder_max_open_files n b = b\<lparr>b_max_open_files := Some n\<rparr>"

definition builder_max_cpu :: "u8 \<Rightarrow> sandbox_builder \<Rightarrow> sandbox_builder" where
  "builder_max_cpu pct b = b\<lparr>b_max_cpu := Some pct\<rparr>"

definition builder_random_seed :: "u64 \<Rightarrow> sandbox_builder \<Rightarrow> sandbox_builder" where
  "builder_random_seed seed b = b\<lparr>b_random_seed := Some seed\<rparr>"

definition builder_time_start :: "int \<Rightarrow> sandbox_builder \<Rightarrow> sandbox_builder" where
  "builder_time_start t b = b\<lparr>b_time_start := Some t\<rparr>"

definition builder_no_randomize_memory :: "bool \<Rightarrow> sandbox_builder \<Rightarrow> sandbox_builder" where
  "builder_no_randomize_memory v b = b\<lparr>b_no_randomize_memory := v\<rparr>"

definition builder_no_huge_pages :: "bool \<Rightarrow> sandbox_builder \<Rightarrow> sandbox_builder" where
  "builder_no_huge_pages v b = b\<lparr>b_no_huge_pages := v\<rparr>"

definition builder_no_coredump :: "bool \<Rightarrow> sandbox_builder \<Rightarrow> sandbox_builder" where
  "builder_no_coredump v b = b\<lparr>b_no_coredump := v\<rparr>"

definition builder_deterministic_dirs :: "bool \<Rightarrow> sandbox_builder \<Rightarrow> sandbox_builder" where
  "builder_deterministic_dirs v b = b\<lparr>b_deterministic_dirs := v\<rparr>"

definition builder_fs_isolation :: "FsIsolation \<Rightarrow> sandbox_builder \<Rightarrow> sandbox_builder" where
  "builder_fs_isolation isolation b = b\<lparr>b_fs_isolation := Some isolation\<rparr>"

definition builder_workdir :: "string \<Rightarrow> sandbox_builder \<Rightarrow> sandbox_builder" where
  "builder_workdir path b = b\<lparr>b_workdir := Some path\<rparr>"

definition builder_cwd :: "string \<Rightarrow> sandbox_builder \<Rightarrow> sandbox_builder" where
  "builder_cwd path b = b\<lparr>b_cwd := Some path\<rparr>"

definition builder_fs_storage :: "string \<Rightarrow> sandbox_builder \<Rightarrow> sandbox_builder" where
  "builder_fs_storage path b = b\<lparr>b_fs_storage := Some path\<rparr>"

definition builder_max_disk :: "u64 \<Rightarrow> sandbox_builder \<Rightarrow> sandbox_builder" where
  "builder_max_disk n b = b\<lparr>b_max_disk := Some n\<rparr>"

definition builder_on_exit :: "BranchAction \<Rightarrow> sandbox_builder \<Rightarrow> sandbox_builder" where
  "builder_on_exit action b = b\<lparr>b_on_exit := Some action\<rparr>"

definition builder_on_error :: "BranchAction \<Rightarrow> sandbox_builder \<Rightarrow> sandbox_builder" where
  "builder_on_error action b = b\<lparr>b_on_error := Some action\<rparr>"

definition builder_chroot :: "string \<Rightarrow> sandbox_builder \<Rightarrow> sandbox_builder" where
  "builder_chroot path b = b\<lparr>b_chroot := Some path\<rparr>"

definition builder_fs_mount :: "string \<times> string \<Rightarrow> sandbox_builder \<Rightarrow> sandbox_builder" where
  "builder_fs_mount m b = b\<lparr>b_fs_mount := b_fs_mount b @ [m]\<rparr>"

definition builder_clean_env :: "bool \<Rightarrow> sandbox_builder \<Rightarrow> sandbox_builder" where
  "builder_clean_env v b = b\<lparr>b_clean_env := v\<rparr>"

definition builder_env_var :: "string \<times> string \<Rightarrow> sandbox_builder \<Rightarrow> sandbox_builder" where
  "builder_env_var kv b = b\<lparr>b_env := (b_env b)(fst kv \<mapsto> snd kv)\<rparr>"

definition builder_gpu_devices :: "u32 list \<Rightarrow> sandbox_builder \<Rightarrow> sandbox_builder" where
  "builder_gpu_devices devices b = b\<lparr>b_gpu_devices := Some devices\<rparr>"

definition builder_cpu_cores :: "u32 list \<Rightarrow> sandbox_builder \<Rightarrow> sandbox_builder" where
  "builder_cpu_cores cores b = b\<lparr>b_cpu_cores := Some cores\<rparr>"

definition builder_num_cpus :: "u32 \<Rightarrow> sandbox_builder \<Rightarrow> sandbox_builder" where
  "builder_num_cpus n b = b\<lparr>b_num_cpus := Some n\<rparr>"

definition builder_port_remap :: "bool \<Rightarrow> sandbox_builder \<Rightarrow> sandbox_builder" where
  "builder_port_remap v b = b\<lparr>b_port_remap := v\<rparr>"

definition builder_policy_fn :: "policy_callback \<Rightarrow> sandbox_builder \<Rightarrow> sandbox_builder" where
  "builder_policy_fn f b = b\<lparr>b_policy_fn := Some f\<rparr>"

definition builder_uid :: "u32 \<Rightarrow> sandbox_builder \<Rightarrow> sandbox_builder" where
  "builder_uid n b = b\<lparr>b_uid := Some n\<rparr>"

definition builder_name :: "string \<Rightarrow> sandbox_builder \<Rightarrow> sandbox_builder" where
  "builder_name nm b = b\<lparr>b_name := Some nm\<rparr>"

definition builder_fs_read_if_exists :: "string \<Rightarrow> sandbox_builder \<Rightarrow> sandbox_builder prog" where
  "builder_fs_read_if_exists path b =
     pbind (fs_test (FsExists path)) (\<lambda>there. Done (if there then builder_fs_read path b else b))"

section \<open>Building a policy\<close>

definition unwrap_or :: "'a option \<Rightarrow> 'a \<Rightarrow> 'a" where
  "unwrap_or x d = (case x of Some v \<Rightarrow> v | None \<Rightarrow> d)"

definition validate_syscall_names :: "string list \<Rightarrow> sandbox_error + unit" where
  "validate_syscall_names names =
     (let unknown = filter (\<lambda>nm. syscall_name_to_nr nm = None) names
      in if unknown = [] then Inr ()
         else Inl (Invalid (''unknown syscall name(s): '' @ join_with '', '' unknown)))"

definition default_http_ports :: "sandbox_builder \<Rightarrow> http_rule list \<Rightarrow> http_rule list \<Rightarrow> u16 list" where
  "default_http_ports b http_allow http_deny =
     (if b_http_ports b = [] \<and> (http_allow \<noteq> [] \<or> http_deny \<noteq> [])
      then [80] @ (if b_http_ca b \<noteq> None then [443] else [])
      else b_http_ports b)"

definition scan_host :: "bool \<times> string list \<Rightarrow> http_rule \<Rightarrow> bool \<times> string list" where
  "scan_host acc rule = (case acc of (wildcard_seen, concrete_hosts) \<Rightarrow>
     if rule_host rule = ''*'' then (True, concrete_hosts)
     else if \<not> list_ex (\<lambda>h. eq_ignore_ascii_case h (rule_host rule)) concrete_hosts
     then (wildcard_seen, concrete_hosts @ [rule_host rule])
     else acc)"

definition proxy_rule :: "string option \<Rightarrow> u16 list \<Rightarrow> net_allow" where
  "proxy_rule host http_ports = \<lparr>na_protocol = Tcp, na_host = host, na_ports = http_ports, na_all_ports = False\<rparr>"

text \<open>The network rules that keep the ports of the HTTP proxy reachable.\<close>

definition http_net_rules :: "http_rule list \<Rightarrow> http_rule list \<Rightarrow> u16 list \<Rightarrow> net_allow list" where
  "http_net_rules http_allow http_deny http_ports =
     (if http_ports = [] then []
      else let (wildcard_seen, concrete_hosts) = foldl scan_host (False, []) (http_allow @ http_deny)
           in (if wildcard_seen \<or> (http_allow = [] \<and> http_deny = []) then [proxy_rule None http_ports] else [])
              @ map (\<lambda>h. proxy_rule (Some h) http_ports) concrete_hosts)"

definition sandbox_of :: "sandbox_builder \<Rightarrow> http_rule list \<Rightarrow> http_rule list \<Rightarrow> u16 list \<Rightarrow> net_allow list \<Rightarrow> sandbox" where
  "sandbox_of b http_allow http_deny http_ports net_allow =
    \<lparr>sb_fs_writable = b_fs_writable b,
      sb_fs_readable = b_fs_readable b,
      sb_fs_denied = b_fs_denied b,
      sb_extra_deny_syscalls = b_extra_deny_syscalls b,
      sb_extra_allow_syscalls = b_extra_allow_syscalls b,
      sb_net_allow = net_allow,
      sb_net_bind = b_net_bind b,
      sb_http_allow = http_allow,
      sb_http_deny = http_deny,
      sb_http_ports = http_ports,
      sb_http_ca = b_http_ca b,
      sb_http_key = b_http_key b,
      sb_max_memory = b_max_memory b,
      sb_max_processes = unwrap_or (b_max_processes b) 64,
      sb_max_open_files = b_max_open_files b,
      sb_max_cpu = b_max_cpu b,
      sb_random_seed = b_random_seed b,
      sb_time_start = b_time_start b,
      sb_no_randomize_memory = b_no_randomize_memory b,
      sb_no_huge_pages = b_no_huge_pages b,
      sb_no_coredump = b_no_coredump b,
      sb_deterministic_dirs = b_deterministic_dirs b,
      sb_fs_isolation = unwrap_or (b_fs_isolation b) FsIsolation_default,
      sb_workdir = b_workdir b,
      sb_cwd = b_cwd b,
      sb_fs_storage = b_fs_storage b,
      sb_max_disk = b_max_disk b,
      sb_on_exit = unwrap_or (b_on_exit b) BranchAction_default,
      sb_on_error = unwrap_or (b_on_error b) BranchAction_default,
      sb_fs_mount = b_fs_mount b,
      sb_chroot = b_chroot b,
      sb_clean_env = b_clean_env b,
      sb_env = b_env b,
      sb_gpu_devices = b_gpu_devices b,
      sb_cpu_cores = b_cpu_cores b,
      sb_num_cpus = b_num_cpus b,
      sb_port_remap = b_port_remap b,
      sb_uid = b_uid b,
      sb_policy_fn = b_policy_fn b,
      sb_name = b_name b\<rparr>"

definition build_unchecked :: "(string \<Rightarrow> string) \<Rightarrow> sandbox_builder \<Rightarrow> sandbox_error + sandbox" where
  "build_unchecked to_uppercase b =
     try_bind (validate_syscall_names (b_extra_deny_syscalls b)) (\<lambda>_.
     try_bind (case b_max_cpu b of
         Some cpu \<Rightarrow> if cpu = 0 \<or> cpu > 100 then Inl (InvalidCpuPercent cpu) else Inr ()
       | None \<Rightarrow> Inr ()) (\<lambda>_.
     if (b_http_ca b \<noteq> None) \<noteq> (b_http_key b \<noteq> None)
     then Inl (Invalid ''--http-ca and --http-key must both be provided together'')
     else try_bind (collect_results (HttpRule_parse to_uppercase) (b_http_allow b)) (\<lambda>http_allow.
          try_bind (collect_results (HttpRule_parse to_uppercase) (b_http_deny b)) (\<lambda>http_deny.
          try_bind (collect_results NetAllow_parse (b_net_allow b)) (\<lambda>net_allow.
            let http_ports = default_http_ports b http_allow http_deny
            in Inr (sandbox_of b http_allow http_deny http_ports
                 (net_allow @ http_net_rules http_allow http_deny http_ports)))))))"

definition build :: "(string \<Rightarrow> string) \<Rightarrow> sandbox_builder \<Rightarrow> sandbox_error + sandbox" where
  "build to_uppercase b = try_bind (build_unchecked to_uppercase b) (\<lambda>p.
     try_bind (Sandbox_validate p) (\<lambda>_. Inr p))"

section \<open>Confinement\<close>

record confinement =
  cf_fs_writable :: "string list"
  cf_fs_readable :: "string list"

definition confinement_fs_write :: "string \<Rightarrow> confinement \<Rightarrow> confinement" where
  "confinement_fs_write path c = c\<lparr>cf_fs_writable := cf_fs_writable c @ [path]\<rparr>"

definition confinement_fs_read :: "string \<Rightarrow> confinement \<Rightarrow> confinement" where
  "confinement_fs_read path c = c\<lparr>cf_fs_readable := cf_fs_readable c @ [path]\<rparr>"

text \<open>The fields of a policy that confinement in place does not support, where they are set.\<close>

definition unsupported_fields :: "sandbox \<Rightarrow> (bool \<times> string) list" where
  "unsupported_fields p =
     [(sb_fs_denied p \<noteq> [], ''fs_denied''),
      (sb_extra_deny_syscalls p \<noteq> [], ''extra_deny_syscalls''),
      (sb_net_allow p \<noteq> [], ''net_allow''),
      (sb_net_bind p \<noteq> [], ''net_bind''),
      (allows_sysv_ipc p, ''extra_allow_syscalls=[\"sysv_ipc\"]''),
      (sb_http_allow p \<noteq> [], ''http_allow''),
      (sb_http_deny p \<noteq> [], ''http_deny''),
      (sb_http_ports p \<noteq> [], ''http_ports''),
      (sb_http_ca p \<noteq> None, ''http_ca''),
      (sb_http_key p \<noteq> None, ''http_key''),
      (sb_max_memory p \<noteq> None, ''max_memory''),
      (sb_max_processes p \<noteq> 64, ''max_processes''),
      (sb_max_open_files p \<noteq> None, ''max_open_files''),
      (sb_max_cpu p \<noteq> None, ''max_cpu''),
      (sb_random_seed p \<noteq> None, ''random_seed''),
      (sb_time_start p \<noteq> None, ''time_start''),
      (sb_no_randomize_memory p, ''no_randomize_memory''),
      (sb_no_huge_pages p, ''no_huge_pages''),
      (sb_no_coredump p, ''no_coredump''),
      (sb_deterministic_dirs p, ''deterministic_dirs''),
      (sb_fs_isolation p \<noteq> FsNone, ''fs_isolation''),
      (sb_workdir p \<noteq> None, ''workdir''),
      (sb_cwd p \<noteq> None, ''cwd''),
      (sb_fs_storage p \<noteq> None, ''fs_storage''),
      (sb_max_disk p \<noteq> None, ''max_disk''),
      (sb_on_exit p \<noteq> Commit, ''on_exit''),
      (sb_on_error p \<noteq> Abort, ''on_error''),
      (sb_fs_mount p \<noteq> [], ''fs_mount''),
      (sb_chroot p \<noteq> None, ''chroot''),
      (sb_clean_env p, ''clean_env''),
      (sb_env p \<noteq> Map.empty, ''env''),
      (sb_gpu_devices p \<noteq> None, ''gpu_devices''),
      (sb_cpu_cores p \<noteq> None, ''cpu_cores''),
      (sb_num_cpus p \<noteq> None, ''num_cpus''),
      (sb_port_remap p, ''port_remap''),
      (sb_uid p \<noteq> None, ''uid''),
      (sb_policy_fn p \<noteq> None, ''policy_fn'')]"

definition Confinement_try_from :: "sandbox \<Rightarrow> sandbox_error + confinement" where
  "Confinement_try_from p =
     (let unsupported = map snd (filter fst (unsupported_fields p))
      in if unsupported \<noteq> [] then Inl (UnsupportedForConfine (join_with '', '' unsupported))
         else Inr \<lparr>cf_fs_writable = sb_fs_writable p, cf_fs_readable = sb_fs_readable p\<rparr>)"

text \<open>\<open>confine\<close> of \<open>lib.rs\<close>; \<open>PR_SET_NO_NEW_PRIVS\<close> is 38.\<close>

datatype confine_error = ConfinementFailed confinement_error | PolicyInvalid sandbox_error

definition confinement_builder :: "confinement \<Rightarrow> sandbox_builder" where
  "confinement_builder c = fold builder_fs_write (cf_fs_writable c)
     (fold builder_fs_read (cf_fs_readable c) SandboxBuilder_default)"

definition confine_in_place :: "(string \<Rightarrow> string) \<Rightarrow> confinement \<Rightarrow> (confine_error + unit) prog" where
  "confine_in_place to_uppercase c = pbind (syscall (KSelf (SelfPrctl 38 1))) (\<lambda>x.
     if (case x of Inl _ \<Rightarrow> True | Inr (v, _) \<Rightarrow> v \<noteq> 0)
     then Done (Inl (ConfinementFailed (NoNewPrivsFailed (case x of Inl e \<Rightarrow> e | Inr _ \<Rightarrow> 0))))
     else (case build to_uppercase (confinement_builder c) of
         Inl e \<Rightarrow> Done (Inl (PolicyInvalid e))
       | Inr stripped \<Rightarrow> pbind (confine_filesystem stripped) (\<lambda>r. Done (case r of
           Inl e \<Rightarrow> Inl (ConfinementFailed e) | Inr _ \<Rightarrow> Inr ()))))"

section \<open>What a built policy satisfies\<close>

text \<open>The HTTP proxy's ports can be reached on a host an HTTP rule names.\<close>

definition reachable_host :: "sandbox \<Rightarrow> string \<Rightarrow> bool" where
  "reachable_host p h \<longleftrightarrow> (\<exists>r \<in> set (sb_net_allow p). na_protocol r = Tcp \<and> na_ports r = sb_http_ports p \<and>
     (case na_host r of None \<Rightarrow> h = ''*'' | Some h' \<Rightarrow> eq_ignore_ascii_case h' h))"

definition policy_ok :: "sandbox \<Rightarrow> bool" where
  "policy_ok p \<longleftrightarrow> (\<forall>c. sb_max_cpu p = Some c \<longrightarrow> 1 \<le> c \<and> c \<le> 100) \<and>
     (sb_http_ca p = None \<longleftrightarrow> sb_http_key p = None) \<and>
     (sb_fs_isolation p \<noteq> FsNone \<longrightarrow> sb_workdir p \<noteq> None) \<and>
     (\<forall>nm \<in> set (sb_extra_deny_syscalls p). syscall_name_to_nr nm \<noteq> None) \<and>
     (\<forall>r \<in> set (sb_http_allow p @ sb_http_deny p). sb_http_ports p \<noteq> [] \<and> reachable_host p (rule_host r))"

lemma scan_hosts_complete:
  assumes "foldl scan_host (w, hs) rs = (w', hs')"
  shows "(w \<longrightarrow> w') \<and> set hs \<subseteq> set hs' \<and>
     (\<forall>r \<in> set rs. if rule_host r = ''*'' then w' else \<exists>h \<in> set hs'. eq_ignore_ascii_case h (rule_host r))"
  using assms
proof (induction rs arbitrary: w hs)
  case (Cons r rs)
  obtain w1 hs1 where step: "scan_host (w, hs) r = (w1, hs1)" by fastforce
  then have "foldl scan_host (w1, hs1) rs = (w', hs')" using Cons.prems by simp
  note rest = Cons.IH [OF this]
  have "(w \<longrightarrow> w1) \<and> set hs \<subseteq> set hs1 \<and>
     (if rule_host r = ''*'' then w1 else \<exists>h \<in> set hs1. eq_ignore_ascii_case h (rule_host r))"
    using step by (auto simp: scan_host_def list_ex_iff split: if_splits)
  then show ?case using rest by (auto split: if_splits)
qed simp

lemma http_net_rules_reach:
  assumes "r \<in> set (http_allow @ http_deny)" "ports \<noteq> []"
  shows "\<exists>n \<in> set (http_net_rules http_allow http_deny ports). na_protocol n = Tcp \<and> na_ports n = ports \<and>
     (case na_host n of None \<Rightarrow> rule_host r = ''*'' | Some h \<Rightarrow> eq_ignore_ascii_case h (rule_host r))"
proof -
  obtain w hs where scan: "foldl scan_host (False, []) (http_allow @ http_deny) = (w, hs)" by fastforce
  have found: "if rule_host r = ''*'' then w else \<exists>h \<in> set hs. eq_ignore_ascii_case h (rule_host r)"
    using scan_hosts_complete [OF scan] assms(1) by blast
  have rules: "http_net_rules http_allow http_deny ports =
      (if w \<or> (http_allow = [] \<and> http_deny = []) then [proxy_rule None ports] else [])
      @ map (\<lambda>h. proxy_rule (Some h) ports) hs"
    unfolding http_net_rules_def scan using assms(2) by simp
  show ?thesis
  proof (cases "rule_host r = ''*''")
    case True
    then show ?thesis using found unfolding rules by (auto simp: proxy_rule_def)
  next
    case False
    then obtain h where "h \<in> set hs" "eq_ignore_ascii_case h (rule_host r)" using found by auto
    then show ?thesis
      unfolding rules by (intro bexI [of _ "proxy_rule (Some h) ports"]) (auto simp: proxy_rule_def)
  qed
qed

lemma build_shape:
  assumes "build up b = Inr p"
  obtains allow deny net where "p = sandbox_of b allow deny (default_http_ports b allow deny)
       (net @ http_net_rules allow deny (default_http_ports b allow deny))"
    "filter (\<lambda>nm. syscall_name_to_nr nm = None) (b_extra_deny_syscalls b) = []"
    "\<And>c. b_max_cpu b = Some c \<Longrightarrow> c \<noteq> 0 \<and> \<not> c > 100" "(b_http_ca b \<noteq> None) = (b_http_key b \<noteq> None)"
    "Sandbox_validate p = Inr ()"
  using assms
  by (fastforce simp: build_def build_unchecked_def validate_syscall_names_def try_bind_eq_Inr Let_def
      split: if_splits option.splits)

text \<open>Every policy \<open>build\<close> accepts is consistent: the CPU share is from 1 to 100, certificate and key come
  together, file-system isolation has its work directory, the extra denied calls exist, and the host of each
  HTTP rule can be reached on all ports of the proxy.\<close>

theorem build_gives_ok:
  assumes "build up b = Inr p"
  shows "policy_ok p"
  using assms
proof (rule build_shape)
  fix allow deny net
  let ?ports = "default_http_ports b allow deny"
  assume p: "p = sandbox_of b allow deny ?ports (net @ http_net_rules allow deny ?ports)"
    and known: "filter (\<lambda>nm. syscall_name_to_nr nm = None) (b_extra_deny_syscalls b) = []"
    and cpu: "\<And>c. b_max_cpu b = Some c \<Longrightarrow> c \<noteq> 0 \<and> \<not> c > 100"
    and ca: "(b_http_ca b \<noteq> None) = (b_http_key b \<noteq> None)" and valid: "Sandbox_validate p = Inr ()"
  have share: "1 \<le> c \<and> c \<le> 100" if "sb_max_cpu p = Some c" for c
    using cpu [of c] that by (simp add: p sandbox_of_def word_gt_0_no not_less word_le_sub1 flip: word_gt_0)
  have "?ports \<noteq> [] \<and> reachable_host p (rule_host r)" if r: "r \<in> set (allow @ deny)" for r
  proof -
    have ports: "?ports \<noteq> []" using r by (auto simp: default_http_ports_def)
    show ?thesis
      using http_net_rules_reach [OF r ports] ports
      by (auto simp: reachable_host_def p sandbox_of_def)
  qed
  moreover have "sb_fs_isolation p \<noteq> FsNone \<longrightarrow> sb_workdir p \<noteq> None"
    using valid by (auto simp: Sandbox_validate_def split: if_splits)
  ultimately show ?thesis
    using share known ca by (auto simp: policy_ok_def p sandbox_of_def filter_empty_conv)
qed

definition web_builder :: sandbox_builder where
  "web_builder = builder_http_allow ''GET h/v1/*'' (builder_fs_read ''/usr'' SandboxBuilder_default)"

lemma rule_h: "HttpRule_parse id ''GET h/v1/*'' =
    Inr \<lparr>rule_method = ''GET'', rule_host = ''h'', rule_path = ''/v1/*''\<rparr>"
  by code_simp

definition web_policy :: sandbox where
  "web_policy = minimal_sandbox\<lparr>sb_fs_readable := [''/usr''], sb_http_ports := [80], sb_on_error := Commit,
     sb_http_allow := [\<lparr>rule_method = ''GET'', rule_host = ''h'', rule_path = ''/v1/*''\<rparr>],
     sb_net_allow := [proxy_rule (Some ''h'') [80]]\<rparr>"

lemma builds_web: "build id web_builder = Inr web_policy"
  by (simp add: build_def build_unchecked_def web_builder_def builder_http_allow_def builder_fs_read_def
      SandboxBuilder_default_def validate_syscall_names_def rule_h [simplified] default_http_ports_def Let_def
      http_net_rules_def scan_host_def Sandbox_validate_def sandbox_of_def unwrap_or_def web_policy_def
      minimal_sandbox_def FsIsolation_default_def BranchAction_default_def)

theorem build_gives_ok_witness: "policy_ok web_policy"
  by (rule build_gives_ok [OF builds_web])

section \<open>Conversion to a confinement\<close>

definition plain_policy :: "confinement \<Rightarrow> sandbox" where
  "plain_policy c = minimal_sandbox\<lparr>sb_fs_writable := cf_fs_writable c, sb_fs_readable := cf_fs_readable c,
     sb_on_error := Commit\<rparr>"



text \<open>No policy of a builder that was not told an action for errors converts: the conversion asks for
  \<open>Abort\<close>, and the builder's default is \<open>Commit\<close>.\<close>

theorem default_policy_does_not_convert:
  assumes "build up b = Inr p" "b_on_error b = None"
  shows "\<exists>fields. Confinement_try_from p = Inl (UnsupportedForConfine fields)"
  using assms(1)
proof (rule build_shape)
  fix allow deny net
  assume "p = sandbox_of b allow deny (default_http_ports b allow deny)
       (net @ http_net_rules allow deny (default_http_ports b allow deny))"
  then have "sb_on_error p = Commit"
    using assms(2) by (simp add: sandbox_of_def unwrap_or_def BranchAction_default_def)
  then have "(True, ''on_error'') \<in> set (unsupported_fields p)"
    by (simp add: unsupported_fields_def)
  then have "(True, ''on_error'') \<in> set (filter fst (unsupported_fields p))"
    by simp
  then have "map snd (filter fst (unsupported_fields p)) \<noteq> []"
    by (auto simp only: list.map_disc_iff list.set empty_iff)
  then show ?thesis unfolding Confinement_try_from_def Let_def by (simp only: not_False_eq_True if_True) blast
qed

theorem default_policy_does_not_convert_witness:
  "\<exists>fields. Confinement_try_from web_policy = Inl (UnsupportedForConfine fields)"
  by (rule default_policy_does_not_convert [OF builds_web])
     (simp add: web_builder_def builder_http_allow_def builder_fs_read_def SandboxBuilder_default_def)

section \<open>Confining the calling process\<close>

lemma fold_fs_write: "fold builder_fs_write ps b = b\<lparr>b_fs_writable := b_fs_writable b @ ps\<rparr>"
  by (induction ps arbitrary: b) (simp_all add: builder_fs_write_def)

lemma fold_fs_read: "fold builder_fs_read ps b = b\<lparr>b_fs_readable := b_fs_readable b @ ps\<rparr>"
  by (induction ps arbitrary: b) (simp_all add: builder_fs_read_def)

lemma builds_plain: "build up (confinement_builder c) = Inr (plain_policy c)"
  by (simp add: confinement_builder_def fold_fs_write fold_fs_read SandboxBuilder_default_def build_def
      build_unchecked_def validate_syscall_names_def default_http_ports_def http_net_rules_def Let_def
      Sandbox_validate_def sandbox_of_def unwrap_or_def FsIsolation_default_def BranchAction_default_def
      plain_policy_def minimal_sandbox_def)

text \<open>When \<open>confine\<close> returns without an error, the calling process has given up new privileges and is
  confined to the paths of the confinement, with no network right handled; otherwise nothing is in force.\<close>

theorem confine_in_place_confines:
  "case result K (confine_in_place up c) of
     Inr _ \<Rightarrow> confined_as (plain_policy c) False (trace K (confine_in_place up c)) \<and>
       (\<exists>out. (KSelf (SelfPrctl 38 1), Inr (0, out)) \<in> set (trace K (confine_in_place up c)))
   | Inl _ \<Rightarrow> \<not> ll_enforced (landlock (trace K (confine_in_place up c)))"
proof (rule safe_result)
  let ?Q = "\<lambda>h r. case r of
     Inr _ \<Rightarrow> confined_as (plain_policy c) False h \<and> (\<exists>out. (KSelf (SelfPrctl 38 1), Inr (0, out)) \<in> set h)
   | Inl _ \<Rightarrow> \<not> ll_enforced (landlock h)"
  have "safe (\<lambda>_ _. True) ?Q [(KSelf (SelfPrctl 38 1), Inr (0, out))] (pbind (confine_filesystem (plain_policy c)) (\<lambda>r.
      Done (case r of Inl e \<Rightarrow> Inl (ConfinementFailed e) | Inr _ \<Rightarrow> Inr ())))" for out
    unfolding safe_pbind confine_filesystem_def
    by (rule safe_mono [OF confine_inner_safe]) (auto simp: landlock_def ll_init_def split: sum.splits)
  then show "safe (\<lambda>_ _. True) ?Q [] (confine_in_place up c)"
    by (auto simp: confine_in_place_def builds_plain landlock_def ll_init_def split: sum.split prod.split)
qed

end
