(* ===== verification/Profile.thy ===== *)
theory Profile
  imports Builder CowQueries
begin

text \<open>
  \<open>profile.rs\<close>: from a profile file to a policy and a program. The TOML reader, the parser of timestamps and
  the rendering of a string with \<open>{:?}\<close> are parameters; what the environment holds is an argument.
\<close>

section \<open>The sections of a profile\<close>

record program_spec =
  ps_exec :: "string option"
  ps_args :: "string list"

record config_section =
  pc_http_ca :: "string option"
  pc_http_key :: "string option"
  pc_fs_storage :: "string option"
  pc_workdir :: "string option"

record determinism_section =
  pd_random_seed :: "u64 option"
  pd_time_start :: "string option"
  pd_deterministic_dirs :: bool
  pd_no_randomize_memory :: bool

text \<open>The entries of \<open>env\<close> in the order the hash map gives them.\<close>

record program_section =
  pp_exec :: "string option"
  pp_args :: "string list"
  pp_env :: "(string \<times> string) list"
  pp_cwd :: "string option"
  pp_uid :: "u32 option"
  pp_clean_env :: bool
  pp_no_coredump :: bool
  pp_no_huge_pages :: bool

record filesystem_section =
  pf_read :: "string list"
  pf_write :: "string list"
  pf_deny :: "string list"
  pf_isolation :: "string option"
  pf_chroot :: "string option"
  pf_mount :: "string list"
  pf_on_exit :: "string option"
  pf_on_error :: "string option"

record network_section =
  pn_bind :: "u16 list"
  pn_allow :: "string list"
  pn_port_remap :: bool

record http_section =
  ph_ports :: "u16 list"
  ph_allow :: "string list"
  ph_deny :: "string list"

record syscalls_section =
  py_extra_allow :: "string list"
  py_extra_deny :: "string list"

record limits_section =
  pl_memory :: "string option"
  pl_processes :: "u32 option"
  pl_open_files :: "u32 option"
  pl_cpu :: "u8 option"
  pl_disk :: "string option"
  pl_gpu_devices :: "u32 list option"
  pl_cpu_cores :: "u32 list option"
  pl_num_cpus :: "u32 option"

record profile_input =
  pi_config :: config_section
  pi_determinism :: determinism_section
  pi_program :: program_section
  pi_filesystem :: filesystem_section
  pi_network :: network_section
  pi_http :: http_section
  pi_syscalls :: syscalls_section
  pi_limits :: limits_section

definition ProfileInput_default :: profile_input where
  "ProfileInput_default =
    \<lparr>pi_config = \<lparr>pc_http_ca = None, pc_http_key = None, pc_fs_storage = None, pc_workdir = None\<rparr>,
     pi_determinism = \<lparr>pd_random_seed = None, pd_time_start = None, pd_deterministic_dirs = False,
       pd_no_randomize_memory = False\<rparr>,
     pi_program = \<lparr>pp_exec = None, pp_args = [], pp_env = [], pp_cwd = None, pp_uid = None, pp_clean_env = False,
       pp_no_coredump = False, pp_no_huge_pages = False\<rparr>,
     pi_filesystem = \<lparr>pf_read = [], pf_write = [], pf_deny = [], pf_isolation = None, pf_chroot = None,
       pf_mount = [], pf_on_exit = None, pf_on_error = None\<rparr>,
     pi_network = \<lparr>pn_bind = [], pn_allow = [], pn_port_remap = False\<rparr>,
     pi_http = \<lparr>ph_ports = [], ph_allow = [], ph_deny = []\<rparr>,
     pi_syscalls = \<lparr>py_extra_allow = [], py_extra_deny = []\<rparr>,
     pi_limits = \<lparr>pl_memory = None, pl_processes = None, pl_open_files = None, pl_cpu = None, pl_disk = None,
       pl_gpu_devices = None, pl_cpu_cores = None, pl_num_cpus = None\<rparr>\<rparr>"

section \<open>Strings to values\<close>

definition parse_fs_isolation :: "(string \<Rightarrow> string) \<Rightarrow> string \<Rightarrow> sandbox_error + FsIsolation" where
  "parse_fs_isolation dbg s =
     (if s = ''none'' then Inr FsNone
      else if s = ''overlayfs'' then Inr OverlayFs
      else if s = ''branchfs'' then Inr BranchFs
      else Inl (Invalid (''invalid fs isolation '' @ dbg s
             @ ''; expected \"none\" | \"overlayfs\" | \"branchfs\"'')))"

definition parse_branch_action :: "(string \<Rightarrow> string) \<Rightarrow> string \<Rightarrow> sandbox_error + BranchAction" where
  "parse_branch_action dbg s =
     (if s = ''commit'' then Inr Commit
      else if s = ''abort'' then Inr Abort
      else if s = ''keep'' then Inr Keep
      else Inl (Invalid (''invalid branch action '' @ dbg s @ ''; expected \"commit\" | \"abort\" | \"keep\"'')))"

definition parse_mount_spec :: "(string \<Rightarrow> string) \<Rightarrow> string \<Rightarrow> sandbox_error + string \<times> string" where
  "parse_mount_spec dbg s = (case split_once '':'' s of
     None \<Rightarrow> Inl (Invalid (''invalid mount spec '' @ dbg s @ ''; expected \"VIRTUAL:HOST\"''))
   | Some (virt, host) \<Rightarrow>
       if virt = [] \<or> host = []
       then Inl (Invalid (''invalid mount spec '' @ dbg s @ ''; both VIRTUAL and HOST must be non-empty''))
       else Inr (virt, host))"

definition parse_time_start ::
  "(string \<Rightarrow> string) \<Rightarrow> (string \<Rightarrow> string + int) \<Rightarrow> string \<Rightarrow> sandbox_error + int" where
  "parse_time_start dbg timestamp s = (case timestamp s of
     Inl e \<Rightarrow> Inl (Invalid (''invalid [determinism].time_start '' @ dbg s @ '': '' @ e)) | Inr t \<Rightarrow> Inr t)"

section \<open>From a profile to a policy\<close>

text \<open>\<open>if let Some(x) = field { b = b.method(x) }\<close>, the same with a conversion that may fail, and
  \<open>if field { b = b.method(true) }\<close>.\<close>

definition apply_some :: "('a \<Rightarrow> 'b \<Rightarrow> 'b) \<Rightarrow> 'a option \<Rightarrow> 'b \<Rightarrow> 'b" where
  "apply_some f x b = (case x of Some v \<Rightarrow> f v b | None \<Rightarrow> b)"

definition apply_parsed :: "('s \<Rightarrow> 'e + 'a) \<Rightarrow> ('a \<Rightarrow> 'b \<Rightarrow> 'b) \<Rightarrow> 's option \<Rightarrow> 'b \<Rightarrow> 'e + 'b" where
  "apply_parsed parse f x b = (case x of Some s \<Rightarrow> try_bind (parse s) (\<lambda>v. Inr (f v b)) | None \<Rightarrow> Inr b)"

definition apply_flag :: "(bool \<Rightarrow> 'b \<Rightarrow> 'b) \<Rightarrow> bool \<Rightarrow> 'b \<Rightarrow> 'b" where
  "apply_flag f v b = (if v then f True b else b)"

primrec apply_mounts ::
  "(string \<Rightarrow> string) \<Rightarrow> string list \<Rightarrow> sandbox_builder \<Rightarrow> sandbox_error + sandbox_builder" where
  "apply_mounts dbg [] b = Inr b"
| "apply_mounts dbg (spec # specs) b =
     try_bind (parse_mount_spec dbg spec) (\<lambda>m. apply_mounts dbg specs (builder_fs_mount m b))"

definition apply_config :: "config_section \<Rightarrow> sandbox_builder \<Rightarrow> sandbox_builder" where
  "apply_config c b = apply_some builder_workdir (pc_workdir c)
     (apply_some builder_fs_storage (pc_fs_storage c)
     (apply_some builder_http_key (pc_http_key c)
     (apply_some builder_http_ca (pc_http_ca c) b)))"

definition apply_determinism ::
  "(string \<Rightarrow> string) \<Rightarrow> (string \<Rightarrow> string + int) \<Rightarrow> determinism_section \<Rightarrow> sandbox_builder
   \<Rightarrow> sandbox_error + sandbox_builder" where
  "apply_determinism dbg timestamp d b =
     try_bind (apply_parsed (parse_time_start dbg timestamp) builder_time_start (pd_time_start d)
        (apply_some builder_random_seed (pd_random_seed d) b)) (\<lambda>b.
     Inr (apply_flag builder_no_randomize_memory (pd_no_randomize_memory d)
        (apply_flag builder_deterministic_dirs (pd_deterministic_dirs d) b)))"

definition apply_program :: "program_section \<Rightarrow> sandbox_builder \<Rightarrow> sandbox_builder" where
  "apply_program p b = apply_flag builder_no_huge_pages (pp_no_huge_pages p)
     (apply_flag builder_no_coredump (pp_no_coredump p)
     (apply_flag builder_clean_env (pp_clean_env p)
     (apply_some builder_uid (pp_uid p)
     (apply_some builder_cwd (pp_cwd p)
     (fold builder_env_var (pp_env p) b)))))"

definition apply_filesystem ::
  "(string \<Rightarrow> string) \<Rightarrow> filesystem_section \<Rightarrow> sandbox_builder \<Rightarrow> sandbox_error + sandbox_builder" where
  "apply_filesystem dbg f b =
     try_bind (apply_parsed (parse_fs_isolation dbg) builder_fs_isolation (pf_isolation f)
        (fold builder_fs_deny (pf_deny f) (fold builder_fs_write (pf_write f)
          (fold builder_fs_read (pf_read f) b)))) (\<lambda>b.
     try_bind (apply_mounts dbg (pf_mount f) (apply_some builder_chroot (pf_chroot f) b)) (\<lambda>b.
     try_bind (apply_parsed (parse_branch_action dbg) builder_on_exit (pf_on_exit f) b) (\<lambda>b.
     apply_parsed (parse_branch_action dbg) builder_on_error (pf_on_error f) b)))"

definition apply_network :: "network_section \<Rightarrow> sandbox_builder \<Rightarrow> sandbox_builder" where
  "apply_network n b = apply_flag builder_port_remap (pn_port_remap n)
     (fold builder_net_allow (pn_allow n) (fold builder_net_bind_port (pn_bind n) b))"

definition apply_http :: "http_section \<Rightarrow> sandbox_builder \<Rightarrow> sandbox_builder" where
  "apply_http h b = fold builder_http_deny (ph_deny h) (fold builder_http_allow (ph_allow h)
     (fold builder_http_port (ph_ports h) b))"

definition apply_syscalls :: "syscalls_section \<Rightarrow> sandbox_builder \<Rightarrow> sandbox_builder" where
  "apply_syscalls s b =
     (let b = (if py_extra_allow s \<noteq> [] then builder_extra_allow_syscalls (py_extra_allow s) b else b)
      in if py_extra_deny s \<noteq> [] then builder_extra_deny_syscalls (py_extra_deny s) b else b)"

definition apply_limits :: "limits_section \<Rightarrow> sandbox_builder \<Rightarrow> sandbox_error + sandbox_builder" where
  "apply_limits l b =
     try_bind (apply_parsed ByteSize_parse builder_max_memory (pl_memory l) b) (\<lambda>b.
     try_bind (apply_parsed ByteSize_parse builder_max_disk (pl_disk l)
        (apply_some builder_max_cpu (pl_cpu l)
        (apply_some builder_max_open_files (pl_open_files l)
        (apply_some builder_max_processes (pl_processes l) b)))) (\<lambda>b.
     Inr (apply_some builder_num_cpus (pl_num_cpus l)
        (apply_some builder_cpu_cores (pl_cpu_cores l)
        (apply_some builder_gpu_devices (pl_gpu_devices l) b)))))"

definition parse_input ::
  "(string \<Rightarrow> string) \<Rightarrow> (string \<Rightarrow> string) \<Rightarrow> (string \<Rightarrow> string + int) \<Rightarrow> profile_input
   \<Rightarrow> sandbox_error + sandbox \<times> program_spec" where
  "parse_input up dbg timestamp input =
     try_bind (apply_determinism dbg timestamp (pi_determinism input)
        (apply_config (pi_config input) SandboxBuilder_default)) (\<lambda>b.
     try_bind (apply_filesystem dbg (pi_filesystem input) (apply_program (pi_program input) b)) (\<lambda>b.
     try_bind (apply_limits (pi_limits input)
        (apply_syscalls (pi_syscalls input) (apply_http (pi_http input) (apply_network (pi_network input) b)))) (\<lambda>b.
     try_bind (build up b) (\<lambda>policy.
     Inr (policy, \<lparr>ps_exec = pp_exec (pi_program input), ps_args = pp_args (pi_program input)\<rparr>)))))"

definition parse_profile ::
  "(string \<Rightarrow> string) \<Rightarrow> (string \<Rightarrow> string) \<Rightarrow> (string \<Rightarrow> string + int) \<Rightarrow> (string \<Rightarrow> string + profile_input) \<Rightarrow> string
   \<Rightarrow> sandbox_error + sandbox \<times> program_spec" where
  "parse_profile up dbg timestamp toml content = (case toml content of
     Inl e \<Rightarrow> Inl (Invalid (''TOML parse error: '' @ e)) | Inr input \<Rightarrow> parse_input up dbg timestamp input)"

section \<open>Profile files\<close>

definition dirs_or_fallback :: "(string \<Rightarrow> string option) \<Rightarrow> string" where
  "dirs_or_fallback env = path_push (case env ''XDG_CONFIG_HOME'' of
     Some d \<Rightarrow> d | None \<Rightarrow> path_push (unwrap_or (env ''HOME'') ''/tmp'') ''.config'') ''sandlock''"

definition profile_dir :: "(string \<Rightarrow> string option) \<Rightarrow> string" where
  "profile_dir env = path_push (dirs_or_fallback env) ''profiles''"

definition load_profile ::
  "(string \<Rightarrow> string) \<Rightarrow> (string \<Rightarrow> string) \<Rightarrow> (string \<Rightarrow> string + int) \<Rightarrow> (string \<Rightarrow> string + profile_input)
   \<Rightarrow> (string \<Rightarrow> string option) \<Rightarrow> string \<Rightarrow> (sandbox_error + sandbox \<times> program_spec) prog" where
  "load_profile up dbg timestamp toml env nm =
     pbind (syscall (KReadFile (path_push (profile_dir env) (nm @ ''.toml'')))) (\<lambda>x. Done (case x of
       Inl e \<Rightarrow> Inl (Invalid (''profile '' @ [CHR 0x27] @ nm @ [CHR 0x27] @ '': '' @ show_int e))
     | Inr (_, content) \<Rightarrow> (case from_utf8 content of
         None \<Rightarrow> Inl (Invalid (''profile '' @ [CHR 0x27] @ nm @ [CHR 0x27] @ '': stream did not contain valid UTF-8''))
       | Some t \<Rightarrow> parse_profile up dbg timestamp toml t)))"

text \<open>The files of the profile directory whose extension is \<open>toml\<close>, without it and in order.\<close>

definition profile_stem :: "string \<Rightarrow> string option" where
  "profile_stem file = (case rsplit_once CHR ''.'' file of
     Some (stem, ext) \<Rightarrow> if stem \<noteq> [] \<and> ext = ''toml'' then Some (to_string_lossy stem) else None
   | None \<Rightarrow> None)"

fun insert_sorted :: "string \<Rightarrow> string list \<Rightarrow> string list" where
  "insert_sorted n [] = [n]"
| "insert_sorted n (m # ms) = (if bytes_less m n then m # insert_sorted n ms else n # m # ms)"

definition list_profiles :: "(string \<Rightarrow> string option) \<Rightarrow> (sandbox_error + string list) prog" where
  "list_profiles env = pbind (fs_test (FsExists (profile_dir env))) (\<lambda>there.
     if \<not> there then Done (Inr [])
     else pbind (syscall (KReadDir (profile_dir env))) (\<lambda>x. Done (case x of
       Inl e \<Rightarrow> Inl (Invalid (''read dir: '' @ show_int e))
     | Inr (_, out) \<Rightarrow> Inr (foldr insert_sorted (List.map_filter profile_stem (dir_names out)) []))))"

section \<open>The methods as one record\<close>

definition or_keep :: "'a option \<Rightarrow> 'a option \<Rightarrow> 'a option" where
  "or_keep x old = (case x of Some v \<Rightarrow> Some v | None \<Rightarrow> old)"

lemma or_keep_None [simp]: "or_keep x None = x"
  by (cases x) (simp_all add: or_keep_def)

text \<open>An optional string and its optional value.\<close>

definition parsed :: "('s \<Rightarrow> 'e + 'a) \<Rightarrow> 's option \<Rightarrow> 'a option \<Rightarrow> bool" where
  "parsed parse x w = (case x of None \<Rightarrow> w = None | Some s \<Rightarrow> (\<exists>v. parse s = Inr v \<and> w = Some v))"

lemma apply_parsed_Inr:
  "apply_parsed parse f x b = Inr b' \<longleftrightarrow> (\<exists>w. parsed parse x w \<and> b' = apply_some f w b)"
  by (cases x) (auto simp: apply_parsed_def parsed_def apply_some_def try_bind_eq_Inr)

lemma apply_some_fields [simp]:
  "apply_some builder_http_ca x_http_ca b = b\<lparr>b_http_ca := or_keep x_http_ca (b_http_ca b)\<rparr>"
  "apply_some builder_http_key x_http_key b = b\<lparr>b_http_key := or_keep x_http_key (b_http_key b)\<rparr>"
  "apply_some builder_fs_storage x_fs_storage b = b\<lparr>b_fs_storage := or_keep x_fs_storage (b_fs_storage b)\<rparr>"
  "apply_some builder_workdir x_workdir b = b\<lparr>b_workdir := or_keep x_workdir (b_workdir b)\<rparr>"
  "apply_some builder_random_seed x_random_seed b = b\<lparr>b_random_seed := or_keep x_random_seed (b_random_seed b)\<rparr>"
  "apply_some builder_time_start x_time_start b = b\<lparr>b_time_start := or_keep x_time_start (b_time_start b)\<rparr>"
  "apply_some builder_uid x_uid b = b\<lparr>b_uid := or_keep x_uid (b_uid b)\<rparr>"
  "apply_some builder_cwd x_cwd b = b\<lparr>b_cwd := or_keep x_cwd (b_cwd b)\<rparr>"
  "apply_some builder_fs_isolation x_fs_isolation b = b\<lparr>b_fs_isolation := or_keep x_fs_isolation (b_fs_isolation b)\<rparr>"
  "apply_some builder_chroot x_chroot b = b\<lparr>b_chroot := or_keep x_chroot (b_chroot b)\<rparr>"
  "apply_some builder_on_exit x_on_exit b = b\<lparr>b_on_exit := or_keep x_on_exit (b_on_exit b)\<rparr>"
  "apply_some builder_on_error x_on_error b = b\<lparr>b_on_error := or_keep x_on_error (b_on_error b)\<rparr>"
  "apply_some builder_max_memory x_max_memory b = b\<lparr>b_max_memory := or_keep x_max_memory (b_max_memory b)\<rparr>"
  "apply_some builder_max_disk x_max_disk b = b\<lparr>b_max_disk := or_keep x_max_disk (b_max_disk b)\<rparr>"
  "apply_some builder_max_cpu x_max_cpu b = b\<lparr>b_max_cpu := or_keep x_max_cpu (b_max_cpu b)\<rparr>"
  "apply_some builder_max_open_files x_max_open_files b = b\<lparr>b_max_open_files := or_keep x_max_open_files (b_max_open_files b)\<rparr>"
  "apply_some builder_max_processes x_max_processes b = b\<lparr>b_max_processes := or_keep x_max_processes (b_max_processes b)\<rparr>"
  "apply_some builder_num_cpus x_num_cpus b = b\<lparr>b_num_cpus := or_keep x_num_cpus (b_num_cpus b)\<rparr>"
  "apply_some builder_cpu_cores x_cpu_cores b = b\<lparr>b_cpu_cores := or_keep x_cpu_cores (b_cpu_cores b)\<rparr>"
  "apply_some builder_gpu_devices x_gpu_devices b = b\<lparr>b_gpu_devices := or_keep x_gpu_devices (b_gpu_devices b)\<rparr>"
  by (simp_all add: apply_some_def or_keep_def builder_http_ca_def builder_http_key_def builder_fs_storage_def builder_workdir_def builder_random_seed_def builder_time_start_def builder_uid_def builder_cwd_def builder_fs_isolation_def builder_chroot_def builder_on_exit_def builder_on_error_def builder_max_memory_def builder_max_disk_def builder_max_cpu_def builder_max_open_files_def builder_max_processes_def builder_num_cpus_def builder_cpu_cores_def builder_gpu_devices_def split: option.split)

lemma apply_flag_fields [simp]:
  "apply_flag builder_no_randomize_memory v b = b\<lparr>b_no_randomize_memory := v \<or> b_no_randomize_memory b\<rparr>"
  "apply_flag builder_deterministic_dirs v b = b\<lparr>b_deterministic_dirs := v \<or> b_deterministic_dirs b\<rparr>"
  "apply_flag builder_no_huge_pages v b = b\<lparr>b_no_huge_pages := v \<or> b_no_huge_pages b\<rparr>"
  "apply_flag builder_no_coredump v b = b\<lparr>b_no_coredump := v \<or> b_no_coredump b\<rparr>"
  "apply_flag builder_clean_env v b = b\<lparr>b_clean_env := v \<or> b_clean_env b\<rparr>"
  "apply_flag builder_port_remap v b = b\<lparr>b_port_remap := v \<or> b_port_remap b\<rparr>"
  by (cases v; simp add: apply_flag_def builder_no_randomize_memory_def builder_deterministic_dirs_def builder_no_huge_pages_def builder_no_coredump_def builder_clean_env_def builder_port_remap_def)+

lemma fold_b_fs_deny [simp]: "fold builder_fs_deny xs b = b\<lparr>b_fs_denied := b_fs_denied b @ xs\<rparr>"
  by (induction xs arbitrary: b) (simp_all add: builder_fs_deny_def)

lemma fold_b_fs_write [simp]: "fold builder_fs_write xs b = b\<lparr>b_fs_writable := b_fs_writable b @ xs\<rparr>"
  by (induction xs arbitrary: b) (simp_all add: builder_fs_write_def)

lemma fold_b_fs_read [simp]: "fold builder_fs_read xs b = b\<lparr>b_fs_readable := b_fs_readable b @ xs\<rparr>"
  by (induction xs arbitrary: b) (simp_all add: builder_fs_read_def)

lemma fold_net_allow [simp]: "fold builder_net_allow xs b = b\<lparr>b_net_allow := b_net_allow b @ xs\<rparr>"
  by (induction xs arbitrary: b) (simp_all add: builder_net_allow_def)

lemma fold_net_bind_port [simp]: "fold builder_net_bind_port xs b = b\<lparr>b_net_bind := b_net_bind b @ xs\<rparr>"
  by (induction xs arbitrary: b) (simp_all add: builder_net_bind_port_def)

lemma fold_http_deny [simp]: "fold builder_http_deny xs b = b\<lparr>b_http_deny := b_http_deny b @ xs\<rparr>"
  by (induction xs arbitrary: b) (simp_all add: builder_http_deny_def)

lemma fold_http_allow [simp]: "fold builder_http_allow xs b = b\<lparr>b_http_allow := b_http_allow b @ xs\<rparr>"
  by (induction xs arbitrary: b) (simp_all add: builder_http_allow_def)

lemma fold_http_port [simp]: "fold builder_http_port xs b = b\<lparr>b_http_ports := b_http_ports b @ xs\<rparr>"
  by (induction xs arbitrary: b) (simp_all add: builder_http_port_def)

lemma fold_env_var [simp]: "fold builder_env_var kvs b = b\<lparr>b_env := b_env b ++ map_of (rev kvs)\<rparr>"
  by (induction kvs arbitrary: b) (simp_all add: builder_env_var_def map_add_assoc [symmetric])

lemma apply_mounts_Inr:
  "apply_mounts dbg specs b = Inr b' \<longleftrightarrow>
     (\<exists>ms. collect_results (parse_mount_spec dbg) specs = Inr ms \<and> b' = b\<lparr>b_fs_mount := b_fs_mount b @ ms\<rparr>)"
  by (induction specs arbitrary: b) (auto simp: try_bind_eq_Inr builder_fs_mount_def)

text \<open>The builder a profile stands for, field by field, with the values of the strings that are parsed.\<close>

definition profile_builder ::
  "profile_input \<Rightarrow> int option \<Rightarrow> FsIsolation option \<Rightarrow> (string \<times> string) list \<Rightarrow> BranchAction option
   \<Rightarrow> BranchAction option \<Rightarrow> u64 option \<Rightarrow> u64 option \<Rightarrow> sandbox_builder" where
  "profile_builder i start isolation mnts exit err memory disk =
    \<lparr>b_fs_writable = pf_write (pi_filesystem i),
      b_fs_readable = pf_read (pi_filesystem i),
      b_fs_denied = pf_deny (pi_filesystem i),
      b_extra_deny_syscalls = py_extra_deny (pi_syscalls i),
      b_extra_allow_syscalls = py_extra_allow (pi_syscalls i),
      b_net_allow = pn_allow (pi_network i),
      b_net_bind = pn_bind (pi_network i),
      b_http_allow = ph_allow (pi_http i),
      b_http_deny = ph_deny (pi_http i),
      b_http_ports = ph_ports (pi_http i),
      b_http_ca = pc_http_ca (pi_config i),
      b_http_key = pc_http_key (pi_config i),
      b_max_memory = memory,
      b_max_processes = pl_processes (pi_limits i),
      b_max_open_files = pl_open_files (pi_limits i),
      b_max_cpu = pl_cpu (pi_limits i),
      b_random_seed = pd_random_seed (pi_determinism i),
      b_time_start = start,
      b_no_randomize_memory = pd_no_randomize_memory (pi_determinism i),
      b_no_huge_pages = pp_no_huge_pages (pi_program i),
      b_no_coredump = pp_no_coredump (pi_program i),
      b_deterministic_dirs = pd_deterministic_dirs (pi_determinism i),
      b_fs_isolation = isolation,
      b_workdir = pc_workdir (pi_config i),
      b_cwd = pp_cwd (pi_program i),
      b_fs_storage = pc_fs_storage (pi_config i),
      b_max_disk = disk,
      b_on_exit = exit,
      b_on_error = err,
      b_fs_mount = mnts,
      b_chroot = pf_chroot (pi_filesystem i),
      b_clean_env = pp_clean_env (pi_program i),
      b_env = map_of (rev (pp_env (pi_program i))),
      b_gpu_devices = pl_gpu_devices (pi_limits i),
      b_cpu_cores = pl_cpu_cores (pi_limits i),
      b_num_cpus = pl_num_cpus (pi_limits i),
      b_port_remap = pn_port_remap (pi_network i),
      b_uid = pp_uid (pi_program i),
      b_policy_fn = None,
      b_name = None\<rparr>"

lemma apply_syscalls_fields:
  "apply_syscalls s b = b\<lparr>b_extra_allow_syscalls := b_extra_allow_syscalls b @ py_extra_allow s,
     b_extra_deny_syscalls := b_extra_deny_syscalls b @ py_extra_deny s\<rparr>"
  by (simp add: apply_syscalls_def builder_extra_allow_syscalls_def builder_extra_deny_syscalls_def)

lemma try_bind_assoc: "try_bind (try_bind r f) g = try_bind r (\<lambda>x. try_bind (f x) g)"
  by (cases r) simp_all

lemma bind_parsed:
  "try_bind (apply_parsed parse f x b) g = Inr r \<longleftrightarrow> (\<exists>w. parsed parse x w \<and> g (apply_some f w b) = Inr r)"
  by (auto simp: try_bind_eq_Inr apply_parsed_Inr)

lemma bind_mounts:
  "try_bind (apply_mounts dbg specs b) g = Inr r \<longleftrightarrow>
     (\<exists>ms. collect_results (parse_mount_spec dbg) specs = Inr ms \<and> g (b\<lparr>b_fs_mount := b_fs_mount b @ ms\<rparr>) = Inr r)"
  by (auto simp: try_bind_eq_Inr apply_mounts_Inr)

lemma bind_build:
  "try_bind (build up b) (\<lambda>policy. Inr (policy, e)) = Inr (p, spec) \<longleftrightarrow> build up b = Inr p \<and> spec = e"
  by (auto simp: try_bind_eq_Inr)

lemmas profile_stages = parse_input_def apply_determinism_def apply_filesystem_def apply_limits_def
  apply_syscalls_fields apply_config_def apply_program_def apply_network_def apply_http_def
  SandboxBuilder_default_def try_bind_assoc bind_parsed bind_mounts bind_build

text \<open>C39: A profile gives a policy exactly when its strings parse and the builder with each field of the profile
  in the field of the same meaning builds it; no field is dropped, and the program is that of the profile.\<close>

theorem profile_equals_builder:
  "parse_input up dbg timestamp i = Inr (p, spec) \<longleftrightarrow> (\<exists>start isolation mnts exit err memory disk.
     parsed (parse_time_start dbg timestamp) (pd_time_start (pi_determinism i)) start \<and>
     parsed (parse_fs_isolation dbg) (pf_isolation (pi_filesystem i)) isolation \<and>
     collect_results (parse_mount_spec dbg) (pf_mount (pi_filesystem i)) = Inr mnts \<and>
     parsed (parse_branch_action dbg) (pf_on_exit (pi_filesystem i)) exit \<and>
     parsed (parse_branch_action dbg) (pf_on_error (pi_filesystem i)) err \<and>
     parsed ByteSize_parse (pl_memory (pi_limits i)) memory \<and> parsed ByteSize_parse (pl_disk (pi_limits i)) disk \<and>
     build up (profile_builder i start isolation mnts exit err memory disk) = Inr p \<and>
     spec = \<lparr>ps_exec = pp_exec (pi_program i), ps_args = pp_args (pi_program i)\<rparr>)"
  by (simp add: profile_stages profile_builder_def)

end
