(* ===== verification/ChildSetup.thy ===== *)
theory ChildSetup
  imports Builder Notification
begin

text \<open>
  The child between \<open>fork\<close> and \<open>execve\<close> (\<open>context.rs\<close>, \<open>confine_child\<close>): the order of its calls, which of
  them may fail without ending it, and what is in force when it runs the command; and the child of
  \<open>Sandbox::fork\<close>, which runs the caller's functions instead of a command.
\<close>

unbundle bit_operations_syntax

section \<open>Pipes between parent and child\<close>

text \<open>\<open>write_u32_fd\<close>: a write of no bytes is repeated. Four bytes need at most four writes that make
  progress; the value is \<open>None\<close> when five writes have not sent them.\<close>

primrec write_rest :: "nat \<Rightarrow> int \<Rightarrow> bytes \<Rightarrow> (int + unit) option prog" where
  "write_rest 0 fd rest = Done (if rest = [] then Some (Inr ()) else None)"
| "write_rest (Suc k) fd rest =
     (if rest = [] then Done (Some (Inr ()))
      else pbind (syscall (KSelf (SelfWrite fd rest))) (\<lambda>x. case x of
         Inl e \<Rightarrow> Done (Some (Inl e)) | Inr (v, _) \<Rightarrow> write_rest k fd (drop (nat v) rest)))"

definition write_u32_fd :: "int \<Rightarrow> u32 \<Rightarrow> (int + unit) option prog" where
  "write_u32_fd fd val = write_rest 5 fd (le_bytes 4 val)"

text \<open>\<open>read_u32_fd\<close>: every read adds a byte or ends the loop, so four rounds are enough.\<close>

primrec read_rest :: "nat \<Rightarrow> int \<Rightarrow> bytes \<Rightarrow> (int + bytes) prog" where
  "read_rest 0 fd acc = Done (Inr acc)"
| "read_rest (Suc k) fd acc =
     (if length acc \<ge> 4 then Done (Inr acc)
      else pbind (syscall (KSelf (SelfRead fd (4 - length acc)))) (\<lambda>x. case x of
         Inl e \<Rightarrow> Done (Inl e)
       | Inr (_, out) \<Rightarrow> if out = [] then Done (Inl 0) else read_rest k fd (acc @ take (4 - length acc) out)))"

definition read_u32_fd :: "int \<Rightarrow> (int + u32) prog" where
  "read_u32_fd fd = pbind (read_rest 4 fd []) (\<lambda>r. Done (case r of Inl e \<Rightarrow> Inl e | Inr bs \<Rightarrow> Inr (le_word bs)))"

section \<open>Ends and arguments of the child\<close>

text \<open>The command has replaced the process, or the process has exited, or a panic unwinds into the code that
  forked it, or a write to the parent never ends.\<close>

datatype child_end = Executed | ChildExited int | ChildPanicked | ChildStuck

record child_mount_config =
  mc_mount_point :: string
  mc_upper :: string
  mc_work :: string
  mc_lowers :: "string list"

text \<open>\<open>ca_env\<close> holds the entries of the policy's environment in the order the hash map gives them.\<close>

record child_spawn_args =
  ca_sandbox :: sandbox
  ca_cmd :: "string list"
  ca_notif_w :: int
  ca_ready_r :: int
  ca_cow_config :: "child_mount_config option"
  ca_nested :: bool
  ca_keep_fds :: "int list"
  ca_sandbox_name :: "string option"
  ca_extra_syscalls :: "u32 list"
  ca_parent_pid :: int
  ca_env :: "(string \<times> string) list"

type_synonym 'a step = "(child_end + 'a) prog"

definition fail_child :: "string \<Rightarrow> 'a step" where
  "fail_child msg = pbind (syscall (KSelf (SelfStderr (''sandlock child: '' @ msg)))) (\<lambda>_.
     Done (Inl (ChildExited 127)))"

definition ret_is :: "int \<Rightarrow> sysres \<Rightarrow> bool" where
  "ret_is v x = (case x of Inr (w, _) \<Rightarrow> w = v | Inl _ \<Rightarrow> False)"

text \<open>A call whose failure ends the child.\<close>

definition required :: "self_req \<Rightarrow> string \<Rightarrow> unit step" where
  "required q msg = pbind (syscall (KSelf q)) (\<lambda>x. if ret_is 0 x then Done (Inr ()) else fail_child msg)"

definition asking :: "self_req \<Rightarrow> (sysres \<Rightarrow> 'a step) \<Rightarrow> 'a step" where
  "asking q f = pbind (syscall (KSelf q)) f"

section \<open>The steps before confinement\<close>

text \<open>Steps 1 to 3: process group and terminal, death of the parent.\<close>

definition process_group :: "unit step" where
  "process_group = try_then (required SelfSetpgid ''setpgid'')
     (asking (SelfIsatty 0) (\<lambda>x.
        if ret_is 1 x then asking (SelfSignal 22 True) (\<lambda>_. asking (SelfForeground 0) (\<lambda>_.
          asking (SelfSignal 22 False) (\<lambda>_. Done (Inr ()))))
        else Done (Inr ())))"

definition die_with_parent :: "int \<Rightarrow> unit step" where
  "die_with_parent parent_pid = try_then (required (SelfPrctl 1 9) ''prctl(PR_SET_PDEATHSIG)'')
     (asking SelfGetppid (\<lambda>x. if ret_is parent_pid x then Done (Inr ())
        else fail_child ''parent died before confinement''))"

text \<open>Steps 4 and 4b: address-space layout, and the cores; setting a bit beyond the 1024 of \<open>cpu_set_t\<close> is
  out of bounds.\<close>

definition no_randomize :: "sandbox \<Rightarrow> unit step" where
  "no_randomize sb = (if \<not> sb_no_randomize_memory sb then Done (Inr ())
     else asking (SelfPersonality 0xFFFFFFFF) (\<lambda>x. case x of
        Inl _ \<Rightarrow> fail_child ''personality(query)''
      | Inr (current, _) \<Rightarrow>
          if current = -1 then fail_child ''personality(query)''
          else asking (SelfPersonality (word_of_int current OR 0x40000)) (\<lambda>y. case y of
             Inl _ \<Rightarrow> fail_child ''personality(ADDR_NO_RANDOMIZE)''
           | Inr (v, _) \<Rightarrow> if v = -1 then fail_child ''personality(ADDR_NO_RANDOMIZE)'' else Done (Inr ()))))"

definition bind_cores :: "sandbox \<Rightarrow> unit step" where
  "bind_cores sb = (case sb_cpu_cores sb of
     None \<Rightarrow> Done (Inr ())
   | Some cores \<Rightarrow>
       if cores = [] then Done (Inr ())
       else if list_ex (\<lambda>c. unat c \<ge> 1024) cores then Done (Inl ChildPanicked)
       else required (SelfAffinity (map unat cores)) ''sched_setaffinity'')"

text \<open>Step 5: huge pages and core dumps.\<close>

definition memory_options :: "sandbox \<Rightarrow> unit step" where
  "memory_options sb = try_then
     (if sb_no_huge_pages sb then required (SelfPrctl 41 1) ''prctl(PR_SET_THP_DISABLE)'' else Done (Inr ()))
     (if sb_no_coredump sb then required (SelfLimit 4 0) ''setrlimit(RLIMIT_CORE, 0)'' else Done (Inr ()))"

text \<open>The maps of a user namespace; their errors are ignored.\<close>

definition write_id_maps :: "int \<Rightarrow> int \<Rightarrow> nat \<Rightarrow> nat \<Rightarrow> unit step" where
  "write_id_maps real_uid real_gid target_uid target_gid =
     asking (SelfWriteFile ''/proc/self/uid_map''
        (show_nat target_uid @ '' '' @ show_int real_uid @ '' 1'' @ [CHR 0x0A])) (\<lambda>_.
     asking (SelfWriteFile ''/proc/self/setgroups'' (''deny'' @ [CHR 0x0A])) (\<lambda>_.
     asking (SelfWriteFile ''/proc/self/gid_map''
        (show_nat target_gid @ '' '' @ show_int real_gid @ '' 1'' @ [CHR 0x0A])) (\<lambda>_. Done (Inr ()))))"

definition answer_value :: "sysres \<Rightarrow> int" where
  "answer_value x = (case x of Inl _ \<Rightarrow> -1 | Inr (v, _) \<Rightarrow> v)"

definition with_ids :: "(int \<Rightarrow> int \<Rightarrow> 'a step) \<Rightarrow> 'a step" where
  "with_ids f = asking SelfGetuid (\<lambda>u. asking SelfGetgid (\<lambda>g. f (answer_value u) (answer_value g)))"

definition user_namespace :: "sandbox \<Rightarrow> child_mount_config option \<Rightarrow> int \<Rightarrow> int \<Rightarrow> unit step" where
  "user_namespace sb cow_config real_uid real_gid = (case sb_uid sb of
     None \<Rightarrow> Done (Inr ())
   | Some target_uid \<Rightarrow>
       if cow_config \<noteq> None then Done (Inr ())
       else try_then (required (SelfUnshare 0x10000000) ''unshare(CLONE_NEWUSER)'')
              (write_id_maps real_uid real_gid (unat target_uid) (unat target_uid)))"

definition overlay_options :: "child_mount_config \<Rightarrow> string" where
  "overlay_options cow = ''lowerdir='' @ join_with '':'' (map to_string_lossy (mc_lowers cow))
     @ '',upperdir='' @ to_string_lossy (mc_upper cow) @ '',workdir='' @ to_string_lossy (mc_work cow)"

definition overlay_mount :: "child_mount_config option \<Rightarrow> unit step" where
  "overlay_mount cow_config = (case cow_config of
     None \<Rightarrow> Done (Inr ())
   | Some cow \<Rightarrow>
       try_then (required (SelfUnshare 0x10020000) ''unshare(CLONE_NEWUSER | CLONE_NEWNS)'') (
       try_then (with_ids (\<lambda>u g. write_id_maps u g 0 0)) (
       let at = (if utf8_valid (mc_mount_point cow) then mc_mount_point cow else '''')
       in if CHR 0x00 \<in> set at then fail_child ''invalid overlay mount point path''
          else if CHR 0x00 \<in> set (overlay_options cow) then fail_child ''invalid overlay opts''
          else required (SelfOverlay at (overlay_options cow)) ''mount overlay'')))"

text \<open>Step 6: the working directory.\<close>

definition effective_cwd :: "sandbox \<Rightarrow> string option" where
  "effective_cwd sb = (case sb_cwd sb of
     Some cwd \<Rightarrow> (case sb_chroot sb of
        Some root \<Rightarrow> Some (path_push root (case path_strip_prefix cwd ''/'' of Some rel \<Rightarrow> rel | None \<Rightarrow> cwd))
      | None \<Rightarrow> Some cwd)
   | None \<Rightarrow> (case sb_chroot sb of Some root \<Rightarrow> Some root | None \<Rightarrow> sb_workdir sb))"

definition change_cwd :: "sandbox \<Rightarrow> unit step" where
  "change_cwd sb = (case effective_cwd sb of
     None \<Rightarrow> Done (Inr ())
   | Some cwd \<Rightarrow> if CHR 0x00 \<in> set cwd then fail_child ''invalid cwd path''
       else required (SelfChdir cwd) ''chdir'')"

section \<open>Confinement\<close>

definition no_new_privs :: "unit step" where
  "no_new_privs = required (SelfPrctl 38 1) ''prctl(PR_SET_NO_NEW_PRIVS)''"

definition apply_landlock :: "sandbox \<Rightarrow> unit step" where
  "apply_landlock sb = pbind (landlock_confine sb) (\<lambda>r. case r of
     Inl _ \<Rightarrow> fail_child ''landlock'' | Inr _ \<Rightarrow> Done (Inr ()))"

text \<open>\<open>install_deny_filter\<close> and \<open>install_filter\<close>: \<open>SECCOMP_FILTER_FLAG_NEW_LISTENER\<close> and
  \<open>SECCOMP_FILTER_FLAG_WAIT_KILLABLE_RECV\<close>.\<close>

definition install_deny_filter :: "sock_filter list \<Rightarrow> (int + unit) prog" where
  "install_deny_filter prog = pbind (syscall (KSelf (SelfSeccomp 0 prog))) (\<lambda>x. Done (case x of
     Inl e \<Rightarrow> Inl e | Inr _ \<Rightarrow> Inr ()))"

definition LISTENER_FLAGS :: u64 where "LISTENER_FLAGS = push_bit 3 1 OR push_bit 5 1"

definition install_filter :: "sock_filter list \<Rightarrow> (int + int) prog" where
  "install_filter prog = pbind (syscall (KSelf (SelfSeccomp LISTENER_FLAGS prog))) (\<lambda>x. Done (case x of
     Inl e \<Rightarrow> Inl e | Inr (fd, _) \<Rightarrow> Inr fd))"

definition tell_parent :: "int \<Rightarrow> u32 \<Rightarrow> string \<Rightarrow> unit step" where
  "tell_parent fd val msg = pbind (write_u32_fd fd val) (\<lambda>w. case w of
     None \<Rightarrow> Done (Inl ChildStuck)
   | Some (Inl _) \<Rightarrow> fail_child msg
   | Some (Inr _) \<Rightarrow> Done (Inr ()))"

text \<open>Step 9; the value is the descriptor to keep open, -1 for none.\<close>

definition apply_seccomp :: "child_spawn_args \<Rightarrow> int step" where
  "apply_seccomp a = (case confine_child_filter (ca_sandbox a) (ca_sandbox_name a) (ca_nested a) (ca_extra_syscalls a) of
     Inl _ \<Rightarrow> fail_child ''seccomp assemble''
   | Inr prog \<Rightarrow>
       if ca_nested a then pbind (install_deny_filter prog) (\<lambda>r. case r of
           Inl _ \<Rightarrow> fail_child ''seccomp deny filter''
         | Inr _ \<Rightarrow> try_then (tell_parent (ca_notif_w a) 0 ''write nested signal'') (Done (Inr (-1))))
       else pbind (install_filter prog) (\<lambda>r. case r of
           Inl _ \<Rightarrow> fail_child ''seccomp install''
         | Inr fd \<Rightarrow> try_then (tell_parent (ca_notif_w a) (word_of_int fd) ''write notif fd'') (Done (Inr fd))))"

section \<open>From confinement to the command\<close>

definition wait_for_parent :: "child_spawn_args \<Rightarrow> unit step" where
  "wait_for_parent a = asking SelfMarkConfined (\<lambda>_. pbind (read_u32_fd (ca_ready_r a)) (\<lambda>r. case r of
     Inl _ \<Rightarrow> fail_child ''read ready signal'' | Inr _ \<Rightarrow> Done (Inr ())))"

primrec close_all :: "int list \<Rightarrow> unit prog" where
  "close_all [] = Done ()"
| "close_all (fd # fds) = pbind (syscall (KIo (IoClose fd))) (\<lambda>_. close_all fds)"

text \<open>When the directory cannot be read, nothing is closed.\<close>

definition close_fds_above :: "int \<Rightarrow> int list \<Rightarrow> unit prog" where
  "close_fds_above min_fd keep = pbind (syscall (KReadDir ''/proc/self/fd'')) (\<lambda>x. case x of
     Inl _ \<Rightarrow> Done ()
   | Inr (_, out) \<Rightarrow> close_all (filter (\<lambda>fd. fd > min_fd \<and> fd \<notin> set keep)
       (List.map_filter parse_i32 (filter utf8_valid (dir_names out)))))"

text \<open>\<open>std::env::set_var\<close> panics on a name or value the C library cannot hold.\<close>

definition settable :: "string \<Rightarrow> string \<Rightarrow> bool" where
  "settable key val \<longleftrightarrow> key \<noteq> [] \<and> CHR ''='' \<notin> set key \<and> CHR 0x00 \<notin> set key \<and> CHR 0x00 \<notin> set val"

definition set_var :: "string \<Rightarrow> string \<Rightarrow> unit step" where
  "set_var key val = (if settable key val then asking (SelfSetEnv key val) (\<lambda>_. Done (Inr ()))
     else Done (Inl ChildPanicked))"

primrec set_vars :: "(string \<times> string) list \<Rightarrow> unit step" where
  "set_vars [] = Done (Inr ())"
| "set_vars (kv # kvs) = try_then (set_var (fst kv) (snd kv)) (set_vars kvs)"

definition apply_env :: "child_spawn_args \<Rightarrow> unit step" where
  "apply_env a = try_then (if sb_clean_env (ca_sandbox a) then asking SelfClearEnv (\<lambda>_. Done (Inr ())) else Done (Inr ()))
     (set_vars (ca_env a))"

definition gpu_visibility :: "sandbox \<Rightarrow> unit step" where
  "gpu_visibility sb = (case sb_gpu_devices sb of
     None \<Rightarrow> Done (Inr ())
   | Some devices \<Rightarrow>
       if devices = [] then Done (Inr ())
       else let vis = join_with '','' (map (\<lambda>d. show_nat (unat d)) devices)
            in try_then (set_var ''CUDA_VISIBLE_DEVICES'' vis) (set_var ''ROCR_VISIBLE_DEVICES'' vis))"

text \<open>Step 14. With a chroot the name is copied to a buffer of \<open>PATH_MAX\<close> bytes, which panics when it does
  not fit. An empty command panics where its first word is named.\<close>

definition exec_command :: "sandbox \<Rightarrow> string list \<Rightarrow> child_end step" where
  "exec_command sb cmd = (case cmd of
     [] \<Rightarrow> Done (Inl ChildPanicked)
   | prog # _ \<Rightarrow>
       if sb_chroot sb \<noteq> None \<and> length prog + 1 > 4096 then Done (Inl ChildPanicked)
       else asking (SelfExecvp prog cmd) (\<lambda>x. case x of
         Inr _ \<Rightarrow> Done (Inr Executed) | Inl _ \<Rightarrow> fail_child ''execvp''))"

definition run_command :: "child_spawn_args \<Rightarrow> int \<Rightarrow> child_end step" where
  "run_command a keep_fd =
     try_then (wait_for_parent a) (
     pbind (close_fds_above 2 (ca_keep_fds a @ (if keep_fd \<ge> 0 then [keep_fd] else []))) (\<lambda>_.
     try_then (apply_env a) (
     try_then (gpu_visibility (ca_sandbox a)) (
     exec_command (ca_sandbox a) (ca_cmd a)))))"

section \<open>The child as a whole\<close>

definition set_up :: "child_spawn_args \<Rightarrow> unit step" where
  "set_up a = (let sb = ca_sandbox a in
     try_then process_group (
     try_then (die_with_parent (ca_parent_pid a)) (
     try_then (no_randomize sb) (
     try_then (bind_cores sb) (
     try_then (memory_options sb) (
     with_ids (\<lambda>real_uid real_gid.
     try_then (user_namespace sb (ca_cow_config a) real_uid real_gid) (
     try_then (overlay_mount (ca_cow_config a)) (
     change_cwd sb)))))))))"

definition confine_child :: "child_spawn_args \<Rightarrow> child_end prog" where
  "confine_child a = pbind
     (try_then (set_up a) (
      try_then no_new_privs (
      try_then (apply_landlock (ca_sandbox a)) (
      pbind (apply_seccomp a) (\<lambda>r. case r of Inl e \<Rightarrow> Done (Inl e) | Inr keep_fd \<Rightarrow> run_command a keep_fd)))))
     (\<lambda>r. Done (case r of Inl e \<Rightarrow> e | Inr e \<Rightarrow> e))"

section \<open>What is in force when the command runs\<close>

definition executes :: "sysreq \<Rightarrow> bool" where
  "executes r = (case r of KSelf q \<Rightarrow> (case q of SelfExecvp f args \<Rightarrow> True | _ \<Rightarrow> False) | _ \<Rightarrow> False)"

text \<open>Requests that neither run a command nor touch a Landlock ruleset, the file system or a device.\<close>

definition plain :: "sysreq \<Rightarrow> bool" where
  "plain r = (case r of
     KSelf q \<Rightarrow> (case q of SelfExecvp f args \<Rightarrow> False | SelfLandlockCreate f n s \<Rightarrow> False | SelfLandlockPath rs m fd \<Rightarrow> False
       | SelfLandlockPort rs m p \<Rightarrow> False | SelfLandlockRestrict rs \<Rightarrow> False | SelfIoctl fd c \<Rightarrow> False | _ \<Rightarrow> True)
   | KFs q \<Rightarrow> False
   | _ \<Rightarrow> True)"

text \<open>No new privileges, the ruleset of the policy, and the filter of the policy.\<close>

definition sandboxed :: "child_spawn_args \<Rightarrow> history \<Rightarrow> bool" where
  "sandboxed a h \<longleftrightarrow>
     (\<exists>out. (KSelf (SelfPrctl 38 1), Inr (0, out)) \<in> set h) \<and>
     confined_as (ca_sandbox a) True h \<and>
     (\<exists>prog v. confine_child_filter (ca_sandbox a) (ca_sandbox_name a) (ca_nested a) (ca_extra_syscalls a) = Inr prog \<and>
        (KSelf (SelfSeccomp (if ca_nested a then 0 else LISTENER_FLAGS) prog), Inr v) \<in> set h)"

definition only_sandboxed :: "child_spawn_args \<Rightarrow> history \<Rightarrow> sysreq \<Rightarrow> bool" where
  "only_sandboxed a h r \<longleftrightarrow> (executes r \<longrightarrow> sandboxed a h)"

lemma plain_not_executes: "plain r \<Longrightarrow> \<not> executes r"
  by (simp add: plain_def executes_def split: sysreq.splits self_req.splits)

lemma plain_only_sandboxed [simp]: "plain r \<Longrightarrow> only_sandboxed a h r"
  by (simp add: only_sandboxed_def plain_not_executes)

lemma plain_keeps_ruleset: "plain r \<Longrightarrow> ll_step s (r, x) = s"
  by (cases "(s, r, x)" rule: ll_step.cases) (auto simp: plain_def)

abbreviation quietly :: "history \<Rightarrow> history \<Rightarrow> bool" where
  "quietly \<equiv> calm (\<lambda>r. \<not> plain r)"

lemma quietly_landlock: "quietly h h' \<Longrightarrow> landlock h' = landlock h"
proof -
  have "foldl ll_step s t = s" if "list_all (\<lambda>(r, x). plain r) t" for s and t :: history
    using that by (induction t arbitrary: s) (auto simp: plain_keeps_ruleset)
  then show "quietly h h' \<Longrightarrow> landlock h' = landlock h"
    by (auto simp: calm_def landlock_def)
qed

lemma quietly_set: "quietly h h' \<Longrightarrow> set h \<subseteq> set h'"
  by (auto simp: calm_def)

lemma confined_quietly: "confined_as pol net h \<Longrightarrow> quietly h h' \<Longrightarrow> confined_as pol net h'"
  using quietly_landlock [of h h'] quietly_set [of h h']
  unfolding confined_as_def has_rule_def Let_def by (auto simp: subset_iff) blast+

lemma sandboxed_quietly: "sandboxed a h \<Longrightarrow> quietly h h' \<Longrightarrow> sandboxed a h'"
  using confined_quietly [of "ca_sandbox a" True h h'] quietly_set [of h h']
  unfolding sandboxed_def by blast

subsection \<open>The steps make plain requests\<close>

lemma only_plain_calls [simp]:
  "only R (asking q f) \<longleftrightarrow> R (KSelf q) \<and> (\<forall>x. only R (f x))"
  "only R (fail_child msg) \<longleftrightarrow> R (KSelf (SelfStderr (''sandlock child: '' @ msg)))"
  "only R (required q msg) \<longleftrightarrow> R (KSelf q) \<and> (R (KSelf (SelfStderr (''sandlock child: '' @ msg))) \<or> (\<forall>x. ret_is 0 x))"
  by (auto simp: asking_def fail_child_def required_def)

lemma only_try_then: "only R p \<Longrightarrow> only R q \<Longrightarrow> only R (try_then p q)"
  unfolding try_then_def by (rule only_pbind) (auto split: sum.split)

lemma plain_self [simp]:
  "plain (KSelf SelfSetpgid)" "plain (KSelf (SelfIsatty fd))" "plain (KSelf (SelfSignal sg b))"
  "plain (KSelf (SelfForeground fd))" "plain (KSelf (SelfPrctl o' v))" "plain (KSelf SelfGetppid)"
  "plain (KSelf (SelfPersonality v))" "plain (KSelf (SelfAffinity cs))" "plain (KSelf (SelfLimit l v))"
  "plain (KSelf SelfGetuid)" "plain (KSelf SelfGetgid)" "plain (KSelf (SelfUnshare v))"
  "plain (KSelf (SelfWriteFile f t))" "plain (KSelf (SelfOverlay f t))" "plain (KSelf (SelfChdir f))"
  "plain (KSelf (SelfSeccomp v prog))" "plain (KSelf SelfMarkConfined)" "plain (KSelf (SelfWrite fd bs))"
  "plain (KSelf (SelfRead fd n))" "plain (KSelf SelfClearEnv)" "plain (KSelf (SelfSetEnv f t))"
  "plain (KSelf (SelfStderr t))" "plain (KIo io)" "plain (KReadDir d)"
  by (simp_all add: plain_def)

lemma executes_simps [simp]:
  "executes (KSelf (SelfExecvp f args))" "\<not> executes (KSelf (SelfStderr t))"
  by (simp_all add: executes_def)

lemma only_steps:
  "only plain process_group" "only plain (die_with_parent pid)" "only plain (no_randomize sb)"
  "only plain (bind_cores sb)" "only plain (memory_options sb)" "only plain (change_cwd sb)"
  by (auto simp: process_group_def die_with_parent_def no_randomize_def bind_cores_def memory_options_def
      change_cwd_def intro!: only_try_then split: option.split sum.split)

lemma only_id_maps: "only plain (write_id_maps ru rg tu tg)"
  by (simp add: write_id_maps_def)

lemma only_namespaces: "only plain (user_namespace sb cow ru rg)" "only plain (overlay_mount cow)"
  by (auto simp: user_namespace_def overlay_mount_def with_ids_def Let_def
      intro!: only_try_then only_id_maps split: option.split)

lemma only_set_up: "only plain (set_up a)"
  unfolding set_up_def Let_def with_ids_def
  by (intro only_try_then only_steps) (auto intro!: only_try_then only_steps only_namespaces)

lemma only_write_rest: "only plain (write_rest k fd rest)"
  by (induction k arbitrary: rest) (auto split: sum.split)

lemma only_tell_parent: "only plain (tell_parent fd val msg)"
  unfolding tell_parent_def write_u32_fd_def
  by (rule only_pbind [OF only_write_rest]) (auto split: option.split sum.split)

lemma only_read_rest: "only plain (read_rest k fd acc)"
  by (induction k arbitrary: acc) (auto split: sum.split)

lemma only_wait_for_parent: "only plain (wait_for_parent a)"
  unfolding wait_for_parent_def read_u32_fd_def
  by (auto intro!: only_pbind only_read_rest split: sum.split)

lemma only_close: "only plain (close_fds_above m keep)"
proof -
  have "only plain (close_all fds)" for fds by (induction fds) auto
  then show ?thesis by (auto simp: close_fds_above_def split: sum.split)
qed

lemma only_set_vars: "only plain (set_vars kvs)"
  by (induction kvs) (auto simp: set_var_def intro!: only_try_then)

lemma only_env: "only plain (apply_env a)" "only plain (gpu_visibility sb)"
  by (auto simp: apply_env_def gpu_visibility_def set_var_def Let_def intro!: only_try_then only_set_vars
      split: option.split)

text \<open>Those by which Landlock confines a process.\<close>

definition ruling :: "sysreq \<Rightarrow> bool" where
  "ruling r = (case r of
     KSelf q \<Rightarrow> (case q of SelfLandlockVersion \<Rightarrow> True | SelfLandlockCreate f n s \<Rightarrow> True | SelfLandlockPath rs m fd \<Rightarrow> True
       | SelfLandlockPort rs m p \<Rightarrow> True | SelfLandlockRestrict rs \<Rightarrow> True | SelfFdMode fd \<Rightarrow> True | _ \<Rightarrow> False)
   | KFs q \<Rightarrow> (case q of FsOpen p fl m \<Rightarrow> True | FsExists p \<Rightarrow> True | _ \<Rightarrow> False)
   | KIo q \<Rightarrow> True | _ \<Rightarrow> False)"

lemma ruling_simps [simp]:
  "ruling (KSelf SelfLandlockVersion)" "ruling (KSelf (SelfLandlockCreate x y z))"
  "ruling (KSelf (SelfLandlockPath rs m fd))" "ruling (KSelf (SelfLandlockPort rs m p))"
  "ruling (KSelf (SelfLandlockRestrict rs))" "ruling (KSelf (SelfFdMode fd))"
  "ruling (KFs (FsOpen d fl md))" "ruling (KFs (FsExists d))" "ruling (KIo io)"
  by (simp_all add: ruling_def)

lemma ruling_not_executes: "ruling r \<Longrightarrow> \<not> executes r"
  by (simp add: ruling_def executes_def split: sysreq.splits self_req.splits)

lemma only_landlock: "only ruling (landlock_confine sb)"
proof -
  let ?R = "ruling"
  have path: "only ?R (add_path_rule fd p m)" for fd p m
    by (auto simp: add_path_rule_def Let_def split: sum.split prod.split)
  have paths: "only ?R (add_path_rules fd chroot m ps)" for fd chroot m ps
    by (induction ps) (auto simp: fs_test_def intro!: only_try_then path only_pbind split: sum.split)
  have optional: "only ?R (add_optional_rules fd m ps)" for fd m ps
    by (induction ps) (auto intro!: only_pbind path)
  have ports: "only ?R (add_net_rules fd m ps)" for fd m ps
    by (induction ps) (auto simp: add_net_rule_def intro!: only_try_then split: sum.split)
  have "only ?R (build_ruleset sb net abi fd)" for net abi fd
    unfolding build_ruleset_def
    by (intro only_try_then only_pbind) (auto intro!: paths optional ports only_pbind)
  then show ?thesis
    unfolding landlock_confine_def confine_inner_def abi_version_def
    by (auto intro!: only_pbind split: sum.split prod.split)
qed

subsection \<open>Nothing runs unconfined\<close>

lemma safe_try_then:
  assumes "safe P (\<lambda>h' r. r = Inr () \<longrightarrow> R h') h p" "\<And>h'. R h' \<Longrightarrow> safe P (\<lambda>_ _. True) h' q"
  shows "safe P (\<lambda>_ _. True) h (try_then p q)"
  unfolding try_then_def safe_pbind
  by (rule safe_mono [OF assms(1)]) (auto intro: assms(2) split: sum.split)

lemma safe_plain: "only plain p \<Longrightarrow> safe (only_sandboxed a) (\<lambda>h' _. quietly h h') h p"
  by (rule safe_only) simp_all

lemma safe_plain_step:
  "only plain p \<Longrightarrow> sandboxed a h \<Longrightarrow> safe (only_sandboxed a) (\<lambda>h' r. r = Inr () \<longrightarrow> sandboxed a h') h p"
  by (rule safe_mono [OF safe_plain]) (auto intro: sandboxed_quietly)

lemma safe_run_command:
  assumes "sandboxed a h"
  shows "safe (only_sandboxed a) (\<lambda>_ _. True) h (run_command a keep_fd)"
proof -
  have exec: "safe (only_sandboxed a) (\<lambda>_ _. True) h' (exec_command sb cmd)" if "sandboxed a h'" for h' sb cmd
    using that by (auto simp: exec_command_def asking_def fail_child_def only_sandboxed_def split: list.split sum.split)
  show ?thesis
    unfolding run_command_def
  proof (rule safe_try_then [OF safe_plain_step [OF only_wait_for_parent assms]])
    fix h1 assume h1: "sandboxed a h1"
    show "safe (only_sandboxed a) (\<lambda>_ _. True) h1
       (pbind (close_fds_above 2 (ca_keep_fds a @ (if keep_fd \<ge> 0 then [keep_fd] else []))) (\<lambda>_.
         try_then (apply_env a) (try_then (gpu_visibility (ca_sandbox a)) (exec_command (ca_sandbox a) (ca_cmd a)))))"
      unfolding safe_pbind
    proof (rule safe_mono [OF safe_plain [OF only_close]])
      fix h2 assume "quietly h1 h2"
      then have "sandboxed a h2" using h1 sandboxed_quietly by blast
      then show "safe (only_sandboxed a) (\<lambda>_ _. True) h2
          (try_then (apply_env a) (try_then (gpu_visibility (ca_sandbox a)) (exec_command (ca_sandbox a) (ca_cmd a))))"
        by (intro safe_try_then [OF safe_plain_step [OF only_env(1)]] safe_try_then [OF safe_plain_step [OF only_env(2)]] exec)
    qed
  qed
qed

text \<open>Landlock and no new privileges are in force.\<close>

definition landlocked :: "child_spawn_args \<Rightarrow> history \<Rightarrow> bool" where
  "landlocked a h \<longleftrightarrow> (\<exists>out. (KSelf (SelfPrctl 38 1), Inr (0, out)) \<in> set h) \<and> confined_as (ca_sandbox a) True h"

lemma only_seccomp: "only plain (apply_seccomp a)"
  by (auto simp: apply_seccomp_def install_deny_filter_def install_filter_def
      intro!: only_pbind only_try_then only_tell_parent split: sum.split)

lemma told_after:
  assumes "(q, Inr (v, out)) \<in> set h"
  shows "safe anything (\<lambda>h' r. \<not> isl r \<longrightarrow> (\<exists>a b. (q, Inr (a, b)) \<in> set h')) h
     (try_then (tell_parent fd val msg) (Done (Inr k)))"
  unfolding try_then_def safe_pbind
proof (rule safe_only [OF only_tell_parent])
  fix h' and r :: "child_end + unit"
  assume "quietly h h'"
  then have "(q, Inr (v, out)) \<in> set h'" using assms quietly_set by blast
  then show "safe anything (\<lambda>h' r. \<not> isl r \<longrightarrow> (\<exists>a b. (q, Inr (a, b)) \<in> set h')) h'
      (case r of Inl e \<Rightarrow> Done (Inl e) | Inr _ \<Rightarrow> Done (Inr k))"
    by (cases r) auto
qed simp

lemma seccomp_installs:
  "safe anything (\<lambda>h' r. \<not> isl r \<longrightarrow> (\<exists>prog v.
     confine_child_filter (ca_sandbox a) (ca_sandbox_name a) (ca_nested a) (ca_extra_syscalls a) = Inr prog \<and>
     (KSelf (SelfSeccomp (if ca_nested a then 0 else LISTENER_FLAGS) prog), Inr v) \<in> set h')) h (apply_seccomp a)"
proof (cases "confine_child_filter (ca_sandbox a) (ca_sandbox_name a) (ca_nested a) (ca_extra_syscalls a)")
  case (Inr prog)
  then show ?thesis
    unfolding apply_seccomp_def install_deny_filter_def install_filter_def
    by (cases "ca_nested a") (auto simp: fail_child_def intro!: told_after split: sum.split)
qed (simp add: apply_seccomp_def fail_child_def)

text \<open>C2: Whatever the kernel answers, the child requests the command to be run only after it has given up new
  privileges, is confined by the Landlock ruleset of the policy and has installed the seccomp filter of the
  policy; every failure before that ends it without running anything.\<close>

theorem command_runs_confined:
  "always (only_sandboxed a) K (confine_child a)"
proof (rule safe_always)
  have landlock: "safe (only_sandboxed a) (\<lambda>h' r. r = Inr () \<longrightarrow> landlocked a h') h (apply_landlock (ca_sandbox a))"
    if "\<not> ll_enforced (landlock h)" and nnp: "\<exists>out. (KSelf (SelfPrctl 38 1), Inr (0, out)) \<in> set h" for h
    unfolding apply_landlock_def safe_pbind
  proof (rule safe_both [OF only_landlock])
    show "safe anything (\<lambda>h' r. set h \<subseteq> set h' \<and> (case r of Inr _ \<Rightarrow> confined_as (ca_sandbox a) True h'
        | Inl _ \<Rightarrow> \<not> ll_enforced (landlock h'))) h (landlock_confine (ca_sandbox a))"
      unfolding landlock_confine_def by (rule confine_inner_safe [OF that(1)])
  next
    fix h' r
    assume "set h \<subseteq> set h' \<and> (case r of Inr _ \<Rightarrow> confined_as (ca_sandbox a) True h' | Inl _ \<Rightarrow> \<not> ll_enforced (landlock h'))"
    then show "safe (only_sandboxed a) (\<lambda>h' r. r = Inr () \<longrightarrow> landlocked a h') h'
        (case r of Inl _ \<Rightarrow> fail_child ''landlock'' | Inr _ \<Rightarrow> Done (Inr ()))"
      using nnp by (auto simp: fail_child_def landlocked_def split: sum.split)
  qed (simp add: only_sandboxed_def ruling_not_executes)
  have filtered: "safe (only_sandboxed a) (\<lambda>_ _. True) h
      (pbind (apply_seccomp a) (\<lambda>r. case r of Inl e \<Rightarrow> Done (Inl e) | Inr keep_fd \<Rightarrow> run_command a keep_fd))"
    if "landlocked a h" for h
    unfolding safe_pbind
  proof (rule safe_both [OF only_seccomp seccomp_installs])
    fix h' and r :: "child_end + int"
    assume h': "quietly h h'" "\<not> isl r \<longrightarrow> (\<exists>prog v.
       confine_child_filter (ca_sandbox a) (ca_sandbox_name a) (ca_nested a) (ca_extra_syscalls a) = Inr prog \<and>
       (KSelf (SelfSeccomp (if ca_nested a then 0 else LISTENER_FLAGS) prog), Inr v) \<in> set h')"
    show "safe (only_sandboxed a) (\<lambda>_ _. True) h' (case r of Inl e \<Rightarrow> Done (Inl e) | Inr keep_fd \<Rightarrow> run_command a keep_fd)"
    proof (cases r)
      case (Inr keep_fd)
      have "sandboxed a h'"
        using that h' confined_quietly [OF _ h'(1)] quietly_set [OF h'(1)]
        unfolding landlocked_def sandboxed_def Inr by auto
      then show ?thesis by (simp add: Inr safe_run_command)
    qed simp
  qed simp
  have privs: "safe (only_sandboxed a) (\<lambda>h' r. r = Inr () \<longrightarrow> \<not> ll_enforced (landlock h') \<and>
       (\<exists>out. (KSelf (SelfPrctl 38 1), Inr (0, out)) \<in> set h')) h no_new_privs"
    if "\<not> ll_enforced (landlock h)" for h
    using that by (auto simp: no_new_privs_def required_def fail_child_def ret_is_def split: sum.splits)
  show "safe (only_sandboxed a) (\<lambda>_ _. True) [] (confine_child a)"
    unfolding confine_child_def safe_pbind safe.simps(1)
  proof (rule safe_try_then [where R = "\<lambda>h. \<not> ll_enforced (landlock h)"])
    show "safe (only_sandboxed a) (\<lambda>h r. r = Inr () \<longrightarrow> \<not> ll_enforced (landlock h)) [] (set_up a)"
      by (rule safe_mono [OF safe_plain [OF only_set_up]]) (simp add: quietly_landlock ll_init_def)
  next
    fix h assume "\<not> ll_enforced (landlock h)"
    then show "safe (only_sandboxed a) (\<lambda>_ _. True) h (try_then no_new_privs (try_then (apply_landlock (ca_sandbox a))
        (pbind (apply_seccomp a) (\<lambda>r. case r of Inl e \<Rightarrow> Done (Inl e) | Inr keep_fd \<Rightarrow> run_command a keep_fd))))"
      by (intro safe_try_then [OF privs] safe_try_then [OF landlock] filtered) auto
  qed
qed

section \<open>Descriptors that stay open\<close>

lemma unlisted_directory_denied:
  assumes "confined_as pol net h" "sb_chroot pol = None" "sb_gpu_devices pol = None"
    "\<forall>q \<in> set (sb_fs_writable pol @ sb_fs_readable pol). \<not> below dir q"
  shows "\<not> ll_fs_allowed below (landlock h) dir LANDLOCK_ACCESS_FS_READ_DIR"
proof -
  obtain abi where handled: "ll_handled (landlock h) = Some (base_fs_access abi, handled_access_net pol net, scoped_access)"
    and granted: "\<And>g. g \<in> ll_paths (landlock h) \<Longrightarrow> granted pol abi g"
    using assms(1) by (auto simp: confined_as_def Let_def)
  have "base_fs_access abi AND LANDLOCK_ACCESS_FS_READ_DIR \<noteq> 0"
    by (auto simp: base_fs_access_def later_access_def Let_def access_bits)
  moreover have "\<not> below dir p" if "(p, m) \<in> ll_paths (landlock h)" for p m
    using granted [OF that] assms(2-4) by (auto simp: granted_def landlock_path_def)
  ultimately show ?thesis by (auto simp: ll_fs_allowed_def handled)
qed

text \<open>Unless the policy lists a path above \<open>/proc/self/fd\<close>, Landlock keeps the confined child from reading
  that directory, and then no descriptor inherited from the supervisor is closed before the command runs.
  The kernel is assumed to refuse the reading of a directory that its Landlock rules do not allow.\<close>

theorem descriptors_survive:
  assumes "confined_as pol True h" "sb_chroot pol = None" "sb_gpu_devices pol = None"
    "\<forall>q \<in> set (sb_fs_writable pol @ sb_fs_readable pol). \<not> below ''/proc/self/fd'' q"
    "\<And>h d. \<not> ll_fs_allowed below (landlock h) d LANDLOCK_ACCESS_FS_READ_DIR \<Longrightarrow> K h (KReadDir d) = Inl 13"
  shows "run K (close_fds_above 2 keep) h = ((), h @ [(KReadDir ''/proc/self/fd'', Inl 13)])"
  using assms(5) [OF unlisted_directory_denied [where below = below and dir = "''/proc/self/fd''", OF assms(1-4)]] by (simp add: close_fds_above_def Let_def)

definition landlock_kernel :: kernel where
  "landlock_kernel h r = (case r of
     KReadDir d \<Rightarrow> if ll_fs_allowed (\<lambda>path p. prefix p path) (landlock h) d LANDLOCK_ACCESS_FS_READ_DIR
       then Inr (0, bytes_of_string ''3'') else Inl 13
   | _ \<Rightarrow> willing r)"

theorem descriptors_survive_witness:
  "run landlock_kernel (close_fds_above 2 []) (trace (stateless willing) (landlock_confine example_policy)) =
     ((), trace (stateless willing) (landlock_confine example_policy) @ [(KReadDir ''/proc/self/fd'', Inl 13)])"
  by (rule descriptors_survive [OF example_confined, where below = "\<lambda>path p. prefix p path"])
     (simp_all add: example_policy_def minimal_sandbox_def landlock_kernel_def)

section \<open>Panics in the child\<close>

text \<open>A core number that the configuration accepts, and an empty variable name that it accepts, unwind the child
  into the code of its parent.\<close>

lemma core_out_of_range_panics:
  "bind_cores (minimal_sandbox\<lparr>sb_cpu_cores := Some [1024]\<rparr>) = Done (Inl ChildPanicked)"
  by (simp add: bind_cores_def)

lemma empty_variable_panics: "set_var [] v = Done (Inl ChildPanicked)"
  by (simp add: set_var_def settable_def)

section \<open>A child that runs its command\<close>

definition example_child :: child_spawn_args where
  "example_child = \<lparr>ca_sandbox = example_policy, ca_cmd = [''true''], ca_notif_w = 4, ca_ready_r = 5, ca_cow_config = None,
     ca_nested = False, ca_keep_fds = [], ca_sandbox_name = None, ca_extra_syscalls = [], ca_parent_pid = 3, ca_env = []\<rparr>"

definition child_kernel :: "sysreq \<Rightarrow> sysres" where
  "child_kernel r = (case r of
     KSelf q \<Rightarrow> (case q of SelfSetpgid \<Rightarrow> Inr (0, []) | SelfPrctl o' v \<Rightarrow> Inr (0, [])
       | SelfWrite fd bs \<Rightarrow> Inr (int (length bs), []) | SelfRead fd n \<Rightarrow> Inr (int n, replicate n 1) | _ \<Rightarrow> willing r)
   | KReadDir d \<Rightarrow> Inl 13
   | _ \<Rightarrow> willing r)"

lemma example_landlock: "result (stateless child_kernel) (landlock_confine example_policy) = Inr ()"
  by (simp add: result_stateless landlock_confine_def confine_inner_def abi_version_def build_ruleset_def
      example_policy_def minimal_sandbox_def try_then_def add_path_rule_def add_net_rule_def child_kernel_def willing_def
      landlock_path_def Let_def MIN_ABI_def connect_ports_def net_wildcard_def)

lemma filter_assembles:
  "length extra \<le> 3862 \<Longrightarrow> \<exists>prog. confine_child_filter p nm nested extra = Inr prog"
  using assemble_filter_ok [of "if nested then [] else merged_notif p nm extra" "blocklist_syscall_numbers p" "arg_filters p"]
    filter_total_bound(1) [of p nm extra] filter_total_bound(2) [of p]
  by (cases nested) (auto simp: confine_child_filter_def Let_def)

lemma example_child_executes: "result (stateless child_kernel) (confine_child example_child) = Executed"
proof -
  obtain prog where prog: "confine_child_filter example_policy None False [] = Inr prog"
    using filter_assembles [of "[]" example_policy None False] by auto
  have policy: "sb_no_randomize_memory example_policy = False" "sb_cpu_cores example_policy = None"
    "sb_no_huge_pages example_policy = False" "sb_no_coredump example_policy = False" "sb_uid example_policy = None"
    "sb_cwd example_policy = None" "sb_chroot example_policy = None" "sb_workdir example_policy = None"
    "sb_clean_env example_policy = False" "sb_gpu_devices example_policy = None"
    by (simp_all add: example_policy_def minimal_sandbox_def)
  have eval: "eval child_kernel (landlock_confine example_policy) = Inr ()"
    using example_landlock by (simp add: result_stateless)
  have written: "eval child_kernel (write_rest 5 4 bs) = Some (Inr ())" for bs
    by (simp add: eval_nat_numeral child_kernel_def)
  have signal: "eval child_kernel (read_rest 4 5 []) = Inr (replicate 4 1)"
    by (simp add: eval_nat_numeral child_kernel_def)
  show ?thesis
    by (simp add: result_stateless confine_child_def try_then_def set_up_def process_group_def die_with_parent_def
        required_def asking_def ret_is_def no_randomize_def bind_cores_def memory_options_def with_ids_def
        user_namespace_def overlay_mount_def change_cwd_def effective_cwd_def no_new_privs_def apply_landlock_def
        apply_seccomp_def install_filter_def tell_parent_def write_u32_fd_def run_command_def wait_for_parent_def
        read_u32_fd_def close_fds_above_def apply_env_def gpu_visibility_def exec_command_def example_child_def policy
        Let_def eval prog child_kernel_def willing_def written signal)
qed

end
