(* ===== verification/Branches.thy ===== *)
theory Branches
  imports ChildSetup
begin

text \<open>
  The kernel-backed copy-on-write branches (\<open>cow/mod.rs\<close>, \<open>cow/overlayfs.rs\<close>, \<open>cow/branchfs.rs\<close>): the
  branch an overlay mount writes to, which the supervisor merges back or drops, and the branch of a
  BranchFS mount, which the file system itself keeps.
\<close>

unbundle bit_operations_syntax

section \<open>Overlay branches\<close>

record OverlayBranch =
  ob_base_dir :: string
  ob_storage :: string
  ob_upper :: string
  ob_merged :: string

text \<open>\<open>OverlayBranch::create\<close>; \<open>branch_id\<close> is the fresh UUID.\<close>

definition OverlayBranch_create :: "string \<Rightarrow> string \<Rightarrow> string \<Rightarrow> (branch_error + OverlayBranch) prog" where
  "OverlayBranch_create branch_id base storage =
     (let branch_dir = path_push storage branch_id;
          upper_dir = path_push branch_dir ''upper'';
          work_dir = path_push branch_dir ''work'';
          merged_dir = path_push branch_dir ''merged''
      in pbind (fs_try (FsCreateDirAll upper_dir)) (\<lambda>r. case r of
           Inl e \<Rightarrow> Done (Inl (Operation ''create upper'' e))
         | Inr _ \<Rightarrow> pbind (fs_try (FsCreateDirAll work_dir)) (\<lambda>r. case r of
             Inl e \<Rightarrow> Done (Inl (Operation ''create work'' e))
           | Inr _ \<Rightarrow> pbind (fs_try (FsCreateDirAll merged_dir)) (\<lambda>r. case r of
               Inl e \<Rightarrow> Done (Inl (Operation ''create merged'' e))
             | Inr _ \<Rightarrow> Done (Inr \<lparr>ob_base_dir = base, ob_storage = branch_dir, ob_upper = upper_dir,
                 ob_merged = merged_dir\<rparr>)))))"

definition overlay_mount_config :: "OverlayBranch \<Rightarrow> child_mount_config" where
  "overlay_mount_config ob = \<lparr>mc_mount_point = ob_base_dir ob, mc_upper = ob_upper ob,
     mc_work = path_push (ob_storage ob) ''work'', mc_lowers = [ob_base_dir ob]\<rparr>"

text \<open>\<open>is_whiteout\<close>: a character device with number 0.\<close>

definition is_whiteout :: "string \<Rightarrow> bool prog" where
  "is_whiteout path = pbind (syscall (KFs (FsSymlinkMetadata path))) (\<lambda>x. Done (case x of
     Inl _ \<Rightarrow> False
   | Inr (_, out) \<Rightarrow> (le_word (take 4 out) :: u32) AND 0xF000 = 0x2000 \<and> (le_word (take 8 (drop 36 out)) :: u64) = 0))"

text \<open>The answer of \<open>to_str().unwrap_or("")\<close>; the directory was created, so its name has no NUL.\<close>

definition overlay_cleanup :: "OverlayBranch \<Rightarrow> unit prog" where
  "overlay_cleanup ob =
     pbind (syscall (KSelf (SelfUmount (if utf8_valid (ob_merged ob) then ob_merged ob else [])))) (\<lambda>_.
     pbind (fs_try (FsRemoveDirAll (ob_storage ob))) (\<lambda>_. Done ()))"

definition overlay_entry :: "OverlayBranch \<Rightarrow> string \<Rightarrow> bool \<Rightarrow> (branch_error + unit) prog" where
  "overlay_entry ob rel dir = (let target = path_push (ob_base_dir ob) rel; entry = path_push (ob_upper ob) rel in
     pbind (is_whiteout entry) (\<lambda>w.
     if w then pbind (fs_try (FsRemoveFile target)) (\<lambda>_. pbind (fs_try (FsRemoveDirAll target)) (\<lambda>_. Done (Inr ())))
     else if dir then pbind (fs_try (FsCreateDirAll target)) (\<lambda>r. Done (map_sum (Operation ''mkdir'') id r))
     else pbind (make_parent target) (\<lambda>_.
       pbind (fs_try (FsCopy entry target)) (\<lambda>r. Done (map_sum (Operation ''copy'') id r)))))"

primrec overlay_entries :: "OverlayBranch \<Rightarrow> walk_item list \<Rightarrow> (branch_error + unit) prog" where
  "overlay_entries ob [] = Done (Inr ())"
| "overlay_entries ob (it # its) = (case it of
     WalkError e \<Rightarrow> Done (Inl (Operation ''walk'' e))
   | WalkEntry rel dir \<Rightarrow> try_then (overlay_entry ob rel dir) (overlay_entries ob its))"

definition overlay_commit :: "walk_item list \<Rightarrow> OverlayBranch \<Rightarrow> (branch_error + unit) prog" where
  "overlay_commit walk ob = try_then (overlay_entries ob walk) (pbind (overlay_cleanup ob) (\<lambda>_. Done (Inr ())))"

definition overlay_abort :: "OverlayBranch \<Rightarrow> (branch_error + unit) prog" where
  "overlay_abort ob = pbind (overlay_cleanup ob) (\<lambda>_. Done (Inr ()))"

primrec overlay_walk_changes ::
  "OverlayBranch \<Rightarrow> walk_item list \<Rightarrow> (ChangeKind \<times> string) list \<Rightarrow> (branch_error + (ChangeKind \<times> string) list) prog"
where
  "overlay_walk_changes ob [] acc = Done (Inr acc)"
| "overlay_walk_changes ob (it # its) acc = (case it of
     WalkError e \<Rightarrow> Done (Inl (Operation ''walk'' e))
   | WalkEntry rel dir \<Rightarrow>
       pbind (is_whiteout (path_push (ob_upper ob) rel)) (\<lambda>w.
       if w then overlay_walk_changes ob its (acc @ [(Deleted, rel)])
       else if dir then overlay_walk_changes ob its acc
       else pbind (fs_test (FsExists (path_push (ob_base_dir ob) rel))) (\<lambda>l.
         overlay_walk_changes ob its (acc @ [(if l then Modified else Added, rel)]))))"

definition overlay_changes :: "walk_item list \<Rightarrow> OverlayBranch \<Rightarrow> (branch_error + (ChangeKind \<times> string) list) prog" where
  "overlay_changes walk ob = overlay_walk_changes ob walk []"

section \<open>BranchFS\<close>

definition FS_IOC_BRANCH_CREATE :: u64 where "FS_IOC_BRANCH_CREATE = 0x80806200"
definition FS_IOC_BRANCH_COMMIT :: u64 where "FS_IOC_BRANCH_COMMIT = 0x00006201"
definition FS_IOC_BRANCH_ABORT :: u64 where "FS_IOC_BRANCH_ABORT = 0x00006202"

record BranchFsBranch =
  ctl_path :: string

text \<open>Opening for reading and writing.\<close>

definition open_ctl :: "string \<Rightarrow> string \<Rightarrow> (branch_error + int) prog" where
  "open_ctl ctl msg = pbind (syscall (KFs (FsOpen ctl 0x80002 0x1B6))) (\<lambda>x. Done (case x of
     Inl e \<Rightarrow> Inl (Operation msg e) | Inr (fd, _) \<Rightarrow> Inr fd))"

text \<open>The kernel writes the UUID and its NUL over the first bytes of a buffer of 128 zeros.\<close>

definition BranchFsBranch_create :: "string \<Rightarrow> (branch_error + BranchFsBranch) prog" where
  "BranchFsBranch_create mount_root =
     pbind (open_ctl (path_push mount_root ''.branchfs_ctl'') ''open'') (\<lambda>f. case f of
       Inl e \<Rightarrow> Done (Inl e)
     | Inr fd \<Rightarrow> pbind (syscall (KSelf (SelfIoctl fd FS_IOC_BRANCH_CREATE))) (\<lambda>x. Done (case x of
         Inl e \<Rightarrow> Inl (Operation ''ioctl CREATE'' e)
       | Inr (_, out) \<Rightarrow> (let buf = take 128 (out @ replicate 128 0) in
           if 0 \<notin> set buf then Inl (Operation ''invalid UUID from ioctl'' 0)
           else let uuid = string_of_bytes (takeWhile (\<lambda>b. b \<noteq> 0) buf) in
             if \<not> utf8_valid uuid then Inl (Operation ''non-UTF8 UUID'' 0)
             else Inr \<lparr>ctl_path = path_push (path_push mount_root (''@'' @ uuid)) ''.branchfs_ctl''\<rparr>))))"

definition ctl_ioctl :: "u64 \<Rightarrow> BranchFsBranch \<Rightarrow> (branch_error + unit) prog" where
  "ctl_ioctl cmd br = pbind (open_ctl (ctl_path br) ''open ctl'') (\<lambda>f. case f of
     Inl e \<Rightarrow> Done (Inl e)
   | Inr fd \<Rightarrow> pbind (syscall (KSelf (SelfIoctl fd cmd))) (\<lambda>x. Done (case x of
       Inl e \<Rightarrow> Inl (Operation ''ioctl'' e) | Inr _ \<Rightarrow> Inr ())))"

section \<open>The common interface\<close>

text \<open>\<open>Box<dyn CowBranch>\<close> and the operations of the trait; the lists are the walks of the upper directory
  at the time of the call.\<close>

datatype cow_backend = OverlayBackend OverlayBranch | BranchFsBackend BranchFsBranch

primrec backend_mount_config :: "cow_backend \<Rightarrow> child_mount_config option" where
  "backend_mount_config (OverlayBackend ob) = Some (overlay_mount_config ob)"
| "backend_mount_config (BranchFsBackend br) = None"

primrec backend_commit :: "walk_item list \<Rightarrow> cow_backend \<Rightarrow> (branch_error + unit) prog" where
  "backend_commit walk (OverlayBackend ob) = overlay_commit walk ob"
| "backend_commit walk (BranchFsBackend br) = ctl_ioctl FS_IOC_BRANCH_COMMIT br"

primrec backend_abort :: "cow_backend \<Rightarrow> (branch_error + unit) prog" where
  "backend_abort (OverlayBackend ob) = overlay_abort ob"
| "backend_abort (BranchFsBackend br) = ctl_ioctl FS_IOC_BRANCH_ABORT br"

primrec backend_changes :: "walk_item list \<Rightarrow> cow_backend \<Rightarrow> (branch_error + (ChangeKind \<times> string) list) prog" where
  "backend_changes walk (OverlayBackend ob) = overlay_changes walk ob"
| "backend_changes walk (BranchFsBackend br) = Done (Inr [])"

section \<open>A dry run predicts the commit\<close>

text \<open>The files a history removes and writes, in order.\<close>

fun file_effect :: "sysreq \<times> sysres \<Rightarrow> (bool \<times> string) list" where
  "file_effect (KFs (FsRemoveFile p), x) = [(True, p)]"
| "file_effect (KFs (FsCopy s p), x) = [(False, p)]"
| "file_effect e = []"

abbreviation file_effects :: "history \<Rightarrow> (bool \<times> string) list" where
  "file_effects h \<equiv> concat (map file_effect h)"

definition effect_of :: "OverlayBranch \<Rightarrow> ChangeKind \<times> string \<Rightarrow> bool \<times> string" where
  "effect_of ob c = (fst c = Deleted, path_push (ob_base_dir ob) (snd c))"

text \<open>A kernel that carries out what a commit asks for.\<close>

definition obliging :: "(sysreq \<Rightarrow> sysres) \<Rightarrow> bool" where
  "obliging M \<longleftrightarrow> (\<forall>p. \<not> isl (M (KFs (FsCreateDirAll p)))) \<and> (\<forall>s p. \<not> isl (M (KFs (FsCopy s p))))"

primrec asked :: "(sysreq \<Rightarrow> sysres) \<Rightarrow> 'a prog \<Rightarrow> history" where
  "asked M (Done a) = []"
| "asked M (Call r k) = (r, M r) # asked M (k (M r))"

lemma asked_pbind [simp]: "asked M (pbind p f) = asked M p @ asked M (f (eval M p))"
  by (induction p) auto

lemma trace_stateless: "trace (stateless M) p = asked M p"
proof -
  have "snd (run (stateless M) p h) = h @ asked M p" for h
    by (induction p arbitrary: h) (auto simp: stateless_def Let_def)
  then show ?thesis by (simp add: trace_def)
qed

lemma obliging_simps [simp]:
  "obliging M \<Longrightarrow> eval M (fs_try (FsCreateDirAll p)) = Inr ()"
  "obliging M \<Longrightarrow> eval M (fs_try (FsCopy s p)) = Inr ()"
  by (simp_all add: fs_try_def obliging_def isl_def split: sum.split)

lemma effects_fs [simp]:
  "file_effects (asked M (fs_try q)) = file_effect (KFs q, M (KFs q))"
  "file_effects (asked M (fs_test (FsExists p))) = []"
  "file_effects (asked M (is_whiteout p)) = []"
  "file_effects (asked M (make_parent p)) = []"
  by (simp_all add: fs_try_def fs_test_def is_whiteout_def make_parent_def split: option.split)

lemma entry_effects:
  assumes "obliging M"
  shows "eval M (overlay_entry ob rel dir) = Inr ()"
    "file_effects (asked M (overlay_entry ob rel dir)) =
       (let t = path_push (ob_base_dir ob) rel in
        if eval M (is_whiteout (path_push (ob_upper ob) rel)) then [(True, t)]
        else if dir then [] else [(False, t)])"
  using assms by (simp_all add: overlay_entry_def Let_def)

lemma walk_changes_extend:
  "eval M (overlay_walk_changes ob walk acc) = Inr r \<Longrightarrow> prefix acc r"
proof (induction walk arbitrary: acc)
  case (Cons it its)
  then show ?case
    by (cases it) (auto simp: Let_def split: if_splits dest!: Cons.IH append_prefixD)
qed simp

lemma entries_effects:
  assumes "obliging M" "eval M (overlay_walk_changes ob walk acc) = Inr (acc @ cs)"
  shows "eval M (overlay_entries ob walk) = Inr () \<and>
    file_effects (asked M (overlay_entries ob walk)) = map (effect_of ob) cs"
  using assms(2)
proof (induction walk arbitrary: acc cs)
  case (Cons it its)
  then obtain rel dir where it: "it = WalkEntry rel dir" by (cases it) auto
  let ?w = "eval M (is_whiteout (path_push (ob_upper ob) rel))"
  show ?case
  proof (cases "\<not> ?w \<and> dir")
    case True
    then have "eval M (overlay_walk_changes ob its acc) = Inr (acc @ cs)" using Cons.prems it by simp
    from Cons.IH [OF this] True show ?thesis by (simp add: it try_then_def entry_effects [OF assms(1)])
  next
    case False
    then obtain c where c: "eval M (overlay_walk_changes ob its (acc @ [c])) = Inr (acc @ cs)"
      "snd c = rel" "(fst c = Deleted) = ?w"
      using Cons.prems it by (auto simp: Let_def split: if_splits)
    then obtain cs' where cs: "cs = c # cs'"
      using walk_changes_extend [OF c(1)] by (auto simp: prefix_def)
    from Cons.IH [of "acc @ [c]" cs'] c show ?thesis
      using False by (auto simp: it cs try_then_def entry_effects [OF assms(1)] effect_of_def Let_def)
  qed
qed simp


definition example_overlay :: OverlayBranch where
  "example_overlay = \<lparr>ob_base_dir = ''/w'', ob_storage = ''/s/1'', ob_upper = ''/s/1/upper'', ob_merged = ''/s/1/merged''\<rparr>"

definition example_layer :: "sysreq \<Rightarrow> sysres" where
  "example_layer r = (if r = KFs (FsSymlinkMetadata ''/s/1/upper/old'') then Inr (0, le_bytes 4 (0x2000 :: u32) @ replicate 104 0)
     else if r = KFs (FsExists ''/w/new'') then Inl 2 else Inr (1, le_bytes 4 (0x81A4 :: u32) @ replicate 104 0))"


end
