(* ===== verification/Lifecycle.thy ===== *)
theory Lifecycle
  imports Branches
begin

text \<open>
  The owner's side of a sandbox (\<open>sandbox.rs\<close>, \<open>result.rs\<close>): the runtime block a configuration gets on first
  use, the operations that signal, wait for, freeze and drop the child, and what becomes of its
  copy-on-write branch. Descriptors are numbers; a background task is a flag, and aborting it clears the
  flag. The states the owner shares with the supervisor task are fields of the runtime block, which that
  task may change between two operations.
\<close>

unbundle bit_operations_syntax

section \<open>Results and errors\<close>

datatype ExitStatus = Code int | Signal int | Killed | Timeout

record RunResult =
  exit_status :: ExitStatus
  rr_stdout :: "bytes option"
  rr_stderr :: "bytes option"

definition success :: "RunResult \<Rightarrow> bool" where
  "success r \<longleftrightarrow> exit_status r = Code 0"

definition code_of :: "RunResult \<Rightarrow> int option" where
  "code_of r = (case exit_status r of Code c \<Rightarrow> Some c | _ \<Rightarrow> None)"

definition timeout_result :: RunResult where
  "timeout_result = \<lparr>exit_status = Timeout, rr_stdout = None, rr_stderr = None\<rparr>"

text \<open>\<open>stdout_str\<close> and \<open>stderr_str\<close>: text without its last newlines.\<close>

definition output_str :: "bytes option \<Rightarrow> string option" where
  "output_str out = Option.bind out (\<lambda>bs. let s = string_of_bytes bs in
     if utf8_valid s then Some (rev (dropWhile (\<lambda>c. c = CHR 0x0A) (rev s))) else None)"

text \<open>\<open>SandlockError\<close>; \<open>Panics\<close> is the unwinding of \<open>expect("sandbox not started")\<close>.\<close>

datatype sandlock_error =
    ForkFailed int
  | ChildError string
  | BranchFailed branch_error
  | NotRunning
  | IoError int
  | ResolveError string
  | HandlerError handler_error
  | Panics

text \<open>\<open>sandbox_wait_status_to_exit\<close>, on the wait status of Linux.\<close>

definition WIFEXITED :: "u32 \<Rightarrow> bool" where "WIFEXITED status \<longleftrightarrow> status AND 0x7F = 0"
definition WEXITSTATUS :: "u32 \<Rightarrow> int" where "WEXITSTATUS status = uint (drop_bit 8 status AND 0xFF)"
definition WTERMSIG :: "u32 \<Rightarrow> int" where "WTERMSIG status = uint (status AND 0x7F)"
definition WIFSIGNALED :: "u32 \<Rightarrow> bool" where
  "WIFSIGNALED status \<longleftrightarrow> 0 < WTERMSIG status \<and> WTERMSIG status < 0x7F"

definition wait_status_to_exit :: "u32 \<Rightarrow> ExitStatus" where
  "wait_status_to_exit status =
     (if WIFEXITED status then Code (WEXITSTATUS status)
      else if WIFSIGNALED status then (if WTERMSIG status = 9 then Killed else Signal (WTERMSIG status))
      else Killed)"

section \<open>The runtime block\<close>

datatype RuntimeState = Created | Running | Paused | Stopped ExitStatus

record http_acl_handle =
  ha_addr :: socket_addr
  ha_orig_dest :: "socket_addr \<Rightarrow> ip_addr option"

record 'h runtime =
  rt_name :: string
  rt_state :: RuntimeState
  rt_child_pid :: "int option"
  rt_pidfd :: "int option"
  rt_notif_handle :: bool
  rt_throttle_handle :: bool
  rt_loadavg_handle :: bool
  rt_stdout_read :: "int option"
  rt_stderr_read :: "int option"
  rt_cow_branch :: "cow_backend option"
  rt_seccomp_cow :: "SeccompCowBranch option"
  rt_supervisor_resource :: "resource_state option"
  rt_supervisor_cow :: "SeccompCowBranch option option"
  rt_supervisor_network :: "network_state option"
  rt_ctrl_fd :: "int option"
  rt_stdout_pipe :: "int option"
  rt_io_overrides :: "(int option \<times> int option \<times> int option) option"
  rt_extra_fds :: "(int \<times> int) list"
  rt_http_acl_handle :: "http_acl_handle option"
  rt_on_bind :: bool
  rt_extra_handlers :: "(int \<times> 'h) list"
  rt_ready_w :: "int option"

definition fresh_runtime :: "string \<Rightarrow> 'h runtime" where
  "fresh_runtime nm = \<lparr>rt_name = nm, rt_state = Created, rt_child_pid = None, rt_pidfd = None, rt_notif_handle = False,
     rt_throttle_handle = False, rt_loadavg_handle = False, rt_stdout_read = None, rt_stderr_read = None,
     rt_cow_branch = None, rt_seccomp_cow = None, rt_supervisor_resource = None, rt_supervisor_cow = None,
     rt_supervisor_network = None, rt_ctrl_fd = None, rt_stdout_pipe = None, rt_io_overrides = None,
     rt_extra_fds = [], rt_http_acl_handle = None, rt_on_bind = False, rt_extra_handlers = [], rt_ready_w = None\<rparr>"

text \<open>A \<open>Sandbox\<close> value: the configuration, whether it has functions for \<open>fork\<close>, and the runtime block.\<close>

record 'h session =
  ss_sandbox :: sandbox
  ss_init_fn :: bool
  ss_work_fn :: bool
  ss_runtime :: "'h runtime option"

definition clone_session :: "'h session \<Rightarrow> 'h session" where
  "clone_session s = s\<lparr>ss_init_fn := False, ss_runtime := None\<rparr>"

definition with_rt :: "('h runtime \<Rightarrow> 'h runtime) \<Rightarrow> 'h session \<Rightarrow> 'h session" where
  "with_rt f s = s\<lparr>ss_runtime := map_option f (ss_runtime s)\<rparr>"

type_synonym ('h, 'a) session_op = "'h session \<Rightarrow> ((sandlock_error + 'a) \<times> 'h session) prog"

definition op_bind :: "('h, 'a) session_op \<Rightarrow> ('a \<Rightarrow> ('h, 'b) session_op) \<Rightarrow> ('h, 'b) session_op" where
  "op_bind p f s = pbind (p s) (\<lambda>(r, s'). case r of Inl e \<Rightarrow> Done (Inl e, s') | Inr a \<Rightarrow> f a s')"

definition set_name :: "string \<Rightarrow> 'h session \<Rightarrow> 'h session" where
  "set_name nm s = s\<lparr>ss_sandbox := (ss_sandbox s)\<lparr>sb_name := Some nm\<rparr>\<rparr>"

definition instance_name :: "'h session \<Rightarrow> string option" where
  "instance_name s = (case ss_runtime s of Some rt \<Rightarrow> Some (rt_name rt) | None \<Rightarrow> sb_name (ss_sandbox s))"

definition session_pid :: "'h session \<Rightarrow> int option" where
  "session_pid s = Option.bind (ss_runtime s) rt_child_pid"

definition is_running :: "'h session \<Rightarrow> bool" where
  "is_running s = (case ss_runtime s of Some rt \<Rightarrow> rt_state rt \<in> {Running, Paused} | None \<Rightarrow> False)"

definition port_mappings :: "'h session \<Rightarrow> (u16 \<Rightarrow> u16 option)" where
  "port_mappings s = (case Option.bind (ss_runtime s) rt_supervisor_network of
     Some ns \<Rightarrow> virtual_to_real (ns_port_map ns) | None \<Rightarrow> Map.empty)"

text \<open>Names; \<open>serial\<close> is the next number of the process-wide counter.\<close>

definition validate_name :: "string \<Rightarrow> sandlock_error + string" where
  "validate_name nm =
     (if nm = [] then Inl (ChildError ''sandbox name must not be empty'')
      else if length nm > 64 then Inl (ChildError ''sandbox name must be at most 64 bytes'')
      else if CHR 0x00 \<in> set nm then Inl (ChildError ''sandbox name must not contain NUL bytes'')
      else Inr nm)"

definition resolve_name :: "nat \<Rightarrow> string option \<Rightarrow> (sandlock_error + string) prog" where
  "resolve_name serial nm = (case nm of
     Some n \<Rightarrow> Done (validate_name n)
   | None \<Rightarrow> pbind (syscall (KSelf SelfGetpid)) (\<lambda>x.
       Done (Inr (''sandbox-'' @ show_int (answer_value x) @ ''-'' @ show_nat serial))))"

definition ensure_runtime :: "nat \<Rightarrow> ('h, unit) session_op" where
  "ensure_runtime serial s = (case ss_runtime s of
     Some _ \<Rightarrow> Done (Inr (), s)
   | None \<Rightarrow> pbind (resolve_name serial (sb_name (ss_sandbox s))) (\<lambda>r. Done (case r of
       Inl e \<Rightarrow> (Inl e, s) | Inr nm \<Rightarrow> (Inr (), s\<lparr>ss_runtime := Some (fresh_runtime nm)\<rparr>))))"

definition set_on_bind :: "nat \<Rightarrow> ('h, unit) session_op" where
  "set_on_bind serial s = pbind (ensure_runtime serial s) (\<lambda>(_, s').
     Done (if ss_runtime s' = None then (Inl Panics, s') else (Inr (), with_rt (\<lambda>rt. rt\<lparr>rt_on_bind := True\<rparr>) s')))"

section \<open>Signals\<close>

abbreviation (input) SIGSTOP :: int where "SIGSTOP \<equiv> 19"
abbreviation (input) SIGCONT :: int where "SIGCONT \<equiv> 18"

text \<open>\<open>pause\<close> and \<open>resume\<close>.\<close>

definition signal_group :: "int \<Rightarrow> RuntimeState \<Rightarrow> ('h, unit) session_op" where
  "signal_group sig st s = (case session_pid s of
     None \<Rightarrow> Done (Inl NotRunning, s)
   | Some pid \<Rightarrow> pbind (syscall (KKillpg pid sig)) (\<lambda>x. Done (case x of
       Inl e \<Rightarrow> (Inl (IoError e), s) | Inr _ \<Rightarrow> (Inr (), with_rt (\<lambda>rt. rt\<lparr>rt_state := st\<rparr>) s))))"

definition pause :: "('h, unit) session_op" where "pause = signal_group SIGSTOP Paused"
definition resume :: "('h, unit) session_op" where "resume = signal_group SIGCONT Running"

definition kill_child :: "('h, unit) session_op" where
  "kill_child s = (case session_pid s of
     None \<Rightarrow> Done (Inl NotRunning, s)
   | Some pid \<Rightarrow> pbind (syscall (KKillpg pid SIGKILL)) (\<lambda>x. Done (case x of
       Inl e \<Rightarrow> (if e = 3 then Inr () else Inl (IoError e), s) | Inr _ \<Rightarrow> (Inr (), s))))"

text \<open>\<open>freeze\<close> and \<open>thaw\<close>; the results of the signals are ignored.\<close>

definition freeze :: "('h, unit) session_op" where
  "freeze s = (case session_pid s of
     None \<Rightarrow> Done (Inl NotRunning, s)
   | Some pid \<Rightarrow> pbind (syscall (KKillpg pid SIGSTOP)) (\<lambda>_. Done (Inr (),
       with_rt (\<lambda>rt. rt\<lparr>rt_supervisor_resource := map_option (\<lambda>rs. rs\<lparr>hold_forks := True\<rparr>)
         (rt_supervisor_resource rt)\<rparr>) s)))"

definition thaw :: "('h, unit) session_op" where
  "thaw s = (case session_pid s of
     None \<Rightarrow> Done (Inl NotRunning, s)
   | Some pid \<Rightarrow> pbind (syscall (KKillpg pid SIGCONT)) (\<lambda>_. Done (Inr (),
       with_rt (\<lambda>rt. rt\<lparr>rt_supervisor_resource := map_option (\<lambda>rs. rs\<lparr>hold_forks := False, held_notif_ids := []\<rparr>)
         (rt_supervisor_resource rt)\<rparr>) s)))"

text \<open>\<open>checkpoint\<close>; \<open>capture\<close> is \<open>checkpoint::capture\<close>.\<close>

definition checkpoint_with :: "(int \<Rightarrow> sandbox \<Rightarrow> (sandlock_error + 'a) prog) \<Rightarrow> ('h, 'a) session_op" where
  "checkpoint_with capture s = (case session_pid s of
     None \<Rightarrow> Done (Inl NotRunning, s)
   | Some pid \<Rightarrow> op_bind freeze (\<lambda>_ s'. pbind (capture pid (ss_sandbox s')) (\<lambda>cp.
       op_bind thaw (\<lambda>_ s''. Done (cp, s'')) s')) s)"

section \<open>Waiting\<close>

text \<open>\<open>waitpid\<close> is repeated when it is interrupted: after \<open>k\<close> interruptions the value is \<open>None\<close>. The status
  is written only when the call succeeds.\<close>

primrec wait_child :: "nat \<Rightarrow> int \<Rightarrow> ExitStatus option prog" where
  "wait_child 0 pid = Done None"
| "wait_child (Suc k) pid = pbind (syscall (KWaitpid pid)) (\<lambda>x. case x of
     Inl e \<Rightarrow> if e = 4 then wait_child k pid else Done (Some Killed)
   | Inr (_, out) \<Rightarrow> Done (Some (wait_status_to_exit (le_word (take 4 out)))))"

text \<open>\<open>read_to_end\<close>, whose error is ignored.\<close>

definition read_fd_to_end :: "int \<Rightarrow> bytes prog" where
  "read_fd_to_end fd = pbind (syscall (KSelf (SelfReadToEnd fd))) (\<lambda>x. Done (case x of
     Inl _ \<Rightarrow> [] | Inr (_, out) \<Rightarrow> out))"

text \<open>A stored descriptor is taken out and read.\<close>

definition read_taken :: "int option \<Rightarrow> bytes option prog" where
  "read_taken fd = (case fd of None \<Rightarrow> Done None | Some fd \<Rightarrow> pbind (read_fd_to_end fd) (\<lambda>bs. Done (Some bs)))"

definition abort_tasks :: "'h runtime \<Rightarrow> 'h runtime" where
  "abort_tasks rt = rt\<lparr>rt_notif_handle := False, rt_throttle_handle := False, rt_loadavg_handle := False\<rparr>"

text \<open>\<open>cow.branch.take()\<close>: the branch leaves the state shared with the supervisor.\<close>

definition take_cow :: "'h runtime \<Rightarrow> 'h runtime" where
  "take_cow rt = (case rt_supervisor_cow rt of
     None \<Rightarrow> rt | Some b \<Rightarrow> rt\<lparr>rt_seccomp_cow := b, rt_supervisor_cow := Some None\<rparr>)"

definition finish_wait :: "ExitStatus \<Rightarrow> ('h, RunResult) session_op" where
  "finish_wait es s = (case ss_runtime s of
     None \<Rightarrow> Done (Inl Panics, s)
   | Some rt \<Rightarrow> pbind (read_taken (rt_stdout_read rt)) (\<lambda>out. pbind (read_taken (rt_stderr_read rt)) (\<lambda>err.
       Done (Inr \<lparr>exit_status = es, rr_stdout = out, rr_stderr = err\<rparr>,
         with_rt (\<lambda>rt. (take_cow (abort_tasks (rt\<lparr>rt_state := Stopped es\<rparr>)))
           \<lparr>rt_stdout_read := None, rt_stderr_read := None\<rparr>) s))))"

text \<open>\<open>wait\<close>; \<open>k\<close> bounds the interruptions, and a call still waiting after them is \<open>None\<close>.\<close>

definition wait_session :: "nat \<Rightarrow> 'h session \<Rightarrow> (((sandlock_error + RunResult) \<times> 'h session) option) prog" where
  "wait_session k s = (case ss_runtime s of
     None \<Rightarrow> Done (Some (Inl Panics, s))
   | Some rt \<Rightarrow> (case rt_child_pid rt of
       None \<Rightarrow> Done (Some (Inl NotRunning, s))
     | Some pid \<Rightarrow> (case rt_state rt of
         Stopped es \<Rightarrow> Done (Some (Inr \<lparr>exit_status = es, rr_stdout = None, rr_stderr = None\<rparr>, s))
       | _ \<Rightarrow> pbind (wait_child k pid) (\<lambda>w. case w of
           None \<Rightarrow> Done None
         | Some es \<Rightarrow> pbind (finish_wait es s) (\<lambda>r. Done (Some r))))))"

section \<open>Branches\<close>

definition on_backend :: "(cow_backend \<Rightarrow> (branch_error + unit) prog) \<Rightarrow> ('h, unit) session_op" where
  "on_backend act s = (case Option.bind (ss_runtime s) rt_cow_branch of
     None \<Rightarrow> Done (Inr (), s)
   | Some b \<Rightarrow> pbind (act b) (\<lambda>r. Done (map_sum BranchFailed id r, with_rt (\<lambda>rt. rt\<lparr>rt_cow_branch := None\<rparr>) s)))"

definition commit_branch :: "walk_item list \<Rightarrow> ('h, unit) session_op" where
  "commit_branch walk = on_backend (backend_commit walk)"

definition abort_branch :: "('h, unit) session_op" where
  "abort_branch = on_backend backend_abort"

text \<open>\<open>collect_changes\<close>; \<open>order\<close> is the order the set of deletions is listed in.\<close>

definition collect_changes :: "walk_item list \<Rightarrow> string list \<Rightarrow> 'h session \<Rightarrow> (ChangeKind \<times> string) list prog" where
  "collect_changes walk order s = (case ss_runtime s of
     None \<Rightarrow> Done []
   | Some rt \<Rightarrow> (case rt_cow_branch rt of
       Some b \<Rightarrow> pbind (backend_changes walk b) (\<lambda>r. Done (case r of Inl _ \<Rightarrow> [] | Inr cs \<Rightarrow> cs))
     | None \<Rightarrow> (case rt_seccomp_cow rt of
         Some c \<Rightarrow> pbind (changes walk order c) (\<lambda>r. Done (case r of Inl _ \<Rightarrow> [] | Inr cs \<Rightarrow> cs))
       | None \<Rightarrow> Done [])))"

definition do_abort :: "'h session \<Rightarrow> 'h session prog" where
  "do_abort s = (case ss_runtime s of
     None \<Rightarrow> Done s
   | Some rt \<Rightarrow>
       pbind (case rt_cow_branch rt of None \<Rightarrow> Done () | Some b \<Rightarrow> pbind (backend_abort b) (\<lambda>_. Done ())) (\<lambda>_.
       pbind (case rt_seccomp_cow rt of None \<Rightarrow> Done None | Some c \<Rightarrow> pbind (abort c) (\<lambda>(_, c'). Done (Some c'))) (\<lambda>c'.
       Done (with_rt (\<lambda>rt. rt\<lparr>rt_cow_branch := None, rt_seccomp_cow := c'\<rparr>) s))))"

section \<open>Drop\<close>

definition drop_action :: "sandbox \<Rightarrow> RuntimeState \<Rightarrow> BranchAction" where
  "drop_action sb st = (case st of
     Stopped es \<Rightarrow> if es = Code 0 then sb_on_exit sb else sb_on_error sb
   | _ \<Rightarrow> sb_on_exit sb)"

definition settle_backend :: "BranchAction \<Rightarrow> walk_item list \<Rightarrow> cow_backend option \<Rightarrow> unit prog" where
  "settle_backend action walk b = (case b of
     None \<Rightarrow> Done ()
   | Some b \<Rightarrow> (case action of
       Commit \<Rightarrow> pbind (backend_commit walk b) (\<lambda>_. Done ())
     | Abort \<Rightarrow> pbind (backend_abort b) (\<lambda>_. Done ())
     | Keep \<Rightarrow> Done ()))"

definition settle_cow :: "BranchAction \<Rightarrow> walk_item list \<Rightarrow> string list \<Rightarrow> SeccompCowBranch option \<Rightarrow> unit prog" where
  "settle_cow action walk order c = (case c of
     None \<Rightarrow> Done ()
   | Some c \<Rightarrow> (case action of
       Commit \<Rightarrow> pbind (commit order walk c) (\<lambda>_. Done ())
     | Abort \<Rightarrow> pbind (abort c) (\<lambda>_. Done ())
     | Keep \<Rightarrow> Done ()))"

definition kill_live :: "'h runtime \<Rightarrow> unit prog" where
  "kill_live rt = (case rt_child_pid rt of
     None \<Rightarrow> Done ()
   | Some pid \<Rightarrow>
       if rt_state rt \<in> {Created, Running, Paused}
       then pbind (syscall (KKillpg pid SIGKILL)) (\<lambda>_. pbind (syscall (KWaitpid pid)) (\<lambda>_. Done ()))
       else Done ())"

definition drop_session :: "walk_item list \<Rightarrow> string list \<Rightarrow> 'h session \<Rightarrow> unit prog" where
  "drop_session walk order s = (case ss_runtime s of
     None \<Rightarrow> Done ()
   | Some rt \<Rightarrow> (let action = drop_action (ss_sandbox s) (rt_state rt) in
       pbind (kill_live rt) (\<lambda>_.
       pbind (settle_backend action walk (rt_cow_branch rt)) (\<lambda>_.
       settle_cow action walk order (rt_seccomp_cow rt)))))"

section \<open>What a dropped sandbox leaves\<close>

text \<open>A request by which contents of a branch reach the work directory: one that changes a file, a link or a
  name other than by removing a whole directory (which is how the storage of a branch goes) or making sure
  that a directory exists, or the commit of a branchfs branch.\<close>

definition merges :: "sysreq \<Rightarrow> bool" where
  "merges r \<longleftrightarrow> (case r of
     KFs q \<Rightarrow> (case q of FsCopy _ _ \<Rightarrow> True | FsCreateFile _ \<Rightarrow> True | FsSetPermissions _ _ \<Rightarrow> True
       | FsSymlink _ _ \<Rightarrow> True | FsRename _ _ \<Rightarrow> True | FsHardLink _ _ \<Rightarrow> True | FsRemoveFile _ \<Rightarrow> True
       | FsChown _ _ _ \<Rightarrow> True | FsSetLen _ _ \<Rightarrow> True | FsUtimensat _ _ _ \<Rightarrow> True | FsMkdir _ _ \<Rightarrow> True
       | FsRmdir _ \<Rightarrow> True | FsTruncate _ _ \<Rightarrow> True | FsLinkat _ _ _ \<Rightarrow> True | _ \<Rightarrow> False)
   | KSelf (SelfIoctl fd req) \<Rightarrow> req = FS_IOC_BRANCH_COMMIT
   | _ \<Rightarrow> False)"

definition nothing_merged :: "history \<Rightarrow> bool" where
  "nothing_merged h \<longleftrightarrow> (\<forall>(r, x) \<in> set h. \<not> merges r)"

lemma merges_simps [simp]:
  "merges (KFs (FsCopy s d))" "\<not> merges (KFs (FsRemoveDirAll d))" "\<not> merges (KFs (FsOpen d fl m))"
  "\<not> merges (KSelf (SelfUmount d))" "\<not> merges (KSelf (SelfIoctl fd FS_IOC_BRANCH_ABORT))"
  "\<not> merges (KKillpg p sig)" "\<not> merges (KWaitpid p)" "\<not> merges (KSelf (SelfReadToEnd fd))"
  "\<not> merges (KFs (FsExists d))" "\<not> merges (KFs (FsSymlinkMetadata d))"
  by (simp_all add: merges_def FS_IOC_BRANCH_COMMIT_def FS_IOC_BRANCH_ABORT_def)

abbreviation unmerging :: "'a prog \<Rightarrow> bool" where
  "unmerging \<equiv> only (\<lambda>r. \<not> merges r)"

lemma abort_unmerging: "unmerging (backend_abort b)" "unmerging (abort c)"
  by (cases b) (auto simp: overlay_abort_def overlay_cleanup_def ctl_ioctl_def open_ctl_def abort_def cleanup_def fs_try_def
      split: sum.split)

lemma settle_unmerging:
  assumes "action \<noteq> Commit"
  shows "unmerging (settle_backend action walk b)" "unmerging (settle_cow action walk order c)"
  using assms
  by (auto simp: settle_backend_def settle_cow_def intro!: only_pbind abort_unmerging split: option.split BranchAction.split)

lemma only_wait_child:
  "R (KWaitpid pid) \<Longrightarrow> only R (wait_child k pid)"
  by (induction k) (auto split: sum.split)

lemma only_finish_wait:
  "(\<And>fd. R (KSelf (SelfReadToEnd fd))) \<Longrightarrow> only R (finish_wait es s)"
  unfolding finish_wait_def read_taken_def read_fd_to_end_def
  by (auto intro!: only_pbind split: option.split sum.split)

lemma wait_unmerging: "unmerging (wait_session k s)"
  unfolding wait_session_def
  by (auto intro!: only_pbind only_wait_child only_finish_wait split: option.split RuntimeState.split)

text \<open>What a finished wait says of the session it leaves.\<close>

lemma finish_wait_stopped:
  "safe anything (\<lambda>_ (r, s'). \<forall>rr. r = Inr rr \<longrightarrow> exit_status rr = es \<and> ss_sandbox s' = ss_sandbox s \<and>
     (\<exists>rt. ss_runtime s' = Some rt \<and> rt_state rt = Stopped es)) h (finish_wait es s)"
  unfolding finish_wait_def read_taken_def read_fd_to_end_def with_rt_def take_cow_def abort_tasks_def
  by (auto split: option.split)

lemma wait_stopped:
  "safe anything (\<lambda>_ w. \<forall>rr s'. w = Some (Inr rr, s') \<longrightarrow> ss_sandbox s' = ss_sandbox s \<and>
     (\<exists>rt. ss_runtime s' = Some rt \<and> rt_state rt = Stopped (exit_status rr))) h (wait_session k s)"
proof -
  have finish: "safe anything (\<lambda>_ a. \<forall>rr s'. a = (Inr rr, s') \<longrightarrow> ss_sandbox s' = ss_sandbox s \<and>
     (\<exists>rt. ss_runtime s' = Some rt \<and> rt_state rt = Stopped (exit_status rr))) h' (finish_wait es s)" for h' es
    by (rule safe_mono [OF finish_wait_stopped]) auto
  show ?thesis
    unfolding wait_session_def by (auto simp: finish split: option.split RuntimeState.split)
qed

text \<open>The way a finished run ends: waiting, then dropping the sandbox.\<close>

definition wait_and_drop :: "nat \<Rightarrow> walk_item list \<Rightarrow> string list \<Rightarrow> 'h session \<Rightarrow> (sandlock_error + RunResult) option prog" where
  "wait_and_drop k walk order s = pbind (wait_session k s) (\<lambda>w. case w of
     None \<Rightarrow> Done None
   | Some (r, s') \<Rightarrow> pbind (drop_session walk order s') (\<lambda>_. Done (Some r)))"

text \<open>C19: When the child ends with anything but exit code 0 and the action on errors is not to commit, nothing of its
  branch is written into the work directory, whatever the kernel answers.\<close>

theorem failed_run_is_discarded:
  assumes "result K (wait_and_drop k walk order s) = Some (Inr rr)" "exit_status rr \<noteq> Code 0"
    "sb_on_error (ss_sandbox s) \<noteq> Commit"
  shows "nothing_merged (trace K (wait_and_drop k walk order s))"
proof -
  let ?Q = "\<lambda>h' w. (\<exists>rr. w = Some (Inr rr) \<and> exit_status rr \<noteq> Code 0) \<longrightarrow> nothing_merged h'"
  have calm: "calm merges [] h' \<Longrightarrow> nothing_merged h'" for h'
    by (auto simp: nothing_merged_def calm_def list_all_iff)
  have dropped: "safe anything ?Q h' (pbind (drop_session walk order s') (\<lambda>_. Done (Some r)))"
    if h': "calm merges [] h'" and res: "\<forall>rr. r = Inr rr \<longrightarrow> ss_sandbox s' = ss_sandbox s \<and>
       (\<exists>rt. ss_runtime s' = Some rt \<and> rt_state rt = Stopped (exit_status rr))" for h' r s'
  proof (cases "\<exists>rr. r = Inr rr \<and> exit_status rr \<noteq> Code 0")
    case True
    then obtain rt es where rt: "ss_runtime s' = Some rt" "rt_state rt = Stopped es" "es \<noteq> Code 0"
      "ss_sandbox s' = ss_sandbox s" using res by auto
    then have "unmerging (drop_session walk order s')"
      using assms(3) by (auto simp: drop_session_def drop_action_def kill_live_def Let_def
          intro!: only_pbind settle_unmerging split: option.split)
    then have "safe anything (\<lambda>h'' _. calm merges h' h'') h' (drop_session walk order s')"
      by (rule safe_only) auto
    then show ?thesis
      unfolding safe_pbind
      by (rule safe_mono) (use calm [OF calm_trans [OF h']] in simp)
  next
    case False
    show ?thesis
      unfolding safe_pbind by (rule safe_mono [OF safe_anything]) (use False in \<open>simp, blast\<close>)
  qed
  have "safe anything ?Q [] (wait_and_drop k walk order s)"
    unfolding wait_and_drop_def safe_pbind
  proof (rule safe_both [OF wait_unmerging wait_stopped])
    fix h' and w :: "((sandlock_error + RunResult) \<times> 'a session) option"
    assume "calm (\<lambda>r. \<not> \<not> merges r) [] h'" "\<forall>rr s'. w = Some (Inr rr, s') \<longrightarrow> ss_sandbox s' = ss_sandbox s \<and>
      (\<exists>rt. ss_runtime s' = Some rt \<and> rt_state rt = Stopped (exit_status rr))"
    then show "safe anything ?Q h' (case w of None \<Rightarrow> Done None
        | Some (r, s') \<Rightarrow> pbind (drop_session walk order s') (\<lambda>_. Done (Some r)))"
      using dropped by (cases w) auto
  qed simp
  from safe_result [OF this] assms(1,2) show ?thesis by blast
qed

definition example_session :: "RuntimeState \<Rightarrow> string session" where
  "example_session st = \<lparr>ss_sandbox = minimal_sandbox\<lparr>sb_on_error := Abort\<rparr>, ss_init_fn = False, ss_work_fn = False,
     ss_runtime = Some ((fresh_runtime ''s'')\<lparr>rt_state := st, rt_child_pid := Some 7,
       rt_cow_branch := Some (OverlayBackend example_overlay)\<rparr>)\<rparr>"

definition exiting :: "u32 \<Rightarrow> sysreq \<Rightarrow> sysres" where
  "exiting status r = (case r of KWaitpid p \<Rightarrow> Inr (p, le_bytes 4 status) | _ \<Rightarrow> Inr (0, []))"

theorem failed_run_is_discarded_witness:
  "nothing_merged (trace (stateless (exiting 0x100)) (wait_and_drop 1 [WalkEntry ''f'' False] [] (example_session Running)))"
  by (rule failed_run_is_discarded [where rr = "\<lparr>exit_status = Code 1, rr_stdout = None, rr_stderr = None\<rparr>"])
    (code_simp | simp add: example_session_def minimal_sandbox_def)+

section \<open>Order of the end\<close>

lemma safe_persistent:
  "(\<And>h' r. set h \<subseteq> set h' \<Longrightarrow> P h' r) \<Longrightarrow> safe P (\<lambda>_ _. True) h p"
proof (induction p arbitrary: h)
  case (Call r k)
  have "safe P (\<lambda>_ _. True) (h @ [(r, x)]) (k x)" for x
    by (rule Call.IH) (use Call.prems in auto)
  then show ?case using Call.prems by simp
qed simp

text \<open>C21: While the child has not been waited for, dropping its sandbox does nothing but kill its process group and
  wait for it: its branch is only touched after that.\<close>

definition after_reaping :: "'h session \<Rightarrow> history \<Rightarrow> sysreq \<Rightarrow> bool" where
  "after_reaping s h r \<longleftrightarrow> (\<forall>rt pid. ss_runtime s = Some rt \<and> rt_child_pid rt = Some pid \<and>
     rt_state rt \<in> {Created, Running, Paused} \<longrightarrow>
     r \<in> {KKillpg pid SIGKILL, KWaitpid pid} \<or> (\<exists>x y. (KKillpg pid SIGKILL, x) \<in> set h \<and> (KWaitpid pid, y) \<in> set h))"

theorem drop_reaps_first:
  "always (after_reaping s) K (drop_session walk order s)"
proof (rule safe_always)
  show "safe (after_reaping s) (\<lambda>_ _. True) [] (drop_session walk order s)"
  proof (cases "\<exists>rt pid. ss_runtime s = Some rt \<and> rt_child_pid rt = Some pid \<and> rt_state rt \<in> {Created, Running, Paused}")
    case True
    then obtain rt pid where rt: "ss_runtime s = Some rt" "rt_child_pid rt = Some pid"
      "rt_state rt \<in> {Created, Running, Paused}" by blast
    have "safe (after_reaping s) (\<lambda>_ _. True) [(KKillpg pid SIGKILL, x), (KWaitpid pid, y)] p" for x y and p :: "unit prog"
      by (rule safe_persistent) (use rt in \<open>auto simp: after_reaping_def\<close>)
    then show ?thesis
      using rt by (simp add: drop_session_def kill_live_def Let_def del: safe_pbind) (simp add: after_reaping_def)
  next
    case False
    then have "after_reaping s h r" for h r by (auto simp: after_reaping_def)
    then show ?thesis by (intro safe_persistent) simp
  qed
qed

text \<open>The output of the child is read only after it has been waited for: a child that fills the pipe before
  it ends is waited for in vain.\<close>

definition read_after_wait :: "history \<Rightarrow> sysreq \<Rightarrow> bool" where
  "read_after_wait h r \<longleftrightarrow> ((\<exists>fd. r = KSelf (SelfReadToEnd fd)) \<longrightarrow> (\<exists>pid x. (KWaitpid pid, x) \<in> set h))"

lemma output_read_after_exit:
  "always read_after_wait K (wait_session k s)"
proof (rule safe_always)
  have wait: "safe read_after_wait (\<lambda>h' w. w \<noteq> None \<longrightarrow> (\<exists>pid x. (KWaitpid pid, x) \<in> set h')) h (wait_child k pid)" for h pid
    by (induction k arbitrary: h) (auto simp: read_after_wait_def split: sum.split)
  have "safe read_after_wait (\<lambda>_ _. True) h p"
    if "\<exists>pid x. (KWaitpid pid, x) \<in> set h" for h and p :: "((sandlock_error + RunResult) \<times> 'a session) prog"
    by (rule safe_persistent) (use that in \<open>auto simp: read_after_wait_def\<close>)
  then have "safe read_after_wait (\<lambda>_ _. True) h (pbind (wait_child k pid) (\<lambda>w. case w of None \<Rightarrow> Done None
        | Some es \<Rightarrow> pbind (finish_wait es s) (\<lambda>r. Done (Some r))))" for h pid
    unfolding safe_pbind [of _ _ _ "wait_child k pid"]
    by (intro safe_mono [OF wait]) (auto split: option.split)
  then show "safe read_after_wait (\<lambda>_ _. True) [] (wait_session k s)"
    unfolding wait_session_def by (simp only: safe.simps split: option.split RuntimeState.split) simp
qed

section \<open>What the state does not remember\<close>

text \<open>A sandbox dropped while its child runs is treated as a success: the child is killed and what it had
  written so far is committed.\<close>

lemma killed_child_is_committed:
  "map fst (trace (stateless (exiting 9)) (drop_session [WalkEntry ''f'' False] [] (example_session Running))) =
     [KKillpg 7 SIGKILL, KWaitpid 7, KFs (FsSymlinkMetadata ''/s/1/upper/f''), KFs (FsCreateDirAll ''/w''),
      KFs (FsCopy ''/s/1/upper/f'' ''/w/f''), KSelf (SelfUmount ''/s/1/merged''), KFs (FsRemoveDirAll ''/s/1'')]"
  by code_simp

text \<open>Signalling the process group of a child that has failed, when other processes of the group remain, makes
  the sandbox a running one again, and its end a success.\<close>

lemma resume_forgets_failure:
  "session_pid s = Some pid \<Longrightarrow> M (KKillpg pid SIGCONT) = Inr v \<Longrightarrow>
     (\<exists>s'. eval M (resume s) = (Inr (), s') \<and> is_running s' \<and>
        (\<exists>rt. ss_runtime s' = Some rt \<and> drop_action (ss_sandbox s') (rt_state rt) = sb_on_exit (ss_sandbox s)))"
  by (auto simp: session_pid_def resume_def signal_group_def with_rt_def is_running_def drop_action_def
      split: Option.bind_splits)

text \<open>A branch kept by the supervisor is not settled by \<open>commit\<close> or \<open>abort_branch\<close>, which succeed.\<close>

lemma commit_skips_seccomp_branch:
  "Option.bind (ss_runtime s) rt_cow_branch = None \<Longrightarrow>
     commit_branch walk s = Done (Inr (), s) \<and> abort_branch s = Done (Inr (), s)"
  by (simp add: commit_branch_def abort_branch_def on_backend_def)

end
