(* ===== verification/Launch.thy ===== *)
theory Launch
  imports Lifecycle PolicyFn TimeRandom
begin

text \<open>
  Starting a sandbox (\<open>sandbox.rs\<close>, \<open>do_create\<close>, \<open>do_start\<close> and the operations made of them): what is set up
  before the fork, what the forked child does, and what the parent installs before it lets the child go on.
\<close>

section \<open>The surroundings\<close>

text \<open>What comes from outside the process: the next serial number for names, the flag \<open>CONFINED\<close>, name
  resolution, the result of starting the HTTP proxy, the temporary directory, a fresh UUID, the time, the
  canonical form of a path, the order of a hash map, and what the supervisor task reports when it has
  started (\<open>None\<close> when it ends without a report).\<close>

record launch_env =
  le_serial :: nat
  le_confined :: bool
  le_lookup :: lookup
  le_proxy :: "int + http_acl_handle"
  le_temp_dir :: string
  le_branch_id :: string
  le_now :: int
  le_canonicalize :: "string \<Rightarrow> string option"
  le_env_order :: "sandbox \<Rightarrow> (string \<times> string) list"
  le_startup :: "(int + unit) option"

definition is_nested :: "bool \<Rightarrow> bool prog" where
  "is_nested confined = (if confined then Done True
     else pbind (syscall (KReadFile ''/proc/self/status'')) (\<lambda>x. Done (case x of
       Inl _ \<Rightarrow> False
     | Inr (_, out) \<Rightarrow> (let status = string_of_bytes out in
         utf8_valid status \<and> (case find (prefix ''Seccomp:'') (lines_of status) of
           None \<Rightarrow> False | Some l \<Rightarrow> suffix ''2'' (trim l))))))"

section \<open>Pipes\<close>

abbreviation (input) PIPE_CLOEXEC :: int where "PIPE_CLOEXEC \<equiv> 0x80000"

definition make_pipe :: "(int + int \<times> int) prog" where
  "make_pipe = pbind (syscall (KSelf (SelfPipe PIPE_CLOEXEC))) (\<lambda>x. Done (case x of
     Inl e \<Rightarrow> Inl e | Inr (r, out) \<Rightarrow> Inr (r, sint (le_word (take 4 out) :: u32))))"

text \<open>Two pipes; when the second cannot be made, the first is closed.\<close>

definition pipe_pair :: "(int + (int \<times> int) \<times> (int \<times> int)) prog" where
  "pipe_pair = pbind make_pipe (\<lambda>a. case a of
     Inl e \<Rightarrow> Done (Inl e)
   | Inr (r1, w1) \<Rightarrow> pbind make_pipe (\<lambda>b. case b of
       Inl e \<Rightarrow> pbind (syscall (KIo (IoClose r1))) (\<lambda>_. pbind (syscall (KIo (IoClose w1))) (\<lambda>_. Done (Inl e)))
     | Inr p2 \<Rightarrow> Done (Inr ((r1, w1), p2))))"

section \<open>Before the fork\<close>

record launch_plan =
  lp_nested :: bool
  lp_notif :: "int \<times> int"
  lp_ready :: "int \<times> int"
  lp_resolved :: resolved_set
  lp_cow_branch :: "cow_backend option"
  lp_seccomp_branch :: "SeccompCowBranch option"
  lp_capture :: "((int \<times> int) \<times> (int \<times> int)) option"

definition lift_op :: "('x \<Rightarrow> sandlock_error) \<Rightarrow> ('x + 'a) prog \<Rightarrow> ('h, 'a) session_op" where
  "lift_op f p s = pbind p (\<lambda>r. Done (map_sum f id r, s))"

definition fail_op :: "sandlock_error \<Rightarrow> ('h, 'a) session_op" where
  "fail_op e s = Done (Inl e, s)"

definition return_op :: "'a \<Rightarrow> ('h, 'a) session_op" where
  "return_op a s = Done (Inr a, s)"

definition check_command :: "string list \<Rightarrow> ('h, unit) session_op" where
  "check_command cmd s = (case ss_runtime s of
     None \<Rightarrow> fail_op Panics s
   | Some rt \<Rightarrow>
       if rt_state rt \<noteq> Created then fail_op (ChildError ''sandbox already spawned'') s
       else if cmd = [] then fail_op (ChildError ''empty command'') s
       else if list_ex (\<lambda>c. CHR 0x00 \<in> set c) cmd then fail_op (ChildError ''invalid command string'') s
       else return_op () s)"

definition start_proxy :: "launch_env \<Rightarrow> ('h, unit) session_op" where
  "start_proxy env s =
     (if sb_http_allow (ss_sandbox s) = [] \<and> sb_http_deny (ss_sandbox s) = [] then return_op () s
      else case le_proxy env of
        Inl e \<Rightarrow> fail_op (IoError e) s
      | Inr h \<Rightarrow> return_op () (with_rt (\<lambda>rt. rt\<lparr>rt_http_acl_handle := Some h\<rparr>) s))"

definition kernel_branch :: "launch_env \<Rightarrow> sandbox \<Rightarrow> (sandlock_error + cow_backend option) prog" where
  "kernel_branch env sb = (case sb_fs_isolation sb of
     OverlayFs \<Rightarrow> (case sb_workdir sb of
       None \<Rightarrow> Done (Inl (ChildError ''OverlayFs requires workdir''))
     | Some dir \<Rightarrow>
         let storage = (case sb_fs_storage sb of Some d \<Rightarrow> d | None \<Rightarrow> path_push (le_temp_dir env) ''sandlock-overlay'')
         in pbind (fs_try (FsCreateDirAll storage)) (\<lambda>r. case r of
              Inl e \<Rightarrow> Done (Inl (IoError e))
            | Inr _ \<Rightarrow> pbind (OverlayBranch_create (le_branch_id env) dir storage) (\<lambda>r. Done (case r of
                Inl e \<Rightarrow> Inl (BranchFailed e) | Inr ob \<Rightarrow> Inr (Some (OverlayBackend ob))))))
   | BranchFs \<Rightarrow> (case sb_workdir sb of
       None \<Rightarrow> Done (Inl (ChildError ''BranchFs requires workdir''))
     | Some dir \<Rightarrow> pbind (BranchFsBranch_create dir) (\<lambda>r. Done (case r of
         Inl e \<Rightarrow> Inl (BranchFailed e) | Inr br \<Rightarrow> Inr (Some (BranchFsBackend br)))))
   | FsNone \<Rightarrow> Done (Inr None))"

definition cow_storage :: "launch_env \<Rightarrow> sandbox \<Rightarrow> string prog" where
  "cow_storage env sb = (case sb_fs_storage sb of
     Some d \<Rightarrow> Done d
   | None \<Rightarrow> pbind (syscall (KSelf SelfGetpid)) (\<lambda>x.
       Done (path_push (le_temp_dir env) (''sandlock-cow-'' @ show_int (answer_value x)))))"

text \<open>The branch the supervisor keeps; its upper directory becomes readable. A failure is reported and the
  sandbox goes on without a branch.\<close>

definition seccomp_branch :: "launch_env \<Rightarrow> bool \<Rightarrow> ('h, SeccompCowBranch option) session_op" where
  "seccomp_branch env nested s = (let sb = ss_sandbox s in
     case sb_workdir sb of
       None \<Rightarrow> return_op None s
     | Some dir \<Rightarrow>
         if nested \<or> sb_fs_isolation sb \<noteq> FsNone then return_op None s
         else pbind (cow_storage env sb) (\<lambda>base. pbind (create_branch base (le_branch_id env) dir
                (case sb_max_disk sb of Some b \<Rightarrow> b | None \<Rightarrow> 0)) (\<lambda>r. case r of
              Inl e \<Rightarrow> pbind (syscall (KSelf (SelfStderr ''sandlock: seccomp COW branch creation failed''))) (\<lambda>_.
                return_op None s)
            | Inr b \<Rightarrow> return_op (Some b)
                (s\<lparr>ss_sandbox := sb\<lparr>sb_fs_readable := sb_fs_readable sb @ [upper b]\<rparr>\<rparr>))))"

definition capture_pipes :: "bool \<Rightarrow> (int + ((int \<times> int) \<times> (int \<times> int)) option) prog" where
  "capture_pipes capture = (if capture then pbind pipe_pair (\<lambda>r. Done (map_sum id Some r)) else Done (Inr None))"

definition check_launch :: "launch_env \<Rightarrow> string list \<Rightarrow> ('h, bool) session_op" where
  "check_launch env cmd =
     op_bind (ensure_runtime (le_serial env)) (\<lambda>_.
     op_bind (check_command cmd) (\<lambda>_.
     lift_op (\<lambda>e. e) (pbind (is_nested (le_confined env)) (\<lambda>b. Done (Inr b)))))"

definition plan_launch ::
  "launch_env \<Rightarrow> bool \<Rightarrow> bool \<Rightarrow> (int \<times> int) \<times> (int \<times> int) \<Rightarrow> ('h, launch_plan) session_op" where
  "plan_launch env capture nested pipes =
     op_bind (\<lambda>s. lift_op ResolveError (Done (resolve_net_allow (le_lookup env) (sb_net_allow (ss_sandbox s)))) s) (\<lambda>res.
     op_bind (start_proxy env) (\<lambda>_.
     op_bind (\<lambda>s. lift_op (\<lambda>e. e) (kernel_branch env (ss_sandbox s)) s) (\<lambda>backend.
     op_bind (seccomp_branch env nested) (\<lambda>sec.
     op_bind (lift_op IoError (capture_pipes capture)) (\<lambda>cap.
       return_op \<lparr>lp_nested = nested, lp_notif = fst pipes, lp_ready = snd pipes, lp_resolved = res,
         lp_cow_branch = backend, lp_seccomp_branch = sec, lp_capture = cap\<rparr>)))))"

definition prepare_launch :: "launch_env \<Rightarrow> string list \<Rightarrow> bool \<Rightarrow> ('h, launch_plan) session_op" where
  "prepare_launch env cmd capture =
     op_bind (check_launch env cmd) (\<lambda>nested.
     op_bind (lift_op IoError pipe_pair) (plan_launch env capture nested))"

section \<open>The child\<close>

definition dup_to :: "int option \<Rightarrow> int \<Rightarrow> unit prog" where
  "dup_to fd to = (case fd of None \<Rightarrow> Done () | Some f \<Rightarrow> pbind (syscall (KSelf (SelfDup2 f to))) (\<lambda>_. Done ()))"

primrec dup_extra :: "(int \<times> int) list \<Rightarrow> unit prog" where
  "dup_extra [] = Done ()"
| "dup_extra (p # ps) = pbind (syscall (KSelf (SelfDup2 (snd p) (fst p)))) (\<lambda>_. dup_extra ps)"

definition connect_io :: "'h runtime \<Rightarrow> launch_plan \<Rightarrow> unit prog" where
  "connect_io rt plan =
     pbind (case rt_io_overrides rt of
         None \<Rightarrow> Done ()
       | Some (i, ou, er) \<Rightarrow> pbind (dup_to i 0) (\<lambda>_. pbind (dup_to ou 1) (\<lambda>_. dup_to er 2))) (\<lambda>_.
     pbind (dup_extra (rt_extra_fds rt)) (\<lambda>_.
     pbind (dup_to (map_option (\<lambda>p. snd (fst p)) (lp_capture plan)) 1) (\<lambda>_.
     dup_to (map_option (\<lambda>p. snd (snd p)) (lp_capture plan)) 2)))"

definition spawn_args :: "launch_env \<Rightarrow> string list \<Rightarrow> launch_plan \<Rightarrow> int \<Rightarrow> sandbox \<Rightarrow> 'h runtime \<Rightarrow> child_spawn_args" where
  "spawn_args env cmd plan parent_pid sb rt =
     \<lparr>ca_sandbox = sb, ca_cmd = cmd, ca_notif_w = snd (lp_notif plan), ca_ready_r = fst (lp_ready plan),
      ca_cow_config = Option.bind (lp_cow_branch plan) backend_mount_config, ca_nested = lp_nested plan,
      ca_keep_fds = map fst (rt_extra_fds rt), ca_sandbox_name = Some (rt_name rt),
      ca_extra_syscalls = extra_syscalls (rt_extra_handlers rt), ca_parent_pid = parent_pid,
      ca_env = le_env_order env sb\<rparr>"

definition launch_child :: "launch_env \<Rightarrow> string list \<Rightarrow> launch_plan \<Rightarrow> int \<Rightarrow> sandbox \<Rightarrow> 'h runtime \<Rightarrow> child_end prog" where
  "launch_child env cmd plan parent_pid sb rt =
     pbind (connect_io rt plan) (\<lambda>_. confine_child (spawn_args env cmd plan parent_pid sb rt))"

section \<open>The parent\<close>

definition adopt_child :: "launch_plan \<Rightarrow> int \<Rightarrow> 'h runtime \<Rightarrow> 'h runtime" where
  "adopt_child plan pid rt = rt\<lparr>rt_cow_branch := lp_cow_branch plan,
     rt_stdout_read := map_option (\<lambda>p. fst (fst p)) (lp_capture plan),
     rt_stderr_read := map_option (\<lambda>p. fst (snd p)) (lp_capture plan), rt_child_pid := Some pid\<rparr>"

text \<open>The descriptor of the child's listener; \<open>None\<close> when the child reports that it is nested.\<close>

definition fetch_listener :: "int option \<Rightarrow> int \<Rightarrow> u32 \<Rightarrow> (sandlock_error + int option) prog" where
  "fetch_listener pidfd pid num =
     (if num = 0 then Done (Inr None)
      else case pidfd of
        Some pfd \<Rightarrow> pbind (syscall (KPidfdGetfd pfd (sint num))) (\<lambda>x. Done (case x of
          Inl _ \<Rightarrow> Inl (ChildError ''pidfd_getfd'') | Inr (fd, _) \<Rightarrow> Inr (Some fd)))
      | None \<Rightarrow> pbind (syscall (KFs (FsOpen (''/proc/'' @ show_int pid @ ''/fd/'' @ show_nat (unat num)) 2 0))) (\<lambda>x.
          Done (case x of
            Inl _ \<Rightarrow> Inl (ChildError ''failed to open notif fd from /proc'') | Inr (fd, _) \<Rightarrow> Inr (Some fd))))"

definition time_offset_of :: "launch_env \<Rightarrow> sandbox \<Rightarrow> int option" where
  "time_offset_of env sb = map_option (\<lambda>t. max 0 t - max 0 (le_now env)) (sb_time_start sb)"

definition pre_exec_vdso :: "launch_env \<Rightarrow> int \<Rightarrow> sandbox \<Rightarrow> unit prog" where
  "pre_exec_vdso env pid sb =
     (if sb_time_start sb = None \<and> sb_random_seed sb = None then Done ()
      else pbind (syscall (KVdsoPatch pid (time_offset_of env sb) (sb_random_seed sb \<noteq> None))) (\<lambda>x. case x of
        Inl _ \<Rightarrow> pbind (syscall (KSelf (SelfStderr ''sandlock: pre-exec vDSO patching failed (will retry after exec)'')))
          (\<lambda>_. Done ())
      | Inr _ \<Rightarrow> Done ()))"

definition network_state_of :: "sandbox \<Rightarrow> resolved_set \<Rightarrow> http_acl_handle option \<Rightarrow> network_state" where
  "network_state_of sb res h = (let ps = policies_of (sb_net_allow sb) res in
     NetworkState_new\<lparr>tcp_policy := tcp_policy ps, udp_policy := udp_policy ps, icmp_policy := icmp_policy ps,
       http_acl_addr := map_option ha_addr h, http_acl_ports := set (sb_http_ports sb),
       http_acl_orig_dest := map_option ha_orig_dest h\<rparr>)"

definition policy_fn_state_of :: "sandbox \<Rightarrow> notif_policy \<Rightarrow> network_state \<Rightarrow> policy_fn_state" where
  "policy_fn_state_of sb np ns =
     (let st = PolicyFnState_new\<lparr>pf_denied_paths := set (map to_string_lossy (sb_fs_denied sb))\<rparr>
      in if sb_policy_fn sb = None then st
         else st\<lparr>pf_live_policy := Some (initial_live_policy ns (np_max_memory_bytes np) (np_max_processes np)),
           pf_event_tx := True\<rparr>)"

text \<open>What the supervisor of a new child starts from.\<close>

definition initial_policy :: "launch_env \<Rightarrow> launch_plan \<Rightarrow> sandbox \<Rightarrow> 'h runtime \<Rightarrow> notif_policy" where
  "initial_policy env plan sb rt = notif_policy_of (le_canonicalize env) (le_now env) (map fst (rt_extra_handlers rt))
     (rt_name rt) (rs_etc_hosts (lp_resolved plan)) sb"

definition initial_supervisor :: "launch_env \<Rightarrow> launch_plan \<Rightarrow> sandbox \<Rightarrow> 'h runtime \<Rightarrow> supervisor" where
  "initial_supervisor env plan sb rt =
     (let np = initial_policy env plan sb rt; ns = network_state_of sb (lp_resolved plan) (rt_http_acl_handle rt)
      in \<lparr>sv_processes = ProcessIndex_new,
          sv_resource = (ResourceState_new (np_max_memory_bytes np) (np_max_processes np))\<lparr>proc_count := 1\<rparr>,
          sv_network = ns, sv_policy_fn = policy_fn_state_of sb np ns, sv_vdso_patched_addr = 0\<rparr>)"

text \<open>The states shared with the supervisor task are stored before the task is started; the callback for
  port bindings and the extra handlers move to it.\<close>

definition install_supervisor :: "launch_env \<Rightarrow> launch_plan \<Rightarrow> sandbox \<Rightarrow> 'h runtime \<Rightarrow> 'h runtime" where
  "install_supervisor env plan sb rt = (let sv = initial_supervisor env plan sb rt in
     rt\<lparr>rt_supervisor_resource := Some (sv_resource sv), rt_supervisor_cow := Some (lp_seccomp_branch plan),
       rt_supervisor_network := Some (sv_network sv), rt_on_bind := False, rt_extra_handlers := [],
       rt_notif_handle := True\<rparr>)"

definition start_supervisor :: "launch_env \<Rightarrow> launch_plan \<Rightarrow> int \<Rightarrow> ('h, unit) session_op" where
  "start_supervisor env plan pid s = (let sb = ss_sandbox s in
     pbind (pre_exec_vdso env pid sb) (\<lambda>_.
     let s' = with_rt (install_supervisor env plan sb) s in
     case le_startup env of
       None \<Rightarrow> fail_op (ChildError ''seccomp supervisor exited during startup'') s'
     | Some (Inl e) \<Rightarrow> fail_op (IoError e) s'
     | Some (Inr _) \<Rightarrow> return_op () (with_rt (\<lambda>rt. rt\<lparr>rt_loadavg_handle := True\<rparr>) s')))"

definition supervise :: "launch_env \<Rightarrow> launch_plan \<Rightarrow> int \<Rightarrow> int option \<Rightarrow> ('h, unit) session_op" where
  "supervise env plan pid listener = (if listener = None then return_op () else start_supervisor env plan pid)"

definition throttled :: "sandbox \<Rightarrow> bool" where
  "throttled sb = (case sb_max_cpu sb of None \<Rightarrow> False | Some pct \<Rightarrow> pct < 100)"

definition finish_create :: "launch_plan \<Rightarrow> int option \<Rightarrow> sandbox \<Rightarrow> 'h runtime \<Rightarrow> 'h runtime" where
  "finish_create plan pidfd sb rt = (if throttled sb then rt\<lparr>rt_throttle_handle := True\<rparr> else rt)
     \<lparr>rt_pidfd := pidfd, rt_ready_w := Some (snd (lp_ready plan))\<rparr>"

definition launch_parent :: "launch_env \<Rightarrow> launch_plan \<Rightarrow> int \<Rightarrow> ('h, unit) session_op" where
  "launch_parent env plan pid s0 = (let s = with_rt (adopt_child plan pid) s0 in
     pbind (syscall (KIo (IoClose (snd (lp_notif plan))))) (\<lambda>_.
     pbind (syscall (KIo (IoClose (fst (lp_ready plan))))) (\<lambda>_.
     pbind (syscall (KPidfdOpen (word_of_int pid))) (\<lambda>x.
     let pidfd = (case x of Inl _ \<Rightarrow> None | Inr (fd, _) \<Rightarrow> Some fd) in
     pbind (read_u32_fd (fst (lp_notif plan))) (\<lambda>r. case r of
       Inl _ \<Rightarrow> fail_op (ChildError ''read notif fd from child'') s
     | Inr num \<Rightarrow> pbind (fetch_listener pidfd pid num) (\<lambda>f. case f of
         Inl e \<Rightarrow> fail_op e s
       | Inr listener \<Rightarrow>
           op_bind (supervise env plan pid listener) (\<lambda>_ s'.
             return_op () (with_rt (finish_create plan pidfd (ss_sandbox s')) s')) s))))))"

section \<open>Creation and start\<close>

text \<open>The call goes on in two processes: the child, which never comes back, and the parent.\<close>

datatype 'h creation = InChild child_end | InParent "sandlock_error + unit" "'h session"

definition fork_child :: "launch_env \<Rightarrow> string list \<Rightarrow> launch_plan \<Rightarrow> 'h session \<Rightarrow> 'h creation prog" where
  "fork_child env cmd plan s =
     pbind (syscall (KSelf SelfGetpid)) (\<lambda>me.
     pbind (syscall (KSelf SelfFork)) (\<lambda>x. case x of
       Inl e \<Rightarrow> Done (InParent (Inl (ForkFailed e)) s)
     | Inr (pid, _) \<Rightarrow>
         (case ss_runtime s of
            None \<Rightarrow> Done (if pid = 0 then InChild ChildPanicked else InParent (Inl Panics) s)
          | Some rt \<Rightarrow>
              if pid = 0 then pbind (launch_child env cmd plan (answer_value me) (ss_sandbox s) rt) (\<lambda>e. Done (InChild e))
              else pbind (launch_parent env plan pid s) (\<lambda>(r, s'). Done (InParent r s')))))"

definition do_create :: "launch_env \<Rightarrow> string list \<Rightarrow> bool \<Rightarrow> 'h session \<Rightarrow> 'h creation prog" where
  "do_create env cmd capture s = pbind (prepare_launch env cmd capture s) (\<lambda>(r, s'). case r of
     Inl e \<Rightarrow> Done (InParent (Inl e) s') | Inr plan \<Rightarrow> fork_child env cmd plan s')"

text \<open>\<open>do_start\<close>; the write end is given up even when the write fails. A write that makes no progress five
  times is left as a failure.\<close>

definition do_start :: "('h, unit) session_op" where
  "do_start s = (case ss_runtime s of
     None \<Rightarrow> fail_op Panics s
   | Some rt \<Rightarrow>
       if rt_state rt \<noteq> Created then fail_op (ChildError ''start() requires a created sandbox'') s
       else (case rt_ready_w rt of
         None \<Rightarrow> fail_op (ChildError ''start() called without a prior create()'') s
       | Some fd \<Rightarrow> (let s' = with_rt (\<lambda>rt. rt\<lparr>rt_ready_w := None\<rparr>) s in
           pbind (write_u32_fd fd 1) (\<lambda>w. case w of
             Some (Inr _) \<Rightarrow> pbind (syscall (KIo (IoClose fd))) (\<lambda>_.
               return_op () (with_rt (\<lambda>rt. rt\<lparr>rt_state := Running\<rparr>) s'))
           | _ \<Rightarrow> fail_op (ChildError ''write ready signal'') s'))))"

text \<open>The operations made of them, in the parent. \<open>create_bind\<close> is \<open>self.do_create(..).await?\<close> followed by the rest.\<close>

definition create_bind :: "'h creation prog \<Rightarrow> ('h session \<Rightarrow> 'h creation prog) \<Rightarrow> 'h creation prog" where
  "create_bind p f = pbind p (\<lambda>c. case c of
     InParent (Inr _) s \<Rightarrow> f s | c \<Rightarrow> Done c)"

definition in_parent :: "('h, unit) session_op \<Rightarrow> 'h session \<Rightarrow> 'h creation prog" where
  "in_parent p s = pbind (p s) (\<lambda>(r, s'). Done (InParent r s'))"

text \<open>\<open>wait_until_exec\<close> polls every millisecond until its deadline; \<open>n\<close> is the number of polls that fit.\<close>

primrec poll_exec :: "nat \<Rightarrow> string \<Rightarrow> bytes \<Rightarrow> (sandlock_error + unit) prog" where
  "poll_exec 0 link ours = Done (Inl (ChildError ''child did not exec() within 5s''))"
| "poll_exec (Suc n) link ours = pbind (syscall (KReadlink link)) (\<lambda>x.
     if (case x of Inl _ \<Rightarrow> False | Inr (_, exe) \<Rightarrow> exe \<noteq> ours) then Done (Inr ())
     else if n = 0 then Done (Inl (ChildError ''child did not exec() within 5s''))
     else pbind (syscall (KSelf (SelfSleep 1000000))) (\<lambda>_. poll_exec n link ours))"

definition wait_until_exec :: "nat \<Rightarrow> ('h, unit) session_op" where
  "wait_until_exec n s = (case session_pid s of
     None \<Rightarrow> fail_op NotRunning s
   | Some pid \<Rightarrow> pbind (syscall (KReadlink ''/proc/self/exe'')) (\<lambda>x. case x of
       Inl _ \<Rightarrow> return_op () s
     | Inr (_, ours) \<Rightarrow> lift_op (\<lambda>e. e) (poll_exec n (''/proc/'' @ show_int pid @ ''/exe'') ours) s))"

definition spawn_sandbox :: "launch_env \<Rightarrow> nat \<Rightarrow> string list \<Rightarrow> bool \<Rightarrow> 'h session \<Rightarrow> 'h creation prog" where
  "spawn_sandbox env n cmd capture s = create_bind (do_create env cmd capture s)
     (in_parent (op_bind do_start (\<lambda>_. wait_until_exec n)))"

definition with_io :: "launch_env \<Rightarrow> (int option \<times> int option \<times> int option) \<Rightarrow> (int \<times> int) list option \<Rightarrow> ('h, unit) session_op" where
  "with_io env io extra = op_bind (ensure_runtime (le_serial env)) (\<lambda>_ s. return_op ()
     (with_rt (\<lambda>rt. (rt\<lparr>rt_io_overrides := Some io\<rparr>)
        \<lparr>rt_extra_fds := (case extra of None \<Rightarrow> rt_extra_fds rt | Some fds \<Rightarrow> fds)\<rparr>) s))"

definition create_with_io ::
  "launch_env \<Rightarrow> string list \<Rightarrow> (int option \<times> int option \<times> int option) \<Rightarrow> (int \<times> int) list option \<Rightarrow> 'h session
     \<Rightarrow> 'h creation prog" where
  "create_with_io env cmd io extra s = pbind (with_io env io extra s) (\<lambda>(r, s'). case r of
     Inl e \<Rightarrow> Done (InParent (Inl e) s') | Inr _ \<Rightarrow> do_create env cmd False s')"

text \<open>A run to the end: its result in the parent, or the end of the child.\<close>

datatype 'h run_end = RunChild child_end | RunParent "(sandlock_error + RunResult) option" "'h session"

definition run_sandbox :: "launch_env \<Rightarrow> nat \<Rightarrow> string list \<Rightarrow> bool \<Rightarrow> 'h session \<Rightarrow> 'h run_end prog" where
  "run_sandbox env k cmd capture s = pbind (create_bind (do_create env cmd capture s) (in_parent do_start)) (\<lambda>c. case c of
     InChild e \<Rightarrow> Done (RunChild e)
   | InParent (Inl e) s' \<Rightarrow> Done (RunParent (Some (Inl e)) s')
   | InParent (Inr _) s' \<Rightarrow> pbind (wait_session k s') (\<lambda>w. Done (case w of
       None \<Rightarrow> RunParent None s' | Some (r, s'') \<Rightarrow> RunParent (Some r) s'')))"

definition run_with_handlers :: "launch_env \<Rightarrow> nat \<Rightarrow> string list \<Rightarrow> bool \<Rightarrow> (int \<times> 'h) list \<Rightarrow> 'h session \<Rightarrow> 'h run_end prog" where
  "run_with_handlers env k cmd capture extra s = (case collect_extra_handlers extra (ss_sandbox s) of
     Inl e \<Rightarrow> Done (RunParent (Some (Inl (HandlerError e))) s)
   | Inr pending \<Rightarrow> pbind (ensure_runtime (le_serial env) s) (\<lambda>(r, s'). case r of
       Inl e \<Rightarrow> Done (RunParent (Some (Inl e)) s')
     | Inr _ \<Rightarrow> run_sandbox env k cmd capture (with_rt (\<lambda>rt. rt\<lparr>rt_extra_handlers := pending\<rparr>) s')))"

text \<open>\<open>dry_run\<close>: the walk and the order are those of the branch when the changes are collected.\<close>

definition keep_branch :: "'h session \<Rightarrow> 'h session" where
  "keep_branch s = s\<lparr>ss_sandbox := (ss_sandbox s)\<lparr>sb_on_exit := Keep, sb_on_error := Keep\<rparr>\<rparr>"

definition dry_run ::
  "launch_env \<Rightarrow> nat \<Rightarrow> string list \<Rightarrow> bool \<Rightarrow> walk_item list \<Rightarrow> string list \<Rightarrow> 'h session
     \<Rightarrow> ('h run_end \<times> (ChangeKind \<times> string) list) prog" where
  "dry_run env k cmd capture walk order s = pbind (run_sandbox env k cmd capture (keep_branch s)) (\<lambda>e. case e of
     RunParent (Some (Inr rr)) s' \<Rightarrow> pbind (collect_changes walk order s') (\<lambda>cs.
       pbind (do_abort s') (\<lambda>s''. Done (RunParent (Some (Inr rr)) s'', cs)))
   | e \<Rightarrow> Done (e, []))"

text \<open>The throttle, between its sleeps, until a signal fails; \<open>n\<close> rounds of it. Times are in nanoseconds.\<close>

primrec throttle_cpu :: "nat \<Rightarrow> int \<Rightarrow> u8 \<Rightarrow> unit prog" where
  "throttle_cpu 0 pid pct = Done ()"
| "throttle_cpu (Suc n) pid pct = (let run_time = 100000000 * unat pct div 100 in
     pbind (syscall (KSelf (SelfSleep run_time))) (\<lambda>_.
     pbind (syscall (KKillpg pid SIGSTOP)) (\<lambda>x. case x of
       Inl _ \<Rightarrow> Done ()
     | Inr _ \<Rightarrow> pbind (syscall (KSelf (SelfSleep (100000000 - run_time)))) (\<lambda>_.
         pbind (syscall (KKillpg pid SIGCONT)) (\<lambda>y. case y of
           Inl _ \<Rightarrow> Done () | Inr _ \<Rightarrow> throttle_cpu n pid pct)))))"

section \<open>A created sandbox is supervised\<close>

text \<open>The number the child has reported: the bytes read so far from a descriptor.\<close>

definition reported_bytes :: "int \<Rightarrow> history \<Rightarrow> bytes" where
  "reported_bytes fd h = foldl (\<lambda>acc (r, x). case (r, x) of
     (KSelf (SelfRead f n), Inr (v, out)) \<Rightarrow> if f = fd then acc @ take (4 - length acc) out else acc
   | _ \<Rightarrow> acc) [] h"

abbreviation (input) reading :: "sysreq \<Rightarrow> bool" where
  "reading r \<equiv> \<exists>fd n. r = KSelf (SelfRead fd n)"

lemma reported_append [simp]:
  "reported_bytes fd (h @ [(KSelf (SelfRead fd n), Inr (v, out))]) =
     reported_bytes fd h @ take (4 - length (reported_bytes fd h)) out"
  "\<not> reading r \<Longrightarrow> reported_bytes fd (h @ [(r, x)]) = reported_bytes fd h"
  by (auto simp: reported_bytes_def split: sysreq.split self_req.split)

lemma reported_calm: "calm reading h h' \<Longrightarrow> reported_bytes fd h' = reported_bytes fd h"
proof -
  have "reported_bytes fd (h @ t) = reported_bytes fd h" if "list_all (\<lambda>(r, x). \<not> reading r) t" for t :: history
    using that by (induction t rule: rev_induct) (auto simp flip: append_assoc)
  then show "calm reading h h' \<Longrightarrow> reported_bytes fd h' = reported_bytes fd h"
    by (auto simp: calm_def)
qed

lemma safe_read_rest:
  "reported_bytes fd h = acc \<Longrightarrow>
     safe anything (\<lambda>h' r. \<forall>bs. r = Inr bs \<longrightarrow> reported_bytes fd h' = bs) h (read_rest k fd acc)"
proof (induction k arbitrary: h acc)
  case (Suc k)
  then show ?case by (auto intro!: Suc.IH split: sum.split)
qed simp

lemma safe_read_u32:
  "reported_bytes fd h = [] \<Longrightarrow>
     safe anything (\<lambda>h' r. \<forall>num. r = Inr num \<longrightarrow> le_word (reported_bytes fd h') = num) h (read_u32_fd fd)"
  unfolding read_u32_fd_def safe_pbind
  by (rule safe_mono [OF safe_read_rest]) (auto split: sum.split)

text \<open>The sandbox is parked, and it is supervised unless the child has reported that it is nested; \<open>fd\<close> is the
  descriptor it reports on.\<close>

definition parked :: "int \<Rightarrow> history \<Rightarrow> 'h session \<Rightarrow> bool" where
  "parked fd h s \<longleftrightarrow> (\<exists>rt. ss_runtime s = Some rt \<and> rt_child_pid rt \<noteq> None \<and> rt_ready_w rt \<noteq> None \<and>
     (if le_word (reported_bytes fd h) = (0 :: u32) then True
      else rt_notif_handle rt \<and> rt_supervisor_resource rt \<noteq> None \<and> rt_supervisor_network rt \<noteq> None))"

lemma safe_start_supervisor:
  "ss_runtime s = Some rt \<Longrightarrow> safe anything (\<lambda>h' (r, s'). r = Inr () \<longrightarrow> calm reading h h' \<and>
     (\<exists>rt'. ss_runtime s' = Some rt' \<and> rt_child_pid rt' = rt_child_pid rt \<and> rt_notif_handle rt' \<and>
        rt_supervisor_resource rt' \<noteq> None \<and> rt_supervisor_network rt' \<noteq> None)) h (start_supervisor env plan pid s)"
  by (auto simp: start_supervisor_def Let_def pre_exec_vdso_def fail_op_def return_op_def with_rt_def
      install_supervisor_def split: sum.split option.split)

lemma fetch_listener_none:
  "safe anything (\<lambda>h' r. calm reading h h' \<and> (r = Inr None \<longrightarrow> num = 0)) h (fetch_listener pidfd pid num)"
  by (auto simp: fetch_listener_def split: option.split sum.split)

lemma safe_launch_parent:
  assumes "ss_runtime s = Some rt" "reported_bytes (fst (lp_notif plan)) h = []"
  shows "safe anything (\<lambda>h' (r, s'). r = Inr () \<longrightarrow> parked (fst (lp_notif plan)) h' s') h (launch_parent env plan pid s)"
proof -
  let ?fd = "fst (lp_notif plan)"
  let ?Q = "\<lambda>h' (r, s'). r = Inr () \<longrightarrow> parked ?fd h' s'"
  obtain rt1 where s1: "ss_runtime (with_rt (adopt_child plan pid) s) = Some rt1" "rt_child_pid rt1 = Some pid"
    using assms(1) by (auto simp: with_rt_def adopt_child_def)
  let ?s = "with_rt (adopt_child plan pid) s"
  have finish: "parked ?fd h' (with_rt (finish_create plan pidfd (ss_sandbox s')) s')"
    if "ss_runtime s' = Some rt'" "rt_child_pid rt' = Some pid" and
      "le_word (reported_bytes ?fd h') \<noteq> (0 :: u32) \<longrightarrow> rt_notif_handle rt' \<and> rt_supervisor_resource rt' \<noteq> None \<and>
        rt_supervisor_network rt' \<noteq> None" for h' s' rt' pidfd
    using that by (auto simp: parked_def with_rt_def finish_create_def)
  have rest: "safe anything ?Q h' (op_bind (supervise env plan pid listener)
      (\<lambda>_ s'. return_op () (with_rt (finish_create plan pidfd (ss_sandbox s')) s')) ?s)"
    if "listener = None \<longrightarrow> le_word (reported_bytes ?fd h') = (0 :: u32)" for h' listener pidfd
  proof (cases "listener = None")
    case True
    then show ?thesis
      using finish [of ?s rt1 h'] s1 that by (simp add: op_bind_def return_op_def supervise_def)
  next
    case False
    have "safe anything ?Q h' (pbind (start_supervisor env plan pid ?s) (\<lambda>(r, s'). case r of Inl e \<Rightarrow> Done (Inl e, s')
        | Inr a \<Rightarrow> return_op () (with_rt (finish_create plan pidfd (ss_sandbox s')) s')))"
      unfolding safe_pbind
    proof (rule safe_mono [OF safe_start_supervisor [OF s1(1)]])
      fix h'' and p :: "(sandlock_error + unit) \<times> 'a session"
      assume "case p of (r, s') \<Rightarrow> r = Inr () \<longrightarrow> calm reading h' h'' \<and> (\<exists>rt'. ss_runtime s' = Some rt' \<and>
        rt_child_pid rt' = rt_child_pid rt1 \<and> rt_notif_handle rt' \<and> rt_supervisor_resource rt' \<noteq> None \<and>
        rt_supervisor_network rt' \<noteq> None)"
      then show "safe anything ?Q h'' (case p of (r, s') \<Rightarrow> case r of Inl e \<Rightarrow> Done (Inl e, s')
          | Inr a \<Rightarrow> return_op () (with_rt (finish_create plan pidfd (ss_sandbox s')) s'))"
        using s1(2) by (cases p) (auto simp: return_op_def split: sum.split intro!: finish)
    qed
    then show ?thesis using False by (cases listener) (simp_all add: op_bind_def supervise_def)
  qed
  have listen: "safe anything ?Q h' (pbind (fetch_listener pidfd pid num) (\<lambda>f. case f of
         Inl e \<Rightarrow> fail_op e ?s
       | Inr listener \<Rightarrow> op_bind (supervise env plan pid listener)
           (\<lambda>_ s'. return_op () (with_rt (finish_create plan pidfd (ss_sandbox s')) s')) ?s))"
    if "le_word (reported_bytes ?fd h') = num" for h' num pidfd
    unfolding safe_pbind [of _ _ _ "fetch_listener pidfd pid num"]
    by (rule safe_mono [OF fetch_listener_none])
      (use that rest reported_calm in \<open>auto simp: fail_op_def split: sum.split\<close>)
  have "safe anything ?Q h' (pbind (read_u32_fd ?fd) (\<lambda>r. case r of
       Inl _ \<Rightarrow> fail_op (ChildError ''read notif fd from child'') ?s
     | Inr num \<Rightarrow> pbind (fetch_listener pidfd pid num) (\<lambda>f. case f of
         Inl e \<Rightarrow> fail_op e ?s
       | Inr listener \<Rightarrow> op_bind (supervise env plan pid listener)
           (\<lambda>_ s'. return_op () (with_rt (finish_create plan pidfd (ss_sandbox s')) s')) ?s)))"
    if "reported_bytes ?fd h' = []" for h' pidfd
    unfolding safe_pbind [of _ _ _ "read_u32_fd ?fd"]
    by (rule safe_mono [OF safe_read_u32 [OF that]])
      (auto simp: fail_op_def simp del: safe_pbind intro!: listen [unfolded fail_op_def] split: sum.split)
  moreover have "reported_bytes ?fd (h @ [(KIo q, x), (KIo q', y), (KPidfdOpen p, z)]) = []" for q q' p x y z
    using assms(2) by (simp add: reported_bytes_def)
  ultimately show ?thesis by (simp add: launch_parent_def Let_def)
qed

text \<open>The requests made before the fork.\<close>

definition preparing :: "sysreq \<Rightarrow> bool" where
  "preparing r = (case r of
     KSelf q \<Rightarrow> (case q of SelfGetpid \<Rightarrow> True | SelfPipe fl \<Rightarrow> True | SelfStderr m \<Rightarrow> True
       | SelfIoctl fd c \<Rightarrow> c = FS_IOC_BRANCH_CREATE | _ \<Rightarrow> False)
   | KFs q \<Rightarrow> (case q of FsCreateDirAll d \<Rightarrow> True | FsOpen d fl m \<Rightarrow> True | _ \<Rightarrow> False)
   | KReadFile f \<Rightarrow> True | KCanonicalize f \<Rightarrow> True | KIo q \<Rightarrow> True | _ \<Rightarrow> False)"

lemma preparing_simps [simp]:
  "preparing (KSelf SelfGetpid)" "preparing (KSelf (SelfPipe fl))" "preparing (KSelf (SelfStderr m))"
  "preparing (KSelf (SelfIoctl fd FS_IOC_BRANCH_CREATE))" "preparing (KFs (FsCreateDirAll d))"
  "preparing (KFs (FsOpen d fl md))" "preparing (KReadFile f)" "preparing (KCanonicalize f)" "preparing (KIo q)"
  by (simp_all add: preparing_def)

lemma only_lift: "only R p \<Longrightarrow> only R (lift_op f p s)"
  unfolding lift_op_def by (rule only_pbind) auto

lemma only_op_bind: "only R (p s) \<Longrightarrow> (\<And>a s'. only R (f a s')) \<Longrightarrow> only R (op_bind p f s)"
  unfolding op_bind_def by (rule only_pbind) (auto split: sum.split)

lemma only_pipes: "only preparing pipe_pair" "only preparing (capture_pipes capture)"
  by (auto simp: capture_pipes_def pipe_pair_def make_pipe_def intro!: only_pbind split: sum.split)

lemma only_branches:
  "only preparing (kernel_branch env sb)" "only preparing (seccomp_branch env nested s)"
  by (auto simp: kernel_branch_def OverlayBranch_create_def BranchFsBranch_create_def open_ctl_def seccomp_branch_def
      cow_storage_def create_branch_def fs_try_def Let_def fail_op_def return_op_def
      intro!: only_pbind split: option.split sum.split FsIsolation.split)

lemma only_checks:
  "only preparing (ensure_runtime k s)" "only preparing (check_command cmd s)" "only preparing (start_proxy env s)"
  "only preparing (is_nested b)"
  by (auto simp: ensure_runtime_def resolve_name_def check_command_def start_proxy_def fail_op_def return_op_def
      is_nested_def intro!: only_pbind split: option.split sum.split)

lemma only_preparation: "only preparing (prepare_launch env cmd capture s)"
  unfolding prepare_launch_def check_launch_def plan_launch_def
  by (intro only_op_bind only_lift only_pbind only_checks only_pipes only_branches) (simp_all add: return_op_def)

lemma preparing_silent: "preparing r \<Longrightarrow> \<not> reading r"
  by (auto simp: preparing_def)

text \<open>The read end of the first pipe a history makes.\<close>

abbreviation (input) piping :: "sysreq \<Rightarrow> bool" where
  "piping r \<equiv> \<exists>fl. r = KSelf (SelfPipe fl)"

definition is_piping :: "sysreq \<times> sysres \<Rightarrow> bool" where
  "is_piping e = (case fst e of KSelf q \<Rightarrow> (case q of SelfPipe fl \<Rightarrow> True | _ \<Rightarrow> False) | _ \<Rightarrow> False)"

definition report_fd :: "history \<Rightarrow> int option" where
  "report_fd h = (case find is_piping h of
     Some (r, Inr (fd, out)) \<Rightarrow> Some fd | _ \<Rightarrow> None)"

lemma report_fd_append:
  "report_fd (h @ t) = (case find is_piping h of
     None \<Rightarrow> report_fd t | Some _ \<Rightarrow> report_fd h)"
  unfolding report_fd_def by (induction h) (auto split: option.split)

lemma report_fd_keeps: "report_fd h = Some fd \<Longrightarrow> report_fd (h @ t) = Some fd"
  by (cases "find is_piping h") (simp_all add: report_fd_append, simp add: report_fd_def)

lemma report_fd_calm: "calm piping [] h \<Longrightarrow> report_fd (h @ t) = report_fd t"
proof -
  assume "calm piping [] h"
  then have "find is_piping h = None"
    by (auto simp: calm_def find_None_iff list_all_iff is_piping_def split: sysreq.splits self_req.splits)
  then show ?thesis by (simp add: report_fd_append)
qed

lemma safe_keeps: "J h \<Longrightarrow> (\<And>h e. J h \<Longrightarrow> J (h @ [e])) \<Longrightarrow> safe anything (\<lambda>h' _. J h') h p"
  by (induction p arbitrary: h) auto

definition gives :: "('a \<Rightarrow> bool) \<Rightarrow> ('h, 'a) session_op \<Rightarrow> bool" where
  "gives P p \<longleftrightarrow> (\<forall>s h. safe anything (\<lambda>_ (r, s'). \<forall>a. r = Inr a \<longrightarrow> P a) h (p s))"

lemma gives_bind: "(\<And>a. gives P (f a)) \<Longrightarrow> gives P (op_bind p f)"
  unfolding gives_def op_bind_def safe_pbind
  by (intro allI, rule safe_mono [OF safe_anything]) (auto split: sum.split)

lemma planned_notif: "gives (\<lambda>plan. lp_notif plan = fst pipes) (plan_launch env capture nested pipes)"
  unfolding plan_launch_def by (intro gives_bind) (simp add: gives_def return_op_def)

lemma safe_pipes:
  assumes "calm piping [] h"
  shows "safe anything (\<lambda>h' r. \<forall>p. r = Inr p \<longrightarrow> report_fd h' = Some (fst (fst p))) h pipe_pair"
  using report_fd_calm [OF assms]
  by (auto simp: pipe_pair_def make_pipe_def report_fd_def is_piping_def split: sum.split)

lemma checking_pipeless: "only (\<lambda>r. \<not> piping r) (check_launch env cmd s)"
  by (auto simp: check_launch_def ensure_runtime_def resolve_name_def check_command_def is_nested_def fail_op_def
      return_op_def intro!: only_op_bind only_lift only_pbind split: option.split sum.split)

lemma prepared_notif:
  "safe anything (\<lambda>h' (r, s'). \<forall>plan. r = Inr plan \<longrightarrow> report_fd h' = Some (fst (lp_notif plan))) []
     (prepare_launch env cmd capture s)"
proof -
  let ?Q = "\<lambda>h' (r, s'). \<forall>plan. r = Inr plan \<longrightarrow> report_fd h' = Some (fst (lp_notif plan))"
  have plan: "safe anything ?Q h' (plan_launch env capture nested pipes s')"
    if "report_fd h' = Some (fst (fst pipes))" for h' nested pipes and s' :: "'a session"
    by (rule safe_mono [OF safe_conj [OF safe_keeps [of "\<lambda>h. report_fd h = Some (fst (fst pipes))", OF that]
        planned_notif [unfolded gives_def, rule_format]]]) (auto intro: report_fd_keeps)
  have pipes: "safe anything ?Q h' (op_bind (lift_op IoError pipe_pair) (plan_launch env capture nested) s')"
    if "calm piping [] h'" for h' nested and s' :: "'a session"
    unfolding op_bind_def lift_op_def safe_pbind
    by (rule safe_mono [OF safe_pipes [OF that]]) (auto intro: plan split: sum.split)
  show ?thesis
    unfolding prepare_launch_def op_bind_def [of "check_launch env cmd"] safe_pbind
    by (rule safe_only [OF checking_pipeless]) (auto intro: pipes split: sum.split)
qed

text \<open>C9: When the creation of a sandbox succeeds, its child is parked, and it is supervised, with the supervisor's
  states in place, unless the child has reported, on the pipe its parent made first, that it is nested.\<close>

theorem created_is_supervised:
  assumes "result K (do_create env cmd capture s) = InParent (Inr ()) s'"
  shows "\<exists>fd. report_fd (trace K (do_create env cmd capture s)) = Some fd \<and>
     parked fd (trace K (do_create env cmd capture s)) s'"
proof -
  let ?Q = "\<lambda>h' c. \<forall>s'. c = InParent (Inr ()) s' \<longrightarrow> (\<exists>fd. report_fd h' = Some fd \<and> parked fd h' s')"
  have forked: "safe anything ?Q h' (fork_child env cmd plan s1)"
    if h': "calm (\<lambda>r. \<not> preparing r) [] h'" "report_fd h' = Some (fst (lp_notif plan))" for h' plan and s1 :: "'a session"
  proof -
    let ?fd = "fst (lp_notif plan)"
    have silent: "reported_bytes ?fd h' = []"
      using reported_calm [OF calm_mono [OF h'(1)], of ?fd] preparing_silent by (auto simp: reported_bytes_def)
    have parent: "safe anything ?Q h2 (pbind (launch_parent env plan pid s1) (\<lambda>(r, s'). Done (InParent r s')))"
      if rt: "ss_runtime s1 = Some rt" and h2: "h2 = h' @ [(KSelf SelfGetpid, x), (KSelf SelfFork, y)]" for h2 pid rt x y
    proof -
      have "reported_bytes ?fd h2 = []" "report_fd h2 = Some ?fd"
        using silent report_fd_keeps [OF h'(2)] by (auto simp: h2 reported_bytes_def)
      then have "safe anything (\<lambda>h'' a. (case a of (r, s') \<Rightarrow> r = Inr () \<longrightarrow> parked ?fd h'' s') \<and> report_fd h'' = Some ?fd)
          h2 (launch_parent env plan pid s1)"
        by (intro safe_conj safe_launch_parent [OF rt] safe_keeps) (auto intro: report_fd_keeps)
      then show ?thesis
        unfolding safe_pbind by (rule safe_mono) auto
    qed
    have child: "safe anything ?Q h2 (pbind p (\<lambda>e. Done (InChild e)))" for h2 p
      unfolding safe_pbind by (rule safe_mono [OF safe_anything]) auto
    show ?thesis
      unfolding fork_child_def by (auto split: sum.split option.split intro!: parent child simp del: safe_pbind)
  qed
  have "safe anything ?Q [] (do_create env cmd capture s)"
    unfolding do_create_def safe_pbind
  proof (rule safe_both [OF only_preparation prepared_notif])
    fix h' and a :: "(sandlock_error + launch_plan) \<times> 'a session"
    assume "calm (\<lambda>r. \<not> preparing r) [] h'"
      "case a of (r, s') \<Rightarrow> \<forall>plan. r = Inr plan \<longrightarrow> report_fd h' = Some (fst (lp_notif plan))"
    then show "safe anything ?Q h' (case a of (Inl e, s') \<Rightarrow> Done (InParent (Inl e) s') | (Inr plan, s') \<Rightarrow> fork_child env cmd plan s')"
      using forked by (auto split: prod.split sum.split)
  qed simp
  from safe_result [OF this] assms show ?thesis by blast
qed

section \<open>A launch\<close>

definition example_env :: launch_env where
  "example_env = \<lparr>le_serial = 1, le_confined = False, le_lookup = (\<lambda>_ _ _. Inl ''no name''), le_proxy = Inl 5,
     le_temp_dir = ''/tmp'', le_branch_id = ''u'', le_now = 0, le_canonicalize = Some, le_env_order = (\<lambda>_. []),
     le_startup = Some (Inr ())\<rparr>"

definition fresh_session :: "string session" where
  "fresh_session = \<lparr>ss_sandbox = minimal_sandbox, ss_init_fn = False, ss_work_fn = False, ss_runtime = None\<rparr>"

definition launch_kernel :: "sysreq \<Rightarrow> sysres" where
  "launch_kernel r = (case r of
     KSelf q \<Rightarrow> (case q of SelfPipe fl \<Rightarrow> Inr (10, le_bytes 4 (11 :: u32)) | SelfFork \<Rightarrow> Inr (7, [])
       | SelfRead fd n \<Rightarrow> Inr (4, [9, 0, 0, 0]) | SelfWrite fd bs \<Rightarrow> Inr (4, []) | _ \<Rightarrow> Inr (0, []))
   | KWaitpid p \<Rightarrow> Inr (p, le_bytes 4 (0 :: u32))
   | _ \<Rightarrow> Inr (5, []))"

definition created_session :: "'h creation \<Rightarrow> 'h session option" where
  "created_session c = (case c of InParent (Inr _) s \<Rightarrow> Some s | _ \<Rightarrow> None)"

lemma created_session_eq: "created_session c = Some s \<longleftrightarrow> c = InParent (Inr ()) s"
  by (auto simp: created_session_def split: creation.split sum.split)

definition example_created :: "string session" where
  "example_created = the (created_session (eval launch_kernel (do_create example_env [''true''] False fresh_session)))"

lemma example_steps:
  "eval launch_kernel make_pipe = Inr (10, 11)" "eval launch_kernel (is_nested False) = False"
  "resolve_net_allow lk [] = Inr \<lparr>rs_tcp = empty_resolved, rs_udp = empty_resolved, rs_icmp = empty_resolved, rs_etc_hosts = None\<rparr>"
  "eval launch_kernel (read_u32_fd 10) = Inr 9"
proof -
  show "eval launch_kernel make_pipe = Inr (10, 11)" "eval launch_kernel (is_nested False) = False"
    "eval launch_kernel (read_u32_fd 10) = Inr 9"
    by code_simp+
qed (simp add: resolve_net_allow_def per_proto_def)

lemmas launch_defs = op_bind_def lift_op_def return_op_def fail_op_def ensure_runtime_def resolve_name_def check_command_def
  start_proxy_def kernel_branch_def seccomp_branch_def capture_pipes_def pipe_pair_def fork_child_def launch_parent_def
  fetch_listener_def supervise_def start_supervisor_def pre_exec_vdso_def finish_create_def throttled_def install_supervisor_def
  adopt_child_def with_rt_def fresh_runtime_def example_env_def fresh_session_def minimal_sandbox_def created_session_def
  answer_value_def example_steps Let_def

lemma example_creates:
  "result (stateless launch_kernel) (do_create example_env [''true''] False fresh_session) = InParent (Inr ()) example_created"
proof -
  have "created_session (eval launch_kernel (do_create example_env [''true''] False fresh_session)) \<noteq> None"
    by (simp add: do_create_def prepare_launch_def check_launch_def plan_launch_def launch_defs launch_kernel_def)
  then show ?thesis
    by (auto simp: example_created_def result_stateless simp flip: created_session_eq)
qed

theorem created_is_supervised_witness:
  "\<exists>fd. report_fd (trace (stateless launch_kernel) (do_create example_env [''true''] False fresh_session)) = Some fd \<and>
     parked fd (trace (stateless launch_kernel) (do_create example_env [''true''] False fresh_session)) example_created"
  by (rule created_is_supervised [OF example_creates])

section \<open>Guards that do not guard\<close>

text \<open>Until it is started, a created sandbox can be created again: the second call forks another child, and
  the first, whose pipe is closed, is never waited for.\<close>

lemma second_create_accepted:
  "created_session (eval launch_kernel (create_bind (do_create example_env [''true''] False fresh_session)
     (do_create example_env [''true''] False))) \<noteq> None"
  by (simp add: create_bind_def do_create_def prepare_launch_def check_launch_def plan_launch_def launch_defs launch_kernel_def)

text \<open>Pausing and resuming a created sandbox leaves it running in name; its child stays parked and can no
  longer be started.\<close>

lemma paused_before_start_is_stuck:
  assumes "ss_runtime s = Some rt" "rt_child_pid rt = Some pid"
    "M (KKillpg pid SIGSTOP) = Inr v" "M (KKillpg pid SIGCONT) = Inr w"
  shows "fst (eval M (op_bind pause (\<lambda>_. op_bind resume (\<lambda>_. do_start)) s)) =
     Inl (ChildError ''start() requires a created sandbox'')"
  using assms by (simp add: op_bind_def pause_def resume_def signal_group_def session_pid_def with_rt_def do_start_def fail_op_def)

text \<open>The throttle continues a process group that has been stopped by \<open>pause\<close> or for a checkpoint.\<close>

lemma throttle_resumes:
  "M (KKillpg pid SIGSTOP) = Inr v \<Longrightarrow>
     (KKillpg pid SIGCONT, M (KKillpg pid SIGCONT)) \<in> set (asked M (throttle_cpu (Suc n) pid pct))"
  by (simp add: Let_def)

text \<open>A sandbox that was never created: \<open>start\<close> and \<open>wait\<close> panic instead of reporting it.\<close>

lemma start_before_create_panics:
  "ss_runtime s = None \<Longrightarrow> do_start s = Done (Inl Panics, s) \<and> wait_session k s = Done (Some (Inl Panics, s))"
  by (simp add: do_start_def wait_session_def fail_op_def)

end
