(* ===== verification/DryRun.thy ===== *)
theory DryRun
  imports Launch
begin

text \<open>
  A dry run (\<open>sandbox.rs\<close>, \<open>dry_run\<close>) writes nothing into the work directory, in none of its two processes, nor
  when the sandbox is dropped afterwards.
\<close>

section \<open>A dry run\<close>

lemma plain_unmerging: "plain r \<Longrightarrow> \<not> merges r"
  by (cases r) (auto simp: plain_def merges_def split: self_req.splits)

lemma ruling_unmerging: "ruling r \<Longrightarrow> \<not> merges r"
  by (cases r) (auto simp: ruling_def merges_def split: fs_req.splits self_req.splits)

lemma preparing_unmerging: "preparing r \<Longrightarrow> \<not> merges r"
  by (cases r) (auto simp: preparing_def merges_def FS_IOC_BRANCH_CREATE_def FS_IOC_BRANCH_COMMIT_def
      split: fs_req.splits self_req.splits)

lemma unmerging_simps [simp]:
  "\<not> merges (KSelf SelfGetpid)" "\<not> merges (KSelf SelfFork)" "\<not> merges (KIo q)" "\<not> merges (KPidfdOpen p)"
  "\<not> merges (KPidfdGetfd pfd fd)"
  by (simp_all add: merges_def)

lemma child_unmerging: "unmerging (launch_child env cmd plan me sb rt)"
proof -
  have plain: "only plain p \<Longrightarrow> unmerging p" for p :: "'x prog"
    by (erule only_mono) (rule plain_unmerging)
  have io: "unmerging (connect_io rt plan)"
  proof -
    have "unmerging (dup_to fd to)" for fd to by (simp add: dup_to_def merges_def split: option.split)
    moreover have "unmerging (dup_extra ps)" for ps by (induction ps) (simp_all add: merges_def)
    ultimately show ?thesis by (auto simp: connect_io_def intro!: only_pbind split: option.split)
  qed
  have privs: "unmerging no_new_privs"
    by (simp add: no_new_privs_def merges_def)
  have landlock: "unmerging (apply_landlock sb)" for sb
    unfolding apply_landlock_def
    by (rule only_pbind [OF only_mono [OF only_landlock ruling_unmerging]]) (auto simp: merges_def split: sum.split)
  have exec: "unmerging (exec_command sb cmd)" for sb cmd
    by (auto simp: exec_command_def merges_def split: list.split sum.split)
  have command: "unmerging (run_command a fd)" for a fd
    unfolding run_command_def
    by (intro only_try_then only_pbind plain [OF only_wait_for_parent] plain [OF only_close] plain [OF only_env(1)]
        plain [OF only_env(2)] exec)
  have "unmerging (confine_child a)" for a
    unfolding confine_child_def
    by (intro only_pbind only_try_then plain [OF only_set_up] privs landlock plain [OF only_seccomp])
      (auto intro: command split: sum.split)
  then show ?thesis unfolding launch_child_def by (intro only_pbind io)
qed

lemma parent_unmerging:
  fixes s :: "'h session" and s' :: "'h session"
  shows "unmerging (launch_parent env plan pid s)" "unmerging (do_start s')"
proof -
  have read: "unmerging (read_u32_fd fd)" for fd
    unfolding read_u32_fd_def by (intro only_pbind only_mono [OF only_read_rest plain_unmerging]) auto
  have "unmerging (start_supervisor env plan pid s)" for s :: "'h session"
    by (auto simp: start_supervisor_def pre_exec_vdso_def fail_op_def return_op_def Let_def merges_def
        split: sum.split option.split)
  then have "unmerging (supervise env plan pid f s)" for f and s :: "'h session"
    by (simp add: supervise_def return_op_def)
  then show "unmerging (launch_parent env plan pid s)"
    unfolding launch_parent_def Let_def
    by (auto simp: fail_op_def return_op_def fetch_listener_def
        intro!: only_pbind read only_op_bind split: sum.split option.split)
  show "unmerging (do_start s')"
    by (auto simp: do_start_def write_u32_fd_def fail_op_def return_op_def Let_def
        intro!: only_pbind only_mono [OF only_write_rest plain_unmerging] split: option.split sum.split)
qed

lemma create_unmerging: "unmerging (do_create env cmd capture s)"
proof -
  have "unmerging (fork_child env cmd plan s')" for plan and s' :: "'a session"
    by (auto simp: fork_child_def intro!: only_pbind child_unmerging parent_unmerging
        split: sum.split option.split)
  then show ?thesis
    unfolding do_create_def
    by (intro only_pbind only_mono [OF only_preparation preparing_unmerging]) (auto split: prod.split sum.split)
qed

lemma run_unmerging: "unmerging (run_sandbox env k cmd capture s)"
  unfolding run_sandbox_def create_bind_def in_parent_def
  by (auto intro!: only_pbind create_unmerging parent_unmerging wait_unmerging split: creation.split sum.split option.split)

text \<open>The actions on the branch stay what a dry run makes them.\<close>

abbreviation keeping :: "'h session \<Rightarrow> bool" where
  "keeping s \<equiv> sb_on_exit (ss_sandbox s) = Keep \<and> sb_on_error (ss_sandbox s) = Keep"

definition keeps :: "('h, 'a) session_op \<Rightarrow> bool" where
  "keeps p \<longleftrightarrow> (\<forall>s h. keeping s \<longrightarrow> safe anything (\<lambda>_ (r, s'). keeping s') h (p s))"

lemma keepsD: "keeps p \<Longrightarrow> keeping s \<Longrightarrow> safe anything (\<lambda>_ (r, s'). keeping s') h (p s)"
  by (simp add: keeps_def)

lemma keeps_bind:
  assumes "keeps p" "\<And>a. keeps (f a)"
  shows "keeps (op_bind p f)"
  unfolding keeps_def op_bind_def safe_pbind
  by (intro allI impI, rule safe_mono [OF keepsD [OF assms(1)]])
    (use keepsD [OF assms(2)] in \<open>auto split: sum.split\<close>)

lemma keeps_lift: "keeps (\<lambda>s. lift_op f (q s) s)" "keeps (return_op a)"
proof -
  have "safe anything (\<lambda>_ (r, s'). keeping s') h (lift_op f p s)" if "keeping s" for f p s h
    unfolding lift_op_def safe_pbind by (rule safe_mono [OF safe_anything]) (use that in auto)
  then show "keeps (\<lambda>s. lift_op f (q s) s)" "keeps (return_op a)"
    by (auto simp: keeps_def return_op_def)
qed

lemma keeps_steps:
  "keeps (ensure_runtime k)" "keeps (check_command cmd)" "keeps (start_proxy env)"
  "keeps (seccomp_branch env nested)" "keeps (supervise env plan pid f)" "keeps do_start"
proof -
  have rest: "safe anything (\<lambda>_ (r, s'). keeping s') h (pbind p f)"
    if "\<And>h' a. safe anything (\<lambda>_ (r, s'). keeping s') h' (f a)" for h and p :: "'x prog" and f :: "'x \<Rightarrow> ('y \<times> 'z session) prog"
    unfolding safe_pbind by (rule safe_mono [OF safe_anything]) (use that in auto)
  show "keeps (ensure_runtime k)" "keeps (check_command cmd)" "keeps (start_proxy env)"
    by (auto simp: keeps_def ensure_runtime_def check_command_def start_proxy_def fail_op_def return_op_def with_rt_def
        intro!: rest simp del: safe_pbind split: option.split sum.split)
  show "keeps (seccomp_branch env nested)"
    by (auto simp: keeps_def seccomp_branch_def return_op_def Let_def intro!: rest simp del: safe_pbind split: option.split sum.split)
  show "keeps (supervise env plan pid f)"
    by (auto simp: keeps_def supervise_def start_supervisor_def fail_op_def return_op_def with_rt_def Let_def
        intro!: rest simp del: safe_pbind split: option.split sum.split)
  show "keeps do_start"
    by (auto simp: keeps_def do_start_def fail_op_def return_op_def with_rt_def Let_def
        intro!: rest simp del: safe_pbind split: option.split sum.split)
qed

lemma keeps_create:
  fixes s :: "'h session"
  assumes "keeping s"
  shows "safe anything (\<lambda>_ c. \<forall>r s'. c = InParent r s' \<longrightarrow> keeping s') h (do_create env cmd capture s)"
proof -
  let ?Q = "\<lambda>_ c. \<forall>r s'. c = InParent r s' \<longrightarrow> keeping (s' :: 'h session)"
  have adopt: "keeping (with_rt g s)" if "keeping s" for g and s :: "'h session"
    using that by (simp add: with_rt_def)
  have finish: "keeps (\<lambda>s'. return_op () (with_rt (g (ss_sandbox s')) s'))" for g :: "sandbox \<Rightarrow> 'h runtime \<Rightarrow> 'h runtime"
    by (simp add: keeps_def return_op_def with_rt_def)
  have step: "safe anything Q h (pbind p f)" if "\<And>h' a. safe anything Q h' (f a)"
    for Q h and p :: "'x prog" and f :: "'x \<Rightarrow> 'y prog"
    unfolding safe_pbind by (rule safe_mono [OF safe_anything]) (use that in auto)
  have parent: "safe anything (\<lambda>_ (r, s'). keeping s') h (launch_parent env plan pid s)" if "keeping s"
    for h plan pid and s :: "'h session"
  proof -
    have done_ok: "safe anything (\<lambda>_ (r, s'). keeping s') h' (op_bind (supervise env plan pid f)
        (\<lambda>_ s'. return_op () (with_rt (finish_create plan pfd (ss_sandbox s')) s')) (with_rt g s))" for h' f pfd g
      by (rule keepsD [OF keeps_bind [OF keeps_steps(5) finish] adopt [OF that]])
    show ?thesis
      unfolding launch_parent_def Let_def
      by (auto simp: fail_op_def adopt [OF that] done_ok intro!: step simp del: safe_pbind split: sum.split)
  qed
  have both: "safe anything ?Q h (pbind (launch_parent env plan pid s) (\<lambda>(r, s'). Done (InParent r s')))"
    "safe anything ?Q h (pbind q (\<lambda>e. Done (InChild e)))" if "keeping s" for h plan pid s and q :: "child_end prog"
    unfolding safe_pbind by (rule safe_mono [OF parent [OF that]], auto)
  have fork: "safe anything ?Q h (fork_child env cmd plan s)" if "keeping s" for h plan s
    unfolding fork_child_def
    by (intro step) (use that in \<open>auto intro!: both simp del: safe_pbind split: sum.split option.split\<close>)
  have "keeps (prepare_launch env cmd capture)"
    unfolding prepare_launch_def check_launch_def plan_launch_def
    by (intro keeps_bind keeps_steps keeps_lift)
  then show ?thesis
    unfolding do_create_def safe_pbind
    by (intro safe_mono [OF keepsD [OF _ assms]]) (use fork in \<open>auto split: prod.split sum.split\<close>)
qed

lemma keeps_run:
  fixes s :: "'h session"
  assumes "keeping s"
  shows "safe anything (\<lambda>_ e. \<forall>r s'. e = RunParent r s' \<longrightarrow> keeping s') h (run_sandbox env k cmd capture s)"
proof -
  let ?C = "\<lambda>_ c. \<forall>r s'. c = InParent r s' \<longrightarrow> keeping (s' :: 'h session)"
  have start: "safe anything ?C h' (in_parent do_start s')" if "keeping s'" for h' s'
    unfolding in_parent_def safe_pbind by (rule safe_mono [OF keepsD [OF keeps_steps(6) that]]) auto
  have created: "safe anything ?C h (create_bind (do_create env cmd capture s) (in_parent do_start))"
    unfolding create_bind_def safe_pbind
    by (rule safe_mono [OF keeps_create [OF assms]]) (auto intro: start split: creation.split sum.split)
  have waited: "safe anything (\<lambda>_ w. \<forall>r s''. w = Some (r, s'') \<longrightarrow> keeping s'') h' (wait_session n s')" if "keeping s'"
    for h' n and s' :: "'h session"
  proof -
    have "safe anything (\<lambda>_ (r, s''). keeping s'') h'' (finish_wait es s')" for h'' es
      using that unfolding finish_wait_def read_taken_def read_fd_to_end_def with_rt_def take_cow_def abort_tasks_def
      by (auto split: option.split)
    then have "safe anything (\<lambda>_ a. \<forall>r s''. a = (r, s'') \<longrightarrow> keeping s'') h'' (finish_wait es s')" for h'' es
      by (rule safe_mono) auto
    then show ?thesis
      unfolding wait_session_def by (auto simp: that split: option.split RuntimeState.split)
  qed
  show ?thesis
    unfolding run_sandbox_def safe_pbind
    by (rule safe_mono [OF created])
      (auto intro!: safe_mono [OF waited] split: creation.split sum.split option.split)
qed

text \<open>A dry run and, in the parent, the drop of its sandbox.\<close>

definition dry_run_and_drop ::
  "launch_env \<Rightarrow> nat \<Rightarrow> string list \<Rightarrow> bool \<Rightarrow> walk_item list \<Rightarrow> string list \<Rightarrow> 'h session
     \<Rightarrow> ('h run_end \<times> (ChangeKind \<times> string) list) prog" where
  "dry_run_and_drop env k cmd capture walk order s = pbind (dry_run env k cmd capture walk order s) (\<lambda>(e, cs). case e of
     RunChild c \<Rightarrow> Done (e, cs)
   | RunParent r s' \<Rightarrow> pbind (drop_session walk order s') (\<lambda>_. Done (e, cs)))"

lemma changes_unmerging: "unmerging (collect_changes walk order s)"
proof -
  have "unmerging (walk_changes c walk acc)" for c acc
    by (induction walk arbitrary: acc) (auto simp: fs_test_def intro!: only_pbind split: walk_item.split)
  moreover have "unmerging (overlay_walk_changes ob walk acc)" for ob acc
    by (induction walk arbitrary: acc)
      (auto simp: fs_test_def is_whiteout_def intro!: only_pbind split: walk_item.split sum.split)
  then have "unmerging (backend_changes walk b)" for b
    by (cases b) (simp_all add: overlay_changes_def)
  ultimately show ?thesis
    by (auto simp: collect_changes_def changes_def intro!: only_pbind split: option.split)
qed

lemma do_abort_keeps:
  "unmerging (do_abort s)" "safe anything (\<lambda>_ s'. ss_sandbox s' = ss_sandbox s) h (do_abort s)"
  unfolding do_abort_def
  by (auto intro!: only_pbind abort_unmerging split: option.split)
    (auto simp: with_rt_def intro!: safe_mono [OF safe_anything] split: option.split)

lemma drop_unmerging: "keeping s \<Longrightarrow> unmerging (drop_session walk order s)"
  by (auto simp: drop_session_def drop_action_def kill_live_def Let_def
      intro!: only_pbind settle_unmerging split: option.split RuntimeState.split)

text \<open>C20: A dry run writes nothing of its branch into the work directory: not in the child up to the command, not
  in the parent, and not when the sandbox is dropped afterwards, however the run ends.\<close>

theorem dry_run_writes_nothing:
  "nothing_merged (trace K (dry_run_and_drop env k cmd capture walk order s))"
proof -
  let ?K = "\<lambda>_ (e, cs). \<forall>r s'. e = RunParent r s' \<longrightarrow> keeping s'"
  have only_dry: "unmerging (dry_run env k cmd capture walk order s)"
    unfolding dry_run_def
    by (auto intro!: only_pbind run_unmerging changes_unmerging do_abort_keeps split: run_end.split option.split sum.split)
  have aborted: "safe anything (\<lambda>h' _. safe anything (\<lambda>_ s''. keeping s'') h' (do_abort s')) h (collect_changes walk order s')"
    if "keeping s'" for h s'
    by (rule safe_mono [OF safe_anything], rule safe_mono [OF do_abort_keeps(2)]) (use that in auto)
  have "safe anything ?K [] (dry_run env k cmd capture walk order s)"
    unfolding dry_run_def safe_pbind
    by (rule safe_mono [OF keeps_run]) (auto simp: keep_branch_def intro!: aborted split: run_end.split option.split sum.split)
  then have "safe anything (\<lambda>h _. calm merges [] h) [] (dry_run_and_drop env k cmd capture walk order s)"
    unfolding dry_run_and_drop_def safe_pbind
  proof (rule safe_both [OF only_dry])
    fix h and ec :: "'a run_end \<times> (ChangeKind \<times> string) list"
    assume h: "calm (\<lambda>r. \<not> \<not> merges r) [] h" and kept: "?K h ec"
    have "unmerging (case ec of (e, cs) \<Rightarrow> case e of RunChild c \<Rightarrow> Done (e, cs)
        | RunParent r s' \<Rightarrow> pbind (drop_session walk order s') (\<lambda>_. Done (e, cs)))"
      using kept by (auto intro!: only_pbind drop_unmerging split: run_end.split prod.split)
    then show "safe anything (\<lambda>h _. calm merges [] h) h (case ec of (e, cs) \<Rightarrow> case e of RunChild c \<Rightarrow> Done (e, cs)
        | RunParent r s' \<Rightarrow> pbind (drop_session walk order s') (\<lambda>_. Done (e, cs)))"
      by (rule safe_only) (use calm_trans [OF h] in auto)
  qed simp
  from safe_result [OF this] show ?thesis
    by (auto simp: nothing_merged_def calm_def list_all_iff)
qed

end
