(* ===== verification/Spec2Isabelle.thy ===== *)
theory Spec2Isabelle
  imports Context NetHandlers Resource Freeze Tracking Dispatch PolicyFn Paths PathDenial Events Notification Netlink
    TimeRandom CowIsolation CowCommit CowView Procfs Vdso ChrootGaps Profile DryRun
begin

text \<open>
  A verification library for sandlock, a Linux process sandbox in Rust. All paths below are relative to
  \<open>crates/sandlock-core/src\<close>; the model is the x86-64 build.

  THE PROGRAM. A sandbox is a configuration, made by a builder (\<open>sandbox.rs\<close>) or read from a profile
  (\<open>profile.rs\<close>). To run a command the parent makes pipes and a copy-on-write branch, forks, and keeps the
  runtime of the child until it has been waited for or dropped (\<open>sandbox.rs\<close>). The child gives up new
  privileges, confines itself with Landlock (\<open>landlock.rs\<close>), installs a seccomp filter assembled from the
  configuration (\<open>context.rs\<close>, \<open>seccomp/bpf.rs\<close>), waits for its parent and executes the command. The filter refuses some system calls, allows most,
  and sends the rest as notifications to a supervisor in the parent (\<open>seccomp/notif.rs\<close>). The
  supervisor treats one notification at a time: it registers the caller in the process index
  (\<open>seccomp/state.rs\<close>), checks denied paths, runs the chain of handlers its dispatch table holds for
  the call (\<open>seccomp/dispatch.rs\<close>), freezes the sandbox around an \<open>execve\<close> (\<open>freeze.rs\<close>), asks a policy
  callback (\<open>policy_fn.rs\<close>), traces a fork-like call (\<open>resource.rs\<close>), and answers. Handlers perform network
  calls on behalf of the child (\<open>network.rs\<close>, \<open>port_remap.rs\<close>), keep resource accounts (\<open>resource.rs\<close>),
  stand in for netlink (\<open>netlink\<close>), for \<open>/proc\<close> files and listings (\<open>procfs.rs\<close>), for clocks and randomness (\<open>time.rs\<close>, \<open>random.rs\<close>), and redirect
  file-system calls below a chroot (\<open>chroot\<close>) or to a copy-on-write branch that is committed or dropped
  at the end (\<open>cow\<close>).

  THE MODEL OF A RUN. Handlers talk to the kernel and to the child's memory, and the child runs meanwhile.
  A handler is a value of type \<open>prog\<close> (\<open>Supervisor\<close>): it ends, or makes one request and goes on with the
  answer. A kernel is any function of the history; a property holds for all of them. \<open>safe P Q\<close> is the
  reasoning principle (every request satisfies \<open>P\<close> of the history, the end satisfies \<open>Q\<close>), \<open>only R\<close>
  bounds the requests a program makes, \<open>run\<close>, \<open>result\<close> and \<open>trace\<close> execute it, \<open>stateless\<close> and \<open>eval\<close>
  are for kernels that answer by the request alone. Errors are values of sum types, a panic is a result
  (\<open>outcome\<close> in \<open>Events\<close>), and waiting uses fuel, with the theorem that enough fuel exists.

  THE THEORIES, in the order of their imports.
  \<^item> \<open>Prelude\<close>: type names, words and byte order, sorting without duplicates, results and the fallible
    loops the components share. \<open>Strings\<close>: UTF-8 and the parts of \<open>str\<close> the code uses. \<open>Arch\<close>: system
    call numbers, constants and structures (\<open>arch.rs\<close>, \<open>sys/structs.rs\<close>).
  \<^item> \<open>Http\<close> (\<open>http.rs\<close>): rules, path normalisation, the access decision. \<open>IpText\<close>: addresses as text.
    \<open>NetRules\<close> (\<open>network.rs\<close>): the rule grammar and socket addresses. \<open>Config\<close> (\<open>sandbox.rs\<close>): sizes, the
    configuration and its validation.
  \<^item> \<open>Bpf\<close> (\<open>seccomp/bpf.rs\<close>) and \<open>Context\<close> (\<open>context.rs\<close>): a machine for filter programs, the assembler, the
    lists of a configuration and what the installed filter decides. The locale \<open>cbpf\<close> states what is
    used of the kernel's filter machine; it is interpreted on the machine of \<open>Bpf\<close>.
  \<^item> \<open>NetPolicy\<close> (\<open>network.rs\<close>, \<open>seccomp/notif.rs\<close>, \<open>seccomp/state.rs\<close>): from rules to allowlists to the
    policy in force for a process. \<open>Supervisor\<close> (\<open>seccomp/notif.rs\<close>): requests, programs, actions,
    responses and the operations every handler uses. \<open>PortRemap\<close> (\<open>port_remap.rs\<close>): the port table
    (locale \<open>port_table\<close>), \<open>bind\<close> and \<open>getsockname\<close>. \<open>NetHandlers\<close> (\<open>network.rs\<close>): \<open>connect\<close>, \<open>sendto\<close>,
    \<open>sendmsg\<close>, \<open>sendmmsg\<close>.
  \<^item> \<open>ProcIndex\<close> (\<open>seccomp/state.rs\<close>): the process index (locale \<open>pid_registry\<close>). \<open>Resource\<close>
    (\<open>resource.rs\<close>): process and memory accounts; the step relation over all events and its invariant.
    \<open>Freeze\<close> (\<open>freeze.rs\<close>) and \<open>Tracking\<close> (\<open>resource.rs\<close>): the two users of \<open>ptrace\<close>; \<open>held\<close> reads off a
    history which tasks are attached.
  \<^item> \<open>Dispatch\<close> (\<open>seccomp/dispatch.rs\<close>, \<open>seccomp/syscall.rs\<close>): the table, and its agreement with the filter.
    \<open>PolicyFn\<close> (\<open>policy_fn.rs\<close>): the callback's operations and the specification they refine. \<open>Paths\<close>
    (\<open>chroot/resolve.rs\<close>, \<open>seccomp/notif.rs\<close>): lexical path functions over a model of \<open>std::path\<close>.
    \<open>PathDenial\<close> and \<open>Events\<close> (\<open>seccomp/notif.rs\<close>): the denied-path check, and what the callback is shown.
  \<^item> \<open>Notification\<close> (\<open>seccomp/notif.rs\<close>): one notification from receipt to release. The locales
    \<open>notification_handler\<close> and \<open>supervised\<close> state what is asked of the handlers; they are interpreted on
    the modelled handlers and on the table built from them.
  \<^item> \<open>Netlink\<close> (\<open>netlink\<close>): the wire format and its reader, the synthesised answers, the responder loop, the
    set of virtual sockets (locale \<open>cookie_registry\<close>) and the handlers. \<open>TimeRandom\<close> (\<open>time.rs\<close>,
    \<open>random.rs\<close>): deadlines of timers, the seeded stream of random bytes.
  \<^item> \<open>CowBranch\<close> (\<open>cow/seccomp.rs\<close>): the branch, its operations as programs of file-system requests, and
    that each stays inside the storage directory. \<open>Dirents\<close> (\<open>procfs.rs\<close>): directory entries and their
    reader. \<open>CowHandlers\<close> and \<open>CowQueries\<close> (\<open>cow/dispatch.rs\<close>): the handlers that open and write, and
    those that look. \<open>CowIsolation\<close>, \<open>CowCommit\<close>, \<open>CowView\<close>: the properties of the layer.
  \<^item> \<open>Procfs\<close> (\<open>procfs.rs\<close>): the contents of the \<open>/proc\<close> files, what \<open>openat\<close> refuses, the host name, the
    processor mask, and the sorted or filtered listings.
  \<^item> \<open>Vdso\<close> (\<open>vdso.rs\<close>): finding and patching the vDSO, and the stubs executed on a small x86 machine.
    \<open>Landlock\<close> (\<open>landlock.rs\<close>): the ruleset of a policy; \<open>landlock\<close> reads off a history what the kernel
    enforces. \<open>Builder\<close> (\<open>sandbox.rs\<close>, \<open>lib.rs\<close>): the builder, \<open>build\<close>, the conversion to an in-place
    confinement and its application. \<open>Profile\<close> (\<open>profile.rs\<close>): from a profile to a policy.
  \<^item> \<open>ChildSetup\<close> (\<open>context.rs\<close>): the child from fork to exec, a sequence of steps each of which may end it.
    \<open>Branches\<close> (\<open>cow/overlayfs.rs\<close>, \<open>cow/branchfs.rs\<close>): the two kernel backends. \<open>Lifecycle\<close>
    (\<open>sandbox.rs\<close>, \<open>result.rs\<close>): the runtime of a sandbox, signals, waiting, settling the branch, dropping.
    \<open>Launch\<close> (\<open>sandbox.rs\<close>, \<open>context.rs\<close>, \<open>process.rs\<close>): creation in both processes, start, run, dry run.
    \<open>DryRun\<close>: that a dry run merges nothing.
  \<^item> \<open>ChrootPaths\<close> (\<open>chroot/dispatch.rs\<close>, \<open>chroot/resolve.rs\<close>): the policy on virtual paths, mounts, and
    resolution below the root. \<open>ChrootHandlers\<close> and \<open>ChrootQueries\<close> (\<open>chroot/dispatch.rs\<close>): the handlers
    that open, execute and change, those that look, and their table. \<open>ChrootAccess\<close>: what they keep to.
    \<open>ChrootGaps\<close>: where they do less.

  WHAT THE PROPERTIES SHOW. The filter decides exactly as configured and every enforcement point is
  reachable through it; rules mean what their grammar says and survive printing; the policy in force is
  the set of rules, and nothing is sent or connected that it does not permit; the accounts stay within
  their limits, the index is swept exactly; freezing and tracking leave nothing attached, and arguments
  are shown, and an \<open>execve\<close> continued, only while the sandbox stands still; the callback's restrictions
  are final; netlink replies read back as what they stand for and every request is answered; the
  calls that change files stay, by their paths, in the storage directory, a commit removes it only
  after copying; what is refused below \<open>/proc\<close>, and listings, are stated exactly; the
  chroot handlers open below the root and its mounts only and change only what the policy permits. The
  command runs only confined as the policy says, the ruleset allows exactly the ports and files of the
  policy, and a created sandbox is supervised; a profile means what the builder means; the clock stub
  shifts what it should; the branch of a failed run is discarded, a dry run lists what a commit changes
  and changes nothing, and a dropped child is reaped first. Lemmas named after a weakness, most of them in \<open>ChrootGaps\<close>,
  \<open>CowView\<close>, \<open>Lifecycle\<close> and \<open>Launch\<close>, show where the code does less than it means to.

  BOUNDS AND FUEL. The filter theorems hold up to 24 numbers of caller-supplied handlers, beyond which
  the length of the program wraps a jump offset (\<open>wrapped_arch_check\<close>). A string read from the child takes
  at most one round per byte, so its length is enough fuel. Waits for a tracer stop take one round per
  interruption, a tracing session one round per entry stop (\<open>tracking_session_ends\<close>). A directory tree
  is measured to the depth of \<open>PATH_MAX\<close>, beyond which the kernel takes no path. The netlink responder
  is a number of turns, and its property holds for every number.

  PARAMETERS. Name resolution and the file system are functions or answers of the kernel; the order of a
  hash set is an argument, as are the generator of random bytes, the rendering of floating-point numbers, the function \<open>diff_paths\<close> of \<open>pathdiff\<close>
  (used under \<open>diff_law\<close>, which an executable instance satisfies) and the entries \<open>walkdir\<close> yields; handlers that are not modelled are an argument under the contract
  \<open>supervised\<close>. To a handler, patching the vDSO and the thread of the policy callback are single requests.
  What other crates do when a sandbox is created (name resolution, the proxy, the start of the task, the
  clock) is the record \<open>launch_env\<close>; the TOML reader, time stamps and ELF symbols are arguments.

  NOT MODELLED. The loop that receives notifications; the HTTP proxy, checkpoints, the template process
  of \<open>fork\<close>, pipelines and images, which are mostly calls of other crates and commands; the aarch64 variants;
  the C interface and the command line, which convert arguments.
\<close>

end
